(* ===== verification/Prelude.thy ===== *)
theory Prelude
  imports Complex_Main "HOL-Library.Sublist"
begin

text \<open>
  Shared vocabulary of the development: Python exceptions as values, the result type of
  a coroutine, the combinators that mirror \<open>try\<close>, \<open>finally\<close>, \<open>contextlib.suppress\<close> and
  \<open>await\<close>, and the proof rules about them that the component theories use.

  A coroutine over a state \<open>'s\<close> is a function \<open>'s \<Rightarrow> ((exn + 'a) \<times> 's) option\<close>: \<open>None\<close> when
  it never returns, otherwise the exception or the value it ends with and the state it
  leaves.  Everything that happens while it is suspended (other tasks, user callbacks,
  the operating system, cancellation) is one application of an environment function,
  which may change the state arbitrarily and may make the \<open>await\<close> raise.
\<close>

named_theorems keeps_rules \<open>invariant preservation of coroutine combinators and operations\<close>
named_theorems raises_rules \<open>which exceptions coroutine combinators and operations raise\<close>
named_theorems prog_simps \<open>equations of the coroutine combinators\<close>

section \<open>Exceptions\<close>

text \<open>The exception classes the library raises, catches or tests for.\<close>

datatype exc_class =
    ValueError | TypeError | RuntimeError | OverflowError
  | OSError | BlockingIOError | InterruptedError | ConnectionError | TimeoutError
  | InvalidNetworkConfigurationError | HeartbeatConfigurationError | ConnectionClosedError
  | UdpSenderStoppedError | UdpInvalidTargetError
  | HandlerCancelledError
  | OtherException string
  | CancelledError
  | OtherBaseException string

text \<open>An exception object: its class and its message.\<close>

datatype exn = Exn (exn_class: exc_class) (exn_msg: string)

abbreviation cancelled :: exn where
  "cancelled \<equiv> Exn CancelledError ''''"

text \<open>\<open>except Exception\<close>: CancelledError derives from BaseException only.\<close>

definition is_Exception :: "exn \<Rightarrow> bool" where
  "is_Exception e = (case exn_class e of
     CancelledError \<Rightarrow> False | OtherBaseException _ \<Rightarrow> False | _ \<Rightarrow> True)"

text \<open>\<open>except OSError\<close>, with the subclasses that the source distinguishes.\<close>

definition is_OSError :: "exn \<Rightarrow> bool" where
  "is_OSError e = (exn_class e \<in> {OSError, BlockingIOError, InterruptedError, ConnectionError,
     TimeoutError})"

text \<open>\<open>except (BlockingIOError, InterruptedError)\<close>.\<close>

definition is_would_block :: "exn \<Rightarrow> bool" where
  "is_would_block e = (exn_class e \<in> {BlockingIOError, InterruptedError})"

definition is_cancelled :: "exn \<Rightarrow> bool" where
  "is_cancelled e = (exn_class e = CancelledError)"

text \<open>\<open>except (Exception, asyncio.CancelledError)\<close>.\<close>

definition is_caught :: "exn \<Rightarrow> bool" where
  "is_caught e = (is_Exception e \<or> is_cancelled e)"

lemma is_cancelled_not_Exception [simp]: "is_cancelled e \<Longrightarrow> \<not> is_Exception e"
  by (simp add: is_cancelled_def is_Exception_def)

lemma is_would_block_OSError: "is_would_block e \<Longrightarrow> is_OSError e"
  by (auto simp: is_would_block_def is_OSError_def)

lemma is_OSError_Exception: "is_OSError e \<Longrightarrow> is_Exception e"
  by (auto simp: is_OSError_def is_Exception_def)

section \<open>Coroutines\<close>

type_synonym ('s, 'a) prog = "'s \<Rightarrow> ((exn + 'a) \<times> 's) option"

definition ret :: "'a \<Rightarrow> ('s, 'a) prog" where
  "ret a s = Some (Inr a, s)"

definition raiseE :: "exn \<Rightarrow> ('s, 'a) prog" where
  "raiseE e s = Some (Inl e, s)"

definition bindE :: "('s, 'a) prog \<Rightarrow> ('a \<Rightarrow> ('s, 'b) prog) \<Rightarrow> ('s, 'b) prog" where
  "bindE m f s = (case m s of
     None \<Rightarrow> None
   | Some (r, s') \<Rightarrow> (case r of Inl e \<Rightarrow> Some (Inl e, s') | Inr a \<Rightarrow> f a s'))"

definition seqE :: "('s, unit) prog \<Rightarrow> ('s, 'b) prog \<Rightarrow> ('s, 'b) prog" where
  "seqE m n = bindE m (\<lambda>_. n)"

definition getsE :: "('s \<Rightarrow> 'a) \<Rightarrow> ('s, 'a) prog" where
  "getsE f s = Some (Inr (f s), s)"

definition modifyE :: "('s \<Rightarrow> 's) \<Rightarrow> ('s, unit) prog" where
  "modifyE f s = Some (Inr (), f s)"

text \<open>\<open>try: m except ... as e: h e\<close>; the handler re-raises what it does not catch.\<close>

definition tryE :: "('s, 'a) prog \<Rightarrow> (exn \<Rightarrow> ('s, 'a) prog) \<Rightarrow> ('s, 'a) prog" where
  "tryE m h s = (case m s of
     None \<Rightarrow> None
   | Some (r, s') \<Rightarrow> (case r of Inl e \<Rightarrow> h e s' | Inr a \<Rightarrow> Some (Inr a, s')))"

text \<open>\<open>try: m finally: fin\<close>: an exception of \<open>fin\<close> replaces the outcome of \<open>m\<close>.\<close>

definition finallyE :: "('s, 'a) prog \<Rightarrow> ('s, unit) prog \<Rightarrow> ('s, 'a) prog" where
  "finallyE m fin s = (case m s of
     None \<Rightarrow> None
   | Some (r, s') \<Rightarrow> (case fin s' of
       None \<Rightarrow> None
     | Some (r', s'') \<Rightarrow> (case r' of Inl e \<Rightarrow> Some (Inl e, s'') | Inr _ \<Rightarrow> Some (r, s''))))"

definition whenE :: "bool \<Rightarrow> ('s, unit) prog \<Rightarrow> ('s, unit) prog" where
  "whenE b m = (if b then m else ret ())"

text \<open>\<open>with contextlib.suppress(Exception, asyncio.CancelledError): m\<close>.\<close>

definition suppress_all :: "('s, unit) prog \<Rightarrow> ('s, unit) prog" where
  "suppress_all m = tryE m (\<lambda>e. if is_caught e then ret () else raiseE e)"

text \<open>\<open>with contextlib.suppress(Exception): m\<close>.\<close>

definition suppress_Exception :: "('s, unit) prog \<Rightarrow> ('s, unit) prog" where
  "suppress_Exception m = tryE m (\<lambda>e. if is_Exception e then ret () else raiseE e)"

text \<open>
  The recurring idiom of the stop paths: run a step, and when it raises an exception that
  \<open>except (Exception, asyncio.CancelledError)\<close> catches, remember it unless an earlier
  error is already remembered.
\<close>

definition keep_first :: "exn option \<Rightarrow> ('s, unit) prog \<Rightarrow> ('s, exn option) prog" where
  "keep_first first_error m =
     tryE (bindE m (\<lambda>_. ret first_error))
       (\<lambda>e. if is_caught e
             then ret (case first_error of None \<Rightarrow> Some e | Some e0 \<Rightarrow> Some e0)
             else raiseE e)"

definition raise_if :: "exn option \<Rightarrow> ('s, unit) prog" where
  "raise_if eo = (case eo of None \<Rightarrow> ret () | Some e \<Rightarrow> raiseE e)"

text \<open>Code that never awaits, as a coroutine: a result, and a function of the state.\<close>

definition liftR :: "exn + 'a \<Rightarrow> ('s, 'a) prog" where
  "liftR r s = Some (r, s)"

definition stateE :: "('s \<Rightarrow> 'a \<times> 's) \<Rightarrow> ('s, 'a) prog" where
  "stateE f s = (case f s of (a, s') \<Rightarrow> Some (Inr a, s'))"

text \<open>An \<open>await\<close> whose completion is up to the environment.\<close>

definition awaitE :: "('p \<Rightarrow> 's \<Rightarrow> exn option \<times> 's) \<Rightarrow> 'p \<Rightarrow> ('s, unit) prog" where
  "awaitE env p s = (case env p s of
     (None, s') \<Rightarrow> Some (Inr (), s') | (Some e, s') \<Rightarrow> Some (Inl e, s'))"

lemmas prog_defs = ret_def raiseE_def bindE_def seqE_def getsE_def modifyE_def tryE_def
  finallyE_def whenE_def suppress_all_def suppress_Exception_def keep_first_def raise_if_def

lemma prog_eqs [prog_simps, simp]:
  "bindE (ret a) f = f a"
  "bindE (raiseE e) f = raiseE e"
  "seqE (ret ()) n = n"
  "seqE (raiseE e) n = raiseE e"
  "tryE (ret a) h = ret a"
  "tryE (raiseE e) h = h e"
  "whenE True m = m"
  "whenE False m = ret ()"
  by (simp_all add: prog_defs fun_eq_iff)

lemma bindE_assoc: "bindE (bindE m f) g = bindE m (\<lambda>a. bindE (f a) g)"
  by (auto simp: bindE_def fun_eq_iff split: option.splits sum.splits)

section \<open>Invariant preservation and total correctness\<close>

text \<open>\<open>keeps I m\<close>: whatever way \<open>m\<close> ends, a state satisfying \<open>I\<close> is left in \<open>I\<close>.\<close>

definition keeps :: "('s \<Rightarrow> bool) \<Rightarrow> ('s, 'a) prog \<Rightarrow> bool" where
  "keeps I m \<longleftrightarrow> (\<forall>s r s'. I s \<longrightarrow> m s = Some (r, s') \<longrightarrow> I s')"

text \<open>The environment keeps \<open>I\<close>: the rely condition of the invariant theorems.\<close>

definition env_keeps :: "('s \<Rightarrow> bool) \<Rightarrow> ('p \<Rightarrow> 's \<Rightarrow> exn option \<times> 's) \<Rightarrow> bool" where
  "env_keeps I env \<longleftrightarrow> (\<forall>p s. I s \<longrightarrow> I (snd (env p s)))"

lemma keepsI: "(\<And>s r s'. I s \<Longrightarrow> m s = Some (r, s') \<Longrightarrow> I s') \<Longrightarrow> keeps I m"
  by (auto simp: keeps_def)

lemma keepsD: "keeps I m \<Longrightarrow> I s \<Longrightarrow> m s = Some (r, s') \<Longrightarrow> I s'"
  by (auto simp: keeps_def)

lemma keeps_ret [keeps_rules]: "keeps I (ret a)"
  by (auto simp: keeps_def ret_def)

lemma keeps_raiseE [keeps_rules]: "keeps I (raiseE e)"
  by (auto simp: keeps_def raiseE_def)

lemma keeps_bindE [keeps_rules]:
  assumes "keeps I m" and "\<And>a. keeps I (f a)"
  shows "keeps I (bindE m f)"
  by (rule keepsI) (auto simp: bindE_def split: option.splits prod.splits sum.splits
      dest: keepsD [OF assms(1)] keepsD [OF assms(2)])

lemma keeps_seqE [keeps_rules]: "keeps I m \<Longrightarrow> keeps I n \<Longrightarrow> keeps I (seqE m n)"
  by (simp add: seqE_def keeps_bindE)

lemma keeps_getsE [keeps_rules]: "keeps I (getsE f)"
  by (auto simp: keeps_def getsE_def)

lemma keeps_modifyE [keeps_rules]: "(\<And>s. I s \<Longrightarrow> I (f s)) \<Longrightarrow> keeps I (modifyE f)"
  by (auto simp: keeps_def modifyE_def)

lemma keeps_tryE [keeps_rules]:
  assumes "keeps I m" and "\<And>e. keeps I (h e)"
  shows "keeps I (tryE m h)"
  by (rule keepsI) (auto simp: tryE_def split: option.splits prod.splits sum.splits
      dest: keepsD [OF assms(1)] keepsD [OF assms(2)])

lemma keeps_finallyE [keeps_rules]:
  assumes "keeps I m" and "keeps I fin"
  shows "keeps I (finallyE m fin)"
  by (rule keepsI) (auto simp: finallyE_def split: option.splits prod.splits sum.splits
      dest: keepsD [OF assms(1)] keepsD [OF assms(2)])

lemma keeps_whenE [keeps_rules]: "keeps I m \<Longrightarrow> keeps I (whenE b m)"
  by (simp add: whenE_def keeps_ret)

lemma keeps_if [keeps_rules]:
  "(b \<Longrightarrow> keeps I m) \<Longrightarrow> (\<not> b \<Longrightarrow> keeps I n) \<Longrightarrow> keeps I (if b then m else n)"
  by simp

lemma keeps_suppress_all [keeps_rules]: "keeps I m \<Longrightarrow> keeps I (suppress_all m)"
  by (simp add: suppress_all_def keeps_tryE keeps_ret keeps_raiseE)

lemma keeps_suppress_Exception [keeps_rules]: "keeps I m \<Longrightarrow> keeps I (suppress_Exception m)"
  by (simp add: suppress_Exception_def keeps_tryE keeps_ret keeps_raiseE)

lemma keeps_keep_first [keeps_rules]: "keeps I m \<Longrightarrow> keeps I (keep_first fe m)"
  by (simp add: keep_first_def keeps_tryE keeps_bindE keeps_ret keeps_raiseE)

lemma keeps_liftR [keeps_rules]: "keeps I (liftR r)"
  by (auto simp: keeps_def liftR_def)

lemma keeps_raise_if [keeps_rules]: "keeps I (raise_if eo)"
  by (simp add: raise_if_def keeps_ret keeps_raiseE split: option.splits)

lemma keeps_awaitE [keeps_rules]: "env_keeps I env \<Longrightarrow> keeps I (awaitE env p)"
  unfolding env_keeps_def
  by (rule keepsI) (auto simp: awaitE_def split: prod.splits option.splits, (metis snd_conv)+)

text \<open>\<open>raises Q m\<close>: every exception \<open>m\<close> ends with satisfies \<open>Q\<close>.\<close>

definition raises :: "(exn \<Rightarrow> bool) \<Rightarrow> ('s, 'a) prog \<Rightarrow> bool" where
  "raises Q m \<longleftrightarrow> (\<forall>s e s'. m s = Some (Inl e, s') \<longrightarrow> Q e)"

lemma raisesI: "(\<And>s e s'. m s = Some (Inl e, s') \<Longrightarrow> Q e) \<Longrightarrow> raises Q m"
  by (auto simp: raises_def)

lemma raisesD: "raises Q m \<Longrightarrow> m s = Some (Inl e, s') \<Longrightarrow> Q e"
  by (auto simp: raises_def)

lemma raises_ret [raises_rules]: "raises Q (ret a)"
  by (simp add: raises_def ret_def)

lemma raises_raiseE [raises_rules]: "Q e \<Longrightarrow> raises Q (raiseE e)"
  by (simp add: raises_def raiseE_def)

lemma raises_getsE [raises_rules]: "raises Q (getsE f)"
  by (simp add: raises_def getsE_def)

lemma raises_modifyE [raises_rules]: "raises Q (modifyE f)"
  by (simp add: raises_def modifyE_def)

lemma raises_bindE [raises_rules]:
  "raises Q m \<Longrightarrow> (\<And>a. raises Q (f a)) \<Longrightarrow> raises Q (bindE m f)"
  by (auto simp: raises_def bindE_def split: option.splits sum.splits)

lemma raises_seqE [raises_rules]: "raises Q m \<Longrightarrow> raises Q n \<Longrightarrow> raises Q (seqE m n)"
  by (simp add: seqE_def raises_bindE)

lemma raises_tryE:
  assumes "raises R m" and "\<And>e. R e \<Longrightarrow> raises Q (h e)"
  shows "raises Q (tryE m h)"
proof (rule raisesI)
  fix s e s'
  assume "tryE m h s = Some (Inl e, s')"
  then obtain e0 s1 where "m s = Some (Inl e0, s1)" "h e0 s1 = Some (Inl e, s')"
    by (auto simp: tryE_def split: option.splits sum.splits)
  then show "Q e" using assms unfolding raises_def by blast
qed

lemma raises_any: "raises (\<lambda>_. True) m"
  by (simp add: raises_def)

lemmas raises_tryE_any [raises_rules] = raises_tryE [OF raises_any]

lemma raises_finallyE [raises_rules]:
  assumes "raises Q m" and "raises Q fin"
  shows "raises Q (finallyE m fin)"
proof (rule raisesI)
  fix s e s'
  assume "finallyE m fin s = Some (Inl e, s')"
  then obtain r s1 where "m s = Some (r, s1)"
    "fin s1 = Some (Inl e, s') \<or> r = Inl e"
    by (auto simp: finallyE_def split: option.splits sum.splits)
  then show "Q e" using assms unfolding raises_def by blast
qed

lemma raises_if [raises_rules]:
  "(b \<Longrightarrow> raises Q m) \<Longrightarrow> (\<not> b \<Longrightarrow> raises Q n) \<Longrightarrow> raises Q (if b then m else n)"
  by simp

lemma raises_suppress_all [raises_rules]:
  "(\<And>e. \<not> is_caught e \<Longrightarrow> Q e) \<Longrightarrow> raises Q (suppress_all m)"
  by (auto simp: suppress_all_def intro!: raises_rules)

lemma raises_suppress_Exception [raises_rules]:
  "(\<And>e. \<not> is_Exception e \<Longrightarrow> Q e) \<Longrightarrow> raises Q (suppress_Exception m)"
  by (auto simp: suppress_Exception_def intro!: raises_rules)

lemma raises_awaitE: "(\<And>s e s'. env p s = (Some e, s') \<Longrightarrow> Q e) \<Longrightarrow> raises Q (awaitE env p)"
  by (auto simp: raises_def awaitE_def split: prod.splits option.splits)

text \<open>\<open>grows f k m\<close>: running \<open>m\<close> raises the measure \<open>f\<close> by at most \<open>k\<close>.\<close>

definition grows :: "('s \<Rightarrow> nat) \<Rightarrow> nat \<Rightarrow> ('s, 'a) prog \<Rightarrow> bool" where
  "grows f k m \<longleftrightarrow> (\<forall>s r s'. m s = Some (r, s') \<longrightarrow> f s' \<le> f s + k)"

lemma growsI: "(\<And>s r s'. m s = Some (r, s') \<Longrightarrow> f s' \<le> f s + k) \<Longrightarrow> grows f k m"
  by (auto simp: grows_def)

lemma growsD: "grows f k m \<Longrightarrow> m s = Some (r, s') \<Longrightarrow> f s' \<le> f s + k"
  by (auto simp: grows_def)

lemma grows_mono: "grows f j m \<Longrightarrow> j \<le> k \<Longrightarrow> grows f k m"
  unfolding grows_def by (meson add_left_mono order_trans)

lemma grows_ret: "grows f 0 (ret a)"
  by (simp add: grows_def ret_def)

lemma grows_raiseE: "grows f 0 (raiseE e)"
  by (simp add: grows_def raiseE_def)

lemma grows_getsE: "grows f 0 (getsE g)"
  by (simp add: grows_def getsE_def)

lemma grows_modifyE: "(\<And>s. f (g s) \<le> f s + k) \<Longrightarrow> grows f k (modifyE g)"
  by (simp add: grows_def modifyE_def)

lemma grows_bindE:
  assumes "grows f j m" and "\<And>a. grows f k (n a)"
  shows "grows f (j + k) (bindE m n)"
proof (rule growsI)
  fix s r s'
  assume "bindE m n s = Some (r, s')"
  then obtain x s1 where m: "m s = Some (x, s1)"
    and n: "(case x of Inl e \<Rightarrow> Some (Inl e, s1) | Inr a \<Rightarrow> n a s1) = Some (r, s')"
    by (auto simp: bindE_def split: option.splits)
  show "f s' \<le> f s + (j + k)"
    using n growsD [OF assms(1) m] growsD [OF assms(2), of _ s1 r s']
    by (cases x) fastforce+
qed

lemma grows_seqE: "grows f j m \<Longrightarrow> grows f k n \<Longrightarrow> grows f (j + k) (seqE m n)"
  by (simp add: seqE_def grows_bindE)

lemma grows_tryE:
  assumes "grows f j m" and "\<And>e. grows f k (h e)"
  shows "grows f (j + k) (tryE m h)"
proof (rule growsI)
  fix s r s'
  assume "tryE m h s = Some (r, s')"
  then obtain x s1 where m: "m s = Some (x, s1)"
    and n: "(case x of Inl e \<Rightarrow> h e s1 | Inr a \<Rightarrow> Some (Inr a, s1)) = Some (r, s')"
    by (auto simp: tryE_def split: option.splits)
  show "f s' \<le> f s + (j + k)"
    using n growsD [OF assms(1) m] growsD [OF assms(2), of _ s1 r s']
    by (cases x) fastforce+
qed

lemma grows_finallyE:
  assumes "grows f j m" and "grows f k fin"
  shows "grows f (j + k) (finallyE m fin)"
proof (rule growsI)
  fix s r s'
  assume "finallyE m fin s = Some (r, s')"
  then obtain x s1 y where m: "m s = Some (x, s1)" and "fin s1 = Some (y, s')"
    by (auto simp: finallyE_def split: option.splits sum.splits)
  then show "f s' \<le> f s + (j + k)"
    using growsD [OF assms(1) m] growsD [OF assms(2), of s1 y s'] by simp
qed

lemma grows_if:
  "(b \<Longrightarrow> grows f k m) \<Longrightarrow> (\<not> b \<Longrightarrow> grows f k n) \<Longrightarrow> grows f k (if b then m else n)"
  by simp

lemma grows_awaitE: "(\<And>s. f (snd (env p s)) \<le> f s) \<Longrightarrow> grows f 0 (awaitE env p)"
  by (rule growsI) (auto simp: awaitE_def split: prod.splits option.splits, (metis snd_conv)+)

lemma grows_keeps: "(\<And>n. keeps (\<lambda>s. f s \<le> n) m) \<Longrightarrow> grows f 0 m"
  by (rule growsI) (fastforce dest: keepsD)

section \<open>Weakest preconditions\<close>

text \<open>
  \<open>wp t m Q E s\<close>: from \<open>s\<close>, \<open>m\<close> ends with a value and a state satisfying \<open>Q\<close> or with an
  exception and a state satisfying \<open>E\<close>.  With \<open>t = False\<close> it must return; with \<open>t = True\<close> a
  run that never returns is accepted too.  The combinators are equations of \<open>wp\<close>, so that
  straight-line coroutines are unfolded by the simplifier.
\<close>

definition wp ::
    "bool \<Rightarrow> ('s, 'a) prog \<Rightarrow> ('a \<Rightarrow> 's \<Rightarrow> bool) \<Rightarrow> (exn \<Rightarrow> 's \<Rightarrow> bool) \<Rightarrow> 's \<Rightarrow> bool" where
  "wp t m Q E s = (case m s of
     None \<Rightarrow> t | Some (r, s') \<Rightarrow> (case r of Inl e \<Rightarrow> E e s' | Inr a \<Rightarrow> Q a s'))"

named_theorems wp_simps \<open>the combinators as equations of wp\<close>

lemma wp_ret [wp_simps]: "wp t (ret a) Q E s = Q a s"
  by (simp add: wp_def prog_defs)

lemma wp_raiseE [wp_simps]: "wp t (raiseE e) Q E s = E e s"
  by (simp add: wp_def prog_defs)

lemma wp_getsE [wp_simps]: "wp t (getsE f) Q E s = Q (f s) s"
  by (simp add: wp_def prog_defs)

lemma wp_modifyE [wp_simps]: "wp t (modifyE g) Q E s = Q () (g s)"
  by (simp add: wp_def prog_defs)

lemma wp_liftR [wp_simps]: "wp t (liftR r) Q E s = (case r of Inl e \<Rightarrow> E e s | Inr a \<Rightarrow> Q a s)"
  by (simp add: wp_def liftR_def)

lemma wp_stateE [wp_simps]: "wp t (stateE f) Q E s = (case f s of (a, s') \<Rightarrow> Q a s')"
  by (simp add: wp_def stateE_def split: prod.split)

lemma wp_bindE [wp_simps]: "wp t (bindE m f) Q E s = wp t m (\<lambda>a. wp t (f a) Q E) E s"
  by (auto simp: wp_def bindE_def split: option.splits sum.splits)

lemma wp_seqE [wp_simps]: "wp t (seqE m n) Q E s = wp t m (\<lambda>_. wp t n Q E) E s"
  by (simp add: seqE_def wp_bindE)

lemma wp_tryE [wp_simps]: "wp t (tryE m h) Q E s = wp t m Q (\<lambda>e. wp t (h e) Q E) s"
  by (auto simp: wp_def tryE_def split: option.splits sum.splits)

lemma wp_finallyE [wp_simps]:
  "wp t (finallyE m fin) Q E s =
     wp t m (\<lambda>a. wp t fin (\<lambda>_. Q a) E) (\<lambda>e. wp t fin (\<lambda>_. E e) E) s"
  by (auto simp: wp_def finallyE_def split: option.splits sum.splits)

lemma wp_whenE [wp_simps]: "wp t (whenE b m) Q E s = (if b then wp t m Q E s else Q () s)"
  by (simp add: whenE_def wp_ret)

lemma wp_if [wp_simps]: "wp t (if b then m else n) Q E s = (if b then wp t m Q E s else wp t n Q E s)"
  by simp

lemma wp_suppress_all [wp_simps]:
  "wp t (suppress_all m) Q E s = wp t m Q (\<lambda>e s'. if is_caught e then Q () s' else E e s') s"
  by (simp add: wp_def prog_defs split: option.split sum.split)

lemma wp_suppress_Exception [wp_simps]:
  "wp t (suppress_Exception m) Q E s = wp t m Q (\<lambda>e s'. if is_Exception e then Q () s' else E e s') s"
  by (simp add: wp_def prog_defs split: option.split sum.split)

lemma wp_keep_first [wp_simps]:
  "wp t (keep_first fe m) Q E s = wp t m (\<lambda>_. Q fe)
     (\<lambda>e s'. if is_caught e then Q (case fe of None \<Rightarrow> Some e | Some e0 \<Rightarrow> Some e0) s' else E e s') s"
  by (simp add: wp_def prog_defs split: option.split sum.split)

lemma wp_raise_if [wp_simps]:
  "wp t (raise_if eo) Q E s = (case eo of None \<Rightarrow> Q () s | Some e \<Rightarrow> E e s)"
  by (simp add: raise_if_def wp_ret wp_raiseE split: option.splits)

lemma wp_awaitE:
  "wp t (awaitE env p) Q E s = (case env p s of (None, s') \<Rightarrow> Q () s' | (Some e, s') \<Rightarrow> E e s')"
  by (auto simp: wp_def awaitE_def split: prod.splits option.splits)

lemma wp_mono:
  assumes "wp t m Q E s" and "\<And>a s'. Q a s' \<Longrightarrow> Q' a s'" and "\<And>e s'. E e s' \<Longrightarrow> E' e s'"
  shows "wp t m Q' E' s"
  using assms by (auto simp: wp_def split: option.splits sum.splits)

lemma wp_conj:
  "wp t m Q E s \<Longrightarrow> wp u m Q' E' s \<Longrightarrow>
     wp (t \<and> u) m (\<lambda>a s'. Q a s' \<and> Q' a s') (\<lambda>e s'. E e s' \<and> E' e s') s"
  by (auto simp: wp_def split: option.splits sum.splits)

text \<open>Preservation and exception facts as preconditions.\<close>

lemma wp_keeps: "keeps I m \<Longrightarrow> I s \<Longrightarrow> wp True m (\<lambda>_. I) (\<lambda>_. I) s"
  by (auto simp: wp_def keeps_def split: option.splits sum.splits)

lemma wp_invariantD: "wp t m (\<lambda>_. I) (\<lambda>_. I) s \<Longrightarrow> m s = Some (r, s') \<Longrightarrow> I s'"
  by (cases r) (simp_all add: wp_def)

lemma wp_if_intro: "(b \<Longrightarrow> wp t m Q E s) \<Longrightarrow> (\<not> b \<Longrightarrow> wp t n Q E s) \<Longrightarrow> wp t (if b then m else n) Q E s"
  by simp

lemma wp_update_keeps:
  "I (g s) \<Longrightarrow> keeps I n \<Longrightarrow> wp True (seqE (modifyE g) n) (\<lambda>_. I) (\<lambda>_. I) s"
  by (simp add: wp_seqE wp_modifyE wp_keeps)

lemma wp_raises: "raises P m \<Longrightarrow> wp True m (\<lambda>_ _. True) (\<lambda>e _. P e) s"
  by (auto simp: wp_def raises_def split: option.splits sum.splits)

lemma wp_total: "m s \<noteq> None \<Longrightarrow> wp True m Q E s \<Longrightarrow> wp t m Q E s"
  by (auto simp: wp_def split: option.splits)

lemma wp_SomeD:
  "wp t m Q E s \<Longrightarrow> m s = Some (r, s') \<Longrightarrow> (case r of Inl e \<Rightarrow> E e s' | Inr a \<Rightarrow> Q a s')"
  by (simp add: wp_def)

lemma wp_returns: "wp False m Q E s \<Longrightarrow> \<exists>r s'. m s = Some (r, s')"
  by (cases "m s") (auto simp: wp_def)

lemma wp_ret_fun: "wp t (ret a) Q E = Q a"
  by (rule ext) (rule wp_ret)

lemma wp_valueD:
  assumes "wp False m Q (\<lambda>_ _. False) s"
  shows "\<exists>a s'. m s = Some (Inr a, s') \<and> Q a s'"
proof -
  obtain r s' where "m s = Some (r, s')" using wp_returns [OF assms] by blast
  then show ?thesis using assms by (cases r) (auto simp: wp_def)
qed

lemma keep_first_None:
  "keep_first None m s = Some (r, s') \<Longrightarrow> r = Inr None \<Longrightarrow> \<exists>u. m s = Some (Inr u, s')"
  by (auto simp: keep_first_def prog_defs split: option.splits sum.splits if_splits prod.splits)

lemma keep_first_Some:
  "keep_first (Some e0) m s = Some (Inr x, s') \<Longrightarrow> x = Some e0"
  by (auto simp: keep_first_def prog_defs split: option.splits sum.splits if_splits prod.splits)

section \<open>Loops\<close>

text \<open>
  \<open>while True: ...\<close> with its local variables as \<open>b\<close>: a pass of the body goes on with new values
  or leaves the loop with a result.  A loop that never leaves is None.
\<close>

datatype ('b, 'a) turn = Again 'b | Leave 'a

partial_function (option) loopE ::
    "('b \<Rightarrow> ('s, ('b, 'a) turn) prog) \<Rightarrow> 'b \<Rightarrow> 's \<Rightarrow> ((exn + 'a) \<times> 's) option" where
  "loopE body b s = Option.bind (body b s) (\<lambda>(r, s'). case r of
       Inl e \<Rightarrow> Some (Inl e, s')
     | Inr t \<Rightarrow> (case t of Leave a \<Rightarrow> Some (Inr a, s') | Again b' \<Rightarrow> loopE body b' s'))"

text \<open>
  Partial correctness of a loop: \<open>J\<close> holds at the head of every pass, and what a pass leaves
  with satisfies the postconditions.
\<close>

lemma loopE_wp:
  assumes "\<And>b s. J b s \<Longrightarrow>
      wp True (body b) (\<lambda>t s'. case t of Again b' \<Rightarrow> J b' s' | Leave a \<Rightarrow> Q a s') E s"
    and "J b s"
  shows "wp True (loopE body b) Q E s"
proof -
  have "body' = body \<longrightarrow> J b s \<longrightarrow> (case y of (r, s') \<Rightarrow> case r of Inl e \<Rightarrow> E e s' | Inr a \<Rightarrow> Q a s')"
    if "loopE body' b s = Some y" for body' b s y
    using that
  proof (rule loopE.raw_induct [rotated, where P = "\<lambda>body' b s y. body' = body \<longrightarrow> J b s \<longrightarrow>
        (case y of (r, s') \<Rightarrow> case r of Inl e \<Rightarrow> E e s' | Inr a \<Rightarrow> Q a s')"], intro impI)
    fix rec body' b s y
    assume IH: "\<And>body' b s y. rec body' b s = Some y \<Longrightarrow> body' = body \<longrightarrow> J b s \<longrightarrow>
        (case y of (r, s') \<Rightarrow> case r of Inl e \<Rightarrow> E e s' | Inr a \<Rightarrow> Q a s')"
      and run: "Option.bind (body' b s) (\<lambda>(r, s'). case r of
          Inl e \<Rightarrow> Some (Inl e, s')
        | Inr t \<Rightarrow> (case t of Leave a \<Rightarrow> Some (Inr a, s') | Again b' \<Rightarrow> rec body' b' s')) = Some y"
      and same: "body' = body" and J: "J b s"
    obtain r s' where b: "body b s = Some (r, s')" using run same by (auto simp: bind_eq_Some_conv)
    show "case y of (r, s') \<Rightarrow> case r of Inl e \<Rightarrow> E e s' | Inr a \<Rightarrow> Q a s'"
    proof (cases r)
      case (Inl e)
      then show ?thesis using run same wp_SomeD [OF assms(1) [OF J] b] by (auto simp: b)
    next
      case (Inr t)
      then show ?thesis
        using run same wp_SomeD [OF assms(1) [OF J] b] IH [of body _ s' y]
        by (cases t) (auto simp: b)
    qed
  qed
  then show ?thesis
    using assms(2) by (cases "loopE body b s") (auto simp: wp_def)
qed

lemma keeps_loopE [keeps_rules]: "(\<And>b. keeps I (body b)) \<Longrightarrow> keeps I (loopE body b)"
proof (rule keepsI)
  fix s r s'
  assume body: "\<And>b. keeps I (body b)" and s: "I s" and run: "loopE body b s = Some (r, s')"
  have "wp True (loopE body b) (\<lambda>_. I) (\<lambda>_. I) s"
  proof (rule loopE_wp [where J = "\<lambda>_. I", OF _ s])
    fix b s
    assume "I s"
    then show "wp True (body b) (\<lambda>t s'. case t of Again b' \<Rightarrow> I s' | Leave a \<Rightarrow> I s') (\<lambda>_. I) s"
      by (rule wp_mono [OF wp_keeps [OF body]]) (auto split: turn.split)
  qed
  then show "I s'" using run by (rule wp_invariantD)
qed

lemma raises_loopE [raises_rules]: "(\<And>b. raises Q (body b)) \<Longrightarrow> raises Q (loopE body b)"
proof (rule raisesI)
  fix s e s'
  assume body: "\<And>b. raises Q (body b)" and run: "loopE body b s = Some (Inl e, s')"
  have "wp True (loopE body b) (\<lambda>_ _. True) (\<lambda>e _. Q e) s"
    by (rule loopE_wp [where J = "\<lambda>_ _. True"])
      (auto intro: wp_mono [OF wp_raises [OF body]] split: turn.split)
  then show "Q e" using run by (auto dest: wp_SomeD)
qed

lemma loopE_step:
  "loopE body b s = (case body b s of
     None \<Rightarrow> None
   | Some (Inl e, s') \<Rightarrow> Some (Inl e, s')
   | Some (Inr (Leave a), s') \<Rightarrow> Some (Inr a, s')
   | Some (Inr (Again b'), s') \<Rightarrow> loopE body b' s')"
  by (subst loopE.simps) (auto split: option.split sum.split turn.split)

lemma wp_loopE_step:
  "wp t (body b) (\<lambda>u s'. case u of Leave a \<Rightarrow> Q a s' | Again b' \<Rightarrow> wp t (loopE body b') Q E s') E s \<Longrightarrow>
     wp t (loopE body b) Q E s"
  by (subst (asm) wp_def, subst wp_def, subst loopE_step)
    (auto simp: wp_def split: option.splits sum.splits turn.splits)

section \<open>Results of synchronous code\<close>

text \<open>
  Code that never awaits returns \<open>exn + 'a\<close>: the exception it raises or its value.
  \<open>first_error\<close> runs checks in order and stops at the first that raises.
\<close>

fun bindR :: "exn + 'a \<Rightarrow> ('a \<Rightarrow> exn + 'b) \<Rightarrow> exn + 'b" where
  "bindR (Inl e) f = Inl e"
| "bindR (Inr a) f = f a"

definition voidR :: "exn + 'a \<Rightarrow> exn + unit" where
  "voidR r = bindR r (\<lambda>_. Inr ())"

fun first_error :: "(exn + unit) list \<Rightarrow> exn + unit" where
  "first_error [] = Inr ()"
| "first_error (r # rs) = bindR r (\<lambda>_. first_error rs)"

lemma bindR_Inr: "bindR r f = Inr b \<longleftrightarrow> (\<exists>a. r = Inr a \<and> f a = Inr b)"
  by (cases r) auto

lemma bindR_Inl: "bindR r f = Inl e \<longleftrightarrow> r = Inl e \<or> (\<exists>a. r = Inr a \<and> f a = Inl e)"
  by (cases r) auto

lemma voidR_Inr [simp]: "voidR r = Inr u \<longleftrightarrow> (\<exists>a. r = Inr a)"
  by (cases r) (auto simp: voidR_def)

lemma voidR_Inl [simp]: "voidR r = Inl e \<longleftrightarrow> r = Inl e"
  by (cases r) (auto simp: voidR_def)

lemma first_error_Inr: "first_error rs = Inr u \<longleftrightarrow> (\<forall>r \<in> set rs. r = Inr ())"
  by (induction rs) (auto simp: bindR_Inr)

lemma first_error_Cons_Inr:
  "first_error (r # rs) = Inr () \<longleftrightarrow> r = Inr () \<and> first_error rs = Inr ()"
  by (cases r) auto

lemma first_error_Inl: "first_error rs = Inl e \<Longrightarrow> Inl e \<in> set rs"
  by (induction rs) (auto simp: bindR_Inl first_error.simps)

declare first_error.simps(2) [simp del]

section \<open>Decimal text\<close>

text \<open>Python's \<open>str(n)\<close> on ints, and the value of a string of decimal digits.\<close>

definition digit_char :: "nat \<Rightarrow> char" where
  "digit_char d = char_of (48 + d)"

definition is_digit :: "char \<Rightarrow> bool" where
  "is_digit c = (48 \<le> (of_char c :: nat) \<and> (of_char c :: nat) \<le> 57)"

fun show_nat :: "nat \<Rightarrow> string" where
  "show_nat n = (if n < 10 then [digit_char n] else show_nat (n div 10) @ [digit_char (n mod 10)])"

declare show_nat.simps [simp del]

definition show_int :: "int \<Rightarrow> string" where
  "show_int i = (if i < 0 then CHR ''-'' # show_nat (nat (- i)) else show_nat (nat i))"

definition read_nat :: "string \<Rightarrow> nat" where
  "read_nat s = foldl (\<lambda>a c. 10 * a + (of_char c - 48)) 0 s"

lemma of_char_digit: "d < 10 \<Longrightarrow> (of_char (digit_char d) :: nat) = 48 + d"
  by (simp add: digit_char_def)

lemma is_digit_digit_char: "d < 10 \<Longrightarrow> is_digit (digit_char d)"
  by (simp add: is_digit_def of_char_digit)

lemma digit_char_0: "digit_char 0 = CHR ''0''"
proof -
  have "(of_char (digit_char 0) :: nat) = of_char CHR ''0''" by (simp add: of_char_digit)
  then show ?thesis by (simp only: of_char_eq_iff)
qed

lemma show_nat_small: "n < 10 \<Longrightarrow> show_nat n = [digit_char n]"
  by (subst show_nat.simps) simp

lemma show_nat_0: "show_nat 0 = ''0''"
  by (simp add: show_nat_small digit_char_0)

lemma show_nat_digits: "list_all is_digit (show_nat n)"
proof (induction n rule: show_nat.induct)
  case (1 n)
  then show ?case
    by (subst show_nat.simps) (auto simp: is_digit_digit_char)
qed

lemma show_nat_nonempty [simp]: "show_nat n \<noteq> []"
  by (subst show_nat.simps) simp

lemma read_show_nat [simp]: "read_nat (show_nat n) = n"
proof (induction n rule: show_nat.induct)
  case (1 n)
  then show ?case
    by (subst show_nat.simps) (auto simp: read_nat_def of_char_digit)
qed

lemma show_nat_inject [simp]: "show_nat m = show_nat n \<longleftrightarrow> m = n"
  by (metis read_show_nat)

lemma show_nat_leading: "n \<noteq> 0 \<Longrightarrow> hd (show_nat n) \<noteq> digit_char 0"
proof (induction n rule: show_nat.induct)
  case (1 n)
  show ?case
  proof (cases "n < 10")
    case True
    with 1(2) have "(of_char (digit_char n) :: nat) \<noteq> of_char (digit_char 0)"
      by (simp add: of_char_digit)
    with True show ?thesis by (subst show_nat.simps) auto
  next
    case False
    with 1 have "hd (show_nat (n div 10)) \<noteq> digit_char 0" by auto
    with False show ?thesis by (subst show_nat.simps) (simp add: hd_append)
  qed
qed

lemma length_show_nat: "n < 10 ^ Suc k \<Longrightarrow> length (show_nat n) \<le> Suc k"
proof (induction k arbitrary: n)
  case 0
  then show ?case by (subst show_nat.simps) simp
next
  case (Suc k)
  then have "n div 10 < 10 ^ Suc k" by (simp add: div_less_iff_less_mult mult.commute)
  then have "length (show_nat (n div 10)) \<le> Suc k" by (rule Suc.IH)
  then show ?case by (subst show_nat.simps) simp
qed

lemma digit_not_sep:
  assumes "is_digit c"
  shows "c \<noteq> CHR ''/''" "c \<noteq> CHR ''.''" "c \<noteq> CHR ''-''" "c \<noteq> CHR '':''"
  using assms by (auto simp: is_digit_def)

lemma show_nat_no_sep:
  "CHR ''/'' \<notin> set (show_nat n)" "CHR ''.'' \<notin> set (show_nat n)" "CHR ''-'' \<notin> set (show_nat n)"
proof -
  have d: "is_digit c" if "c \<in> set (show_nat n)" for c
    using show_nat_digits [of n] that by (simp only: list_all_iff)
  show "CHR ''/'' \<notin> set (show_nat n)" "CHR ''.'' \<notin> set (show_nat n)"
    "CHR ''-'' \<notin> set (show_nat n)"
    by (blast dest: d digit_not_sep)+
qed

lemma show_int_no_slash: "CHR ''/'' \<notin> set (show_int i)"
  by (simp add: show_int_def show_nat_no_sep)

lemma show_nat_hd: "hd (show_nat n) \<noteq> CHR ''-''"
  using show_nat_no_sep(3) [of n] show_nat_nonempty [of n] by (metis hd_in_set)

lemma show_nat_not_minus: "show_nat n \<noteq> CHR ''-'' # s"
  using show_nat_hd [of n] by auto

lemma show_int_inject [simp]: "show_int i = show_int j \<longleftrightarrow> i = j"
  using show_nat_not_minus [of "nat i"] show_nat_not_minus [of "nat j"]
  by (auto simp: show_int_def dest: sym)

text \<open>\<open>s.split(d)\<close> for a one-character separator.\<close>

fun split_on :: "char \<Rightarrow> string \<Rightarrow> string list" where
  "split_on d [] = [[]]"
| "split_on d (c # cs) =
     (if c = d then [] # split_on d cs
      else (case split_on d cs of [] \<Rightarrow> [[c]] | w # ws \<Rightarrow> (c # w) # ws))"

lemma split_on_nonempty [simp]: "split_on d s \<noteq> []"
  by (cases s) (auto split: list.splits)

lemma split_on_no_sep: "d \<notin> set w \<Longrightarrow> split_on d w = [w]"
  by (induction w) auto

lemma split_on_append: "d \<notin> set w \<Longrightarrow> split_on d (w @ d # s) = w # split_on d s"
  by (induction w) auto

section \<open>Lists and maps\<close>

text \<open>Python's \<open>del xs[i]\<close> for an index in range.\<close>

definition del_at :: "nat \<Rightarrow> 'a list \<Rightarrow> 'a list" where
  "del_at i xs = take i xs @ drop (Suc i) xs"

text \<open>\<open>next((i for i, x in enumerate(xs) if P x), None)\<close>.\<close>

fun find_index :: "('a \<Rightarrow> bool) \<Rightarrow> 'a list \<Rightarrow> nat option" where
  "find_index P [] = None"
| "find_index P (x # xs) = (if P x then Some 0 else map_option Suc (find_index P xs))"

lemma find_index_None: "find_index P xs = None \<longleftrightarrow> (\<forall>x \<in> set xs. \<not> P x)"
  by (induction xs) auto

lemma find_index_Some:
  "find_index P xs = Some i \<Longrightarrow> i < length xs \<and> P (xs ! i) \<and> (\<forall>j < i. \<not> P (xs ! j))"
proof (induction xs arbitrary: i)
  case Nil
  then show ?case by simp
next
  case (Cons x xs)
  show ?case
  proof (cases "P x")
    case True
    with Cons.prems show ?thesis by simp
  next
    case False
    with Cons.prems obtain k where k: "find_index P xs = Some k" "i = Suc k" by auto
    from Cons.IH [OF k(1)] k(2) False show ?thesis
      by (auto simp: less_Suc_eq_0_disj)
  qed
qed

lemma length_del_at: "i < length xs \<Longrightarrow> length (del_at i xs) = length xs - 1"
  by (simp add: del_at_def)

lemma del_at_split: "i < length xs \<Longrightarrow> xs = take i xs @ xs ! i # drop (Suc i) xs"
  by (simp add: id_take_nth_drop)

lemma subseq_del_at: "subseq (del_at i xs) xs"
proof (cases "i < length xs")
  case True
  have "subseq (take i xs @ drop (Suc i) xs) (take i xs @ xs ! i # drop (Suc i) xs)"
    by (intro list_emb_append_mono subseq_order.order_refl list_emb_Cons)
  then show ?thesis using del_at_split [OF True] by (simp add: del_at_def)
next
  case False
  then show ?thesis by (simp add: del_at_def)
qed

lemma mset_del_at: "i < length xs \<Longrightarrow> set xs = insert (xs ! i) (set (del_at i xs))"
proof -
  assume i: "i < length xs"
  have "set xs = set (take i xs @ xs ! i # drop (Suc i) xs)"
    using del_at_split [OF i] by simp
  then show ?thesis by (simp add: del_at_def)
qed

end
