(* ===== verification/Validation.thy ===== *)
theory Validation
  imports Prelude
begin

text \<open>
  Models \<^verbatim>\<open>api/_validation.py\<close>, the argument checks behind every public settings
  class, together with the enumerations of the API whose members those checks see
  (\<^verbatim>\<open>event_delivery_settings.py\<close>, \<^verbatim>\<open>reconnect_jitter.py\<close>, \<^verbatim>\<open>error_policy.py\<close>).

  A Python value is a \<open>pyval\<close>.  Floats are rationals plus the three special values; what
  is not modelled of them is the rounding of arithmetic, but the conversion of an
  unbounded int by \<open>float()\<close> is: round to 53 bits, ties to even, OverflowError from
  \<open>2 ^ 1024\<close> on.  A str is a list of the code points below 256.  An exception carries its
  class and the field it is about; the rest of its message is not modelled.
\<close>

section \<open>Enumerations\<close>

datatype event_dispatch_mode = INLINE | BACKGROUND

datatype event_backpressure_policy = BLOCK | DROP_OLDEST | DROP_NEWEST

datatype event_handler_failure_policy =
    LOG_ONLY | EMIT_ERROR_EVENT | STOP_COMPONENT | RAISE_IN_INLINE_MODE

datatype reconnect_jitter = JITTER_NONE | JITTER_FULL | JITTER_EQUAL

datatype error_policy = RETRY | FAIL_FAST | IGNORE

datatype enum_member =
    EDispatch event_dispatch_mode
  | EBackpressure event_backpressure_policy
  | EFailure event_handler_failure_policy
  | EJitter reconnect_jitter
  | EErrorPolicy error_policy

datatype enum_type =
    EventDispatchMode | EventBackpressurePolicy | EventHandlerFailurePolicy
  | ReconnectJitter | ErrorPolicy

fun enum_type_of :: "enum_member \<Rightarrow> enum_type" where
  "enum_type_of (EDispatch _) = EventDispatchMode"
| "enum_type_of (EBackpressure _) = EventBackpressurePolicy"
| "enum_type_of (EFailure _) = EventHandlerFailurePolicy"
| "enum_type_of (EJitter _) = ReconnectJitter"
| "enum_type_of (EErrorPolicy _) = ErrorPolicy"

text \<open>The str value of a member: every enumeration derives from \<open>(str, Enum)\<close>.\<close>

fun dispatch_mode_value :: "event_dispatch_mode \<Rightarrow> string" where
  "dispatch_mode_value INLINE = ''inline''"
| "dispatch_mode_value BACKGROUND = ''background''"

fun backpressure_policy_value :: "event_backpressure_policy \<Rightarrow> string" where
  "backpressure_policy_value BLOCK = ''block''"
| "backpressure_policy_value DROP_OLDEST = ''drop_oldest''"
| "backpressure_policy_value DROP_NEWEST = ''drop_newest''"

fun failure_policy_value :: "event_handler_failure_policy \<Rightarrow> string" where
  "failure_policy_value LOG_ONLY = ''log_only''"
| "failure_policy_value EMIT_ERROR_EVENT = ''emit_error_event''"
| "failure_policy_value STOP_COMPONENT = ''stop_component''"
| "failure_policy_value RAISE_IN_INLINE_MODE = ''raise_in_inline_mode''"

fun jitter_value :: "reconnect_jitter \<Rightarrow> string" where
  "jitter_value JITTER_NONE = ''none''"
| "jitter_value JITTER_FULL = ''full''"
| "jitter_value JITTER_EQUAL = ''equal''"

fun error_policy_value :: "error_policy \<Rightarrow> string" where
  "error_policy_value RETRY = ''retry''"
| "error_policy_value FAIL_FAST = ''fail_fast''"
| "error_policy_value IGNORE = ''ignore''"

fun enum_value :: "enum_member \<Rightarrow> string" where
  "enum_value (EDispatch m) = dispatch_mode_value m"
| "enum_value (EBackpressure p) = backpressure_policy_value p"
| "enum_value (EFailure p) = failure_policy_value p"
| "enum_value (EJitter j) = jitter_value j"
| "enum_value (EErrorPolicy p) = error_policy_value p"

section \<open>Python values\<close>

datatype pyfloat = Finite rat | PosInf | NegInf | NaN

datatype pyval =
    PNone
  | PBool bool
  | PInt int
  | PFloat pyfloat
  | PStr string
  | PEnum enum_member
  | PBytes "nat list"
  | PByteArray "nat list"
  | PMemoryView "nat list"
  | PObject string

text \<open>\<open>isinstance(v, str)\<close> with the text: an enum member is a str too.\<close>

fun str_of :: "pyval \<Rightarrow> string option" where
  "str_of (PStr s) = Some s"
| "str_of (PEnum m) = Some (enum_value m)"
| "str_of _ = None"

text \<open>\<open>isinstance(v, (bytes, bytearray, memoryview))\<close> with the contents (\<open>bytes(v)\<close>).\<close>

fun bytes_of :: "pyval \<Rightarrow> nat list option" where
  "bytes_of (PBytes b) = Some b"
| "bytes_of (PByteArray b) = Some b"
| "bytes_of (PMemoryView b) = Some b"
| "bytes_of _ = None"

text \<open>\<open>str.isspace\<close> on one code point below 256, and \<open>not s.strip()\<close>.\<close>

definition is_space :: "char \<Rightarrow> bool" where
  "is_space c = (of_char c \<in> {9, 10, 11, 12, 13, 28, 29, 30, 31, 32, 133, 160 :: nat})"

definition is_blank :: "string \<Rightarrow> bool" where
  "is_blank s = list_all is_space s"

section \<open>Conversion of an int by float()\<close>

fun bit_length :: "nat \<Rightarrow> nat" where
  "bit_length n = (if n = 0 then 0 else Suc (bit_length (n div 2)))"

declare bit_length.simps [simp del]

text \<open>Round to 53 significant bits, ties to even.\<close>

definition round_half_even :: "nat \<Rightarrow> nat \<Rightarrow> nat" where
  "round_half_even n e =
     (let q = n div 2 ^ e; r = n mod 2 ^ e
      in if 2 * r > 2 ^ e \<or> (2 * r = 2 ^ e \<and> odd q) then Suc q else q)"

definition round_double :: "nat \<Rightarrow> nat" where
  "round_double n =
     (let b = bit_length n
      in if b \<le> 53 then n else round_half_even n (b - 53) * 2 ^ (b - 53))"

definition float_of_int :: "int \<Rightarrow> exn + pyfloat" where
  "float_of_int n =
     (let m = round_double (nat \<bar>n\<bar>)
      in if 2 ^ 1024 \<le> m then Inl (Exn OverflowError ''float'')
         else Inr (Finite (of_int (sgn n * int m))))"

text \<open>\<open>float(value)\<close> on the instances of \<open>numbers.Real\<close> that are not bool.\<close>

fun float_of :: "pyval \<Rightarrow> (exn + pyfloat) option" where
  "float_of (PInt n) = Some (float_of_int n)"
| "float_of (PFloat x) = Some (Inr x)"
| "float_of _ = None"

lemma bit_length_bounds: "0 < n \<Longrightarrow> 2 ^ (bit_length n - 1) \<le> n \<and> n < 2 ^ bit_length n"
proof (induction n rule: bit_length.induct)
  case (1 n)
  show ?case
  proof (cases "n div 2 = 0")
    case True
    with 1 have n: "n = 1" by auto
    have "bit_length (0::nat) = 0" by (subst bit_length.simps) simp
    then have "bit_length n = 1" using n by (subst bit_length.simps) simp
    then show ?thesis using n by simp
  next
    case False
    with 1 have IH: "2 ^ (bit_length (n div 2) - 1) \<le> n div 2" "n div 2 < 2 ^ bit_length (n div 2)"
      by auto
    have len: "bit_length n = Suc (bit_length (n div 2))"
      using 1 by (subst bit_length.simps) simp
    have pos: "0 < bit_length (n div 2)"
      using False by (subst bit_length.simps) simp
    have "(2::nat) ^ bit_length (n div 2) = 2 * 2 ^ (bit_length (n div 2) - 1)"
      using pos by (cases "bit_length (n div 2)") auto
    with IH(1) have "2 ^ (bit_length n - 1) \<le> n" using len by simp
    moreover have "n < 2 * 2 ^ bit_length (n div 2)" using IH(2) by linarith
    ultimately show ?thesis using len by simp
  qed
qed

lemma round_double_small: "n < 2 ^ 53 \<Longrightarrow> round_double n = n"
proof (cases "n = 0")
  case True
  then show ?thesis by (simp add: round_double_def bit_length.simps)
next
  case False
  assume n: "n < 2 ^ 53"
  have "2 ^ (bit_length n - 1) < (2::nat) ^ 53"
    using bit_length_bounds [of n] n False by linarith
  then have "bit_length n - 1 < 53" by (simp only: power_strict_increasing_iff)
  then have "bit_length n \<le> 53" by arith
  then show ?thesis by (simp add: round_double_def Let_def)
qed

lemma round_double_pos: "0 < n \<Longrightarrow> 0 < round_double n"
proof (cases "bit_length n \<le> 53")
  case True
  then show "0 < n \<Longrightarrow> 0 < round_double n" by (simp add: round_double_def)
next
  case False
  assume n: "0 < n"
  have "2 ^ (bit_length n - 53) \<le> (2::nat) ^ (bit_length n - 1)"
    by (rule power_increasing) simp_all
  then have "2 ^ (bit_length n - 53) \<le> n" using bit_length_bounds [OF n] by linarith
  then have "0 < n div 2 ^ (bit_length n - 53)" by (simp add: div_greater_zero_iff)
  with False show ?thesis by (simp add: round_double_def round_half_even_def Let_def)
qed

section \<open>The checks\<close>

definition require_bool :: "string \<Rightarrow> exc_class \<Rightarrow> pyval \<Rightarrow> exn + bool" where
  "require_bool field_name error_type value =
     (case value of PBool b \<Rightarrow> Inr b | _ \<Rightarrow> Inl (Exn error_type field_name))"

definition require_non_empty_str :: "string \<Rightarrow> exc_class \<Rightarrow> pyval \<Rightarrow> exn + string" where
  "require_non_empty_str field_name error_type value =
     (case str_of value of
        None \<Rightarrow> Inl (Exn error_type field_name)
      | Some s \<Rightarrow> if is_blank s then Inl (Exn error_type field_name) else Inr s)"

definition require_optional_non_empty_str ::
    "string \<Rightarrow> exc_class \<Rightarrow> pyval \<Rightarrow> exn + string option" where
  "require_optional_non_empty_str field_name error_type value =
     (if value = PNone then Inr None
      else bindR (require_non_empty_str field_name error_type value) (\<lambda>s. Inr (Some s)))"

definition require_int_range ::
    "string \<Rightarrow> int \<Rightarrow> int \<Rightarrow> exc_class \<Rightarrow> pyval \<Rightarrow> exn + int" where
  "require_int_range field_name min_value max_value error_type value =
     (case value of
        PInt n \<Rightarrow> if min_value \<le> n \<and> n \<le> max_value then Inr n
                   else Inl (Exn error_type field_name)
      | _ \<Rightarrow> Inl (Exn error_type field_name))"

definition require_positive_int :: "string \<Rightarrow> exc_class \<Rightarrow> pyval \<Rightarrow> exn + int" where
  "require_positive_int field_name error_type value =
     (case value of
        PInt n \<Rightarrow> if n \<le> 0 then Inl (Exn error_type field_name) else Inr n
      | _ \<Rightarrow> Inl (Exn error_type field_name))"

text \<open>\<open>float(value)\<close> is outside the check's own error handling: its OverflowError escapes.\<close>

definition require_positive_finite_number ::
    "string \<Rightarrow> exc_class \<Rightarrow> pyval \<Rightarrow> exn + rat" where
  "require_positive_finite_number field_name error_type value =
     (case float_of value of
        None \<Rightarrow> Inl (Exn error_type field_name)
      | Some r \<Rightarrow> bindR r (\<lambda>number. case number of
            Finite x \<Rightarrow> if x \<le> 0 then Inl (Exn error_type field_name) else Inr x
          | _ \<Rightarrow> Inl (Exn error_type field_name)))"

definition require_optional_positive_finite_number ::
    "string \<Rightarrow> exc_class \<Rightarrow> pyval \<Rightarrow> exn + rat option" where
  "require_optional_positive_finite_number field_name error_type value =
     (if value = PNone then Inr None
      else bindR (require_positive_finite_number field_name error_type value)
             (\<lambda>x. Inr (Some x)))"

definition require_finite_number_at_least ::
    "string \<Rightarrow> rat \<Rightarrow> exc_class \<Rightarrow> pyval \<Rightarrow> exn + rat" where
  "require_finite_number_at_least field_name minimum error_type value =
     (case float_of value of
        None \<Rightarrow> Inl (Exn error_type field_name)
      | Some r \<Rightarrow> bindR r (\<lambda>number. case number of
            Finite x \<Rightarrow> if x < minimum then Inl (Exn error_type field_name) else Inr x
          | _ \<Rightarrow> Inl (Exn error_type field_name)))"

definition require_enum_member ::
    "string \<Rightarrow> enum_type \<Rightarrow> exc_class \<Rightarrow> pyval \<Rightarrow> exn + enum_member" where
  "require_enum_member field_name enum_type error_type value =
     (case value of
        PEnum m \<Rightarrow> if enum_type_of m = enum_type then Inr m
                    else Inl (Exn error_type field_name)
      | _ \<Rightarrow> Inl (Exn error_type field_name))"

section \<open>What the checks accept\<close>

lemma require_bool_Inr [simp]: "require_bool f et v = Inr b \<longleftrightarrow> v = PBool b"
  by (auto simp: require_bool_def split: pyval.splits)

lemma require_non_empty_str_Inr [simp]:
  "require_non_empty_str f et v = Inr s \<longleftrightarrow> str_of v = Some s \<and> \<not> is_blank s"
  by (auto simp: require_non_empty_str_def split: option.splits if_splits)

lemma require_optional_non_empty_str_Inr [simp]:
  "require_optional_non_empty_str f et v = Inr so \<longleftrightarrow>
     (v = PNone \<and> so = None) \<or> (\<exists>s. so = Some s \<and> str_of v = Some s \<and> \<not> is_blank s)"
  by (auto simp: require_optional_non_empty_str_def bindR_Inr)

lemma require_int_range_Inr [simp]:
  "require_int_range f lo hi et v = Inr n \<longleftrightarrow> v = PInt n \<and> lo \<le> n \<and> n \<le> hi"
  by (auto simp: require_int_range_def split: pyval.splits if_splits)

lemma require_positive_int_Inr [simp]:
  "require_positive_int f et v = Inr n \<longleftrightarrow> v = PInt n \<and> 0 < n"
  by (auto simp: require_positive_int_def split: pyval.splits if_splits)

lemma require_positive_finite_number_Inr [simp]:
  "require_positive_finite_number f et v = Inr x \<longleftrightarrow> float_of v = Some (Inr (Finite x)) \<and> 0 < x"
  by (cases "float_of v"; cases "the (float_of v)"; cases "projr (the (float_of v))")
    (auto simp: require_positive_finite_number_def)

lemma require_optional_positive_finite_number_Inr [simp]:
  "require_optional_positive_finite_number f et v = Inr xo \<longleftrightarrow>
     (v = PNone \<and> xo = None) \<or>
     (\<exists>x. xo = Some x \<and> float_of v = Some (Inr (Finite x)) \<and> 0 < x)"
  by (auto simp: require_optional_positive_finite_number_def bindR_Inr)

lemma require_finite_number_at_least_Inr [simp]:
  "require_finite_number_at_least f lo et v = Inr x \<longleftrightarrow>
     float_of v = Some (Inr (Finite x)) \<and> lo \<le> x"
  by (cases "float_of v"; cases "the (float_of v)"; cases "projr (the (float_of v))")
    (auto simp: require_finite_number_at_least_def)

lemma require_enum_member_Inr [simp]:
  "require_enum_member f t et v = Inr m \<longleftrightarrow> v = PEnum m \<and> enum_type_of m = t"
  by (auto simp: require_enum_member_def split: pyval.splits if_splits)

section \<open>What they raise\<close>

lemma float_of_int_error: "float_of_int n = Inl e \<Longrightarrow> exn_class e = OverflowError"
  by (auto simp: float_of_int_def Let_def split: if_splits)

lemma float_of_error: "float_of v = Some (Inl e) \<Longrightarrow> exn_class e = OverflowError"
  by (cases v rule: float_of.cases) (auto dest: float_of_int_error)

lemma require_positive_finite_number_Inl:
  "require_positive_finite_number f et v = Inl e \<Longrightarrow>
     e = Exn et f \<or> (\<exists>n. v = PInt n \<and> float_of_int n = Inl e)"
  by (cases "float_of v"; cases "the (float_of v)"; cases "projr (the (float_of v))";
      cases v rule: float_of.cases)
    (auto simp: require_positive_finite_number_def split: if_splits)

lemma require_finite_number_at_least_Inl:
  "require_finite_number_at_least f lo et v = Inl e \<Longrightarrow>
     e = Exn et f \<or> (\<exists>n. v = PInt n \<and> float_of_int n = Inl e)"
  by (cases "float_of v"; cases "the (float_of v)"; cases "projr (the (float_of v))";
      cases v rule: float_of.cases)
    (auto simp: require_finite_number_at_least_def split: if_splits)

lemma float_of_int_pos: "float_of_int n = Inr (Finite x) \<Longrightarrow> 0 < x \<longleftrightarrow> 0 < n"
proof -
  assume a: "float_of_int n = Inr (Finite x)"
  then have x: "x = of_int (sgn n * int (round_double (nat \<bar>n\<bar>)))"
    by (auto simp: float_of_int_def Let_def split: if_splits)
  show ?thesis
  proof (cases "0 < n")
    case True
    then have "0 < round_double (nat \<bar>n\<bar>)" by (intro round_double_pos) simp
    with x True show ?thesis by simp
  next
    case False
    then have "sgn n * int (round_double (nat \<bar>n\<bar>)) \<le> 0"
      by (simp add: sgn_if)
    then have "x \<le> 0" using x by (metis of_int_le_0_iff)
    with False show ?thesis by simp
  qed
qed

lemma float_of_int_small: "\<bar>n\<bar> < 2 ^ 53 \<Longrightarrow> float_of_int n = Inr (Finite (of_int n))"
proof -
  assume n: "\<bar>n\<bar> < 2 ^ 53"
  then have m: "nat \<bar>n\<bar> < 2 ^ 53" by (simp add: nat_less_iff)
  have "round_double (nat \<bar>n\<bar>) = nat \<bar>n\<bar>" using m by (rule round_double_small)
  moreover have "(2::nat) ^ 53 < 2 ^ 1024" by (rule power_strict_increasing) simp_all
  with m have "nat \<bar>n\<bar> < 2 ^ 1024" by (rule less_trans)
  ultimately show ?thesis by (simp add: float_of_int_def Let_def sgn_mult_abs not_le)
qed

end
