(* ===== verification/Settings.thy ===== *)
theory Settings
  imports Validation
begin

text \<open>
  Models the public settings classes (\<^verbatim>\<open>api/event_delivery_settings.py\<close>,
  \<^verbatim>\<open>api/tcp_reconnect_settings.py\<close>, \<^verbatim>\<open>api/heartbeat.py\<close>, \<^verbatim>\<open>api/tcp_client.py\<close>,
  \<^verbatim>\<open>api/tcp_server.py\<close>, \<^verbatim>\<open>api/udp.py\<close>, \<^verbatim>\<open>api/multicast_receiver_settings.py\<close>): one record per
  dataclass, whose fields hold whatever Python value the caller passed, and one
  \<open>validate\<close> per class with the checks in the source's order.  The parser of
  \<open>ipaddress.IPv4Address\<close>, which the multicast settings use, is written out.
  The lemmas say what each validated object is known to hold.
\<close>

abbreviation config_error :: exc_class where
  "config_error \<equiv> InvalidNetworkConfigurationError"

text \<open>The truth value of \<open>if v\<close> / \<open>not v\<close>.\<close>

fun truthy :: "pyval \<Rightarrow> bool" where
  "truthy PNone = False"
| "truthy (PBool b) = b"
| "truthy (PInt n) = (n \<noteq> 0)"
| "truthy (PFloat x) = (x \<noteq> Finite 0)"
| "truthy (PStr s) = (s \<noteq> [])"
| "truthy (PEnum m) = (enum_value m \<noteq> [])"
| "truthy (PBytes b) = (b \<noteq> [])"
| "truthy (PByteArray b) = (b \<noteq> [])"
| "truthy (PMemoryView b) = (b \<noteq> [])"
| "truthy (PObject _) = True"

section \<open>Event delivery\<close>

record event_delivery_settings =
  ed_dispatch_mode :: pyval
  ed_backpressure_policy :: pyval
  ed_max_pending_events :: pyval
  ed_handler_failure_policy :: pyval

definition default_event_delivery :: event_delivery_settings where
  "default_event_delivery =
     \<lparr>ed_dispatch_mode = PEnum (EDispatch BACKGROUND),
      ed_backpressure_policy = PEnum (EBackpressure BLOCK),
      ed_max_pending_events = PInt 1024,
      ed_handler_failure_policy = PEnum (EFailure LOG_ONLY)\<rparr>"

definition event_delivery_validate :: "event_delivery_settings \<Rightarrow> exn + unit" where
  "event_delivery_validate s = first_error
     [voidR (require_positive_int ''max_pending_events'' config_error (ed_max_pending_events s)),
      voidR (require_enum_member ''dispatch_mode'' EventDispatchMode config_error
        (ed_dispatch_mode s)),
      voidR (require_enum_member ''backpressure_policy'' EventBackpressurePolicy config_error
        (ed_backpressure_policy s)),
      voidR (require_enum_member ''handler_failure_policy'' EventHandlerFailurePolicy config_error
        (ed_handler_failure_policy s))]"

section \<open>Reconnect\<close>

record tcp_reconnect_settings =
  rs_enabled :: pyval
  rs_initial_delay_seconds :: pyval
  rs_max_delay_seconds :: pyval
  rs_backoff_factor :: pyval
  rs_jitter :: pyval

definition default_reconnect :: tcp_reconnect_settings where
  "default_reconnect =
     \<lparr>rs_enabled = PBool False, rs_initial_delay_seconds = PFloat (Finite 1),
      rs_max_delay_seconds = PFloat (Finite 30), rs_backoff_factor = PFloat (Finite 2),
      rs_jitter = PEnum (EJitter JITTER_NONE)\<rparr>"

definition reconnect_validate :: "tcp_reconnect_settings \<Rightarrow> exn + unit" where
  "reconnect_validate s =
     bindR (require_bool ''enabled'' config_error (rs_enabled s)) (\<lambda>_.
     bindR (require_positive_finite_number ''initial_delay_seconds'' config_error
              (rs_initial_delay_seconds s)) (\<lambda>initial_delay_seconds.
     bindR (require_positive_finite_number ''max_delay_seconds'' config_error
              (rs_max_delay_seconds s)) (\<lambda>max_delay_seconds.
     if max_delay_seconds < initial_delay_seconds
     then Inl (Exn config_error ''max_delay_seconds'')
     else
     bindR (require_finite_number_at_least ''backoff_factor'' 1 config_error
              (rs_backoff_factor s)) (\<lambda>_.
     voidR (require_enum_member ''jitter'' ReconnectJitter config_error (rs_jitter s))))))"

section \<open>Heartbeat\<close>

record heartbeat_settings =
  hs_enabled :: pyval
  hs_interval_seconds :: pyval

definition default_heartbeat :: heartbeat_settings where
  "default_heartbeat = \<lparr>hs_enabled = PBool False, hs_interval_seconds = PFloat (Finite 1)\<rparr>"

definition heartbeat_validate :: "heartbeat_settings \<Rightarrow> exn + unit" where
  "heartbeat_validate s = first_error
     [voidR (require_bool ''enabled'' config_error (hs_enabled s)),
      voidR (require_positive_finite_number ''interval_seconds'' config_error
        (hs_interval_seconds s))]"

record heartbeat_result =
  hr_should_send :: pyval
  hr_payload :: pyval

text \<open>\<open>HeartbeatResult.__post_init__\<close>; it raises TypeError, not the configuration error.\<close>

definition heartbeat_result_init :: "pyval \<Rightarrow> pyval \<Rightarrow> exn + heartbeat_result" where
  "heartbeat_result_init should_send payload =
     bindR (require_bool ''should_send'' TypeError should_send) (\<lambda>_.
     if truthy should_send \<and> bytes_of payload = None
     then Inl (Exn TypeError ''payload'')
     else Inr \<lparr>hr_should_send = should_send, hr_payload = payload\<rparr>)"

section \<open>TCP client\<close>

record tcp_client_settings =
  cs_host :: pyval
  cs_port :: pyval
  cs_reconnect :: tcp_reconnect_settings
  cs_heartbeat :: heartbeat_settings
  cs_error_policy :: pyval
  cs_receive_buffer_size :: pyval
  cs_connect_timeout_seconds :: pyval
  cs_connection_send_timeout_seconds :: pyval
  cs_event_delivery :: event_delivery_settings

definition default_tcp_client :: "pyval \<Rightarrow> pyval \<Rightarrow> tcp_client_settings" where
  "default_tcp_client host port =
     \<lparr>cs_host = host, cs_port = port, cs_reconnect = default_reconnect,
      cs_heartbeat = default_heartbeat, cs_error_policy = PNone,
      cs_receive_buffer_size = PInt 4096, cs_connect_timeout_seconds = PNone,
      cs_connection_send_timeout_seconds = PFloat (Finite 30),
      cs_event_delivery = default_event_delivery\<rparr>"

definition tcp_client_validate :: "tcp_client_settings \<Rightarrow> exn + unit" where
  "tcp_client_validate s = first_error
     [voidR (require_non_empty_str ''host'' config_error (cs_host s)),
      voidR (require_int_range ''port'' 1 65535 config_error (cs_port s)),
      voidR (require_positive_int ''receive_buffer_size'' config_error (cs_receive_buffer_size s)),
      voidR (require_optional_positive_finite_number ''connect_timeout_seconds'' config_error
        (cs_connect_timeout_seconds s)),
      voidR (require_optional_positive_finite_number ''connection_send_timeout_seconds''
        config_error (cs_connection_send_timeout_seconds s)),
      (if cs_error_policy s \<noteq> PNone
       then voidR (require_enum_member ''error_policy'' ErrorPolicy config_error
              (cs_error_policy s))
       else Inr ()),
      (if cs_error_policy s = PEnum (EErrorPolicy RETRY) \<and> \<not> truthy (rs_enabled (cs_reconnect s))
       then Inl (Exn config_error ''error_policy'') else Inr ()),
      reconnect_validate (cs_reconnect s),
      heartbeat_validate (cs_heartbeat s),
      event_delivery_validate (cs_event_delivery s)]"

section \<open>TCP server\<close>

record tcp_server_settings =
  ss_host :: pyval
  ss_port :: pyval
  ss_max_connections :: pyval
  ss_connection_idle_timeout_seconds :: pyval
  ss_broadcast_concurrency_limit :: pyval
  ss_broadcast_send_timeout_seconds :: pyval
  ss_connection_send_timeout_seconds :: pyval
  ss_heartbeat :: heartbeat_settings
  ss_receive_buffer_size :: pyval
  ss_backlog :: pyval
  ss_event_delivery :: event_delivery_settings

definition default_tcp_server :: "pyval \<Rightarrow> pyval \<Rightarrow> pyval \<Rightarrow> tcp_server_settings" where
  "default_tcp_server host port max_connections =
     \<lparr>ss_host = host, ss_port = port, ss_max_connections = max_connections,
      ss_connection_idle_timeout_seconds = PNone,
      ss_broadcast_concurrency_limit = PInt 64,
      ss_broadcast_send_timeout_seconds = PNone,
      ss_connection_send_timeout_seconds = PFloat (Finite 30),
      ss_heartbeat = default_heartbeat, ss_receive_buffer_size = PInt 4096,
      ss_backlog = PInt 100, ss_event_delivery = default_event_delivery\<rparr>"

definition tcp_server_validate :: "tcp_server_settings \<Rightarrow> exn + unit" where
  "tcp_server_validate s = first_error
     [voidR (require_non_empty_str ''host'' config_error (ss_host s)),
      voidR (require_int_range ''port'' 1 65535 config_error (ss_port s)),
      voidR (require_positive_int ''max_connections'' config_error (ss_max_connections s)),
      voidR (require_optional_positive_finite_number ''connection_idle_timeout_seconds''
        config_error (ss_connection_idle_timeout_seconds s)),
      voidR (require_positive_int ''broadcast_concurrency_limit'' config_error
        (ss_broadcast_concurrency_limit s)),
      voidR (require_optional_positive_finite_number ''broadcast_send_timeout_seconds''
        config_error (ss_broadcast_send_timeout_seconds s)),
      voidR (require_optional_positive_finite_number ''connection_send_timeout_seconds''
        config_error (ss_connection_send_timeout_seconds s)),
      voidR (require_positive_int ''receive_buffer_size'' config_error (ss_receive_buffer_size s)),
      voidR (require_positive_int ''backlog'' config_error (ss_backlog s)),
      heartbeat_validate (ss_heartbeat s),
      event_delivery_validate (ss_event_delivery s)]"

section \<open>UDP sender and receiver\<close>

record udp_sender_settings =
  us_default_host :: pyval
  us_default_port :: pyval
  us_local_host :: pyval
  us_local_port :: pyval
  us_enable_broadcast :: pyval

definition default_udp_sender :: udp_sender_settings where
  "default_udp_sender =
     \<lparr>us_default_host = PNone, us_default_port = PNone, us_local_host = PStr ''0.0.0.0'',
      us_local_port = PInt 0, us_enable_broadcast = PBool False\<rparr>"

definition udp_sender_validate :: "udp_sender_settings \<Rightarrow> exn + unit" where
  "udp_sender_validate s = first_error
     [voidR (require_optional_non_empty_str ''default_host'' config_error (us_default_host s)),
      (if us_default_port s \<noteq> PNone
       then voidR (require_int_range ''default_port'' 1 65535 config_error (us_default_port s))
       else Inr ()),
      voidR (require_non_empty_str ''local_host'' config_error (us_local_host s)),
      voidR (require_int_range ''local_port'' 0 65535 config_error (us_local_port s)),
      voidR (require_bool ''enable_broadcast'' config_error (us_enable_broadcast s))]"

record udp_receiver_settings =
  ur_host :: pyval
  ur_port :: pyval
  ur_receive_buffer_size :: pyval
  ur_enable_broadcast :: pyval
  ur_event_delivery :: event_delivery_settings

definition udp_receiver_validate :: "udp_receiver_settings \<Rightarrow> exn + unit" where
  "udp_receiver_validate s = first_error
     [voidR (require_non_empty_str ''host'' config_error (ur_host s)),
      voidR (require_int_range ''port'' 1 65535 config_error (ur_port s)),
      voidR (require_positive_int ''receive_buffer_size'' config_error (ur_receive_buffer_size s)),
      voidR (require_bool ''enable_broadcast'' config_error (ur_enable_broadcast s)),
      event_delivery_validate (ur_event_delivery s)]"

section \<open>Multicast receiver\<close>

text \<open>\<open>ipaddress.IPv4Address(text)\<close>: the four octets, or None where it raises ValueError.\<close>

definition parse_octet :: "string \<Rightarrow> nat option" where
  "parse_octet t =
     (if t = [] then None
      else if \<not> list_all is_digit t then None
      else if length t > 3 then None
      else if t \<noteq> ''0'' \<and> hd t = CHR ''0'' then None
      else if read_nat t > 255 then None
      else Some (read_nat t))"

definition parse_ipv4 :: "string \<Rightarrow> nat list option" where
  "parse_ipv4 t =
     (let octets = split_on CHR ''.'' t
      in if CHR ''/'' \<in> set t then None
         else if t = [] then None
         else if length octets \<noteq> 4 then None
         else if \<exists>w \<in> set octets. parse_octet w = None then None
         else Some (map (the \<circ> parse_octet) octets))"

text \<open>\<open>is_multicast\<close>: membership of 224.0.0.0/4.\<close>

definition is_multicast :: "nat list \<Rightarrow> bool" where
  "is_multicast octets = (224 \<le> hd octets \<and> hd octets < 240)"

definition validate_ipv4_address :: "string \<Rightarrow> pyval \<Rightarrow> exn + nat list" where
  "validate_ipv4_address field_name value =
     (case str_of value of
        None \<Rightarrow> Inl (Exn config_error field_name)
      | Some t \<Rightarrow> (case parse_ipv4 t of
          None \<Rightarrow> Inl (Exn config_error field_name)
        | Some octets \<Rightarrow> Inr octets))"

record multicast_receiver_settings =
  ms_group_ip :: pyval
  ms_port :: pyval
  ms_bind_ip :: pyval
  ms_interface_ip :: pyval
  ms_receive_buffer_size :: pyval
  ms_event_delivery :: event_delivery_settings

definition multicast_receiver_validate :: "multicast_receiver_settings \<Rightarrow> exn + unit" where
  "multicast_receiver_validate s =
     bindR (first_error
       [voidR (require_non_empty_str ''group_ip'' config_error (ms_group_ip s)),
        voidR (require_int_range ''port'' 1 65535 config_error (ms_port s)),
        voidR (require_non_empty_str ''bind_ip'' config_error (ms_bind_ip s)),
        voidR (require_non_empty_str ''interface_ip'' config_error (ms_interface_ip s))]) (\<lambda>_.
     bindR (validate_ipv4_address ''group_ip'' (ms_group_ip s)) (\<lambda>group_address.
     if \<not> is_multicast group_address then Inl (Exn config_error ''group_ip'')
     else first_error
       [voidR (validate_ipv4_address ''bind_ip'' (ms_bind_ip s)),
        voidR (validate_ipv4_address ''interface_ip'' (ms_interface_ip s)),
        voidR (require_positive_int ''receive_buffer_size'' config_error
          (ms_receive_buffer_size s)),
        event_delivery_validate (ms_event_delivery s)]))"

section \<open>What validated settings hold\<close>

definition positive_number :: "pyval \<Rightarrow> bool" where
  "positive_number v = (\<exists>x. float_of v = Some (Inr (Finite x)) \<and> 0 < x)"

definition wf_event_delivery :: "event_delivery_settings \<Rightarrow> bool" where
  "wf_event_delivery s \<longleftrightarrow>
     (\<exists>n. ed_max_pending_events s = PInt n \<and> 0 < n) \<and>
     (\<exists>m. ed_dispatch_mode s = PEnum (EDispatch m)) \<and>
     (\<exists>p. ed_backpressure_policy s = PEnum (EBackpressure p)) \<and>
     (\<exists>p. ed_handler_failure_policy s = PEnum (EFailure p))"

definition wf_reconnect :: "tcp_reconnect_settings \<Rightarrow> bool" where
  "wf_reconnect s \<longleftrightarrow>
     (\<exists>b. rs_enabled s = PBool b) \<and>
     (\<exists>i m f. float_of (rs_initial_delay_seconds s) = Some (Inr (Finite i)) \<and>
        float_of (rs_max_delay_seconds s) = Some (Inr (Finite m)) \<and>
        float_of (rs_backoff_factor s) = Some (Inr (Finite f)) \<and>
        0 < i \<and> i \<le> m \<and> 1 \<le> f) \<and>
     (\<exists>j. rs_jitter s = PEnum (EJitter j))"

definition wf_heartbeat :: "heartbeat_settings \<Rightarrow> bool" where
  "wf_heartbeat s \<longleftrightarrow> (\<exists>b. hs_enabled s = PBool b) \<and> positive_number (hs_interval_seconds s)"

lemma enum_type_of_eq [simp]:
  "enum_type_of m = EventDispatchMode \<longleftrightarrow> (\<exists>x. m = EDispatch x)"
  "enum_type_of m = EventBackpressurePolicy \<longleftrightarrow> (\<exists>x. m = EBackpressure x)"
  "enum_type_of m = EventHandlerFailurePolicy \<longleftrightarrow> (\<exists>x. m = EFailure x)"
  "enum_type_of m = ReconnectJitter \<longleftrightarrow> (\<exists>x. m = EJitter x)"
  "enum_type_of m = ErrorPolicy \<longleftrightarrow> (\<exists>x. m = EErrorPolicy x)"
  by (cases m; simp)+

lemma event_delivery_validate_iff:
  "event_delivery_validate s = Inr () \<longleftrightarrow> wf_event_delivery s"
  by (auto simp: event_delivery_validate_def wf_event_delivery_def first_error_Cons_Inr)

lemma reconnect_validate_iff: "reconnect_validate s = Inr () \<longleftrightarrow> wf_reconnect s"
proof
  assume "reconnect_validate s = Inr ()"
  then show "wf_reconnect s"
    by (auto simp: reconnect_validate_def wf_reconnect_def bindR_Inr split: if_splits)
next
  assume "wf_reconnect s"
  then obtain b i m f j where
    "rs_enabled s = PBool b" "rs_jitter s = PEnum (EJitter j)"
    and i: "float_of (rs_initial_delay_seconds s) = Some (Inr (Finite i))" "0 < i"
    and m: "float_of (rs_max_delay_seconds s) = Some (Inr (Finite m))" "i \<le> m"
    and f: "float_of (rs_backoff_factor s) = Some (Inr (Finite f))" "1 \<le> f"
    by (auto simp: wf_reconnect_def)
  moreover have "require_positive_finite_number fn et (rs_initial_delay_seconds s) = Inr i"
    "require_positive_finite_number fn et (rs_max_delay_seconds s) = Inr m"
    "require_finite_number_at_least fn 1 et (rs_backoff_factor s) = Inr f" for fn et
    using i m f by simp_all
  ultimately show "reconnect_validate s = Inr ()"
    by (simp add: reconnect_validate_def require_bool_def not_less require_enum_member_def voidR_def
        del: require_positive_finite_number_Inr require_finite_number_at_least_Inr)
qed

lemma heartbeat_validate_iff: "heartbeat_validate s = Inr () \<longleftrightarrow> wf_heartbeat s"
  by (auto simp: heartbeat_validate_def wf_heartbeat_def positive_number_def first_error_Cons_Inr)

lemma heartbeat_result_init_iff:
  "heartbeat_result_init ss p = Inr r \<longleftrightarrow>
     r = \<lparr>hr_should_send = ss, hr_payload = p\<rparr> \<and>
     (ss = PBool False \<or> ss = PBool True \<and> bytes_of p \<noteq> None)"
  by (auto simp: heartbeat_result_init_def bindR_Inr split: if_splits)

text \<open>The configuration error and the OverflowError of \<open>float()\<close> are all that is raised.\<close>

definition settings_error :: "exn \<Rightarrow> bool" where
  "settings_error e \<longleftrightarrow> exn_class e = config_error \<or> exn_class e = OverflowError"


definition optional_positive_number :: "pyval \<Rightarrow> bool" where
  "optional_positive_number v \<longleftrightarrow> v = PNone \<or> positive_number v"

definition non_blank_str :: "pyval \<Rightarrow> bool" where
  "non_blank_str v \<longleftrightarrow> (\<exists>t. str_of v = Some t \<and> \<not> is_blank t)"

definition int_between :: "int \<Rightarrow> int \<Rightarrow> pyval \<Rightarrow> bool" where
  "int_between lo hi v \<longleftrightarrow> (\<exists>n. v = PInt n \<and> lo \<le> n \<and> n \<le> hi)"

definition positive_int :: "pyval \<Rightarrow> bool" where
  "positive_int v \<longleftrightarrow> (\<exists>n. v = PInt n \<and> 0 < n)"

lemmas wf_value_defs = positive_number_def optional_positive_number_def non_blank_str_def
  int_between_def positive_int_def

definition wf_tcp_client :: "tcp_client_settings \<Rightarrow> bool" where
  "wf_tcp_client s \<longleftrightarrow>
     non_blank_str (cs_host s) \<and> int_between 1 65535 (cs_port s) \<and>
     positive_int (cs_receive_buffer_size s) \<and>
     optional_positive_number (cs_connect_timeout_seconds s) \<and>
     optional_positive_number (cs_connection_send_timeout_seconds s) \<and>
     (cs_error_policy s = PNone \<or> (\<exists>p. cs_error_policy s = PEnum (EErrorPolicy p))) \<and>
     (cs_error_policy s = PEnum (EErrorPolicy RETRY) \<longrightarrow> rs_enabled (cs_reconnect s) = PBool True) \<and>
     wf_reconnect (cs_reconnect s) \<and> wf_heartbeat (cs_heartbeat s) \<and>
     wf_event_delivery (cs_event_delivery s)"

definition wf_tcp_server :: "tcp_server_settings \<Rightarrow> bool" where
  "wf_tcp_server s \<longleftrightarrow>
     non_blank_str (ss_host s) \<and> int_between 1 65535 (ss_port s) \<and>
     positive_int (ss_max_connections s) \<and>
     optional_positive_number (ss_connection_idle_timeout_seconds s) \<and>
     positive_int (ss_broadcast_concurrency_limit s) \<and>
     optional_positive_number (ss_broadcast_send_timeout_seconds s) \<and>
     optional_positive_number (ss_connection_send_timeout_seconds s) \<and>
     positive_int (ss_receive_buffer_size s) \<and> positive_int (ss_backlog s) \<and>
     wf_heartbeat (ss_heartbeat s) \<and> wf_event_delivery (ss_event_delivery s)"

text \<open>Each check accepts exactly the values its predicate describes.\<close>

lemma check_accepts:
  "voidR (require_non_empty_str f et v) = Inr u \<longleftrightarrow> non_blank_str v"
  "voidR (require_int_range f lo hi et v) = Inr u \<longleftrightarrow> int_between lo hi v"
  "voidR (require_positive_int f et v) = Inr u \<longleftrightarrow> positive_int v"
  "voidR (require_positive_finite_number f et v) = Inr u \<longleftrightarrow> positive_number v"
  "voidR (require_optional_positive_finite_number f et v) = Inr u \<longleftrightarrow> optional_positive_number v"
  "voidR (require_optional_non_empty_str f et v) = Inr u \<longleftrightarrow> v = PNone \<or> non_blank_str v"
  "voidR (require_enum_member f ErrorPolicy et v) = Inr u \<longleftrightarrow>
     (\<exists>p. v = PEnum (EErrorPolicy p))"
  "voidR (require_bool f et v) = Inr u \<longleftrightarrow> (\<exists>b. v = PBool b)"
  by (auto simp: wf_value_defs)

lemmas validate_iffs = first_error_Cons_Inr check_accepts reconnect_validate_iff
  heartbeat_validate_iff event_delivery_validate_iff

lemma if_Inl_Inr: "(if b then Inl e else Inr ()) = Inr () \<longleftrightarrow> \<not> b"
  "(if b then r else Inr ()) = Inr () \<longleftrightarrow> (b \<longrightarrow> r = Inr ())"
  by auto

lemma tcp_client_checks: "tcp_client_validate s = Inr () \<longleftrightarrow> wf_tcp_client s"
proof -
  have "truthy (rs_enabled (cs_reconnect s)) \<longleftrightarrow> rs_enabled (cs_reconnect s) = PBool True"
    if "wf_reconnect (cs_reconnect s)"
    using that by (auto simp: wf_reconnect_def)
  then show ?thesis
    by (simp add: tcp_client_validate_def wf_tcp_client_def validate_iffs if_Inl_Inr
        del: voidR_Inr) blast
qed

lemma tcp_server_checks: "tcp_server_validate s = Inr () \<longleftrightarrow> wf_tcp_server s"
  by (simp add: tcp_server_validate_def wf_tcp_server_def validate_iffs del: voidR_Inr)

section \<open>IPv4 text\<close>

definition show_ipv4 :: "nat list \<Rightarrow> string" where
  "show_ipv4 octets =
     show_nat (octets ! 0) @ CHR ''.'' # show_nat (octets ! 1) @ CHR ''.'' #
     show_nat (octets ! 2) @ CHR ''.'' # show_nat (octets ! 3)"

lemma digit_value: "is_digit c \<Longrightarrow> digit_char (of_char c - 48) = c \<and> (of_char c - 48 :: nat) < 10"
  by (auto simp: is_digit_def digit_char_def)

lemma read_nat_snoc: "read_nat (ts @ [c]) = 10 * read_nat ts + (of_char c - 48)"
  by (simp add: read_nat_def)

lemma read_nat_ge_hd:
  "ts \<noteq> [] \<Longrightarrow> (of_char (hd ts) - 48 :: nat) \<le> read_nat ts"
proof (induction ts rule: rev_induct)
  case Nil
  then show ?case by simp
next
  case (snoc c ts)
  then show ?case by (cases "ts = []") (auto simp: read_nat_snoc read_nat_def)
qed

lemma show_read_nat:
  "list_all is_digit t \<Longrightarrow> t \<noteq> [] \<Longrightarrow> hd t \<noteq> CHR ''0'' \<or> t = ''0'' \<Longrightarrow> show_nat (read_nat t) = t"
proof (induction t rule: rev_induct)
  case Nil
  then show ?case by simp
next
  case (snoc c ts)
  have c: "digit_char (of_char c - 48) = c" "(of_char c - 48 :: nat) < 10"
    using snoc.prems(1) digit_value by auto
  show ?case
  proof (cases "ts = []")
    case True
    then show ?thesis using c by (simp add: read_nat_def show_nat_small)
  next
    case False
    then have h: "hd ts \<noteq> CHR ''0''" using snoc.prems(3) by (cases ts) auto
    have "is_digit (hd ts)" using snoc.prems(1) False by (cases ts) auto
    then have "48 \<le> (of_char (hd ts) :: nat)" by (simp add: is_digit_def)
    moreover have "(of_char (hd ts) :: nat) \<noteq> of_char CHR ''0''"
      using h by (simp only: of_char_eq_iff not_False_eq_True)
    then have "(of_char (hd ts) :: nat) \<noteq> 48" by simp
    ultimately have "1 \<le> (of_char (hd ts) - 48 :: nat)" by simp
    then have pos: "1 \<le> read_nat ts" using read_nat_ge_hd [OF False] by linarith
    have IH: "show_nat (read_nat ts) = ts" using snoc h False by auto
    show ?thesis
      using pos c IH by (subst show_nat.simps) (simp add: read_nat_snoc)
  qed
qed

lemma parse_octet_iff: "parse_octet t = Some n \<longleftrightarrow> n < 256 \<and> t = show_nat n"
proof
  assume p: "parse_octet t = Some n"
  then have "list_all is_digit t" "t \<noteq> []" "hd t \<noteq> CHR ''0'' \<or> t = ''0''" "n = read_nat t" "n < 256"
    by (auto simp: parse_octet_def split: if_splits)
  then show "n < 256 \<and> t = show_nat n" using show_read_nat [of t] by simp
next
  assume n: "n < 256 \<and> t = show_nat n"
  have "length (show_nat n) \<le> 3" using length_show_nat [of n 2] n by simp
  moreover have "show_nat n = ''0'' \<or> hd (show_nat n) \<noteq> CHR ''0''"
    using show_nat_leading [of n] by (cases "n = 0") (simp_all add: show_nat_0 digit_char_0)
  ultimately show "parse_octet t = Some n"
    using n show_nat_digits [of n] by (auto simp: parse_octet_def)
qed

lemma join_split_on: "\<exists>w ws. split_on d s = w # ws \<and> s = w @ concat (map (Cons d) ws)"
proof (induction s)
  case Nil
  then show ?case by simp
next
  case (Cons c cs)
  then obtain w ws where w: "split_on d cs = w # ws" "cs = w @ concat (map (Cons d) ws)" by auto
  then show ?case by (cases "c = d") auto
qed

lemma split_show_ipv4:
  "split_on CHR ''.'' (show_ipv4 [a, b, c, d]) = map show_nat [a, b, c, d]"
  by (simp add: show_ipv4_def split_on_append split_on_no_sep show_nat_no_sep)

lemma length_4: "length xs = 4 \<longleftrightarrow> (\<exists>a b c d. xs = [a, b, c, d])"
  by (auto simp: eval_nat_numeral length_Suc_conv)

lemma parse_ipv4_split:
  "parse_ipv4 t = Some octets \<longleftrightarrow>
     CHR ''/'' \<notin> set t \<and> (\<exists>a b c d. octets = [a, b, c, d] \<and>
       split_on CHR ''.'' t = map show_nat [a, b, c, d] \<and> list_all (\<lambda>n. n < 256) octets)"
  (is "?l = ?r")
proof
  assume l: ?l
  then have "length (split_on CHR ''.'' t) = 4"
    and all: "\<forall>w \<in> set (split_on CHR ''.'' t). parse_octet w \<noteq> None"
    and o: "octets = map (the \<circ> parse_octet) (split_on CHR ''.'' t)"
    and slash: "CHR ''/'' \<notin> set t"
    by (auto simp: parse_ipv4_def Let_def split: if_splits)
  then obtain p q r u where ws: "split_on CHR ''.'' t = [p, q, r, u]" by (auto simp: length_4)
  with all obtain a b c d where "parse_octet p = Some a" "parse_octet q = Some b"
    "parse_octet r = Some c" "parse_octet u = Some d" by auto
  with ws o slash show ?r by (auto simp: parse_octet_iff)
next
  assume ?r
  moreover from this have "parse_octet (show_nat n) = Some n" if "n \<in> set octets" for n
    using that by (auto simp: parse_octet_iff list_all_iff)
  ultimately show ?l
    by (auto simp: parse_ipv4_def Let_def)
qed

text \<open>
  The IPv4 texts the multicast settings accept are exactly the canonical dotted decimal
  texts: parsing succeeds with four octets below 256, and printing them gives the text back
  (no leading zeros, signs, blanks or prefix lengths).
\<close>
theorem ipv4_roundtrip:
  "parse_ipv4 t = Some octets \<longleftrightarrow>
     length octets = 4 \<and> list_all (\<lambda>n. n < 256) octets \<and> t = show_ipv4 octets"
proof
  assume "parse_ipv4 t = Some octets"
  then obtain a b c d where o: "octets = [a, b, c, d]"
    and sp: "split_on CHR ''.'' t = map show_nat [a, b, c, d]"
    and b: "list_all (\<lambda>n. n < 256) octets"
    by (auto simp: parse_ipv4_split)
  from sp join_split_on [of "CHR ''.''" t] have "t = show_ipv4 octets"
    by (auto simp: show_ipv4_def o)
  with o b show "length octets = 4 \<and> list_all (\<lambda>n. n < 256) octets \<and> t = show_ipv4 octets"
    by simp
next
  assume r: "length octets = 4 \<and> list_all (\<lambda>n. n < 256) octets \<and> t = show_ipv4 octets"
  then obtain a b c d where o: "octets = [a, b, c, d]" by (auto simp: length_4)
  have "CHR ''/'' \<notin> set t" using r o by (simp add: show_ipv4_def show_nat_no_sep)
  with r o show "parse_ipv4 t = Some octets" by (auto simp: parse_ipv4_split split_show_ipv4)
qed

definition wf_multicast :: "multicast_receiver_settings \<Rightarrow> bool" where
  "wf_multicast s \<longleftrightarrow>
     (\<exists>g. parse_ipv4 (the (str_of (ms_group_ip s))) = Some g \<and> is_multicast g) \<and>
     parse_ipv4 (the (str_of (ms_bind_ip s))) \<noteq> None \<and>
     parse_ipv4 (the (str_of (ms_interface_ip s))) \<noteq> None \<and>
     non_blank_str (ms_group_ip s) \<and> non_blank_str (ms_bind_ip s) \<and>
     non_blank_str (ms_interface_ip s) \<and>
     int_between 1 65535 (ms_port s) \<and> positive_int (ms_receive_buffer_size s) \<and>
     wf_event_delivery (ms_event_delivery s)"

lemma validate_ipv4_address_iff:
  "validate_ipv4_address f v = Inr octets \<longleftrightarrow>
     (\<exists>t. str_of v = Some t \<and> parse_ipv4 t = Some octets)"
  by (auto simp: validate_ipv4_address_def split: option.splits)

lemma check_ipv4: "voidR (validate_ipv4_address f v) = Inr u \<longleftrightarrow>
    (\<exists>t octets. str_of v = Some t \<and> parse_ipv4 t = Some octets)"
  by (auto simp: validate_ipv4_address_iff)

lemma if_not_Inl: "(if \<not> b then Inl e else r) = Inr u \<longleftrightarrow> b \<and> r = Inr u"
  by simp

lemma multicast_checks: "multicast_receiver_validate s = Inr () \<longleftrightarrow> wf_multicast s"
  by (auto simp: multicast_receiver_validate_def wf_multicast_def bindR_Inr validate_iffs
      validate_ipv4_address_iff check_ipv4 if_not_Inl non_blank_str_def simp del: voidR_Inr)

definition wf_udp_sender :: "udp_sender_settings \<Rightarrow> bool" where
  "wf_udp_sender s \<longleftrightarrow>
     (us_default_host s = PNone \<or> non_blank_str (us_default_host s)) \<and>
     (us_default_port s = PNone \<or> int_between 1 65535 (us_default_port s)) \<and>
     non_blank_str (us_local_host s) \<and> int_between 0 65535 (us_local_port s) \<and>
     (\<exists>b. us_enable_broadcast s = PBool b)"

definition wf_udp_receiver :: "udp_receiver_settings \<Rightarrow> bool" where
  "wf_udp_receiver s \<longleftrightarrow>
     non_blank_str (ur_host s) \<and> int_between 1 65535 (ur_port s) \<and>
     positive_int (ur_receive_buffer_size s) \<and> (\<exists>b. ur_enable_broadcast s = PBool b) \<and>
     wf_event_delivery (ur_event_delivery s)"

lemma udp_sender_checks: "udp_sender_validate s = Inr () \<longleftrightarrow> wf_udp_sender s"
  by (auto simp: udp_sender_validate_def wf_udp_sender_def validate_iffs if_Inl_Inr simp del: voidR_Inr)

lemma udp_receiver_checks: "udp_receiver_validate s = Inr () \<longleftrightarrow> wf_udp_receiver s"
  by (simp add: udp_receiver_validate_def wf_udp_receiver_def validate_iffs del: voidR_Inr)

text \<open>
  C35: Settings objects are accepted exactly when they are well-formed.  For the TCP client: a
  non-blank str host, a port in 1..65535, positive int buffer size, timeouts None or positive
  finite, an error policy that is None or a member (RETRY only with reconnect enabled), valid
  nested settings; likewise for the server's eleven fields; and for the multicast receiver a
  group address in the multicast range and canonical IPv4 texts throughout.
\<close>
theorem settings_validate_exact:
  "(tcp_client_validate c = Inr () \<longleftrightarrow> wf_tcp_client c) \<and>
   (tcp_server_validate s = Inr () \<longleftrightarrow> wf_tcp_server s) \<and>
   (multicast_receiver_validate m = Inr () \<longleftrightarrow> wf_multicast m)"
  by (simp only: tcp_client_checks tcp_server_checks multicast_checks)

lemma round_double_ge: "2 ^ 1024 \<le> n \<Longrightarrow> 2 ^ 1024 \<le> round_double n"
proof -
  assume n: "2 ^ 1024 \<le> n"
  let ?b = "bit_length n"
  have n0: "0 < n" using n by (meson less_le_trans zero_less_numeral zero_less_power)
  from bit_length_bounds [OF n0] have lo: "2 ^ (?b - 1) \<le> n" and hi: "n < 2 ^ ?b" by auto
  have "(2::nat) ^ 1024 < 2 ^ ?b" using n hi by (rule le_less_trans)
  then have b: "1024 < ?b" by (simp only: power_strict_increasing_iff)
  have split: "(2::nat) ^ (?b - 1) = 2 ^ 52 * 2 ^ (?b - 53)"
  proof -
    have "?b - 1 = 52 + (?b - 53)" using b by arith
    then show ?thesis by (simp only: power_add)
  qed
  have "2 ^ 52 \<le> n div 2 ^ (?b - 53)"
    using lo split by (simp add: less_eq_div_iff_mult_less_eq)
  also have "\<dots> \<le> round_half_even n (?b - 53)" by (simp add: round_half_even_def Let_def)
  finally have "2 ^ 52 * 2 ^ (?b - 53) \<le> round_half_even n (?b - 53) * 2 ^ (?b - 53)"
    by (rule mult_le_mono1)
  then have "2 ^ (?b - 1) \<le> round_double n"
    using b split by (simp add: round_double_def Let_def)
  moreover have "(2::nat) ^ 1024 \<le> 2 ^ (?b - 1)" using b by (intro power_increasing) auto
  ultimately show ?thesis by (rule order_trans [rotated])
qed

text \<open>
  An int interval too large for a float makes \<open>TcpHeartbeatSettings\<close> raise OverflowError,
  not the InvalidNetworkConfigurationError its documentation promises: \<open>float(value)\<close> stands
  outside the check's error handling.
\<close>
theorem heartbeat_interval_overflow:
  assumes "2 ^ 1024 \<le> n"
  shows "heartbeat_validate \<lparr>hs_enabled = PBool b, hs_interval_seconds = PInt n\<rparr> =
    Inl (Exn OverflowError ''float'')"
proof -
  have "(2::nat) ^ 1024 \<le> nat \<bar>n\<bar>"
    using assms by (simp only: nat_le_iff le_nat_iff of_nat_power of_nat_numeral abs_ge_zero
        abs_of_nonneg order_trans [OF zero_le_power])
  then have "float_of_int n = Inl (Exn OverflowError ''float'')"
    using round_double_ge by (simp only: float_of_int_def Let_def if_True)
  then show ?thesis
    by (simp add: heartbeat_validate_def first_error.simps require_bool_def voidR_def
        require_positive_finite_number_def)
qed

theorem heartbeat_interval_overflow_witness:
  "heartbeat_validate \<lparr>hs_enabled = PBool True, hs_interval_seconds = PInt (2 ^ 1024)\<rparr> =
    Inl (Exn OverflowError ''float'')"
  by (rule heartbeat_interval_overflow) (rule order_refl)

end
