(* ===== verification/Events.thy ===== *)
theory Events
  imports Validation
begin

text \<open>
  The event vocabulary: connection and component states, metadata and the ten event
  dataclasses (\<^verbatim>\<open>api/connection_lifecycle.py\<close>, \<^verbatim>\<open>api/component_lifecycle_state.py\<close>,
  \<^verbatim>\<open>api/*_event.py\<close>, \<^verbatim>\<open>api/*_events.py\<close>), the taxonomy registry
  (\<^verbatim>\<open>api/_event_registry.py\<close>), and the three consumers of events the library ships: the
  typed hooks of \<open>BaseNetworkEventHandler\<close>, \<open>TypedEventRouter\<close>, and the recording handler
  of \<^verbatim>\<open>testing/__init__.py\<close>.
\<close>

section \<open>States, roles and metadata\<close>

datatype component_lifecycle_state = STOPPED | STARTING | RUNNING | STOPPING

datatype connection_role = CLIENT | SERVER | MULTICAST_RECEIVER | UDP_RECEIVER

datatype connection_state = CREATED | CONNECTING | CONNECTED | CLOSING | CLOSED

record connection_metadata =
  cm_connection_id :: string
  cm_role :: connection_role
  cm_local_host :: "string option"
  cm_local_port :: "int option"
  cm_remote_host :: "string option"
  cm_remote_port :: "int option"

section \<open>Events\<close>

datatype network_event =
    ConnectionOpenedEvent string connection_metadata
  | ConnectionRejectedEvent string string string "string option" "int option"
  | ConnectionClosedEvent string connection_state "connection_metadata option"
  | BytesReceivedEvent string "nat list" "string option" "int option"
  | NetworkErrorEvent string exn
  | HandlerFailurePolicyStopEvent string string exn event_handler_failure_policy event_dispatch_mode
  | ComponentLifecycleChangedEvent string component_lifecycle_state component_lifecycle_state
  | ReconnectAttemptStartedEvent string int
  | ReconnectAttemptFailedEvent string int exn "rat option"
  | ReconnectScheduledEvent string int rat

text \<open>\<open>ConnectionOpenedEvent.__post_init__\<close> checks that the two identifiers agree.\<close>

definition make_connection_opened :: "string \<Rightarrow> connection_metadata \<Rightarrow> exn + network_event" where
  "make_connection_opened resource_id metadata =
     (if resource_id \<noteq> cm_connection_id metadata then Inl (Exn ValueError ''resource_id'')
      else Inr (ConnectionOpenedEvent resource_id metadata))"

fun resource_id :: "network_event \<Rightarrow> string" where
  "resource_id (ConnectionOpenedEvent r _) = r"
| "resource_id (ConnectionRejectedEvent r _ _ _ _) = r"
| "resource_id (ConnectionClosedEvent r _ _) = r"
| "resource_id (BytesReceivedEvent r _ _ _) = r"
| "resource_id (NetworkErrorEvent r _) = r"
| "resource_id (HandlerFailurePolicyStopEvent r _ _ _ _) = r"
| "resource_id (ComponentLifecycleChangedEvent r _ _) = r"
| "resource_id (ReconnectAttemptStartedEvent r _) = r"
| "resource_id (ReconnectAttemptFailedEvent r _ _ _) = r"
| "resource_id (ReconnectScheduledEvent r _ _) = r"

datatype event_type =
    TConnectionOpened | TConnectionRejected | TConnectionClosed | TBytesReceived | TNetworkError
  | THandlerFailurePolicyStop | TComponentLifecycleChanged | TReconnectAttemptStarted
  | TReconnectAttemptFailed | TReconnectScheduled

fun type_of_event :: "network_event \<Rightarrow> event_type" where
  "type_of_event (ConnectionOpenedEvent _ _) = TConnectionOpened"
| "type_of_event (ConnectionRejectedEvent _ _ _ _ _) = TConnectionRejected"
| "type_of_event (ConnectionClosedEvent _ _ _) = TConnectionClosed"
| "type_of_event (BytesReceivedEvent _ _ _ _) = TBytesReceived"
| "type_of_event (NetworkErrorEvent _ _) = TNetworkError"
| "type_of_event (HandlerFailurePolicyStopEvent _ _ _ _ _) = THandlerFailurePolicyStop"
| "type_of_event (ComponentLifecycleChangedEvent _ _ _) = TComponentLifecycleChanged"
| "type_of_event (ReconnectAttemptStartedEvent _ _) = TReconnectAttemptStarted"
| "type_of_event (ReconnectAttemptFailedEvent _ _ _ _) = TReconnectAttemptFailed"
| "type_of_event (ReconnectScheduledEvent _ _ _) = TReconnectScheduled"

text \<open>\<open>type(event).__name__\<close>.\<close>

fun event_type_name :: "event_type \<Rightarrow> string" where
  "event_type_name TConnectionOpened = ''ConnectionOpenedEvent''"
| "event_type_name TConnectionRejected = ''ConnectionRejectedEvent''"
| "event_type_name TConnectionClosed = ''ConnectionClosedEvent''"
| "event_type_name TBytesReceived = ''BytesReceivedEvent''"
| "event_type_name TNetworkError = ''NetworkErrorEvent''"
| "event_type_name THandlerFailurePolicyStop = ''HandlerFailurePolicyStopEvent''"
| "event_type_name TComponentLifecycleChanged = ''ComponentLifecycleChangedEvent''"
| "event_type_name TReconnectAttemptStarted = ''ReconnectAttemptStartedEvent''"
| "event_type_name TReconnectAttemptFailed = ''ReconnectAttemptFailedEvent''"
| "event_type_name TReconnectScheduled = ''ReconnectScheduledEvent''"

fun is_bytes_for :: "string \<Rightarrow> network_event \<Rightarrow> bool" where
  "is_bytes_for rid (BytesReceivedEvent r _ _ _) = (r = rid)"
| "is_bytes_for rid _ = False"

section \<open>The taxonomy registry\<close>

text \<open>The members of the \<open>NetworkEvent\<close> union, in the order it lists them.\<close>

definition network_event_union :: "event_type list" where
  "network_event_union =
     [TConnectionOpened, TConnectionRejected, TConnectionClosed, TBytesReceived, TNetworkError,
      THandlerFailurePolicyStop, TComponentLifecycleChanged, TReconnectAttemptStarted,
      TReconnectAttemptFailed, TReconnectScheduled]"

record event_registry_entry =
  re_event_type :: event_type
  re_handler_method_name :: string
  re_recording_bucket_name :: string

definition NETWORK_EVENT_REGISTRY :: "event_registry_entry list" where
  "NETWORK_EVENT_REGISTRY =
     [\<lparr>re_event_type = TConnectionOpened, re_handler_method_name = ''on_connection_opened'',
       re_recording_bucket_name = ''opened_events''\<rparr>,
      \<lparr>re_event_type = TConnectionRejected, re_handler_method_name = ''on_connection_rejected'',
       re_recording_bucket_name = ''rejected_events''\<rparr>,
      \<lparr>re_event_type = TConnectionClosed, re_handler_method_name = ''on_connection_closed'',
       re_recording_bucket_name = ''closed_events''\<rparr>,
      \<lparr>re_event_type = TBytesReceived, re_handler_method_name = ''on_bytes_received'',
       re_recording_bucket_name = ''received_events''\<rparr>,
      \<lparr>re_event_type = TNetworkError, re_handler_method_name = ''on_error'',
       re_recording_bucket_name = ''error_events''\<rparr>,
      \<lparr>re_event_type = THandlerFailurePolicyStop,
       re_handler_method_name = ''on_handler_failure_policy_stop'',
       re_recording_bucket_name = ''handler_failure_policy_stop_events''\<rparr>,
      \<lparr>re_event_type = TComponentLifecycleChanged,
       re_handler_method_name = ''on_component_lifecycle_changed'',
       re_recording_bucket_name = ''lifecycle_events''\<rparr>,
      \<lparr>re_event_type = TReconnectAttemptStarted,
       re_handler_method_name = ''on_reconnect_attempt_started'',
       re_recording_bucket_name = ''reconnect_attempt_started_events''\<rparr>,
      \<lparr>re_event_type = TReconnectAttemptFailed,
       re_handler_method_name = ''on_reconnect_attempt_failed'',
       re_recording_bucket_name = ''reconnect_attempt_failed_events''\<rparr>,
      \<lparr>re_event_type = TReconnectScheduled, re_handler_method_name = ''on_reconnect_scheduled'',
       re_recording_bucket_name = ''reconnect_scheduled_events''\<rparr>]"

text \<open>The two dicts built from the registry, as association lists in insertion order.\<close>

definition NETWORK_EVENT_HANDLER_METHODS :: "(event_type \<times> string) list" where
  "NETWORK_EVENT_HANDLER_METHODS =
     map (\<lambda>e. (re_event_type e, re_handler_method_name e)) NETWORK_EVENT_REGISTRY"

definition NETWORK_EVENT_RECORDING_BUCKETS :: "(event_type \<times> string) list" where
  "NETWORK_EVENT_RECORDING_BUCKETS =
     map (\<lambda>e. (re_event_type e, re_recording_bucket_name e)) NETWORK_EVENT_REGISTRY"

definition validate_network_event_registry_conformance ::
    "event_type list \<Rightarrow> event_registry_entry list \<Rightarrow> exn + unit" where
  "validate_network_event_registry_conformance union_event_types registry =
     (let registry_event_types = map re_event_type registry;
          missing_from_registry =
            filter (\<lambda>t. \<not> List.member registry_event_types t) union_event_types;
          extra_in_registry =
            filter (\<lambda>t. \<not> List.member union_event_types t) registry_event_types
      in if missing_from_registry = [] \<and> extra_in_registry = [] then Inr ()
         else Inl (Exn RuntimeError ''Network event registry drift detected.''))"

section \<open>BaseNetworkEventHandler\<close>

text \<open>
  \<open>on_event\<close> walks the dict and awaits the hook of the first type that matches; the result
  is the hook it awaits, None when no type matches.
\<close>

fun first_match :: "(event_type \<Rightarrow> bool) \<Rightarrow> (event_type \<times> string) list \<Rightarrow> string option" where
  "first_match P [] = None"
| "first_match P ((t, name) # rest) = (if P t then Some name else first_match P rest)"

definition base_on_event :: "network_event \<Rightarrow> string option" where
  "base_on_event event = first_match (\<lambda>t. type_of_event event = t) NETWORK_EVENT_HANDLER_METHODS"

section \<open>RecordingEventHandler\<close>

record recording_handler =
  rh_events :: "network_event list"
  rh_buckets :: "string \<Rightarrow> network_event list"
  rh_received_by_connection :: "string \<Rightarrow> nat list list"

definition recording_init :: recording_handler where
  "recording_init = \<lparr>rh_events = [], rh_buckets = (\<lambda>_. []), rh_received_by_connection = (\<lambda>_. [])\<rparr>"

definition recording_on_event :: "network_event \<Rightarrow> recording_handler \<Rightarrow> recording_handler" where
  "recording_on_event event h =
     (let h1 = h\<lparr>rh_events := rh_events h @ [event]\<rparr>;
          h2 = (case first_match (\<lambda>t. type_of_event event = t) NETWORK_EVENT_RECORDING_BUCKETS of
                  None \<Rightarrow> h1
                | Some b \<Rightarrow> h1\<lparr>rh_buckets := (rh_buckets h1)(b := rh_buckets h1 b @ [event])\<rparr>)
      in case event of
           BytesReceivedEvent rid data _ _ \<Rightarrow>
             h2\<lparr>rh_received_by_connection :=
                  (rh_received_by_connection h2)(rid := rh_received_by_connection h2 rid @ [data])\<rparr>
         | _ \<Rightarrow> h2)"

fun event_data :: "network_event \<Rightarrow> nat list" where
  "event_data (BytesReceivedEvent _ d _ _) = d"
| "event_data _ = []"

section \<open>TypedEventRouter\<close>

text \<open>
  A class is known by the list of its ancestors in method resolution order and by the
  answer of \<open>isinstance\<close>, which abstract base classes may widen beyond that list.
  \<open>dispatch\<close> scans the registrations and keeps the best match found so far.
\<close>

record 'c event_class =
  ec_mro :: "'c list"
  ec_isinstance :: "'c \<Rightarrow> bool"

text \<open>\<open>event_mro.index(event_type)\<close>, or \<open>len(event_mro)\<close> when absent.\<close>

definition mro_distance :: "'c event_class \<Rightarrow> 'c \<Rightarrow> nat" where
  "mro_distance ec t = (case find_index (\<lambda>x. x = t) (ec_mro ec) of
     Some i \<Rightarrow> i | None \<Rightarrow> length (ec_mro ec))"

fun router_scan ::
    "'c event_class \<Rightarrow> nat \<Rightarrow> ('c \<times> 'h) list \<Rightarrow> (nat \<times> nat \<times> 'h) option \<Rightarrow> (nat \<times> nat \<times> 'h) option" where
  "router_scan ec i [] best = best"
| "router_scan ec i ((t, h) # rest) best =
     (if \<not> ec_isinstance ec t then router_scan ec (Suc i) rest best
      else let distance = mro_distance ec t in
        router_scan ec (Suc i) rest
          (case best of
             None \<Rightarrow> Some (distance, i, h)
           | Some (bd, bi, bh) \<Rightarrow>
               if distance < bd \<or> (distance = bd \<and> i < bi) then Some (distance, i, h)
               else best))"

definition router_register :: "'c \<Rightarrow> 'h \<Rightarrow> ('c \<times> 'h) list \<Rightarrow> ('c \<times> 'h) list" where
  "router_register event_type handler handlers = handlers @ [(event_type, handler)]"

definition router_dispatch :: "('c \<times> 'h) list \<Rightarrow> 'c event_class \<Rightarrow> 'h option" where
  "router_dispatch handlers ec = map_option (\<lambda>(_, _, h). h) (router_scan ec 0 handlers None)"

section \<open>Lemmas\<close>

lemma conformance_iff:
  "validate_network_event_registry_conformance u r = Inr () \<longleftrightarrow> set u = re_event_type ` set r"
  by (auto simp: validate_network_event_registry_conformance_def Let_def filter_empty_conv)

lemma network_event_union_UNIV: "set network_event_union = UNIV"
proof -
  have "t \<in> set network_event_union" for t by (cases t) (simp_all add: network_event_union_def)
  then show ?thesis by blast
qed

lemma first_match_map_of: "first_match (\<lambda>u. t = u) xs = map_of xs t"
  by (induction xs) auto

lemma map_of_inject:
  assumes "distinct (map snd xs)" "map_of xs t \<noteq> None" "map_of xs u \<noteq> None"
  shows "map_of xs t = map_of xs u \<longleftrightarrow> t = u"
proof
  assume eq: "map_of xs t = map_of xs u"
  with assms(2) obtain a where "(t, a) \<in> set xs" "(u, a) \<in> set xs"
    by (metis map_of_SomeD not_Some_eq)
  moreover have "inj_on snd (set xs)" using assms(1) by (simp add: distinct_map)
  ultimately have "(t, a) = (u, a)" by (metis inj_onD snd_conv)
  then show "t = u" by simp
qed simp

lemma registry_types: "map re_event_type NETWORK_EVENT_REGISTRY = network_event_union"
  by (simp add: NETWORK_EVENT_REGISTRY_def network_event_union_def)

lemma registry_total:
  "map_of NETWORK_EVENT_HANDLER_METHODS t \<noteq> None"
  "map_of NETWORK_EVENT_RECORDING_BUCKETS t \<noteq> None"
proof -
  have "re_event_type ` set NETWORK_EVENT_REGISTRY = UNIV"
    using network_event_union_UNIV registry_types by (metis list.set_map)
  then show "map_of NETWORK_EVENT_HANDLER_METHODS t \<noteq> None"
    "map_of NETWORK_EVENT_RECORDING_BUCKETS t \<noteq> None"
    by (simp_all add: map_of_eq_None_iff image_image NETWORK_EVENT_HANDLER_METHODS_def
        NETWORK_EVENT_RECORDING_BUCKETS_def)
qed

lemma registry_distinct:
  "distinct (map snd NETWORK_EVENT_HANDLER_METHODS)"
  "distinct (map snd NETWORK_EVENT_RECORDING_BUCKETS)"
  by code_simp+

text \<open>
  The taxonomy registry covers the event union exactly, so the module's own conformance
  check passes at import, and the typed hooks of \<open>BaseNetworkEventHandler\<close> are total and
  separate: every event reaches a hook, and two events share a hook only when they are of
  the same type.
\<close>
theorem event_hooks_total_and_separate:
  "validate_network_event_registry_conformance network_event_union NETWORK_EVENT_REGISTRY = Inr () \<and>
   base_on_event e1 \<noteq> None \<and>
   (base_on_event e1 = base_on_event e2 \<longleftrightarrow> type_of_event e1 = type_of_event e2)"
proof (intro conjI)
  show "validate_network_event_registry_conformance network_event_union NETWORK_EVENT_REGISTRY = Inr ()"
    unfolding conformance_iff registry_types [symmetric] by simp
  show "base_on_event e1 \<noteq> None"
    unfolding base_on_event_def first_match_map_of by (rule registry_total)
  show "base_on_event e1 = base_on_event e2 \<longleftrightarrow> type_of_event e1 = type_of_event e2"
    unfolding base_on_event_def first_match_map_of
    by (rule map_of_inject [OF registry_distinct(1) registry_total(1) registry_total(1)])
qed

text \<open>The bucket of a type.\<close>

definition bucket_of :: "event_type \<Rightarrow> string" where
  "bucket_of t = the (first_match (\<lambda>u. t = u) NETWORK_EVENT_RECORDING_BUCKETS)"

lemma first_match_bucket:
  "first_match (\<lambda>u. t = u) NETWORK_EVENT_RECORDING_BUCKETS = Some (bucket_of t)"
  using registry_total(2) [of t] by (simp add: bucket_of_def first_match_map_of)

lemma bucket_of_inject: "bucket_of t = bucket_of u \<longleftrightarrow> t = u"
  using map_of_inject [OF registry_distinct(2) registry_total(2) registry_total(2), of t u]
  by (metis first_match_bucket first_match_map_of option.inject)

lemma recording_step:
  "rh_events (recording_on_event e h) = rh_events h @ [e]"
  "rh_buckets (recording_on_event e h) (bucket_of t) =
     rh_buckets h (bucket_of t) @ (if type_of_event e = t then [e] else [])"
  "rh_received_by_connection (recording_on_event e h) c =
     rh_received_by_connection h c @ (if is_bytes_for c e then [event_data e] else [])"
  by (cases e; simp add: recording_on_event_def first_match_bucket bucket_of_inject)+

text \<open>
  After any sequence of events the recording handler holds the whole sequence, each typed
  bucket holds exactly the events of its type in order, and the per-connection lists hold
  exactly the payloads received on that connection, in order.
\<close>
theorem recording_handler_partitions:
  "rh_events (fold recording_on_event es recording_init) = es \<and>
   rh_buckets (fold recording_on_event es recording_init) (bucket_of t) =
     filter (\<lambda>e. type_of_event e = t) es \<and>
   rh_received_by_connection (fold recording_on_event es recording_init) c =
     map event_data (filter (is_bytes_for c) es)"
proof -
  have "rh_events (fold recording_on_event es h) = rh_events h @ es \<and>
    rh_buckets (fold recording_on_event es h) (bucket_of t) =
      rh_buckets h (bucket_of t) @ filter (\<lambda>e. type_of_event e = t) es \<and>
    rh_received_by_connection (fold recording_on_event es h) c =
      rh_received_by_connection h c @ map event_data (filter (is_bytes_for c) es)" for h
    by (induction es arbitrary: h) (simp_all add: recording_step)
  then show ?thesis by (simp add: recording_init_def)
qed

text \<open>
  The matches of a dispatch, as (distance, registration index, handler), and the least of
  them in lexicographic order.
\<close>

definition candidates :: "'c event_class \<Rightarrow> nat \<Rightarrow> ('c \<times> 'h) list \<Rightarrow> (nat \<times> nat \<times> 'h) list" where
  "candidates ec i hs = map (\<lambda>(k, t, h). (mro_distance ec t, k, h))
     (filter (\<lambda>(k, t, h). ec_isinstance ec t) (enumerate i hs))"

definition before :: "nat \<times> nat \<times> 'h \<Rightarrow> nat \<times> nat \<times> 'h \<Rightarrow> bool" where
  "before b c \<longleftrightarrow> fst b < fst c \<or> (fst b = fst c \<and> fst (snd b) \<le> fst (snd c))"

definition best_of :: "(nat \<times> nat \<times> 'h) option \<Rightarrow> (nat \<times> nat \<times> 'h) set \<Rightarrow> bool" where
  "best_of bo C \<longleftrightarrow> (case bo of None \<Rightarrow> C = {} | Some b \<Rightarrow> b \<in> C \<and> (\<forall>c \<in> C. before b c))"

lemma best_of_insert:
  assumes "best_of bo C" and "\<forall>c \<in> C. fst (snd c) < i"
  shows "best_of (case bo of None \<Rightarrow> Some (d, i, h)
      | Some (bd, bi, bh) \<Rightarrow> if d < bd \<or> (d = bd \<and> i < bi) then Some (d, i, h) else bo)
      (insert (d, i, h) C)"
  using assms
  by (cases bo) (fastforce simp: best_of_def before_def)+

lemma router_scan_best:
  assumes "best_of bo C" and "\<forall>c \<in> C. fst (snd c) < i"
  shows "best_of (router_scan ec i hs bo) (C \<union> set (candidates ec i hs))"
  using assms
proof (induction ec i hs bo arbitrary: C rule: router_scan.induct)
  case (1 ec i best)
  then show ?case by (simp add: candidates_def)
next
  case (2 ec i t h rest best)
  have lt: "\<forall>c \<in> C. fst (snd c) < Suc i" using "2.prems"(2) by auto
  show ?case
  proof (cases "ec_isinstance ec t")
    case False
    with "2.IH"(1) [OF _ "2.prems"(1) lt] show ?thesis by (simp add: candidates_def)
  next
    case True
    let ?C = "insert (mro_distance ec t, i, h) C"
    have "\<forall>c \<in> ?C. fst (snd c) < Suc i" using lt by simp
    with "2.IH"(2) [OF _ refl best_of_insert [OF "2.prems"]] True
    show ?thesis by (simp add: candidates_def Let_def)
  qed
qed

text \<open>
  \<open>TypedEventRouter.dispatch\<close> selects a handler exactly when some registered type matches,
  and the one it selects is registered for a matching type whose distance in the event's MRO
  is minimal, ties going to the earliest registration.
\<close>
theorem router_dispatch_spec:
  "case router_dispatch handlers ec of
     None \<Rightarrow> candidates ec 0 handlers = []
   | Some h \<Rightarrow> \<exists>d k. List.member (candidates ec 0 handlers) (d, k, h) \<and>
       list_all (before (d, k, h)) (candidates ec 0 handlers)"
proof -
  have "best_of (router_scan ec 0 handlers None) (set (candidates ec 0 handlers))"
    using router_scan_best [of None "{}" 0 ec handlers] by (simp add: best_of_def)
  then show ?thesis
    by (auto simp: router_dispatch_def best_of_def list_all_iff split: option.splits)
qed

end
