(* ===== verification/Lifecycle.thy ===== *)
theory Lifecycle
  imports Events
begin

text \<open>
  Models \<^verbatim>\<open>implementations/asyncio_impl/lifecycle_internal.py\<close>: the legal component
  transitions, the \<open>LifecycleTransitionPublisher\<close> every managed transport owns, and the two
  guarded transitions of the stop paths.  The publisher reaches its component only through
  three callbacks (read the state, write it, react to a write); they are the interface
  \<open>lifecycle_host\<close>, which the client, server and datagram receiver theories interpret.
\<close>

section \<open>Transitions\<close>

datatype lifecycle_role =
  TCP_CLIENT_ROLE | TCP_SERVER_ROLE | UDP_RECEIVER_ROLE | MULTICAST_RECEIVER_ROLE

fun base_transitions :: "component_lifecycle_state \<Rightarrow> component_lifecycle_state list" where
  "base_transitions STOPPED = [STARTING]"
| "base_transitions STARTING = [RUNNING, STOPPING, STOPPED]"
| "base_transitions RUNNING = [STOPPING]"
| "base_transitions STOPPING = [STOPPED]"

definition roles_using_base_policy :: "lifecycle_role list" where
  "roles_using_base_policy =
     [TCP_CLIENT_ROLE, TCP_SERVER_ROLE, UDP_RECEIVER_ROLE, MULTICAST_RECEIVER_ROLE]"

definition legal :: "component_lifecycle_state \<Rightarrow> component_lifecycle_state \<Rightarrow> bool" where
  "legal previous target \<longleftrightarrow> List.member (base_transitions previous) target"

definition assert_legal_lifecycle_transition ::
    "string \<Rightarrow> lifecycle_role \<Rightarrow> component_lifecycle_state \<Rightarrow> component_lifecycle_state \<Rightarrow> exn + unit" where
  "assert_legal_lifecycle_transition component_name role previous target =
     (if previous = target then Inr ()
      else if \<not> List.member roles_using_base_policy role
      then Inl (Exn RuntimeError component_name)
      else if \<not> List.member (base_transitions previous) target
      then Inl (Exn RuntimeError component_name)
      else Inr ())"

section \<open>The publisher\<close>

record lifecycle_publisher =
  lp_component_name :: string
  lp_resource_id :: string
  lp_role :: lifecycle_role

definition publisher_apply ::
    "lifecycle_publisher \<Rightarrow> ('s \<Rightarrow> component_lifecycle_state) \<Rightarrow>
     (component_lifecycle_state \<Rightarrow> 's \<Rightarrow> 's) \<Rightarrow> (component_lifecycle_state \<Rightarrow> 's \<Rightarrow> 's) \<Rightarrow>
     component_lifecycle_state \<Rightarrow> ('s, network_event option) prog" where
  "publisher_apply lp get_state set_state on_state_applied target s =
     (let previous = get_state s
      in if previous = target then Some (Inr None, s)
         else case assert_legal_lifecycle_transition (lp_component_name lp) (lp_role lp) previous target of
            Inl e \<Rightarrow> Some (Inl e, s)
          | Inr _ \<Rightarrow> Some (Inr (Some (ComponentLifecycleChangedEvent (lp_resource_id lp) previous target)),
                        on_state_applied target (set_state target s)))"

definition emit_lifecycle_event ::
    "(network_event \<Rightarrow> ('s, unit) prog) \<Rightarrow> network_event option \<Rightarrow> ('s, unit) prog" where
  "emit_lifecycle_event emit event = (case event of None \<Rightarrow> ret () | Some e \<Rightarrow> emit e)"

definition apply_stopping_transition_if_active ::
    "('s \<Rightarrow> component_lifecycle_state) \<Rightarrow>
     (component_lifecycle_state \<Rightarrow> ('s, network_event option) prog) \<Rightarrow>
     ('s, network_event option) prog" where
  "apply_stopping_transition_if_active get_state apply_transition s =
     (if get_state s \<noteq> RUNNING \<and> get_state s \<noteq> STARTING then ret None s
      else bindE (apply_transition STOPPING) (\<lambda>event.
             case event of
               None \<Rightarrow> raiseE (Exn RuntimeError ''expected STOPPING transition event'')
             | Some e \<Rightarrow> ret (Some e)) s)"

definition apply_stopped_transition_if_stopping ::
    "('s \<Rightarrow> component_lifecycle_state) \<Rightarrow>
     (component_lifecycle_state \<Rightarrow> ('s, network_event option) prog) \<Rightarrow>
     ('s, network_event option) prog" where
  "apply_stopped_transition_if_stopping get_state apply_transition s =
     (if get_state s \<noteq> STOPPING then ret None s
      else bindE (apply_transition STOPPED) (\<lambda>event.
             case event of
               None \<Rightarrow> raiseE (Exn RuntimeError ''expected STOPPED transition event'')
             | Some e \<Rightarrow> ret (Some e)) s)"

lemma roles_using_base_policy_all [simp]: "role \<in> set roles_using_base_policy"
  by (cases role) (simp_all add: roles_using_base_policy_def)

lemma assert_legal_eq:
  "assert_legal_lifecycle_transition n role p t =
     (if p = t \<or> legal p t then Inr () else Inl (Exn RuntimeError n))"
  by (simp add: assert_legal_lifecycle_transition_def legal_def)

lemma legal_simps [simp]:
  "legal STOPPED t \<longleftrightarrow> t = STARTING"
  "legal STARTING t \<longleftrightarrow> t = RUNNING \<or> t = STOPPING \<or> t = STOPPED"
  "legal RUNNING t \<longleftrightarrow> t = STOPPING"
  "legal STOPPING t \<longleftrightarrow> t = STOPPED"
  by (auto simp: legal_def)

lemma legal_irrefl: "\<not> legal t t"
  by (cases t) simp_all

section \<open>Published sequences\<close>

text \<open>
  \<open>chain a es b\<close>: the lifecycle events \<open>es\<close> lead from state \<open>a\<close> to state \<open>b\<close>, each starting
  where the one before ended and each a legal transition.
\<close>

fun chain :: "component_lifecycle_state \<Rightarrow> network_event list \<Rightarrow> component_lifecycle_state \<Rightarrow> bool" where
  "chain a [] b = (a = b)"
| "chain a (ComponentLifecycleChangedEvent _ p c # es) b = (p = a \<and> legal p c \<and> chain c es b)"
| "chain a (_ # es) b = False"

fun enters :: "component_lifecycle_state \<Rightarrow> network_event \<Rightarrow> bool" where
  "enters st (ComponentLifecycleChangedEvent _ _ c) = (c = st)"
| "enters st _ = False"

abbreviation times_entered :: "component_lifecycle_state \<Rightarrow> network_event list \<Rightarrow> nat" where
  "times_entered st es \<equiv> length (filter (enters st) es)"

lemma chain_append: "chain a es b \<Longrightarrow> chain b fs c \<Longrightarrow> chain a (es @ fs) c"
  by (induction a es b rule: chain.induct) auto

text \<open>The event that reports a transition of component \<open>rid\<close>.\<close>

definition transition_event ::
    "string \<Rightarrow> component_lifecycle_state \<times> component_lifecycle_state \<Rightarrow> network_event" where
  "transition_event rid tr = ComponentLifecycleChangedEvent rid (fst tr) (snd tr)"

text \<open>
  Within one startup/shutdown cycle each state is entered at most once; the balance of
  entries is a function of the state reached.
\<close>

lemma chain_balance:
  "chain a es b \<Longrightarrow>
     int (times_entered STARTING es) + (if a = STOPPED then 0 else 1) =
     int (times_entered STOPPED es) + (if b = STOPPED then 0 else 1)"
proof (induction a es b rule: chain.induct)
  case (2 a r p c es b)
  then show ?case by (cases p; cases c) auto
qed auto

lemma chain_stopping:
  "chain a es b \<Longrightarrow>
     int (times_entered STOPPING es) + (if a = STOPPING then 1 else 0) \<le>
     int (times_entered STOPPED es) + (if b = STOPPING then 1 else 0)"
proof (induction a es b rule: chain.induct)
  case (2 a r p c es b)
  then show ?case by (cases p; cases c) auto
qed auto

lemma chain_running:
  "chain a es b \<Longrightarrow>
     times_entered RUNNING es \<le> times_entered STARTING es + (if a = STARTING then 1 else 0)"
proof (induction a es b rule: chain.induct)
  case (2 a r p c es b)
  then show ?case by (cases p; cases c) (auto split: if_splits)
qed auto

section \<open>The interface between the publisher and its component\<close>

locale lifecycle_host =
  fixes get_state :: "'s \<Rightarrow> component_lifecycle_state"
    and set_state :: "component_lifecycle_state \<Rightarrow> 's \<Rightarrow> 's"
    and on_state_applied :: "component_lifecycle_state \<Rightarrow> 's \<Rightarrow> 's"
  assumes get_set: "get_state (set_state t s) = t"
    and get_applied: "get_state (on_state_applied t s) = get_state s"
begin

abbreviation apply_to :: "lifecycle_publisher \<Rightarrow> component_lifecycle_state \<Rightarrow> ('s, network_event option) prog" where
  "apply_to lp \<equiv> publisher_apply lp get_state set_state on_state_applied"

text \<open>The three outcomes of a requested transition.\<close>

lemma apply_same: "get_state s = t \<Longrightarrow> apply_to lp t s = Some (Inr None, s)"
  by (simp add: publisher_apply_def)

lemma apply_legal:
  "legal (get_state s) t \<Longrightarrow>
     apply_to lp t s = Some (Inr (Some (ComponentLifecycleChangedEvent (lp_resource_id lp) (get_state s) t)),
       on_state_applied t (set_state t s))"
  using legal_irrefl by (auto simp: publisher_apply_def assert_legal_eq Let_def)

lemma apply_illegal:
  "\<not> legal (get_state s) t \<Longrightarrow> get_state s \<noteq> t \<Longrightarrow>
     apply_to lp t s = Some (Inl (Exn RuntimeError (lp_component_name lp)), s)"
  by (auto simp: publisher_apply_def assert_legal_eq Let_def)

lemma state_after: "get_state (on_state_applied t (set_state t s)) = t"
  by (simp add: get_set get_applied)

lemma apply_cases:
  obtains (same) "get_state s = t" "apply_to lp t s = Some (Inr None, s)"
  | (moved) s' where "legal (get_state s) t" "get_state s' = t"
      "s' = on_state_applied t (set_state t s)"
      "apply_to lp t s = Some (Inr (Some (ComponentLifecycleChangedEvent (lp_resource_id lp) (get_state s) t)), s')"
  | (refused) "\<not> legal (get_state s) t" "get_state s \<noteq> t"
      "apply_to lp t s = Some (Inl (Exn RuntimeError (lp_component_name lp)), s)"
  using apply_same apply_legal apply_illegal state_after by metis

text \<open>The guarded transitions of the stop paths never raise and never return None wrongly.\<close>

lemma stopping_if_active:
  "apply_stopping_transition_if_active get_state (apply_to lp) s =
     (if get_state s = RUNNING \<or> get_state s = STARTING
      then Some (Inr (Some (ComponentLifecycleChangedEvent (lp_resource_id lp) (get_state s) STOPPING)),
             on_state_applied STOPPING (set_state STOPPING s))
      else Some (Inr None, s))"
  by (auto simp: apply_stopping_transition_if_active_def bindE_def ret_def apply_legal)

lemma stopped_if_stopping:
  "apply_stopped_transition_if_stopping get_state (apply_to lp) s =
     (if get_state s = STOPPING
      then Some (Inr (Some (ComponentLifecycleChangedEvent (lp_resource_id lp) STOPPING STOPPED)),
             on_state_applied STOPPED (set_state STOPPED s))
      else Some (Inr None, s))"
  by (auto simp: apply_stopped_transition_if_stopping_def bindE_def ret_def apply_legal)

text \<open>
  Whatever targets are requested, in whatever order, the events the publisher returns form
  a legal chain from the first state to the last.
\<close>

fun request_all :: "lifecycle_publisher \<Rightarrow> component_lifecycle_state list \<Rightarrow> 's \<Rightarrow> network_event list \<times> 's" where
  "request_all lp [] s = ([], s)"
| "request_all lp (t # ts) s =
     (case apply_to lp t s of
        Some (Inr (Some e), s') \<Rightarrow> (let (es, s'') = request_all lp ts s' in (e # es, s''))
      | Some (_, s') \<Rightarrow> request_all lp ts s'
      | None \<Rightarrow> ([], s))"

lemma request_all_chain:
  "chain (get_state s) (fst (request_all lp ts s)) (get_state (snd (request_all lp ts s)))"
proof (induction ts arbitrary: s)
  case Nil
  then show ?case by simp
next
  case (Cons t ts)
  show ?case
  proof (cases rule: apply_cases [of s t lp])
    case same
    then show ?thesis using Cons.IH [of s] by simp
  next
    case (moved s')
    then show ?thesis using Cons.IH [of s'] by (simp add: case_prod_beta Let_def)
  next
    case refused
    then show ?thesis using Cons.IH [of s] by simp
  qed
qed

end

text \<open>
  The transition check admits exactly the six transitions of the lifecycle contract (and
  staying put), for every managed role; anything else raises RuntimeError.
\<close>
theorem lifecycle_transitions_exact:
  "assert_legal_lifecycle_transition n role p t =
     (if p = t \<or> List.member [(STOPPED, STARTING), (STARTING, RUNNING), (STARTING, STOPPED),
            (STARTING, STOPPING), (RUNNING, STOPPING), (STOPPING, STOPPED)] (p, t)
      then Inr () else Inl (Exn RuntimeError n))"
  by (cases p; cases t) (simp_all add: assert_legal_eq)

text \<open>
  Lifecycle publication is monotonic: along any legal sequence of events that starts from
  STOPPED, terminal STOPPED is published at most once per STARTING, a cycle is still open
  exactly when the component is not STOPPED, and STOPPING and RUNNING are published at most
  once per STARTING.
\<close>
theorem lifecycle_publication_balanced:
  assumes "chain STOPPED es b"
  shows "times_entered STARTING es = times_entered STOPPED es + (if b = STOPPED then 0 else 1) \<and>
    times_entered STOPPING es \<le> times_entered STARTING es \<and>
    times_entered RUNNING es \<le> times_entered STARTING es"
  using chain_balance [OF assms] chain_stopping [OF assms] chain_running [OF assms]
  by (cases b) (auto split: if_splits)

theorem lifecycle_publication_balanced_witness:
  "let es = [ComponentLifecycleChangedEvent ''c'' STOPPED STARTING,
             ComponentLifecycleChangedEvent ''c'' STARTING RUNNING,
             ComponentLifecycleChangedEvent ''c'' RUNNING STOPPING]
   in chain STOPPED es STOPPING \<and> times_entered STARTING es = times_entered STOPPED es + 1"
  using lifecycle_publication_balanced
    [of "[ComponentLifecycleChangedEvent ''c'' STOPPED STARTING,
          ComponentLifecycleChangedEvent ''c'' STARTING RUNNING,
          ComponentLifecycleChangedEvent ''c'' RUNNING STOPPING]" STOPPING]
  by simp

end
