(* ===== verification/Runtime_Utils.thy ===== *)
theory Runtime_Utils
  imports Settings "HOL-Library.AList"
begin

text \<open>
  Models \<^verbatim>\<open>implementations/asyncio_impl/runtime_utils.py\<close>: the warning rate limiter, the
  reconnect backoff, the owner-loop guard, the two await loops of the shutdown paths, and the
  checks of user-supplied handlers and providers.  Clock readings and random draws are
  arguments; delays are exact rationals (the rounding of float arithmetic is not modelled).
\<close>

section \<open>Warning rate limiter\<close>

text \<open>
  A dict is an association list in insertion order; \<open>AList.update\<close> keeps the position of a
  key that is already there, as Python's item assignment does.
\<close>

record warning_limiter =
  wl_interval_seconds :: rat
  wl_max_keys :: int
  wl_last_logged_at :: "(string \<times> rat) list"

definition new_limiter :: "rat \<Rightarrow> int \<Rightarrow> exn + warning_limiter" where
  "new_limiter interval_seconds max_keys =
     (if interval_seconds \<le> 0 then Inl (Exn ValueError ''interval_seconds must be > 0.'')
      else if max_keys < 1 then Inl (Exn ValueError ''max_keys must be >= 1.'')
      else Inr \<lparr>wl_interval_seconds = interval_seconds, wl_max_keys = max_keys,
                wl_last_logged_at = []\<rparr>)"

definition should_log :: "rat \<Rightarrow> string \<Rightarrow> warning_limiter \<Rightarrow> bool \<times> warning_limiter" where
  "should_log now key wl =
     (let entries = wl_last_logged_at wl; previous = map_of entries key
      in if (case previous of None \<Rightarrow> True | Some p \<Rightarrow> now - p \<ge> wl_interval_seconds wl)
         then let kept = (if previous = None \<and> int (length entries) \<ge> wl_max_keys wl
                          then tl entries else entries)
              in (True, wl\<lparr>wl_last_logged_at := AList.update key now kept\<rparr>)
         else (False, wl))"

text \<open>A run of calls: the answers, oldest first, and the limiter left.\<close>

fun limiter_run :: "(rat \<times> string) list \<Rightarrow> warning_limiter \<Rightarrow> bool list \<times> warning_limiter" where
  "limiter_run [] wl = ([], wl)"
| "limiter_run ((now, key) # calls) wl =
     (let (b, wl') = should_log now key wl; (bs, wl'') = limiter_run calls wl' in (b # bs, wl''))"

text \<open>What the limiter keeps: distinct keys, at most \<open>max_keys\<close> of them.\<close>

definition limiter_inv :: "warning_limiter \<Rightarrow> bool" where
  "limiter_inv wl \<longleftrightarrow> distinct (map fst (wl_last_logged_at wl)) \<and>
     int (length (wl_last_logged_at wl)) \<le> wl_max_keys wl \<and> 1 \<le> wl_max_keys wl"

lemma length_update:
  "length (AList.update k v al) =
     (if k \<in> fst ` set al then length al else Suc (length al))"
  by (induction al) auto

lemma map_of_None_fst: "map_of al k = None \<longleftrightarrow> k \<notin> fst ` set al"
  by (rule map_of_eq_None_iff)

lemma should_log_keeps:
  assumes "limiter_inv wl"
  shows "limiter_inv (snd (should_log now key wl))"
proof -
  have d: "distinct (map fst (tl (wl_last_logged_at wl)))"
    using assms by (simp add: limiter_inv_def map_tl distinct_tl)
  have n: "key \<notin> fst ` set (tl (wl_last_logged_at wl))"
    if "key \<notin> fst ` set (wl_last_logged_at wl)"
    using that by (cases "wl_last_logged_at wl") auto
  show ?thesis
    using assms d n
    by (auto simp: should_log_def limiter_inv_def Let_def distinct_update length_update
        map_of_None_fst split: option.splits)
qed

lemma should_log_same [simp]:
  "wl_interval_seconds (snd (should_log now key wl)) = wl_interval_seconds wl"
  "wl_max_keys (snd (should_log now key wl)) = wl_max_keys wl"
  by (auto simp: should_log_def Let_def split: option.splits)

lemma limiter_run_keeps: "limiter_inv wl \<Longrightarrow> limiter_inv (snd (limiter_run calls wl))"
proof (induction calls arbitrary: wl)
  case (Cons c calls)
  from Cons.IH [OF should_log_keeps [OF Cons.prems]] show ?case
    by (cases c) (simp add: case_prod_beta Let_def)
qed simp

lemma limiter_run_same [simp]:
  "wl_interval_seconds (snd (limiter_run calls wl)) = wl_interval_seconds wl"
  "wl_max_keys (snd (limiter_run calls wl)) = wl_max_keys wl"
  by (induction calls arbitrary: wl) (auto simp: case_prod_beta Let_def)

text \<open>While no eviction can happen, the table holds the last logged time of each key.\<close>

lemma should_log_answer:
  "fst (should_log now key wl) \<longleftrightarrow>
     (case map_of (wl_last_logged_at wl) key of None \<Rightarrow> True
      | Some p \<Rightarrow> now - p \<ge> wl_interval_seconds wl)"
  by (auto simp: should_log_def Let_def split: option.splits)

lemma length_distinct_keys:
  assumes "distinct (map fst al)" "fst ` set al \<subseteq> K" "finite K"
  shows "length al \<le> card K"
  using assms by (metis card_mono distinct_card length_map list.set_map)

lemma should_log_table:
  assumes "key \<in> K" "finite K" "int (card K) \<le> wl_max_keys wl"
    and "distinct (map fst (wl_last_logged_at wl))" "fst ` set (wl_last_logged_at wl) \<subseteq> K"
  shows "wl_last_logged_at (snd (should_log now key wl)) =
    (if fst (should_log now key wl) then AList.update key now (wl_last_logged_at wl)
     else wl_last_logged_at wl)"
proof -
  have "int (length (wl_last_logged_at wl)) < wl_max_keys wl"
    if "map_of (wl_last_logged_at wl) key = None"
  proof -
    have sub: "fst ` set (wl_last_logged_at wl) \<subseteq> K - {key}"
      using assms(5) that by (auto simp: map_of_None_fst)
    have "length (wl_last_logged_at wl) \<le> card (K - {key})"
      using length_distinct_keys [OF assms(4) sub] assms(2) by simp
    moreover have "card (K - {key}) < card K"
      by (rule card_Diff1_less [OF assms(2,1)])
    ultimately show ?thesis using assms(3) by linarith
  qed
  then show ?thesis
    by (auto simp: should_log_def Let_def split: option.splits)
qed

text \<open>
  The times at which a key was logged, most recent first, computed beside the run; the
  reference for what rate limiting means.
\<close>

fun logged_times :: "string \<Rightarrow> (rat \<times> string) list \<Rightarrow> bool list \<Rightarrow> rat list" where
  "logged_times k ((now, key) # calls) (b # bs) =
     (if b \<and> key = k then now # logged_times k calls bs else logged_times k calls bs)"
| "logged_times k _ _ = []"

fun spaced :: "rat \<Rightarrow> rat list \<Rightarrow> bool" where
  "spaced d (x # y # ts) = (y - x \<ge> d \<and> spaced d (y # ts))"
| "spaced d _ = True"

lemma limiter_spacing:
  assumes "finite K" "int (card K) \<le> wl_max_keys wl"
    and "distinct (map fst (wl_last_logged_at wl))" "fst ` set (wl_last_logged_at wl) \<subseteq> K"
    and "snd ` set calls \<subseteq> K"
  shows "spaced (wl_interval_seconds wl)
    ((case map_of (wl_last_logged_at wl) k of None \<Rightarrow> [] | Some p \<Rightarrow> [p]) @
      logged_times k calls (fst (limiter_run calls wl)))"
  using assms
proof (induction calls arbitrary: wl)
  case Nil
  then show ?case by (auto split: option.splits)
next
  case (Cons c calls)
  obtain now key where c: "c = (now, key)" by (cases c)
  let ?wl' = "snd (should_log now key wl)"
  have key: "key \<in> K" using Cons.prems(5) c by auto
  note tab = should_log_table [OF key Cons.prems(1-4), of now]
  have wf': "distinct (map fst (wl_last_logged_at ?wl'))" "fst ` set (wl_last_logged_at ?wl') \<subseteq> K"
    using Cons.prems(3,4) key by (auto simp: tab distinct_update dom_update)
  have IH: "spaced (wl_interval_seconds wl)
    ((case map_of (wl_last_logged_at ?wl') k of None \<Rightarrow> [] | Some p \<Rightarrow> [p]) @
      logged_times k calls (fst (limiter_run calls ?wl')))"
    using Cons.IH [of ?wl'] Cons.prems wf' by simp
  show ?case
  proof (cases "fst (should_log now key wl) \<and> key = k")
    case True
    then have "map_of (wl_last_logged_at ?wl') k = Some now"
      using tab by (auto simp: update_conv)
    with IH True show ?thesis
      by (auto simp: c case_prod_beta Let_def should_log_answer split: option.splits)
  next
    case False
    then have "map_of (wl_last_logged_at ?wl') k = map_of (wl_last_logged_at wl) k"
      by (auto simp: tab update_conv)
    with IH False show ?thesis
      by (auto simp: c case_prod_beta Let_def)
  qed
qed

text \<open>
  Rate limiting holds as long as the calls use at most \<open>max_keys\<close> different keys: two
  consecutive warnings logged under one key are at least the interval apart, whatever the
  order of the calls.
\<close>
theorem limiter_rate:
  assumes "new_limiter i n = Inr wl"
    and "int (card (snd ` set calls)) \<le> n"
  shows "spaced i (logged_times k calls (fst (limiter_run calls wl)))"
proof -
  from assms(1) have wl: "wl = \<lparr>wl_interval_seconds = i, wl_max_keys = n, wl_last_logged_at = []\<rparr>"
    by (auto simp: new_limiter_def split: if_splits)
  show ?thesis
    using limiter_spacing [of "snd ` set calls" wl calls k] assms(2) by (simp add: wl)
qed

theorem limiter_rate_witness:
  "let calls = [(0, ''a''), (1, ''b''), (2, ''a''), (6, ''a'')]
   in spaced 5 (logged_times ''a'' calls
        (fst (limiter_run calls \<lparr>wl_interval_seconds = 5, wl_max_keys = 2, wl_last_logged_at = []\<rparr>)))"
  using limiter_rate [of 5 2 "\<lparr>wl_interval_seconds = 5, wl_max_keys = 2, wl_last_logged_at = []\<rparr>"
      "[(0, ''a''), (1, ''b''), (2, ''a''), (6, ''a'')]" "''a''"]
  by (simp add: new_limiter_def card_insert_if Let_def del: limiter_run.simps logged_times.simps)

text \<open>
  The limiter's memory is bounded: after any sequence of calls it tracks at most
  \<open>max_keys\<close> keys, each once.  (It evicts the key inserted first, even when that key was
  updated last, as the second part shows: with two keys allowed, logging under ''a'', ''b'',
  ''a'' again and then ''c'' forgets ''a'', not ''b''.)
\<close>
theorem limiter_bounded:
  "(case new_limiter i n of
      Inl e \<Rightarrow> i \<le> 0 \<or> n < 1
    | Inr wl \<Rightarrow> (let al = wl_last_logged_at (snd (limiter_run calls wl))
                in int (length al) \<le> n \<and> distinct (map fst al))) \<and>
   map fst (wl_last_logged_at (snd (limiter_run [(0, ''a''), (1, ''b''), (10, ''a''), (11, ''c'')]
     \<lparr>wl_interval_seconds = 5, wl_max_keys = 2, wl_last_logged_at = []\<rparr>))) = [''b'', ''c'']"
proof -
  have "case new_limiter i n of
      Inl e \<Rightarrow> i \<le> 0 \<or> n < 1
    | Inr wl \<Rightarrow> (let al = wl_last_logged_at (snd (limiter_run calls wl))
                in int (length al) \<le> n \<and> distinct (map fst al))"
    using limiter_run_keeps
      [of "\<lparr>wl_interval_seconds = i, wl_max_keys = n, wl_last_logged_at = []\<rparr>" calls]
    by (auto simp: new_limiter_def limiter_inv_def Let_def)
  then show ?thesis by (simp add: should_log_def Let_def)
qed

section \<open>Reconnect backoff\<close>

text \<open>The number a settings field holds, as arithmetic uses it.\<close>

fun num_of :: "pyval \<Rightarrow> rat" where
  "num_of (PInt n) = of_int n"
| "num_of (PFloat (Finite q)) = q"
| "num_of _ = 0"

fun jitter_of :: "pyval \<Rightarrow> reconnect_jitter option" where
  "jitter_of (PEnum (EJitter j)) = Some j"
| "jitter_of _ = None"

record reconnect_backoff =
  rb_settings :: tcp_reconnect_settings
  rb_current_delay :: rat

definition new_backoff :: "tcp_reconnect_settings \<Rightarrow> exn + reconnect_backoff" where
  "new_backoff settings =
     bindR (reconnect_validate settings) (\<lambda>_.
       Inr \<lparr>rb_settings = settings, rb_current_delay = num_of (rs_initial_delay_seconds settings)\<rparr>)"

definition backoff_reset :: "reconnect_backoff \<Rightarrow> reconnect_backoff" where
  "backoff_reset rb = rb\<lparr>rb_current_delay := num_of (rs_initial_delay_seconds (rb_settings rb))\<rparr>"

text \<open>\<open>random.uniform(a, b)\<close> is \<open>a + (b - a) * draw\<close> with a draw from \<open>[0, 1]\<close>.\<close>

definition uniform :: "rat \<Rightarrow> rat \<Rightarrow> rat \<Rightarrow> rat" where
  "uniform draw a b = a + (b - a) * draw"

definition apply_jitter :: "rat \<Rightarrow> reconnect_backoff \<Rightarrow> rat \<Rightarrow> rat" where
  "apply_jitter draw rb delay =
     (case jitter_of (rs_jitter (rb_settings rb)) of
        Some JITTER_NONE \<Rightarrow> delay
      | Some JITTER_FULL \<Rightarrow> uniform draw 0 delay
      | Some JITTER_EQUAL \<Rightarrow> delay / 2 + uniform draw 0 (delay / 2)
      | None \<Rightarrow> delay)"

definition next_delay :: "rat \<Rightarrow> reconnect_backoff \<Rightarrow> rat \<times> reconnect_backoff" where
  "next_delay draw rb =
     (apply_jitter draw rb (rb_current_delay rb),
      rb\<lparr>rb_current_delay := min (rb_current_delay rb * num_of (rs_backoff_factor (rb_settings rb)))
                                 (num_of (rs_max_delay_seconds (rb_settings rb)))\<rparr>)"

fun delays :: "rat list \<Rightarrow> reconnect_backoff \<Rightarrow> rat list" where
  "delays [] rb = []"
| "delays (draw # draws) rb = (let (d, rb') = next_delay draw rb in d # delays draws rb')"

text \<open>The undisturbed delay before attempt \<open>n\<close>.\<close>

definition base_delay :: "tcp_reconnect_settings \<Rightarrow> nat \<Rightarrow> rat" where
  "base_delay s n =
     (if n = 0 then num_of (rs_initial_delay_seconds s)
      else min (num_of (rs_initial_delay_seconds s) * num_of (rs_backoff_factor s) ^ n)
               (num_of (rs_max_delay_seconds s)))"

lemma float_of_num_pos:
  assumes "float_of v = Some (Inr (Finite x))" "0 < x"
  shows "0 < num_of v"
proof (cases v)
  case (PInt n)
  then show ?thesis
    using assms by (auto simp: float_of_int_def Let_def zero_less_mult_iff split: if_splits)
next
  case (PFloat f)
  then show ?thesis using assms by simp
qed (use assms in auto)

lemma float_of_num_ge_1:
  assumes "float_of v = Some (Inr (Finite x))" "1 \<le> x"
  shows "1 \<le> num_of v"
proof (cases v)
  case (PInt n)
  then have "0 < (of_int n :: rat)" using float_of_num_pos [OF assms(1)] assms(2) by simp
  then show ?thesis using PInt by simp
next
  case (PFloat f)
  then show ?thesis using assms by simp
qed (use assms in auto)

lemma wf_reconnect_nums:
  assumes "wf_reconnect s"
  shows "0 < num_of (rs_initial_delay_seconds s)" "0 < num_of (rs_max_delay_seconds s)"
    "1 \<le> num_of (rs_backoff_factor s)"
  using assms float_of_num_pos float_of_num_ge_1
  by (fastforce simp: wf_reconnect_def)+

lemma base_delay_Suc:
  assumes "wf_reconnect s"
  shows "base_delay s (Suc n) =
    min (base_delay s n * num_of (rs_backoff_factor s)) (num_of (rs_max_delay_seconds s))"
proof (cases n)
  case 0
  then show ?thesis by (simp add: base_delay_def)
next
  case (Suc k)
  let ?f = "num_of (rs_backoff_factor s)" and ?m = "num_of (rs_max_delay_seconds s)"
  let ?a = "num_of (rs_initial_delay_seconds s) * ?f ^ n"
  have "0 \<le> ?f" using wf_reconnect_nums(3) [OF assms] by simp
  then have "min ?a ?m * ?f = min (?a * ?f) (?m * ?f)"
    by (cases rule: linorder_le_cases [of ?a ?m])
      (simp_all only: min_absorb1 min_absorb2 mult_right_mono)
  moreover have "?m \<le> ?m * ?f"
    using wf_reconnect_nums(2,3) [OF assms] by simp
  ultimately show ?thesis using Suc by (auto simp: base_delay_def min_def mult_ac)
qed

lemma base_delay_pos: "wf_reconnect s \<Longrightarrow> 0 < base_delay s n"
  using wf_reconnect_nums [of s] by (auto simp: base_delay_def)

lemma delays_nth:
  assumes "wf_reconnect s" "n < length draws" "rb = \<lparr>rb_settings = s, rb_current_delay = base_delay s m\<rparr>"
  shows "delays draws rb ! n = apply_jitter (draws ! n) rb (base_delay s (m + n))"
  using assms(2,3)
proof (induction draws arbitrary: n m rb)
  case (Cons draw draws)
  have next': "next_delay draw \<lparr>rb_settings = s, rb_current_delay = base_delay s m\<rparr> =
      (apply_jitter draw \<lparr>rb_settings = s, rb_current_delay = base_delay s m\<rparr> (base_delay s m),
       \<lparr>rb_settings = s, rb_current_delay = base_delay s (Suc m)\<rparr>)"
    by (simp add: next_delay_def base_delay_Suc [OF assms(1)])
  show ?case
  proof (cases n)
    case 0
    then show ?thesis by (simp add: next' Cons.prems(2))
  next
    case (Suc k)
    then show ?thesis
      using Cons.IH [of k "\<lparr>rb_settings = s, rb_current_delay = base_delay s (Suc m)\<rparr>" "Suc m"]
        Cons.prems by (simp add: next' apply_jitter_def)
  qed
qed simp

lemma apply_jitter_bounds:
  assumes "0 \<le> draw" "draw \<le> 1" "0 \<le> d"
  shows "0 \<le> apply_jitter draw rb d \<and> apply_jitter draw rb d \<le> d"
proof -
  have "d * draw \<le> d * 1" "d / 2 * draw \<le> d / 2 * 1"
    using assms by (intro mult_left_mono; simp)+
  moreover have "0 \<le> d * draw" "0 \<le> d / 2 * draw" using assms by simp_all
  ultimately show ?thesis
    using assms(3)
    by (auto simp: apply_jitter_def uniform_def split: option.splits reconnect_jitter.splits)
qed

text \<open>
  C34: Exponential backoff: settings that validate give the delays
  \<open>initial, min(initial * factor, max), min(initial * factor^2, max), ...\<close>, each passed through
  the jitter rule; a jittered delay never exceeds the undisturbed one, which stays positive,
  and \<open>reset\<close> starts over.
\<close>
theorem backoff_delays:
  assumes "new_backoff s = Inr rb" "n < length draws" "0 \<le> draws ! n" "draws ! n \<le> 1"
  shows "delays draws rb ! n = apply_jitter (draws ! n) rb (base_delay s n) \<and>
    0 \<le> delays draws rb ! n \<and> delays draws rb ! n \<le> base_delay s n \<and> 0 < base_delay s n \<and>
    backoff_reset (snd (next_delay u rb)) = rb"
proof -
  from assms(1) have wf: "wf_reconnect s"
    and rb: "rb = \<lparr>rb_settings = s, rb_current_delay = base_delay s 0\<rparr>"
    by (auto simp: new_backoff_def bindR_Inr reconnect_validate_iff base_delay_def)
  have eq: "delays draws rb ! n = apply_jitter (draws ! n) rb (base_delay s n)"
    using delays_nth [OF wf assms(2) rb] by simp
  moreover have "backoff_reset (snd (next_delay u rb)) = rb"
    by (simp add: backoff_reset_def next_delay_def rb base_delay_def)
  ultimately show ?thesis
    using apply_jitter_bounds [OF assms(3,4), of "base_delay s n" rb] base_delay_pos [OF wf, of n]
    by simp
qed

theorem backoff_delays_witness:
  "delays [0, 0, 0, 0, 0, 0] \<lparr>rb_settings = default_reconnect, rb_current_delay = 1\<rparr> ! 5 = 30"
proof -
  have "wf_reconnect default_reconnect"
    by (auto simp: wf_reconnect_def default_reconnect_def)
  then have "new_backoff default_reconnect = Inr \<lparr>rb_settings = default_reconnect, rb_current_delay = 1\<rparr>"
    by (simp add: new_backoff_def reconnect_validate_iff [symmetric] default_reconnect_def)
  then show ?thesis
    using backoff_delays [of default_reconnect
        "\<lparr>rb_settings = default_reconnect, rb_current_delay = 1\<rparr>" 5 "[0, 0, 0, 0, 0, 0]"]
    by (simp add: apply_jitter_def default_reconnect_def base_delay_def)
qed

section \<open>Owner loop\<close>

text \<open>
  Event loops are numbered; the running loop is None in a thread without one.  The result is
  the loop to pin.
\<close>

definition assert_running_on_owner_loop ::
    "string \<Rightarrow> nat option \<Rightarrow> nat option \<Rightarrow> exn + nat" where
  "assert_running_on_owner_loop class_name running_loop owner_loop =
     (case running_loop of
        None \<Rightarrow> Inl (Exn RuntimeError class_name)
      | Some current_loop \<Rightarrow>
          (if owner_loop \<noteq> None \<and> owner_loop \<noteq> Some current_loop
           then Inl (Exn RuntimeError class_name)
           else Inr current_loop))"

section \<open>User-supplied objects\<close>

text \<open>
  What \<open>getattr(obj, name, None)\<close> finds: nothing, a value that is not callable, or a callable
  for which \<open>inspect.iscoroutinefunction\<close> holds of itself or of its \<open>__call__\<close>.
\<close>

datatype attribute = Missing | NotCallable | IsCallable bool bool

definition async_callable :: "attribute \<Rightarrow> exn + unit" where
  "async_callable a =
     (case a of
        Missing \<Rightarrow> Inl (Exn TypeError ''callable'')
      | NotCallable \<Rightarrow> Inl (Exn TypeError ''callable'')
      | IsCallable itself call \<Rightarrow>
          (if \<not> (itself \<or> call) then Inl (Exn TypeError ''async'') else Inr ()))"

definition validate_async_event_handler :: "attribute \<Rightarrow> exn + unit" where
  "validate_async_event_handler on_event = async_callable on_event"

text \<open>The provider is None or an object with its \<open>create_heartbeat\<close> attribute.\<close>

definition validate_heartbeat_provider ::
    "heartbeat_settings \<Rightarrow> attribute option \<Rightarrow> exn + unit" where
  "validate_heartbeat_provider settings provider =
     (if truthy (hs_enabled settings) \<and> provider = None
      then Inl (Exn HeartbeatConfigurationError ''heartbeat_provider'')
      else case provider of None \<Rightarrow> Inr () | Some create_heartbeat \<Rightarrow> async_callable create_heartbeat)"

datatype socket_option = SO_REUSEADDR | SO_EXCLUSIVEADDRUSE | SO_BROADCAST | SO_REUSEPORT

text \<open>The options set on the socket, given the platform and what the socket module offers.\<close>

definition configure_listener_bind_socket :: "bool \<Rightarrow> bool \<Rightarrow> bool \<Rightarrow> socket_option list" where
  "configure_listener_bind_socket is_win32 has_exclusive allow_address_reuse =
     (if is_win32 \<and> \<not> allow_address_reuse \<and> has_exclusive then [SO_EXCLUSIVEADDRUSE]
      else if allow_address_reuse then [SO_REUSEADDR] else [])"

lemma validate_heartbeat_provider_enabled:
  "validate_heartbeat_provider s p = Inr () \<Longrightarrow> truthy (hs_enabled s) \<Longrightarrow>
     \<exists>itself call. p = Some (IsCallable itself call) \<and> (itself \<or> call)"
  by (simp add: validate_heartbeat_provider_def async_callable_def
      split: option.splits attribute.splits if_splits)

end
