(* ===== verification/Await_Loops.thy ===== *)
theory Await_Loops
  imports Runtime_Utils
begin

text \<open>
  The three loops that await a shielded task or future without losing a cancellation of the
  caller: \<open>await_task_completion_preserving_cancellation\<close> and
  \<open>await_future_completion_preserving_cancellation\<close> of \<^verbatim>\<open>runtime_utils.py\<close>, and the waiting
  part of \<open>AsyncioEventDispatcher.emit_and_wait\<close>.  A loop runs over the list of its wake-ups,
  each the outcome of one \<open>await asyncio.shield(...)\<close>; None is a loop that still waits when
  the list ends.
\<close>

text \<open>State of an asyncio future or task: pending, or finished with an exception or normally.\<close>

datatype future_state = Pending | Done "exn + unit"

fun is_done :: "future_state \<Rightarrow> bool" where
  "is_done Pending = False"
| "is_done (Done _) = True"

text \<open>
  One wake-up: what the await raises, the state of the awaited object at that moment, and
  whether \<open>Task.cancelling()\<close> of the caller is positive.
\<close>

record wake =
  wk_raised :: "exn option"
  wk_future :: future_state
  wk_cancelling :: bool

text \<open>
  What \<open>asyncio.shield\<close> guarantees of a wake-up: without an exception the inner object
  finished normally; an exception other than the cancellation of the caller is its own.
\<close>

definition shielded :: "wake \<Rightarrow> bool" where
  "shielded w = (case wk_raised w of
     None \<Rightarrow> wk_future w = Done (Inr ())
   | Some e \<Rightarrow> is_cancelled e \<and> wk_cancelling w \<or> wk_future w = Done (Inl e))"

text \<open>The wake-up delivers a cancellation of the caller.\<close>

definition interrupts :: "wake \<Rightarrow> bool" where
  "interrupts w = (case wk_raised w of None \<Rightarrow> False | Some e \<Rightarrow> is_cancelled e \<and> wk_cancelling w)"

definition finish :: "bool \<Rightarrow> exn + unit" where
  "finish caller_cancelled = (if caller_cancelled then Inl cancelled else Inr ())"

fun await_task_loop :: "bool \<Rightarrow> wake list \<Rightarrow> ((exn + unit) \<times> wake list) option" where
  "await_task_loop caller_cancelled [] = None"
| "await_task_loop caller_cancelled (w # ws) =
     (case wk_raised w of
        None \<Rightarrow> Some (finish caller_cancelled, ws)
      | Some e \<Rightarrow>
          if is_cancelled e then
            if wk_cancelling w then
              if is_done (wk_future w) then Some (finish True, ws) else await_task_loop True ws
            else Some (finish caller_cancelled, ws)
          else Some (Inl e, ws))"

text \<open>\<open>future.result()\<close> followed by the final \<open>if caller_cancelled\<close>.\<close>

fun settle :: "future_state \<Rightarrow> bool \<Rightarrow> exn + unit" where
  "settle (Done (Inl e)) caller_cancelled = Inl e"
| "settle (Done (Inr u)) caller_cancelled = finish caller_cancelled"
| "settle Pending caller_cancelled = Inl (Exn (OtherException ''InvalidStateError'') '''')"

fun await_future_loop :: "bool \<Rightarrow> wake list \<Rightarrow> ((exn + unit) \<times> wake list) option" where
  "await_future_loop caller_cancelled [] = None"
| "await_future_loop caller_cancelled (w # ws) =
     (case wk_raised w of
        None \<Rightarrow> Some (settle (wk_future w) caller_cancelled, ws)
      | Some e \<Rightarrow>
          if is_cancelled e then
            if wk_cancelling w then
              if is_done (wk_future w) then Some (settle (wk_future w) True, ws)
              else await_future_loop True ws
            else Some (Inl e, ws)
          else Some (Inl e, ws))"

text \<open>The loop of \<open>emit_and_wait\<close> does not consult \<open>cancelling()\<close>.\<close>

fun emit_wait_loop :: "bool \<Rightarrow> wake list \<Rightarrow> ((exn + unit) \<times> wake list) option" where
  "emit_wait_loop caller_cancelled [] = None"
| "emit_wait_loop caller_cancelled (w # ws) =
     (case wk_raised w of
        None \<Rightarrow> Some (settle (wk_future w) caller_cancelled, ws)
      | Some e \<Rightarrow>
          if is_cancelled e then
            if is_done (wk_future w) then Some (settle (wk_future w) True, ws)
            else emit_wait_loop True ws
          else Some (Inl e, ws))"

section \<open>What the loops share\<close>

lemma shielded_None: "shielded w \<Longrightarrow> wk_raised w = None \<Longrightarrow> wk_future w = Done (Inr ())"
  by (simp add: shielded_def)

lemma shielded_other:
  "shielded w \<Longrightarrow> wk_raised w = Some e \<Longrightarrow> \<not> (is_cancelled e \<and> wk_cancelling w) \<Longrightarrow>
     wk_future w = Done (Inl e)"
  by (simp add: shielded_def)

lemma shielded_pending:
  "shielded w \<Longrightarrow> \<not> is_done (wk_future w) \<Longrightarrow>
     \<exists>e. wk_raised w = Some e \<and> is_cancelled e \<and> wk_cancelling w"
  by (auto simp: shielded_def split: option.splits)

lemma pending_interrupts: "shielded w \<Longrightarrow> \<not> is_done (wk_future w) \<Longrightarrow> interrupts w"
  by (auto simp: interrupts_def dest: shielded_pending)

text \<open>
  The contract of a cancellation-preserving wait: it skips every wake-up at which the object
  is still pending, remembering that the caller was cancelled, and decides at the first one
  at which the object is done.
\<close>

locale preserving_wait =
  fixes loop :: "bool \<Rightarrow> wake list \<Rightarrow> ((exn + unit) \<times> wake list) option"
    and decide :: "bool \<Rightarrow> wake \<Rightarrow> exn + unit"
  assumes exhausted: "loop c [] = None"
    and pending: "shielded w \<Longrightarrow> \<not> is_done (wk_future w) \<Longrightarrow> loop c (w # ws) = loop True ws"
    and settled: "shielded w \<Longrightarrow> is_done (wk_future w) \<Longrightarrow>
      loop c (w # ws) = Some (decide c w, ws)"
begin

lemma waits: "list_all shielded ws \<Longrightarrow> list_all (\<lambda>w. \<not> is_done (wk_future w)) ws \<Longrightarrow> loop c ws = None"
  by (induction ws arbitrary: c) (auto simp: exhausted pending)

lemma skips:
  "list_all shielded pre \<Longrightarrow> list_all (\<lambda>w. \<not> is_done (wk_future w)) pre \<Longrightarrow>
     loop c (pre @ ws) = loop (c \<or> pre \<noteq> []) ws"
  by (induction pre arbitrary: c) (auto simp: pending)

lemma decides:
  assumes "list_all shielded (pre @ [w])" "list_all (\<lambda>w. \<not> is_done (wk_future w)) pre"
    and "is_done (wk_future w)"
  shows "loop c (pre @ w # ws) = Some (decide (c \<or> pre \<noteq> []) w, ws)"
  using assms by (simp add: skips settled)

lemma returns_iff:
  assumes "list_all shielded ws"
  shows "loop c ws \<noteq> None \<longleftrightarrow> list_ex (\<lambda>w. is_done (wk_future w)) ws"
  using assms
proof (induction ws arbitrary: c)
  case (Cons w ws)
  then show ?case
    by (cases "is_done (wk_future w)") (auto simp: settled pending)
qed (simp add: exhausted)

end

definition decide_task :: "bool \<Rightarrow> wake \<Rightarrow> exn + unit" where
  "decide_task c w = (case wk_raised w of
     None \<Rightarrow> finish c
   | Some e \<Rightarrow> if is_cancelled e then finish (c \<or> wk_cancelling w) else Inl e)"

definition decide_future :: "bool \<Rightarrow> wake \<Rightarrow> exn + unit" where
  "decide_future c w = settle (wk_future w) (c \<or> interrupts w)"

interpretation tw: preserving_wait await_task_loop decide_task
proof
  fix w c ws
  assume "shielded w" "\<not> is_done (wk_future w)"
  then show "await_task_loop c (w # ws) = await_task_loop True ws"
    using shielded_pending by fastforce
qed (auto simp: decide_task_def split: option.splits)

interpretation fw: preserving_wait await_future_loop decide_future
proof
  fix w c ws
  assume "shielded w" "\<not> is_done (wk_future w)"
  then show "await_future_loop c (w # ws) = await_future_loop True ws"
    using shielded_pending by fastforce
qed (auto simp: decide_future_def interrupts_def shielded_def split: option.splits)

interpretation ew: preserving_wait emit_wait_loop decide_future
proof
  fix w c ws
  assume "shielded w" "\<not> is_done (wk_future w)"
  then show "emit_wait_loop c (w # ws) = emit_wait_loop True ws"
    using shielded_pending by fastforce
qed (auto simp: decide_future_def interrupts_def shielded_def split: option.splits)

text \<open>
  Shutdown code that awaits a child task never abandons it and never loses a cancellation
  of its caller: however often the caller is cancelled, the wait goes on until the child is
  done; it then re-raises the cancellation exactly when one arrived, swallows the child's own
  CancelledError, and passes on any other exception of the child.
\<close>
theorem await_task_preserves_cancellation:
  assumes "list_all shielded (pre @ [w])" "list_all (\<lambda>w. \<not> is_done (wk_future w)) pre"
    and "is_done (wk_future w)"
  shows "await_task_loop False (pre @ w # ws) =
    Some (case wk_raised w of
            None \<Rightarrow> finish (pre \<noteq> [])
          | Some e \<Rightarrow> if is_cancelled e then finish (pre \<noteq> [] \<or> wk_cancelling w) else Inl e, ws)
    \<and> await_task_loop False pre = None"
  using tw.decides [OF assms, of False ws] tw.waits [of pre False] assms
  by (simp add: decide_task_def)

theorem await_task_preserves_cancellation_witness:
  "await_task_loop False
     [\<lparr>wk_raised = Some cancelled, wk_future = Pending, wk_cancelling = True\<rparr>,
      \<lparr>wk_raised = Some cancelled, wk_future = Pending, wk_cancelling = True\<rparr>,
      \<lparr>wk_raised = Some cancelled, wk_future = Done (Inl cancelled), wk_cancelling = True\<rparr>] =
   Some (Inl cancelled, [])"
  using await_task_preserves_cancellation
    [of "[\<lparr>wk_raised = Some cancelled, wk_future = Pending, wk_cancelling = True\<rparr>,
          \<lparr>wk_raised = Some cancelled, wk_future = Pending, wk_cancelling = True\<rparr>]"
        "\<lparr>wk_raised = Some cancelled, wk_future = Done (Inl cancelled), wk_cancelling = True\<rparr>" "[]"]
  by (simp add: shielded_def is_cancelled_def finish_def)

text \<open>
  Waiting for a shared future or for the completion barrier of an event gives the same
  outcome by both loops: the exception the future was settled with, else the caller's own
  cancellation if one arrived meanwhile, else success; and both wait exactly as long as the
  future is pending.
\<close>
theorem future_waits_agree:
  assumes "list_all shielded ws"
  shows "await_future_loop False ws = emit_wait_loop False ws \<and>
    (await_future_loop False ws \<noteq> None \<longleftrightarrow> list_ex (\<lambda>w. is_done (wk_future w)) ws) \<and>
    (case await_future_loop False ws of
       None \<Rightarrow> True
     | Some (r, rest) \<Rightarrow>
         (let used = take (length ws - length rest) ws
          in r = settle (wk_future (last used)) (list_ex interrupts used)))"
proof -
  have agree: "await_future_loop c ws = emit_wait_loop c ws" for c
    using assms
  proof (induction ws arbitrary: c)
    case (Cons w ws)
    then show ?case
      by (cases "is_done (wk_future w)") (simp_all add: fw.settled ew.settled fw.pending ew.pending
          del: await_future_loop.simps(2) emit_wait_loop.simps(2))
  qed simp
  have out: "case await_future_loop c ws of
       None \<Rightarrow> True
     | Some (r, rest) \<Rightarrow> length rest < length ws \<and>
         (let used = take (length ws - length rest) ws
          in r = settle (wk_future (last used)) (c \<or> list_ex interrupts used))" for c
    using assms
  proof (induction ws arbitrary: c)
    case (Cons w ws)
    show ?case
    proof (cases "is_done (wk_future w)")
      case True
      with Cons.prems show ?thesis by (simp add: fw.settled decide_future_def Suc_diff_le del: await_future_loop.simps(2))
    next
      case False
      with Cons.prems have i: "interrupts w" by (simp add: pending_interrupts)
      show ?thesis
        using Cons.IH [of True] Cons.prems False i
        by (cases "await_future_loop True ws")
          (auto simp: fw.pending Let_def Suc_diff_le simp del: await_future_loop.simps(2))
    qed
  qed simp
  show ?thesis
    using agree [of False] fw.returns_iff [OF assms, of False] out [of False]
    by (auto split: option.splits simp: Let_def)
qed

theorem future_waits_agree_witness:
  "emit_wait_loop False
     [\<lparr>wk_raised = Some cancelled, wk_future = Pending, wk_cancelling = True\<rparr>,
      \<lparr>wk_raised = None, wk_future = Done (Inr ()), wk_cancelling = True\<rparr>] =
   Some (Inl cancelled, [])"
  using future_waits_agree
    [of "[\<lparr>wk_raised = Some cancelled, wk_future = Pending, wk_cancelling = True\<rparr>,
          \<lparr>wk_raised = None, wk_future = Done (Inr ()), wk_cancelling = True\<rparr>]"]
  by (simp add: shielded_def is_cancelled_def finish_def)

end
