(* ===== verification/Identifiers.thy ===== *)
theory Identifiers
  imports Runtime_Utils
begin

text \<open>
  Models \<^verbatim>\<open>implementations/asyncio_impl/identifier_utils.py\<close>: the canonical component and
  connection identifiers.  An identifier is what the dispatcher, the connection tables and the
  events know a component by, so the lemmas say which identifiers can be equal.
\<close>

text \<open>
  \<open>peername\<close> metadata: a tuple whose items are text, ints or other objects (with what \<open>str\<close>
  and \<open>int\<close> make of them, None when \<open>int\<close> raises), or anything that is not a tuple.
\<close>

datatype peer_item = IStr string | IInt int | IOther string "int option"

datatype peer_info = NotTuple | PTuple "peer_item list"

fun str_item :: "peer_item \<Rightarrow> string" where
  "str_item (IStr s) = s"
| "str_item (IInt n) = show_int n"
| "str_item (IOther s _) = s"

definition host_port_or_default :: "peer_info \<Rightarrow> string \<Rightarrow> int \<Rightarrow> peer_item \<times> peer_item" where
  "host_port_or_default peer_info default_host default_port =
     (case peer_info of
        PTuple items \<Rightarrow> if length items \<ge> 2 then (items ! 0, items ! 1)
                        else (IStr default_host, IInt default_port)
      | NotTuple \<Rightarrow> (IStr default_host, IInt default_port))"

definition tcp_client_connection_id :: "string \<Rightarrow> int \<Rightarrow> peer_info \<Rightarrow> string" where
  "tcp_client_connection_id default_host default_port peer_info =
     (case host_port_or_default peer_info default_host default_port of
        (host, port) \<Rightarrow> ''tcp/client/'' @ str_item host @ ''/'' @ str_item port @ ''/connection'')"

definition tcp_client_component_id :: "string \<Rightarrow> int \<Rightarrow> string" where
  "tcp_client_component_id host port = ''tcp/client/'' @ host @ ''/'' @ show_int port"

definition tcp_server_connection_id :: "peer_info \<Rightarrow> int \<Rightarrow> string" where
  "tcp_server_connection_id peer_info sequence =
     (case peer_info of
        PTuple items \<Rightarrow>
          if length items \<ge> 2
          then ''tcp/server/'' @ str_item (items ! 0) @ ''/'' @ str_item (items ! 1) @
                 ''/connection/'' @ show_int sequence
          else ''tcp/server/unknown/unknown/connection/'' @ show_int sequence
      | NotTuple \<Rightarrow> ''tcp/server/unknown/unknown/connection/'' @ show_int sequence)"

definition tcp_server_component_id :: "string \<Rightarrow> int \<Rightarrow> string" where
  "tcp_server_component_id host port = ''tcp/server/'' @ host @ ''/'' @ show_int port"

definition udp_receiver_component_id :: "string \<Rightarrow> int \<Rightarrow> string" where
  "udp_receiver_component_id host port = ''udp/receiver/'' @ host @ ''/'' @ show_int port"

definition udp_sender_component_id :: "string \<Rightarrow> int \<Rightarrow> string" where
  "udp_sender_component_id local_host local_port =
     ''udp/sender/'' @ local_host @ ''/'' @ show_int local_port"

definition multicast_receiver_component_id :: "string \<Rightarrow> int \<Rightarrow> string" where
  "multicast_receiver_component_id group_ip port =
     ''udp/multicast/'' @ group_ip @ ''/'' @ show_int port"

section \<open>Segments\<close>

text \<open>The segments of an identifier, and its last one.\<close>

abbreviation segments :: "string \<Rightarrow> string list" where
  "segments \<equiv> split_on CHR ''/''"

lemma split_on_append_gen:
  "split_on d (s @ d # t) = split_on d s @ split_on d t"
proof (induction s)
  case (Cons c s)
  then show ?case
    by (cases "split_on d s") (auto split: list.splits)
qed simp

lemma last_segment: "CHR ''/'' \<notin> set w \<Longrightarrow> last (segments (h @ CHR ''/'' # w)) = w"
  by (simp add: split_on_append_gen split_on_no_sep)

lemma slash_inject [simp]:
  "h @ CHR ''/'' # show_int p = h' @ CHR ''/'' # show_int p' \<longleftrightarrow> h = h' \<and> p = p'"
proof
  assume eq: "h @ CHR ''/'' # show_int p = h' @ CHR ''/'' # show_int p'"
  have "show_int p = show_int p'"
    using last_segment [OF show_int_no_slash, of h p] last_segment [OF show_int_no_slash, of h' p']
    by (simp only: eq)
  with eq show "h = h' \<and> p = p'" by simp
qed simp

lemmas identifier_defs = tcp_client_connection_id_def tcp_client_component_id_def
  tcp_server_connection_id_def tcp_server_component_id_def udp_receiver_component_id_def
  udp_sender_component_id_def multicast_receiver_component_id_def

text \<open>A server connection identifier is a prefix, a slash and the sequence number.\<close>

lemma server_connection_id_suffix:
  "\<exists>h. tcp_server_connection_id peer n = ''tcp/server/'' @ h @ CHR ''/'' # show_int n"
proof -
  have "\<exists>h. ''tcp/server/'' @ a @ ''/'' @ b @ ''/connection/'' @ show_int n =
      ''tcp/server/'' @ h @ CHR ''/'' # show_int n" for a b
    by (rule exI [of _ "a @ ''/'' @ b @ ''/connection''"]) simp
  from this this [of "''unknown''" "''unknown''"] show ?thesis
    by (auto simp: tcp_server_connection_id_def split: peer_info.splits)
qed

lemma last_server_connection_id: "last (segments (tcp_server_connection_id peer n)) = show_int n"
proof -
  obtain h where h: "tcp_server_connection_id peer n = ''tcp/server/'' @ h @ CHR ''/'' # show_int n"
    using server_connection_id_suffix by blast
  show ?thesis
    using last_segment [OF show_int_no_slash, of "''tcp/server/'' @ h" n] by (simp add: h)
qed

lemma server_connection_id_sequence:
  "tcp_server_connection_id p m = tcp_server_connection_id q n \<Longrightarrow> m = n"
  using last_server_connection_id [of p m] last_server_connection_id [of q n] by simp

lemma last_client_connection_id:
  "last (segments (tcp_client_connection_id h p peer)) = ''connection''"
proof -
  have "last (segments ((''tcp/client/'' @ a @ ''/'' @ b) @ CHR ''/'' # ''connection'')) =
      ''connection''" for a b
    by (rule last_segment) simp
  then show ?thesis by (simp add: tcp_client_connection_id_def split: prod.splits)
qed

lemma show_int_not_connection: "show_int i \<noteq> ''connection''"
proof
  assume "show_int i = ''connection''"
  then have "show_nat (nat i) = ''connection''"
    by (simp add: show_int_def split: if_splits)
  then have "is_digit CHR ''c''" using show_nat_digits [of "nat i"] by simp
  then show False by (simp add: is_digit_def)
qed

text \<open>
  The sequence number of an accepted connection can be read back from its identifier,
  whatever the peer metadata was, so two connections a server numbers differently never share
  a key of its connection table.
\<close>
theorem server_connection_id_roundtrip:
  "last (segments (tcp_server_connection_id peer sequence)) = show_int sequence \<and>
   (tcp_server_connection_id peer sequence = tcp_server_connection_id peer sequence' \<longleftrightarrow>
      sequence = sequence')"
  using last_server_connection_id [of peer sequence] server_connection_id_sequence by blast

text \<open>
  Component identifiers identify: within a role they are equal only for equal host and
  port (no condition on the host text), the first two segments name the role, and a client's
  connection is never called like a component.
\<close>
theorem component_ids_injective:
  "(tcp_client_component_id h p = tcp_client_component_id h' p' \<longleftrightarrow> h = h' \<and> p = p') \<and>
   (tcp_server_component_id h p = tcp_server_component_id h' p' \<longleftrightarrow> h = h' \<and> p = p') \<and>
   (udp_receiver_component_id h p = udp_receiver_component_id h' p' \<longleftrightarrow> h = h' \<and> p = p') \<and>
   (udp_sender_component_id h p = udp_sender_component_id h' p' \<longleftrightarrow> h = h' \<and> p = p') \<and>
   (multicast_receiver_component_id h p = multicast_receiver_component_id h' p' \<longleftrightarrow>
      h = h' \<and> p = p') \<and>
   distinct (map (\<lambda>i. take 2 (segments i))
     [tcp_client_component_id h p, tcp_server_component_id h' p', udp_receiver_component_id h p,
      udp_sender_component_id h' p', multicast_receiver_component_id h p]) \<and>
   tcp_client_connection_id h p peer \<noteq> tcp_client_component_id h' p'"
proof -
  have seg: "segments (CHR ''t'' # CHR ''c'' # CHR ''p'' # CHR ''/'' # s) = ''tcp'' # segments s"
    "segments (CHR ''u'' # CHR ''d'' # CHR ''p'' # CHR ''/'' # s) = ''udp'' # segments s" for s
    using split_on_append [of "CHR ''/''" "''tcp''" s] split_on_append [of "CHR ''/''" "''udp''" s]
    by simp_all
  have seg2: "segments (''client/'' @ s) = ''client'' # segments s"
    "segments (''server/'' @ s) = ''server'' # segments s"
    "segments (''receiver/'' @ s) = ''receiver'' # segments s"
    "segments (''sender/'' @ s) = ''sender'' # segments s"
    "segments (''multicast/'' @ s) = ''multicast'' # segments s" for s
    using split_on_append [of "CHR ''/''" "''client''" s]
      split_on_append [of "CHR ''/''" "''server''" s]
      split_on_append [of "CHR ''/''" "''receiver''" s]
      split_on_append [of "CHR ''/''" "''sender''" s]
      split_on_append [of "CHR ''/''" "''multicast''" s] by simp_all
  have "take 2 (segments (tcp_client_component_id h p)) = [''tcp'', ''client'']"
    "take 2 (segments (tcp_server_component_id h' p')) = [''tcp'', ''server'']"
    "take 2 (segments (udp_receiver_component_id h p)) = [''udp'', ''receiver'']"
    "take 2 (segments (udp_sender_component_id h' p')) = [''udp'', ''sender'']"
    "take 2 (segments (multicast_receiver_component_id h p)) = [''udp'', ''multicast'']"
    using seg seg2 by (simp_all add: identifier_defs numeral_2_eq_2 del: split_on.simps)
  moreover have "tcp_client_connection_id h p peer \<noteq> tcp_client_component_id h' p'"
  proof
    assume eq: "tcp_client_connection_id h p peer = tcp_client_component_id h' p'"
    have "last (segments (tcp_client_component_id h' p')) = show_int p'"
      using last_segment [OF show_int_no_slash, of "''tcp/client/'' @ h'" p']
      by (simp add: tcp_client_component_id_def)
    then have "show_int p' = ''connection''"
      using eq last_client_connection_id by metis
    with show_int_not_connection show False by blast
  qed
  ultimately show ?thesis by (simp add: identifier_defs del: split_on.simps)
qed

end
