(* ===== verification/Dispatcher_State.thy ===== *)
theory Dispatcher_State
  imports Await_Loops Events
begin

text \<open>
  The state of \<open>AsyncioEventDispatcher\<close> (\<^verbatim>\<open>implementations/asyncio_impl/event_dispatcher.py\<close>),
  its queue items (\<^verbatim>\<open>_event_dispatcher_queue.py\<close>), its stop policy
  (\<^verbatim>\<open>_event_dispatcher_policy.py\<close>), and the context tokens by which a task learns whether it
  runs inside a handler of this dispatcher.  Tasks, dispatchers, futures and callbacks are
  numbered.  The immutable part of the object is \<open>disp_config\<close>, the mutable part the
  extensible record \<open>disp\<close>, which the transports extend.
\<close>

section \<open>Configuration and state\<close>

record stop_policy =
  sp_enabled :: bool
  sp_callback :: "nat option"

definition stop_policy_disabled :: stop_policy where
  "stop_policy_disabled = \<lparr>sp_enabled = False, sp_callback = None\<rparr>"

definition stop_policy_stop_component :: "nat \<Rightarrow> stop_policy" where
  "stop_policy_stop_component callback = \<lparr>sp_enabled = True, sp_callback = Some callback\<rparr>"

definition stop_policy_validate :: "stop_policy \<Rightarrow> exn + unit" where
  "stop_policy_validate sp =
     (if sp_enabled sp \<and> sp_callback sp = None
      then Inl (Exn ValueError ''DispatcherStopPolicy with enabled=True requires a callback.'')
      else if \<not> sp_enabled sp \<and> sp_callback sp \<noteq> None
      then Inl (Exn ValueError ''DispatcherStopPolicy with enabled=False must not provide a callback.'')
      else Inr ())"

record disp_config =
  dc_id :: nat
  dc_dispatch_mode :: event_dispatch_mode
  dc_backpressure_policy :: event_backpressure_policy
  dc_max_pending_events :: nat
  dc_failure_policy :: event_handler_failure_policy
  dc_error_source :: "string option"
  dc_stop_policy_enabled :: bool
  dc_stop_component_callback :: "nat option"

record queued_event =
  qe_event :: network_event
  qe_handled :: "nat option"
  qe_drop_on_backpressure :: bool

text \<open>
  The dispatcher object.  Futures of \<open>emit_and_wait\<close> are cells of \<open>d_futures\<close>, named by their
  index; \<open>d_delivered\<close> records, oldest first, the events handed to the user's \<open>on_event\<close>;
  \<open>d_cancelling\<close> holds the tasks with a cancellation in progress.
\<close>

record disp =
  d_worker_task :: "nat option"
  d_queue :: "queued_event list"
  d_stopping :: bool
  d_emit_calls_total :: nat
  d_enqueued_total :: nat
  d_handler_dispatch_attempts_total :: nat
  d_handler_failures_total :: nat
  d_inline_fallback_total :: nat
  d_dropped_backpressure_oldest_total :: nat
  d_dropped_backpressure_newest_total :: nat
  d_dropped_stop_phase_total :: nat
  d_queue_peak :: nat
  d_origin_tokens :: "nat set"
  d_origin_resources :: "nat \<rightharpoonup> string option"
  d_origin_owner_tasks :: "nat \<rightharpoonup> nat option"
  d_origin_child_provenance :: "nat set"
  d_next_origin_token :: nat
  d_context_waiter :: "nat option"
  d_bypass_tokens :: "nat set"
  d_bypass_owner_tasks :: "nat \<rightharpoonup> nat"
  d_next_bypass_token :: nat
  d_futures :: "future_state list"
  d_next_task :: nat
  d_cancelling :: "nat set"
  d_delivered :: "network_event list"

text \<open>\<open>__init__\<close>: the handler and the stop policy are checked before anything is stored.\<close>

definition disp_init ::
    "attribute \<Rightarrow> disp_config \<Rightarrow> stop_policy option \<Rightarrow> nat option \<Rightarrow> exn + (disp_config \<times> disp)" where
  "disp_init on_event cfg stop_policy stop_component_callback =
     bindR (validate_async_event_handler on_event) (\<lambda>_.
     if stop_policy \<noteq> None \<and> stop_component_callback \<noteq> None
     then Inl (Exn ValueError ''Provide either stop_policy or stop_component_callback, not both.'')
     else
       let policy = (case stop_policy of
             Some sp \<Rightarrow> sp
           | None \<Rightarrow> (case stop_component_callback of
               None \<Rightarrow> stop_policy_disabled
             | Some callback \<Rightarrow> stop_policy_stop_component callback))
       in bindR (stop_policy_validate policy) (\<lambda>_.
          Inr (cfg\<lparr>dc_stop_policy_enabled := sp_enabled policy,
                   dc_stop_component_callback := sp_callback policy\<rparr>,
               \<lparr>d_worker_task = None, d_queue = [], d_stopping = False, d_emit_calls_total = 0,
                d_enqueued_total = 0, d_handler_dispatch_attempts_total = 0,
                d_handler_failures_total = 0, d_inline_fallback_total = 0,
                d_dropped_backpressure_oldest_total = 0, d_dropped_backpressure_newest_total = 0,
                d_dropped_stop_phase_total = 0, d_queue_peak = 0, d_origin_tokens = {},
                d_origin_resources = Map.empty, d_origin_owner_tasks = Map.empty,
                d_origin_child_provenance = {}, d_next_origin_token = 0, d_context_waiter = None,
                d_bypass_tokens = {}, d_bypass_owner_tasks = Map.empty, d_next_bypass_token = 0,
                d_futures = [], d_next_task = 0, d_cancelling = {}, d_delivered = []\<rparr>)))"

text \<open>The \<open>stop_policy\<close> property.\<close>

definition disp_stop_policy :: "disp_config \<Rightarrow> stop_policy" where
  "disp_stop_policy cfg =
     \<lparr>sp_enabled = (dc_stop_policy_enabled cfg \<or> dc_stop_component_callback cfg \<noteq> None),
      sp_callback = dc_stop_component_callback cfg\<rparr>"

definition has_background_worker :: "'a disp_scheme \<Rightarrow> bool" where
  "has_background_worker s = (d_worker_task s \<noteq> None)"

definition accepting_background_events :: "'a disp_scheme \<Rightarrow> bool" where
  "accepting_background_events s = (\<not> d_stopping s)"

text \<open>\<open>runtime_stats\<close> (\<open>DispatcherRuntimeStats\<close>).\<close>

record dispatcher_runtime_stats =
  st_emit_calls_total :: nat
  st_enqueued_total :: nat
  st_handler_dispatch_attempts_total :: nat
  st_handler_failures_total :: nat
  st_inline_fallback_total :: nat
  st_dropped_backpressure_oldest_total :: nat
  st_dropped_backpressure_newest_total :: nat
  st_dropped_stop_phase_total :: nat
  st_queue_depth :: nat
  st_queue_peak :: nat

definition runtime_stats :: "'a disp_scheme \<Rightarrow> dispatcher_runtime_stats" where
  "runtime_stats s =
     \<lparr>st_emit_calls_total = d_emit_calls_total s, st_enqueued_total = d_enqueued_total s,
      st_handler_dispatch_attempts_total = d_handler_dispatch_attempts_total s,
      st_handler_failures_total = d_handler_failures_total s,
      st_inline_fallback_total = d_inline_fallback_total s,
      st_dropped_backpressure_oldest_total = d_dropped_backpressure_oldest_total s,
      st_dropped_backpressure_newest_total = d_dropped_backpressure_newest_total s,
      st_dropped_stop_phase_total = d_dropped_stop_phase_total s,
      st_queue_depth = length (d_queue s), st_queue_peak = d_queue_peak s\<rparr>"

section \<open>Queue items\<close>

text \<open>Settle the future of a queue item unless it has none or it is done already.\<close>

definition settle_queued_event :: "(exn + unit) \<Rightarrow> queued_event \<Rightarrow> 'a disp_scheme \<Rightarrow> 'a disp_scheme" where
  "settle_queued_event r qe s =
     (case qe_handled qe of
        None \<Rightarrow> s
      | Some f \<Rightarrow> if is_done (d_futures s ! f) then s
                  else s\<lparr>d_futures := (d_futures s)[f := Done r]\<rparr>)"

definition complete_queued_event :: "queued_event \<Rightarrow> 'a disp_scheme \<Rightarrow> 'a disp_scheme" where
  "complete_queued_event = settle_queued_event (Inr ())"

definition drop_queued_event :: "string \<Rightarrow> queued_event \<Rightarrow> 'a disp_scheme \<Rightarrow> 'a disp_scheme" where
  "drop_queued_event reason =
     settle_queued_event (Inl (Exn RuntimeError (''Queued event was '' @ reason @ ''.'')))"

definition fail_queued_event :: "exn \<Rightarrow> queued_event \<Rightarrow> 'a disp_scheme \<Rightarrow> 'a disp_scheme" where
  "fail_queued_event error = settle_queued_event (Inl error)"

section \<open>Context of the running task\<close>

text \<open>
  The current task (None outside a task) and the values it sees of the four context
  variables: pairs of a dispatcher and a task, or of a dispatcher and a token.
\<close>

record task_ctx =
  tc_task :: "nat option"
  tc_handler_dispatch :: "(nat \<times> nat) set"
  tc_handler_origin :: "(nat \<times> nat) set"
  tc_stop_await_bypass :: "(nat \<times> nat) set"
  tc_inline_dispatcher :: "nat set"

definition plain_ctx :: "nat option \<Rightarrow> task_ctx" where
  "plain_ctx t = \<lparr>tc_task = t, tc_handler_dispatch = {}, tc_handler_origin = {},
                  tc_stop_await_bypass = {}, tc_inline_dispatcher = {}\<rparr>"

text \<open>\<open>asyncio.create_task\<close> copies the context variables of the creator.\<close>

definition child_ctx :: "task_ctx \<Rightarrow> nat \<Rightarrow> task_ctx" where
  "child_ctx ctx t = ctx\<lparr>tc_task := Some t\<rparr>"

definition current_task_is_worker :: "task_ctx \<Rightarrow> 'a disp_scheme \<Rightarrow> bool" where
  "current_task_is_worker ctx s = (tc_task ctx \<noteq> None \<and> tc_task ctx = d_worker_task s)"

definition is_in_inline_dispatch_context :: "disp_config \<Rightarrow> task_ctx \<Rightarrow> bool" where
  "is_in_inline_dispatch_context cfg ctx = (dc_id cfg \<in> tc_inline_dispatcher ctx)"

definition current_task_has_handler_origin_context ::
    "disp_config \<Rightarrow> task_ctx \<Rightarrow> 'a disp_scheme \<Rightarrow> string option \<Rightarrow> bool" where
  "current_task_has_handler_origin_context cfg ctx s rid =
     (case tc_task ctx of
        None \<Rightarrow> False
      | Some t \<Rightarrow> \<exists>(origin_dispatcher_id, origin_token) \<in> tc_handler_origin ctx.
          origin_dispatcher_id = dc_id cfg \<and>
          origin_token \<in> d_origin_tokens s \<and>
          (Option.bind (d_origin_owner_tasks s origin_token) id = None \<or>
           Option.bind (d_origin_owner_tasks s origin_token) id = Some t) \<and>
          (rid = None \<or>
           Option.bind (d_origin_resources s origin_token) id = rid))"

definition current_task_is_dispatching_handler ::
    "disp_config \<Rightarrow> task_ctx \<Rightarrow> 'a disp_scheme \<Rightarrow> string option \<Rightarrow> bool" where
  "current_task_is_dispatching_handler cfg ctx s rid =
     (case tc_task ctx of
        None \<Rightarrow> False
      | Some t \<Rightarrow>
          (dc_id cfg, t) \<in> tc_handler_dispatch ctx \<and>
          (rid = None \<or> current_task_has_handler_origin_context cfg ctx s rid))"

definition current_task_inherits_handler_origin_context ::
    "disp_config \<Rightarrow> task_ctx \<Rightarrow> 'a disp_scheme \<Rightarrow> string option \<Rightarrow> bool" where
  "current_task_inherits_handler_origin_context cfg ctx s rid =
     (case tc_task ctx of
        None \<Rightarrow> False
      | Some t \<Rightarrow> \<exists>(origin_dispatcher_id, origin_token) \<in> tc_handler_origin ctx.
          origin_dispatcher_id = dc_id cfg \<and>
          origin_token \<in> d_origin_tokens s \<and>
          (origin_token \<in> d_origin_child_provenance s \<or>
           Option.bind (d_origin_owner_tasks s origin_token) id = Some t) \<and>
          (rid = None \<or>
           Option.bind (d_origin_resources s origin_token) id = rid))"

definition has_active_handler_context :: "'a disp_scheme \<Rightarrow> string option \<Rightarrow> bool" where
  "has_active_handler_context s rid =
     (case rid of
        None \<Rightarrow> d_origin_tokens s \<noteq> {}
      | Some r \<Rightarrow> Some r \<in> ran (d_origin_resources s))"

definition current_task_would_deliver_inline ::
    "disp_config \<Rightarrow> task_ctx \<Rightarrow> 'a disp_scheme \<Rightarrow> bool" where
  "current_task_would_deliver_inline cfg ctx s =
     (dc_dispatch_mode cfg = INLINE \<or> is_in_inline_dispatch_context cfg ctx \<or>
      current_task_is_worker ctx s \<or> \<not> has_background_worker s)"

definition is_in_stop_await_bypass_context ::
    "disp_config \<Rightarrow> task_ctx \<Rightarrow> 'a disp_scheme \<Rightarrow> bool" where
  "is_in_stop_await_bypass_context cfg ctx s =
     (case tc_task ctx of
        None \<Rightarrow> False
      | Some t \<Rightarrow> \<exists>(origin_dispatcher_id, origin_token) \<in> tc_stop_await_bypass ctx.
          origin_dispatcher_id = dc_id cfg \<and>
          origin_token \<in> d_bypass_tokens s \<and>
          d_bypass_owner_tasks s origin_token = Some t)"

section \<open>Entering and leaving contexts\<close>

text \<open>\<open>_notify_handler_context_changed\<close>: the waiter future is settled and forgotten.\<close>

definition notify_handler_context_changed :: "'a disp_scheme \<Rightarrow> 'a disp_scheme" where
  "notify_handler_context_changed s =
     (case d_context_waiter s of
        None \<Rightarrow> s
      | Some w \<Rightarrow>
          (if is_done (d_futures s ! w) then s
           else s\<lparr>d_futures := (d_futures s)[w := Done (Inr ())]\<rparr>)
          \<lparr>d_context_waiter := None\<rparr>)"

text \<open>The \<open>with\<close> part of \<open>_handler_dispatch_context\<close> for a running task.\<close>

definition enter_dispatch :: "disp_config \<Rightarrow> nat \<Rightarrow> string option \<Rightarrow> 'a disp_scheme \<Rightarrow> 'a disp_scheme" where
  "enter_dispatch cfg t rid s =
     (let token = Suc (d_next_origin_token s)
      in s\<lparr>d_next_origin_token := token,
           d_origin_tokens := insert token (d_origin_tokens s),
           d_origin_resources := (d_origin_resources s)(token \<mapsto> rid),
           d_origin_owner_tasks := (d_origin_owner_tasks s)(token \<mapsto> Some t),
           d_origin_child_provenance := insert token (d_origin_child_provenance s)\<rparr>)"

definition dispatch_ctx :: "disp_config \<Rightarrow> task_ctx \<Rightarrow> nat \<Rightarrow> nat \<Rightarrow> task_ctx" where
  "dispatch_ctx cfg ctx t token =
     ctx\<lparr>tc_handler_dispatch := insert (dc_id cfg, t) (tc_handler_dispatch ctx),
         tc_handler_origin := insert (dc_id cfg, token) (tc_handler_origin ctx)\<rparr>"

text \<open>The same for \<open>_handler_origin_context_only\<close>: no provenance for child tasks.\<close>

definition enter_origin_only ::
    "nat option \<Rightarrow> string option \<Rightarrow> 'a disp_scheme \<Rightarrow> 'a disp_scheme" where
  "enter_origin_only t rid s =
     (let token = Suc (d_next_origin_token s)
      in s\<lparr>d_next_origin_token := token,
           d_origin_tokens := insert token (d_origin_tokens s),
           d_origin_resources := (d_origin_resources s)(token \<mapsto> rid),
           d_origin_owner_tasks := (d_origin_owner_tasks s)(token \<mapsto> t)\<rparr>)"

definition origin_ctx :: "disp_config \<Rightarrow> task_ctx \<Rightarrow> nat \<Rightarrow> task_ctx" where
  "origin_ctx cfg ctx token =
     ctx\<lparr>tc_handler_origin := insert (dc_id cfg, token) (tc_handler_origin ctx)\<rparr>"

text \<open>The \<open>finally\<close> part of both.\<close>

definition exit_origin :: "nat \<Rightarrow> 'a disp_scheme \<Rightarrow> 'a disp_scheme" where
  "exit_origin token s =
     notify_handler_context_changed
       (s\<lparr>d_origin_tokens := d_origin_tokens s - {token},
          d_origin_resources := (d_origin_resources s)(token := None),
          d_origin_owner_tasks := (d_origin_owner_tasks s)(token := None),
          d_origin_child_provenance := d_origin_child_provenance s - {token}\<rparr>)"

definition with_handler_dispatch_context ::
    "disp_config \<Rightarrow> task_ctx \<Rightarrow> string option \<Rightarrow> (task_ctx \<Rightarrow> ('a disp_scheme, 'b) prog) \<Rightarrow>
     ('a disp_scheme, 'b) prog" where
  "with_handler_dispatch_context cfg ctx rid body s =
     (case tc_task ctx of
        None \<Rightarrow> body ctx s
      | Some t \<Rightarrow>
          (let token = Suc (d_next_origin_token s)
           in finallyE (body (dispatch_ctx cfg ctx t token)) (modifyE (exit_origin token))
                (enter_dispatch cfg t rid s)))"

definition with_handler_origin_context_only ::
    "disp_config \<Rightarrow> task_ctx \<Rightarrow> string option \<Rightarrow> (task_ctx \<Rightarrow> ('a disp_scheme, 'b) prog) \<Rightarrow>
     ('a disp_scheme, 'b) prog" where
  "with_handler_origin_context_only cfg ctx rid body s =
     (let token = Suc (d_next_origin_token s)
      in finallyE (body (origin_ctx cfg ctx token)) (modifyE (exit_origin token))
           (enter_origin_only (tc_task ctx) rid s))"

definition enter_bypass :: "task_ctx \<Rightarrow> 'a disp_scheme \<Rightarrow> 'a disp_scheme" where
  "enter_bypass ctx s =
     (let token = Suc (d_next_bypass_token s)
      in s\<lparr>d_next_bypass_token := token,
           d_bypass_tokens := insert token (d_bypass_tokens s),
           d_bypass_owner_tasks := (case tc_task ctx of
               None \<Rightarrow> d_bypass_owner_tasks s
             | Some t \<Rightarrow> (d_bypass_owner_tasks s)(token \<mapsto> t))\<rparr>)"

definition exit_bypass :: "nat \<Rightarrow> 'a disp_scheme \<Rightarrow> 'a disp_scheme" where
  "exit_bypass token s =
     s\<lparr>d_bypass_tokens := d_bypass_tokens s - {token},
       d_bypass_owner_tasks := (d_bypass_owner_tasks s)(token := None)\<rparr>"

definition with_stop_await_bypass_context ::
    "disp_config \<Rightarrow> task_ctx \<Rightarrow> (task_ctx \<Rightarrow> ('a disp_scheme, 'b) prog) \<Rightarrow>
     ('a disp_scheme, 'b) prog" where
  "with_stop_await_bypass_context cfg ctx body s =
     (let token = Suc (d_next_bypass_token s)
      in finallyE
           (body (ctx\<lparr>tc_stop_await_bypass := insert (dc_id cfg, token) (tc_stop_await_bypass ctx)\<rparr>))
           (modifyE (exit_bypass token)) (enter_bypass ctx s))"

definition with_inline_delivery_context ::
    "disp_config \<Rightarrow> task_ctx \<Rightarrow> (task_ctx \<Rightarrow> ('a disp_scheme, 'b) prog) \<Rightarrow> ('a disp_scheme, 'b) prog" where
  "with_inline_delivery_context cfg ctx body =
     body (ctx\<lparr>tc_inline_dispatcher := insert (dc_id cfg) (tc_inline_dispatcher ctx)\<rparr>)"

end
