(* ===== verification/Dispatcher.thy ===== *)
theory Dispatcher
  imports Dispatcher_State
begin

text \<open>
  The operations of \<open>AsyncioEventDispatcher\<close>.  Code between two awaits is a plain function of
  the state; a coroutine is a \<open>prog\<close> whose awaits are applications of an environment
  function \<open>env\<close> to an \<open>await_point\<close>: the user's handler, the stop callback, other tasks that
  run meanwhile.  The conditions' locks are held only across code that does not suspend, so
  acquiring one never suspends either and \<open>async with\<close> is not an await point; the \<open>wait()\<close> of
  a condition is.
\<close>

datatype await_point =
    A_handler task_ctx network_event
  | A_stop_callback nat task_ctx
  | A_queue_space
  | A_queue_item
  | A_worker nat
  | A_barrier nat
  | A_context_waiter nat
  | A_sleep rat
  | A_status_changed rat
  | A_connection_closed
  | A_task nat
  | A_future nat
  | A_futures "nat list"
  | A_open_connection
  | A_heartbeat_start nat
  | A_heartbeat_stop nat
  | A_provider string
  | A_send "nat list"
  | A_drain nat
  | A_read nat
  | A_writer_closed nat
  | A_sendto "nat list" string int
  | A_sock_sendto "nat list" string int
  | A_recv
  | A_recvfrom
  | A_start_server
  | A_server_closed nat
  | A_accepted_closed nat
  | A_gather "nat list"
  | A_lock
  | A_semaphore nat

type_synonym 's environment = "await_point \<Rightarrow> 's \<Rightarrow> exn option \<times> 's"

definition dropped_stopped :: string where
  "dropped_stopped = ''dropped because dispatcher stopped''"

definition dropped_backpressure :: string where
  "dropped_backpressure = ''dropped by backpressure''"

definition record_stop_phase_drop :: "'a disp_scheme \<Rightarrow> 'a disp_scheme" where
  "record_stop_phase_drop s = s\<lparr>d_dropped_stop_phase_total := Suc (d_dropped_stop_phase_total s)\<rparr>"

section \<open>The queue\<close>

datatype enqueue_result = Accepted | Discarded | Blocked

definition append_queued_event :: "queued_event \<Rightarrow> 'a disp_scheme \<Rightarrow> 'a disp_scheme" where
  "append_queued_event qe s =
     (let queue = d_queue s @ [qe]
      in s\<lparr>d_queue := queue, d_enqueued_total := Suc (d_enqueued_total s),
           d_queue_peak := max (d_queue_peak s) (length queue)\<rparr>)"

definition discard_newest :: "queued_event \<Rightarrow> 'a disp_scheme \<Rightarrow> 'a disp_scheme" where
  "discard_newest qe s =
     drop_queued_event dropped_backpressure qe
       (s\<lparr>d_dropped_backpressure_newest_total := Suc (d_dropped_backpressure_newest_total s)\<rparr>)"

text \<open>
  One pass of the loop of \<open>_enqueue\<close>, up to its \<open>break\<close> (\<open>Accepted\<close>), its \<open>return\<close>
  (\<open>Discarded\<close>) or its \<open>wait()\<close> (\<open>Blocked\<close>).
\<close>

definition enqueue_attempt ::
    "disp_config \<Rightarrow> queued_event \<Rightarrow> 'a disp_scheme \<Rightarrow> enqueue_result \<times> 'a disp_scheme" where
  "enqueue_attempt cfg qe s =
     (if \<not> accepting_background_events s
      then (Discarded, drop_queued_event dropped_stopped qe (record_stop_phase_drop s))
      else if length (d_queue s) < dc_max_pending_events cfg
      then (Accepted, append_queued_event qe s)
      else if dc_backpressure_policy cfg = BLOCK then (Blocked, s)
      else if dc_backpressure_policy cfg = DROP_OLDEST then
        (case find_index qe_drop_on_backpressure (d_queue s) of
           None \<Rightarrow>
             if \<not> qe_drop_on_backpressure qe then (Blocked, s)
             else (Discarded, discard_newest qe s)
         | Some i \<Rightarrow>
             (let dropped = d_queue s ! i;
                  s1 = drop_queued_event dropped_backpressure dropped
                         (s\<lparr>d_queue := del_at i (d_queue s)\<rparr>);
                  queue = d_queue s1 @ [qe]
              in (Accepted,
                  s1\<lparr>d_queue := queue,
                     d_dropped_backpressure_oldest_total :=
                       Suc (d_dropped_backpressure_oldest_total s1),
                     d_enqueued_total := Suc (d_enqueued_total s1),
                     d_queue_peak := max (d_queue_peak s1) (length queue)\<rparr>)))
      else if \<not> qe_drop_on_backpressure qe then (Blocked, s)
      else (Discarded, discard_newest qe s))"

partial_function (option) enqueue ::
    "'a disp_scheme environment \<Rightarrow> disp_config \<Rightarrow> queued_event \<Rightarrow> 'a disp_scheme \<Rightarrow>
     ((exn + unit) \<times> 'a disp_scheme) option" where
  "enqueue env cfg qe s =
     (case enqueue_attempt cfg qe s of (r, s1) \<Rightarrow>
        if r = Blocked then
          (case env A_queue_space s1 of (e, s2) \<Rightarrow>
             if e = None then enqueue env cfg qe s2 else Some (Inl (the e), s2))
        else Some (Inr (), s1))"

text \<open>\<open>drop_queued_events_for_resource\<close>, which never suspends.\<close>

definition drop_all :: "string \<Rightarrow> queued_event list \<Rightarrow> 'a disp_scheme \<Rightarrow> 'a disp_scheme" where
  "drop_all reason qes s = fold (drop_queued_event reason) qes s"

definition is_dropped_for :: "string \<Rightarrow> queued_event \<Rightarrow> bool" where
  "is_dropped_for rid qe = is_bytes_for rid (qe_event qe)"

definition drop_queued_events_for_resource ::
    "string \<Rightarrow> 'a disp_scheme \<Rightarrow> nat \<times> 'a disp_scheme" where
  "drop_queued_events_for_resource rid s =
     (let dropped_events = filter (is_dropped_for rid) (d_queue s);
          kept_events = filter (\<lambda>qe. \<not> is_dropped_for rid qe) (d_queue s)
      in if dropped_events = [] then (0, s)
         else (length dropped_events,
               drop_all (''dropped because resource '' @ rid @ '' closed'') dropped_events
                 (s\<lparr>d_queue := kept_events,
                    d_dropped_stop_phase_total :=
                      d_dropped_stop_phase_total s + length dropped_events\<rparr>)))"

section \<open>Delivery and handler failures\<close>

text \<open>
  The user's handler runs once per call of \<open>_emit_now\<close>; a CancelledError it raises by itself
  (its task is not being cancelled) is wrapped and treated as its failure.
\<close>

definition call_handler ::
    "'a disp_scheme environment \<Rightarrow> network_event \<Rightarrow> task_ctx \<Rightarrow> ('a disp_scheme, unit) prog" where
  "call_handler env event ctx =
     seqE (modifyE (\<lambda>s. s\<lparr>d_delivered := d_delivered s @ [event]\<rparr>)) (awaitE env (A_handler ctx event))"

definition is_task_being_cancelled :: "task_ctx \<Rightarrow> 'a disp_scheme \<Rightarrow> bool" where
  "is_task_being_cancelled ctx s =
     (case tc_task ctx of None \<Rightarrow> False | Some t \<Rightarrow> t \<in> d_cancelling s)"

definition handler_cancelled_error :: exn where
  "handler_cancelled_error = Exn HandlerCancelledError
     ''Network event handler raised asyncio.CancelledError without cancelling the dispatcher task.''"

definition event_source :: "disp_config \<Rightarrow> string" where
  "event_source cfg = (case dc_error_source cfg of
     None \<Rightarrow> ''event-dispatcher'' | Some s \<Rightarrow> if s = [] then ''event-dispatcher'' else s)"

fun is_network_error :: "network_event \<Rightarrow> bool" where
  "is_network_error (NetworkErrorEvent _ _) = True"
| "is_network_error _ = False"

fun is_policy_stop :: "network_event \<Rightarrow> bool" where
  "is_policy_stop (HandlerFailurePolicyStopEvent _ _ _ _ _) = True"
| "is_policy_stop _ = False"

text \<open>
  How often a failure of the handler of \<open>event\<close> can publish a further control event: the
  measure that bounds the mutual recursion below.
\<close>

definition failure_rank :: "disp_config \<Rightarrow> network_event \<Rightarrow> nat" where
  "failure_rank cfg event =
     (if dc_failure_policy cfg = EMIT_ERROR_EVENT then (if is_network_error event then 0 else 1)
      else if dc_failure_policy cfg = STOP_COMPONENT then (if is_policy_stop event then 0 else 1)
      else 0)"

definition run_stop_callback ::
    "'a disp_scheme environment \<Rightarrow> disp_config \<Rightarrow> task_ctx \<Rightarrow> string \<Rightarrow> nat \<Rightarrow> ('a disp_scheme, unit) prog" where
  "run_stop_callback env cfg ctx rid callback =
     with_stop_await_bypass_context cfg ctx (\<lambda>ctx1.
       with_handler_origin_context_only cfg ctx1 (Some rid) (\<lambda>ctx2.
         awaitE env (A_stop_callback callback ctx2)))"

lemma remaining_policy:
  "p \<noteq> LOG_ONLY \<Longrightarrow> p \<noteq> RAISE_IN_INLINE_MODE \<Longrightarrow> p \<noteq> EMIT_ERROR_EVENT \<Longrightarrow> p = STOP_COMPONENT"
  by (cases p) simp_all

function
  emit_now ::
    "'a disp_scheme environment \<Rightarrow> disp_config \<Rightarrow> task_ctx \<Rightarrow> network_event \<Rightarrow> ('a disp_scheme, unit) prog" and
  handle_handler_failure ::
    "'a disp_scheme environment \<Rightarrow> disp_config \<Rightarrow> task_ctx \<Rightarrow> exn \<Rightarrow> network_event \<Rightarrow> ('a disp_scheme, unit) prog" and
  emit_handler_failure_control_event ::
    "'a disp_scheme environment \<Rightarrow> disp_config \<Rightarrow> task_ctx \<Rightarrow> network_event \<Rightarrow> ('a disp_scheme, unit) prog" and
  emit ::
    "'a disp_scheme environment \<Rightarrow> disp_config \<Rightarrow> task_ctx \<Rightarrow> network_event \<Rightarrow> ('a disp_scheme, unit) prog"
where
  "emit_now env cfg ctx event =
     seqE (modifyE (\<lambda>s. s\<lparr>d_handler_dispatch_attempts_total :=
                            Suc (d_handler_dispatch_attempts_total s)\<rparr>))
       (tryE (with_handler_dispatch_context cfg ctx (Some (resource_id event)) (call_handler env event))
          (\<lambda>error. bindE (getsE (is_task_being_cancelled ctx)) (\<lambda>cancelling.
             if is_cancelled error \<and> cancelling \<or> \<not> is_caught error then raiseE error
             else seqE (modifyE (\<lambda>s. s\<lparr>d_handler_failures_total :=
                                        Suc (d_handler_failures_total s)\<rparr>))
                    (handle_handler_failure env cfg ctx
                       (if is_cancelled error then handler_cancelled_error else error) event))))"
| "handle_handler_failure env cfg ctx error event =
     (if dc_failure_policy cfg = LOG_ONLY then ret ()
      else if dc_failure_policy cfg = RAISE_IN_INLINE_MODE then
        (if dc_dispatch_mode cfg = INLINE then raiseE error else ret ())
      else if dc_failure_policy cfg = EMIT_ERROR_EVENT then
        (if is_network_error event then ret ()
         else emit_handler_failure_control_event env cfg ctx
                (NetworkErrorEvent (event_source cfg) error))
      else
        (case sp_callback (disp_stop_policy cfg) of
           None \<Rightarrow> ret ()
         | Some callback \<Rightarrow>
             if \<not> sp_enabled (disp_stop_policy cfg) then ret ()
             else if is_policy_stop event then ret ()
             else seqE
               (emit_handler_failure_control_event env cfg ctx
                 (HandlerFailurePolicyStopEvent (event_source cfg)
                    (event_type_name (type_of_event event)) error STOP_COMPONENT
                    (dc_dispatch_mode cfg)))
               (run_stop_callback env cfg ctx (resource_id event) callback)))"
| "emit_handler_failure_control_event env cfg ctx event =
     bindE (getsE (current_task_is_worker ctx)) (\<lambda>worker.
       if dc_dispatch_mode cfg = BACKGROUND \<and> worker then emit_now env cfg ctx event
       else emit env cfg ctx event)"
| "emit env cfg ctx event =
     seqE (modifyE (\<lambda>s. s\<lparr>d_emit_calls_total := Suc (d_emit_calls_total s)\<rparr>))
       (bindE (getsE (\<lambda>s. s)) (\<lambda>s.
          if dc_dispatch_mode cfg = INLINE then emit_now env cfg ctx event
          else if is_in_inline_dispatch_context cfg ctx then
            seqE (modifyE (\<lambda>s. s\<lparr>d_inline_fallback_total := Suc (d_inline_fallback_total s)\<rparr>))
              (emit_now env cfg ctx event)
          else if \<not> accepting_background_events s then modifyE record_stop_phase_drop
          else if current_task_is_worker ctx s \<or> \<not> has_background_worker s then
            seqE (modifyE (\<lambda>s. s\<lparr>d_inline_fallback_total := Suc (d_inline_fallback_total s)\<rparr>))
              (emit_now env cfg ctx event)
          else enqueue env cfg
                 \<lparr>qe_event = event, qe_handled = None, qe_drop_on_backpressure = True\<rparr>))"
  by pat_completeness auto

termination
  by (relation "measure (\<lambda>x. case x of
         Inl (Inl (_, cfg, _, event)) \<Rightarrow> 4 * failure_rank cfg event + 1
       | Inl (Inr (_, cfg, _, _, event)) \<Rightarrow> 4 * failure_rank cfg event
       | Inr (Inl (_, cfg, _, event)) \<Rightarrow> 4 * failure_rank cfg event + 3
       | Inr (Inr (_, cfg, _, event)) \<Rightarrow> 4 * failure_rank cfg event + 2)")
    (auto simp: failure_rank_def disp_stop_policy_def intro: remaining_policy)

lemmas emit_induct =
  emit_now_handle_handler_failure_emit_handler_failure_control_event_emit.induct

declare emit_now.simps [simp del] handle_handler_failure.simps [simp del]
  emit_handler_failure_control_event.simps [simp del] emit.simps [simp del]

section \<open>Completion barriers\<close>

text \<open>
  The waiting loop of \<open>emit_and_wait\<close> on the barrier future \<open>f\<close>; the wake-ups are those of
  \<open>emit_wait_loop\<close>.
\<close>

partial_function (option) wait_handled ::
    "'a disp_scheme environment \<Rightarrow> nat \<Rightarrow> bool \<Rightarrow> 'a disp_scheme \<Rightarrow>
     ((exn + unit) \<times> 'a disp_scheme) option" where
  "wait_handled env f caller_cancelled s =
     (case env (A_barrier f) s of (e, s1) \<Rightarrow>
        if e = None then Some (settle (d_futures s1 ! f) caller_cancelled, s1)
        else if is_cancelled (the e) then
          if is_done (d_futures s1 ! f) then Some (settle (d_futures s1 ! f) True, s1)
          else wait_handled env f True s1
        else Some (Inl (the e), s1))"

definition create_future :: "'a disp_scheme \<Rightarrow> nat \<times> 'a disp_scheme" where
  "create_future s = (length (d_futures s), s\<lparr>d_futures := d_futures s @ [Pending]\<rparr>)"

definition enqueue_and_wait ::
    "'a disp_scheme environment \<Rightarrow> disp_config \<Rightarrow> network_event \<Rightarrow> bool \<Rightarrow> ('a disp_scheme, unit) prog" where
  "enqueue_and_wait env cfg event drop_on_backpressure s =
     (let (f, s1) = create_future s
      in seqE (enqueue env cfg \<lparr>qe_event = event, qe_handled = Some f,
                               qe_drop_on_backpressure = drop_on_backpressure\<rparr>)
              (wait_handled env f False) s1)"

definition emit_and_wait ::
    "'a disp_scheme environment \<Rightarrow> disp_config \<Rightarrow> task_ctx \<Rightarrow> network_event \<Rightarrow> bool \<Rightarrow>
     ('a disp_scheme, unit) prog" where
  "emit_and_wait env cfg ctx event drop_on_backpressure =
     seqE (modifyE (\<lambda>s. s\<lparr>d_emit_calls_total := Suc (d_emit_calls_total s)\<rparr>))
       (bindE (getsE (\<lambda>s. s)) (\<lambda>s.
          if dc_dispatch_mode cfg = INLINE then emit_now env cfg ctx event
          else if is_in_inline_dispatch_context cfg ctx then
            seqE (modifyE (\<lambda>s. s\<lparr>d_inline_fallback_total := Suc (d_inline_fallback_total s)\<rparr>))
              (emit_now env cfg ctx event)
          else if \<not> accepting_background_events s then
            seqE (modifyE record_stop_phase_drop)
              (raiseE (Exn RuntimeError ''Queued event was dropped because dispatcher stopped.''))
          else if current_task_is_worker ctx s \<or> \<not> has_background_worker s then
            seqE (modifyE (\<lambda>s. s\<lparr>d_inline_fallback_total := Suc (d_inline_fallback_total s)\<rparr>))
              (emit_now env cfg ctx event)
          else enqueue_and_wait env cfg event drop_on_backpressure))"

text \<open>\<open>wait_for_handler_context\<close>: create or share the waiter future and await it.\<close>

partial_function (option) wait_for_handler_context ::
    "'a disp_scheme environment \<Rightarrow> string option \<Rightarrow> 'a disp_scheme \<Rightarrow>
     ((exn + unit) \<times> 'a disp_scheme) option" where
  "wait_for_handler_context env rid s =
     (if \<not> has_active_handler_context s rid then Some (Inr (), s)
      else
        (case (if d_context_waiter s = None \<or> is_done (d_futures s ! the (d_context_waiter s))
               then (length (d_futures s),
                     s\<lparr>d_futures := d_futures s @ [Pending],
                       d_context_waiter := Some (length (d_futures s))\<rparr>)
               else (the (d_context_waiter s), s)) of (w, s1) \<Rightarrow>
          (case env (A_context_waiter w) s1 of (e, s2) \<Rightarrow>
             if e = None then wait_for_handler_context env rid s2
             else Some (Inl (the e), s2))))"

section \<open>Start, stop and the worker\<close>

definition disp_start :: "disp_config \<Rightarrow> 'a disp_scheme \<Rightarrow> 'a disp_scheme" where
  "disp_start cfg s =
     (if dc_dispatch_mode cfg \<noteq> BACKGROUND then s
      else if has_background_worker s then s
      else s\<lparr>d_stopping := False, d_worker_task := Some (d_next_task s),
             d_next_task := Suc (d_next_task s)\<rparr>)"

definition drop_queue :: "'a disp_scheme \<Rightarrow> 'a disp_scheme" where
  "drop_queue s =
     (let s1 = s\<lparr>d_dropped_stop_phase_total := d_dropped_stop_phase_total s + length (d_queue s)\<rparr>
      in (drop_all dropped_stopped (d_queue s) s1)\<lparr>d_queue := []\<rparr>)"

definition disp_stop ::
    "'a disp_scheme environment \<Rightarrow> disp_config \<Rightarrow> task_ctx \<Rightarrow> ('a disp_scheme, unit) prog" where
  "disp_stop env cfg ctx =
     seqE (modifyE (\<lambda>s. s\<lparr>d_stopping := True\<rparr>))
       (bindE (getsE (\<lambda>s. s)) (\<lambda>s.
          case d_worker_task s of
            None \<Rightarrow> ret ()
          | Some worker_task \<Rightarrow>
              if tc_task ctx = Some worker_task \<or> is_in_stop_await_bypass_context cfg ctx s
              then modifyE drop_queue
              else awaitE env (A_worker worker_task)))"

definition stop_from_handler_origin ::
    "'a disp_scheme environment \<Rightarrow> disp_config \<Rightarrow> task_ctx \<Rightarrow> ('a disp_scheme, unit) prog" where
  "stop_from_handler_origin env cfg ctx =
     with_stop_await_bypass_context cfg ctx (disp_stop env cfg)"

text \<open>
  The worker: wait for an item or for stop, take the oldest item, deliver it, settle its
  barrier.  The result of the loop is the error that ended it, None after a regular return.
\<close>

partial_function (option) run_loop ::
    "'a disp_scheme environment \<Rightarrow> disp_config \<Rightarrow> task_ctx \<Rightarrow> 'a disp_scheme \<Rightarrow>
     ((exn option \<times> exn option) \<times> 'a disp_scheme) option" where
  "run_loop env cfg ctx s =
     (case d_queue s of
        [] \<Rightarrow>
          if d_stopping s then Some ((None, None), s)
          else (case env A_queue_item s of (e, s1) \<Rightarrow>
                  if e = None then run_loop env cfg ctx s1 else Some ((e, None), s1))
      | qe # rest \<Rightarrow>
          Option.bind (emit_now env cfg ctx (qe_event qe) (s\<lparr>d_queue := rest\<rparr>)) (\<lambda>(r, s1).
            if isl r then Some ((Some (projl r), Some (projl r)), fail_queued_event (projl r) qe s1)
            else run_loop env cfg ctx (complete_queued_event qe s1)))"

text \<open>
  \<open>_run\<close>: the loop and its \<open>finally\<close>, which fails what is still queued.  The worker task sees
  the context variables of the task that called \<open>start\<close>.
\<close>

definition run_finally :: "nat \<Rightarrow> exn option \<Rightarrow> 'a disp_scheme \<Rightarrow> 'a disp_scheme" where
  "run_finally current_task termination_error s =
     (let pending_error = (case termination_error of None \<Rightarrow> cancelled | Some e \<Rightarrow> e);
          s1 = (fold (fail_queued_event pending_error) (d_queue s) s)\<lparr>d_queue := []\<rparr>
      in if d_worker_task s1 = Some current_task then s1\<lparr>d_worker_task := None\<rparr> else s1)"

definition run_worker ::
    "'a disp_scheme environment \<Rightarrow> disp_config \<Rightarrow> task_ctx \<Rightarrow> nat \<Rightarrow> ('a disp_scheme, unit) prog" where
  "run_worker env cfg creator task s =
     (case run_loop env cfg (child_ctx creator task) s of
        None \<Rightarrow> None
      | Some ((raised, termination_error), s1) \<Rightarrow>
          Some (case raised of None \<Rightarrow> Inr () | Some e \<Rightarrow> Inl e,
                run_finally task termination_error s1))"

end
