(* ===== verification/Dispatcher_Invariants.thy ===== *)
theory Dispatcher_Invariants
  imports Dispatcher
begin

text \<open>
  Invariants of the dispatcher under arbitrary interference.  The interface \<open>disp_invariant\<close>
  lists the elementary state changes the dispatcher makes; an invariant that survives each of
  them survives every coroutine, whatever handlers and other tasks do at the awaits, as long
  as they keep it too.  It is interpreted on the well-formedness of the dispatcher itself
  here, and by the transports on theirs.
\<close>

section \<open>Loops\<close>

text \<open>Other tasks never take a future away.\<close>

definition futures_grow :: "'a disp_scheme environment \<Rightarrow> bool" where
  "futures_grow env \<longleftrightarrow> (\<forall>p s. length (d_futures s) \<le> length (d_futures (snd (env p s))))"

lemma keeps_with_future:
  "env_keeps I env \<Longrightarrow> futures_grow env \<Longrightarrow> env_keeps (\<lambda>s. I s \<and> f < length (d_futures s)) env"
  unfolding env_keeps_def futures_grow_def by (meson less_le_trans)

lemma env_keepsD: "env_keeps J env \<Longrightarrow> J s \<Longrightarrow> env p s = (e, s') \<Longrightarrow> J s'"
  unfolding env_keeps_def by (metis snd_conv)

lemma enqueue_keeps_gen:
  assumes "enqueue env cfg qe s = Some y"
  shows "env_keeps J env \<longrightarrow> (\<forall>s. J s \<longrightarrow> J (snd (enqueue_attempt cfg qe s))) \<longrightarrow> J s \<longrightarrow> J (snd y)"
  using assms
proof (rule enqueue.raw_induct [rotated, where P = "\<lambda>env cfg qe s y. env_keeps J env \<longrightarrow>
      (\<forall>s. J s \<longrightarrow> J (snd (enqueue_attempt cfg qe s))) \<longrightarrow> J s \<longrightarrow> J (snd y)"], intro impI)
  fix rec env cfg qe s y
  assume IH: "\<And>env cfg qe s y. rec env cfg qe s = Some y \<Longrightarrow> env_keeps J env \<longrightarrow>
      (\<forall>s. J s \<longrightarrow> J (snd (enqueue_attempt cfg qe s))) \<longrightarrow> J s \<longrightarrow> J (snd y)"
    and run: "(case enqueue_attempt cfg qe s of (r, s1) \<Rightarrow>
        if r = Blocked then
          (case env A_queue_space s1 of (e, s2) \<Rightarrow>
             if e = None then rec env cfg qe s2 else Some (Inl (the e), s2))
        else Some (Inr (), s1)) = Some y"
    and env: "env_keeps J env" and step: "\<forall>s. J s \<longrightarrow> J (snd (enqueue_attempt cfg qe s))"
    and "J s"
  obtain r s1 where a: "enqueue_attempt cfg qe s = (r, s1)" by force
  obtain e s2 where e: "env A_queue_space s1 = (e, s2)" by force
  have "J s1" using step \<open>J s\<close> a by (metis snd_conv)
  then have "J s2" by (rule env_keepsD [OF env _ e])
  show "J (snd y)"
    using run IH [of env cfg qe s2 y] env step \<open>J s1\<close> \<open>J s2\<close>
    by (auto simp: a e split: if_splits)
qed

lemma keeps_enqueue:
  assumes "env_keeps J env" and "\<And>s. J s \<Longrightarrow> J (snd (enqueue_attempt cfg qe s))"
  shows "keeps J (enqueue env cfg qe)"
  using enqueue_keeps_gen [of env cfg qe _ _ J] assms by (metis keepsI snd_conv)

lemma wait_handled_keeps_gen:
  assumes "wait_handled env f c s = Some y"
  shows "env_keeps J env \<longrightarrow> J s \<longrightarrow> J (snd y)"
  using assms
proof (rule wait_handled.raw_induct
    [rotated, where P = "\<lambda>env f c s y. env_keeps J env \<longrightarrow> J s \<longrightarrow> J (snd y)"], intro impI)
  fix rec env f c s y
  assume IH: "\<And>env f c s y. rec env f c s = Some y \<Longrightarrow> env_keeps J env \<longrightarrow> J s \<longrightarrow> J (snd y)"
    and run: "(case env (A_barrier f) s of (e, s1) \<Rightarrow>
        if e = None then Some (settle (d_futures s1 ! f) c, s1)
        else if is_cancelled (the e) then
          if is_done (d_futures s1 ! f) then Some (settle (d_futures s1 ! f) True, s1)
          else rec env f True s1
        else Some (Inl (the e), s1)) = Some y"
    and env: "env_keeps J env" and "J s"
  obtain e s1 where e: "env (A_barrier f) s = (e, s1)" by force
  then have "J s1" using env \<open>J s\<close> by (rule env_keepsD [rotated 2])
  then show "J (snd y)"
    using run IH [of env f True s1 y] env by (auto simp: e split: if_splits)
qed

lemma keeps_wait_handled: "env_keeps J env \<Longrightarrow> keeps J (wait_handled env f c)"
  using wait_handled_keeps_gen by (metis keepsI snd_conv)

lemma settle_futures [simp]: "length (d_futures (settle_queued_event res qe s)) = length (d_futures s)"
  by (simp add: settle_queued_event_def split: option.splits)

lemma settle_queue [simp]: "d_queue (settle_queued_event res qe s) = d_queue s"
  by (simp add: settle_queued_event_def split: option.splits)

lemmas queue_defs = enqueue_attempt_def append_queued_event_def discard_newest_def
  drop_queued_event_def complete_queued_event_def fail_queued_event_def record_stop_phase_drop_def
  accepting_background_events_def

lemma enqueue_attempt_futures:
  "length (d_futures (snd (enqueue_attempt cfg qe s))) = length (d_futures s)"
  by (auto simp: queue_defs Let_def split: option.splits)

section \<open>The interface\<close>

locale disp_invariant =
  fixes cfg :: disp_config
    and I :: "'a disp_scheme \<Rightarrow> bool"
  assumes counters: "I s \<Longrightarrow> I (s\<lparr>d_emit_calls_total := n\<rparr>)"
      "I s \<Longrightarrow> I (s\<lparr>d_handler_dispatch_attempts_total := n\<rparr>)"
      "I s \<Longrightarrow> I (s\<lparr>d_handler_failures_total := n\<rparr>)"
      "I s \<Longrightarrow> I (s\<lparr>d_inline_fallback_total := n\<rparr>)"
      "I s \<Longrightarrow> I (s\<lparr>d_dropped_stop_phase_total := n\<rparr>)"
    and delivered: "I s \<Longrightarrow> I (s\<lparr>d_delivered := es\<rparr>)"
    and dispatch_entered: "I s \<Longrightarrow> I (enter_dispatch cfg t r s)"
    and origin_entered: "I s \<Longrightarrow> I (enter_origin_only t' r s)"
    and origin_left: "I s \<Longrightarrow> I (exit_origin token s)"
    and bypass_entered: "I s \<Longrightarrow> I (enter_bypass ctx s)"
    and bypass_left: "I s \<Longrightarrow> I (exit_bypass token s)"
    and attempted: "I s \<Longrightarrow> I (snd (enqueue_attempt cfg
                          \<lparr>qe_event = event, qe_handled = None, qe_drop_on_backpressure = b\<rparr> s))"
    and barrier_attempted: "I s \<Longrightarrow> f < length (d_futures s) \<Longrightarrow> I (snd (enqueue_attempt cfg
                          \<lparr>qe_event = event, qe_handled = Some f, qe_drop_on_backpressure = b\<rparr> s))"
    and future_created: "I s \<Longrightarrow> I (snd (create_future s))"
    and waiter_created: "I s \<Longrightarrow> I (s\<lparr>d_futures := d_futures s @ [Pending],
                          d_context_waiter := Some (length (d_futures s))\<rparr>)"
    and settled: "I s \<Longrightarrow> I (settle_queued_event result qe s)"
    and taken: "I s \<Longrightarrow> d_queue s = qe # rest \<Longrightarrow> I (s\<lparr>d_queue := rest\<rparr>)"
    and kept: "I s \<Longrightarrow> I (s\<lparr>d_queue := filter P (d_queue s)\<rparr>)"
    and stopping: "I s \<Longrightarrow> I (s\<lparr>d_stopping := True\<rparr>)"
    and worker_left: "I s \<Longrightarrow> I (s\<lparr>d_worker_task := None\<rparr>)"
    and started: "I s \<Longrightarrow> I (disp_start cfg s)"
begin

lemma record_stop_phase_drop: "I s \<Longrightarrow> I (record_stop_phase_drop s)"
  by (simp add: record_stop_phase_drop_def counters)

lemma settle_all: "I s \<Longrightarrow> I (fold (settle_queued_event r) qes s)"
  by (induction qes arbitrary: s) (simp_all add: settled)

lemma queue_cleared: "I s \<Longrightarrow> I (s\<lparr>d_queue := []\<rparr>)"
  using kept [of s "\<lambda>_. False"] by simp

lemma drop_queue: "I s \<Longrightarrow> I (drop_queue s)"
  unfolding drop_queue_def Let_def drop_all_def drop_queued_event_def
  by (intro queue_cleared settle_all counters)

lemma drop_resource: "I s \<Longrightarrow> I (snd (drop_queued_events_for_resource rid s))"
proof -
  assume "I s"
  then have "I ((s\<lparr>d_queue := filter P (d_queue s)\<rparr>)\<lparr>d_dropped_stop_phase_total := n\<rparr>)" for P n
    by (intro counters kept)
  then show ?thesis
    using \<open>I s\<close>
    by (simp add: drop_queued_events_for_resource_def Let_def drop_all_def drop_queued_event_def
        settle_all)
qed

lemma enqueue_keeps:
  assumes "env_keeps I env"
  shows "keeps I (enqueue env cfg
    \<lparr>qe_event = event, qe_handled = None, qe_drop_on_backpressure = b\<rparr>)"
  using assms by (rule keeps_enqueue) (rule attempted)

lemma enqueue_barrier_keeps:
  assumes "env_keeps I env" "futures_grow env"
  shows "keeps (\<lambda>s. I s \<and> f < length (d_futures s)) (enqueue env cfg
    \<lparr>qe_event = event, qe_handled = Some f, qe_drop_on_backpressure = b\<rparr>)"
  using keeps_with_future [OF assms]
  by (rule keeps_enqueue) (simp add: barrier_attempted enqueue_attempt_futures)

lemma dispatch_context_keeps:
  assumes "\<And>ctx. keeps I (body ctx)"
  shows "keeps I (with_handler_dispatch_context cfg ctx rid body)"
proof (rule keepsI)
  fix s r s'
  assume "I s" and run: "with_handler_dispatch_context cfg ctx rid body s = Some (r, s')"
  show "I s'"
  proof (cases "tc_task ctx")
    case None
    with run show ?thesis
      by (simp add: with_handler_dispatch_context_def) (rule keepsD [OF assms \<open>I s\<close>])
  next
    case (Some t)
    with run show ?thesis
      by (simp add: with_handler_dispatch_context_def Let_def)
        (erule keepsD [OF keeps_finallyE, rotated -1],
          auto intro: assms keeps_modifyE origin_left dispatch_entered \<open>I s\<close>)
  qed
qed

lemma origin_context_keeps:
  assumes "\<And>ctx. keeps I (body ctx)"
  shows "keeps I (with_handler_origin_context_only cfg ctx rid body)"
proof (rule keepsI)
  fix s r s'
  assume "I s" and "with_handler_origin_context_only cfg ctx rid body s = Some (r, s')"
  then show "I s'"
    by (simp add: with_handler_origin_context_only_def Let_def)
      (erule keepsD [OF keeps_finallyE, rotated -1],
        auto intro: assms keeps_modifyE origin_left origin_entered)
qed

lemma bypass_context_keeps:
  assumes "\<And>ctx. keeps I (body ctx)"
  shows "keeps I (with_stop_await_bypass_context cfg ctx body)"
proof (rule keepsI)
  fix s r s'
  assume "I s" and "with_stop_await_bypass_context cfg ctx body s = Some (r, s')"
  then show "I s'"
    by (simp add: with_stop_await_bypass_context_def Let_def)
      (erule keepsD [OF keeps_finallyE, rotated -1],
        auto intro: assms keeps_modifyE bypass_left bypass_entered)
qed

lemma call_handler_keeps: "env_keeps I env \<Longrightarrow> keeps I (call_handler env event ctx)"
  by (simp add: call_handler_def keeps_seqE keeps_modifyE keeps_awaitE delivered)

lemma stop_callback_keeps: "env_keeps I env \<Longrightarrow> keeps I (run_stop_callback env cfg ctx rid cb)"
  by (simp add: run_stop_callback_def bypass_context_keeps origin_context_keeps keeps_awaitE)

lemmas base_keeps = keeps_seqE keeps_bindE keeps_getsE keeps_modifyE keeps_ret keeps_raiseE
  keeps_tryE keeps_if counters record_stop_phase_drop

text \<open>Delivery, failure handling and \<open>emit\<close>, by induction over their mutual recursion.\<close>

lemma emit_now_keeps:
    "env_keeps I env \<Longrightarrow> cfg' = cfg \<Longrightarrow> keeps I (emit_now env cfg' ctx event)"
  and failure_keeps:
    "env_keeps I env \<Longrightarrow> cfg' = cfg \<Longrightarrow> keeps I (handle_handler_failure env cfg' ctx error event)"
  and control_keeps:
    "env_keeps I env \<Longrightarrow> cfg' = cfg \<Longrightarrow>
       keeps I (emit_handler_failure_control_event env cfg' ctx event)"
  and emit_keeps: "env_keeps I env \<Longrightarrow> cfg' = cfg \<Longrightarrow> keeps I (emit env cfg' ctx event)"
proof (induction env cfg' ctx event and env cfg' ctx error event and env cfg' ctx event
    and env cfg' ctx event rule: emit_induct)
  case (1 env cfg' ctx event)
  note IH = 1(1) [OF _ 1(2,3), unfolded 1(3)]
  show ?case
    unfolding \<open>cfg' = cfg\<close> emit_now.simps [of env cfg]
    by (intro base_keeps dispatch_context_keeps call_handler_keeps 1(2) IH)
next
  case (2 env cfg' ctx error event)
  then show ?case
    by (auto simp: handle_handler_failure.simps [of env cfg] split: option.splits
        intro: base_keeps stop_callback_keeps)
next
  case (3 env cfg' ctx event)
  show ?case
    unfolding emit_handler_failure_control_event.simps [of env cfg']
    by (intro base_keeps) (use 3 in auto)
next
  case (4 env cfg' ctx event)
  show ?case
    unfolding \<open>cfg' = cfg\<close> emit.simps [of env cfg]
    by (intro base_keeps enqueue_keeps) (use 4 in auto)
qed

lemma emit_and_wait_keeps:
  assumes "env_keeps I env" "futures_grow env"
  shows "keeps I (emit_and_wait env cfg ctx event b)"
proof -
  have "keeps I (enqueue_and_wait env cfg event b)"
  proof (rule keepsI)
    fix s r s'
    assume "I s" and run: "enqueue_and_wait env cfg event b s = Some (r, s')"
    let ?f = "length (d_futures s)" and ?s = "snd (create_future s)"
    have "I ?s \<and> ?f < length (d_futures ?s)"
      using future_created [OF \<open>I s\<close>] by (simp add: create_future_def)
    moreover have "keeps (\<lambda>s. I s \<and> ?f < length (d_futures s))
        (seqE (enqueue env cfg \<lparr>qe_event = event, qe_handled = Some ?f, qe_drop_on_backpressure = b\<rparr>)
          (wait_handled env ?f False))"
      by (intro keeps_seqE enqueue_barrier_keeps [OF assms] keeps_wait_handled
          keeps_with_future [OF assms])
    moreover have "seqE (enqueue env cfg \<lparr>qe_event = event, qe_handled = Some ?f,
          qe_drop_on_backpressure = b\<rparr>) (wait_handled env ?f False) ?s = Some (r, s')"
      using run by (simp add: enqueue_and_wait_def create_future_def)
    ultimately show "I s'" by (metis (no_types, lifting) keepsD)
  qed
  then show ?thesis
    unfolding emit_and_wait_def
    by (intro base_keeps) (use emit_now_keeps [OF assms(1) refl] in auto)
qed

lemma stop_keeps: "env_keeps I env \<Longrightarrow> keeps I (disp_stop env cfg ctx)"
  unfolding disp_stop_def
  by (intro base_keeps stopping) (auto intro: base_keeps keeps_awaitE drop_queue split: option.splits)

lemma stop_from_handler_origin_keeps:
  "env_keeps I env \<Longrightarrow> keeps I (stop_from_handler_origin env cfg ctx)"
  unfolding stop_from_handler_origin_def by (intro bypass_context_keeps stop_keeps)

lemma run_worker_keeps:
  assumes "env_keeps I env"
  shows "keeps I (run_worker env cfg creator task)"
proof -
  have loop: "env_keeps I env \<longrightarrow> cfg' = cfg \<longrightarrow> I s \<longrightarrow> I (snd y)"
    if "run_loop env cfg' ctx s = Some y" for env cfg' ctx s y
    using that
  proof (rule run_loop.raw_induct [rotated, where P = "\<lambda>env cfg' ctx s y.
        env_keeps I env \<longrightarrow> cfg' = cfg \<longrightarrow> I s \<longrightarrow> I (snd y)"], intro impI)
    fix rec env cfg' ctx s y
    assume IH: "\<And>env cfg' ctx s y. rec env cfg' ctx s = Some y \<Longrightarrow>
        env_keeps I env \<longrightarrow> cfg' = cfg \<longrightarrow> I s \<longrightarrow> I (snd y)"
      and run: "(case d_queue s of
        [] \<Rightarrow>
          if d_stopping s then Some ((None, None), s)
          else (case env A_queue_item s of (e, s1) \<Rightarrow>
                  if e = None then rec env cfg' ctx s1 else Some ((e, None), s1))
      | qe # rest \<Rightarrow>
          Option.bind (emit_now env cfg' ctx (qe_event qe) (s\<lparr>d_queue := rest\<rparr>)) (\<lambda>(r, s1).
            if isl r then Some ((Some (projl r), Some (projl r)), fail_queued_event (projl r) qe s1)
            else rec env cfg' ctx (complete_queued_event qe s1))) = Some y"
      and env: "env_keeps I env" and cfg: "cfg' = cfg" and "I s"
    show "I (snd y)"
    proof (cases "d_queue s")
      case Nil
      obtain e s1 where e: "env A_queue_item s = (e, s1)" by force
      have "I s1" by (rule env_keepsD [OF env \<open>I s\<close> e])
      then show ?thesis
        using run IH [of env cfg' ctx s1 y] env cfg \<open>I s\<close> by (auto simp: Nil e split: if_splits)
    next
      case (Cons qe rest)
      with run obtain r s1 where
        d: "emit_now env cfg' ctx (qe_event qe) (s\<lparr>d_queue := rest\<rparr>) = Some (r, s1)"
        and r: "(if isl r then Some ((Some (projl r), Some (projl r)), fail_queued_event (projl r) qe s1)
            else rec env cfg' ctx (complete_queued_event qe s1)) = Some y"
        by (auto split: bind_splits)
      have "I s1"
        using taken [OF \<open>I s\<close> Cons] d emit_now_keeps [OF env cfg] by (metis keepsD)
      then show ?thesis
        using r IH [of env cfg' ctx "complete_queued_event qe s1" y] env cfg settled [OF \<open>I s1\<close>]
        by (auto simp: fail_queued_event_def complete_queued_event_def split: if_splits)
    qed
  qed
  have "I (run_finally task e s)" if "I s" for e s
    using that
    by (auto simp: run_finally_def Let_def fail_queued_event_def
        intro!: queue_cleared settle_all worker_left)
  with loop assms show ?thesis
    by (intro keepsI) (fastforce simp: run_worker_def split: option.splits)
qed

end

section \<open>The dispatcher's own invariant\<close>

definition queue_wf :: "disp_config \<Rightarrow> 'a disp_scheme \<Rightarrow> bool" where
  "queue_wf cfg s \<longleftrightarrow> length (d_queue s) \<le> d_queue_peak s \<and> d_queue_peak s \<le> dc_max_pending_events cfg"

definition origins_wf :: "'a disp_scheme \<Rightarrow> bool" where
  "origins_wf s \<longleftrightarrow>
     d_origin_tokens s \<subseteq> {..d_next_origin_token s} \<and>
     dom (d_origin_resources s) = d_origin_tokens s \<and>
     dom (d_origin_owner_tasks s) = d_origin_tokens s \<and>
     d_origin_child_provenance s \<subseteq> d_origin_tokens s \<and>
     d_bypass_tokens s \<subseteq> {..d_next_bypass_token s} \<and>
     dom (d_bypass_owner_tasks s) \<subseteq> d_bypass_tokens s"

definition futures_wf :: "'a disp_scheme \<Rightarrow> bool" where
  "futures_wf s \<longleftrightarrow>
     (\<forall>qe \<in> set (d_queue s). \<forall>f. qe_handled qe = Some f \<longrightarrow> f < length (d_futures s)) \<and>
     (\<forall>w. d_context_waiter s = Some w \<longrightarrow> w < length (d_futures s))"

definition disp_wf :: "disp_config \<Rightarrow> 'a disp_scheme \<Rightarrow> bool" where
  "disp_wf cfg s \<longleftrightarrow> queue_wf cfg s \<and> origins_wf s \<and> futures_wf s"

lemma settle_selectors [simp]:
  "d_queue_peak (settle_queued_event res qe s) = d_queue_peak s"
  "d_origin_tokens (settle_queued_event res qe s) = d_origin_tokens s"
  "d_next_origin_token (settle_queued_event res qe s) = d_next_origin_token s"
  "d_origin_resources (settle_queued_event res qe s) = d_origin_resources s"
  "d_origin_owner_tasks (settle_queued_event res qe s) = d_origin_owner_tasks s"
  "d_origin_child_provenance (settle_queued_event res qe s) = d_origin_child_provenance s"
  "d_bypass_tokens (settle_queued_event res qe s) = d_bypass_tokens s"
  "d_next_bypass_token (settle_queued_event res qe s) = d_next_bypass_token s"
  "d_bypass_owner_tasks (settle_queued_event res qe s) = d_bypass_owner_tasks s"
  "d_context_waiter (settle_queued_event res qe s) = d_context_waiter s"
  "d_stopping (settle_queued_event res qe s) = d_stopping s"
  "d_worker_task (settle_queued_event res qe s) = d_worker_task s"
  "d_enqueued_total (settle_queued_event res qe s) = d_enqueued_total s"
  "d_dropped_stop_phase_total (settle_queued_event res qe s) = d_dropped_stop_phase_total s"
  "d_dropped_backpressure_oldest_total (settle_queued_event res qe s) =
     d_dropped_backpressure_oldest_total s"
  "d_dropped_backpressure_newest_total (settle_queued_event res qe s) =
     d_dropped_backpressure_newest_total s"
  by (simp_all add: settle_queued_event_def split: option.splits)

lemma notify_selectors [simp]:
  "d_queue (notify_handler_context_changed s) = d_queue s"
  "d_queue_peak (notify_handler_context_changed s) = d_queue_peak s"
  "d_origin_tokens (notify_handler_context_changed s) = d_origin_tokens s"
  "d_next_origin_token (notify_handler_context_changed s) = d_next_origin_token s"
  "d_origin_resources (notify_handler_context_changed s) = d_origin_resources s"
  "d_origin_owner_tasks (notify_handler_context_changed s) = d_origin_owner_tasks s"
  "d_origin_child_provenance (notify_handler_context_changed s) = d_origin_child_provenance s"
  "d_bypass_tokens (notify_handler_context_changed s) = d_bypass_tokens s"
  "d_next_bypass_token (notify_handler_context_changed s) = d_next_bypass_token s"
  "d_bypass_owner_tasks (notify_handler_context_changed s) = d_bypass_owner_tasks s"
  "length (d_futures (notify_handler_context_changed s)) = length (d_futures s)"
  "d_context_waiter (notify_handler_context_changed s) = None"
  by (simp_all add: notify_handler_context_changed_def split: option.splits)

lemma enqueue_attempt_origins [simp]: "origins_wf (snd (enqueue_attempt cfg qe s)) = origins_wf s"
  by (auto simp: queue_defs origins_wf_def Let_def split: option.splits)

lemma enqueue_attempt_queue:
  assumes "queue_wf cfg s"
  shows "queue_wf cfg (snd (enqueue_attempt cfg qe s))"
  using assms find_index_Some [of qe_drop_on_backpressure "d_queue s"]
  by (auto simp: queue_defs queue_wf_def Let_def length_del_at split: option.splits)

lemma set_del_at: "set (del_at i xs) \<subseteq> set xs"
  by (auto simp: del_at_def dest: in_set_takeD in_set_dropD)

lemma enqueue_attempt_members:
  "set (d_queue (snd (enqueue_attempt cfg qe s))) \<subseteq> insert qe (set (d_queue s))"
  using set_del_at [of _ "d_queue s"]
  by (auto simp: queue_defs Let_def split: option.splits)

lemma enqueue_attempt_waiter [simp]:
  "d_context_waiter (snd (enqueue_attempt cfg qe s)) = d_context_waiter s"
  by (auto simp: queue_defs Let_def split: option.splits)

lemma enqueue_attempt_futures_wf:
  assumes "futures_wf s" and "\<forall>f. qe_handled qe = Some f \<longrightarrow> f < length (d_futures s)"
  shows "futures_wf (snd (enqueue_attempt cfg qe s))"
  using assms enqueue_attempt_members [of cfg qe s]
  by (auto simp: futures_wf_def enqueue_attempt_futures)

lemma enqueue_attempt_wf:
  "disp_wf cfg s \<Longrightarrow> \<forall>f. qe_handled qe = Some f \<longrightarrow> f < length (d_futures s) \<Longrightarrow>
     disp_wf cfg (snd (enqueue_attempt cfg qe s))"
  by (simp add: disp_wf_def enqueue_attempt_queue enqueue_attempt_futures_wf)

lemmas wf_defs = disp_wf_def queue_wf_def origins_wf_def futures_wf_def

interpretation dw: disp_invariant cfg "disp_wf cfg :: 'a disp_scheme \<Rightarrow> bool" for cfg
proof
  fix s :: "'a disp_scheme" and qe :: queued_event and res P rest
  assume wf: "disp_wf cfg s"
  show "disp_wf cfg (settle_queued_event res qe s)"
    using wf by (simp add: wf_defs)
  show "disp_wf cfg (s\<lparr>d_queue := rest\<rparr>)" if "d_queue s = qe # rest"
    using wf that by (auto simp: wf_defs)
  show "disp_wf cfg (s\<lparr>d_queue := filter P (d_queue s)\<rparr>)"
    using wf order_trans [OF length_filter_le [of P "d_queue s"]] by (auto simp: wf_defs)
next
  fix s :: "'a disp_scheme" and ctx token t r t'
  assume wf: "disp_wf cfg s"
  show "disp_wf cfg (enter_dispatch cfg t r s)" "disp_wf cfg (enter_origin_only t' r s)"
    using wf by (auto simp: wf_defs enter_dispatch_def enter_origin_only_def Let_def)
  show "disp_wf cfg (exit_origin token s)"
    using wf by (auto simp: wf_defs exit_origin_def)
  show "disp_wf cfg (enter_bypass ctx s)"
    using wf by (auto simp: wf_defs enter_bypass_def Let_def split: option.splits)
  show "disp_wf cfg (exit_bypass token s)"
    using wf by (auto simp: wf_defs exit_bypass_def)
next
  fix s :: "'a disp_scheme" and event b f
  assume wf: "disp_wf cfg s"
  show "disp_wf cfg (snd (enqueue_attempt cfg
      \<lparr>qe_event = event, qe_handled = None, qe_drop_on_backpressure = b\<rparr> s))"
    using wf by (simp add: enqueue_attempt_wf)
  show "disp_wf cfg (snd (enqueue_attempt cfg
      \<lparr>qe_event = event, qe_handled = Some f, qe_drop_on_backpressure = b\<rparr> s))"
    if "f < length (d_futures s)"
    using wf that by (simp add: enqueue_attempt_wf)
qed (auto simp: create_future_def disp_start_def wf_defs intro: less_SucI)


definition sample_config :: disp_config where
  "sample_config = \<lparr>dc_id = 1, dc_dispatch_mode = BACKGROUND, dc_backpressure_policy = DROP_OLDEST,
     dc_max_pending_events = 2, dc_failure_policy = EMIT_ERROR_EVENT, dc_error_source = None,
     dc_stop_policy_enabled = False, dc_stop_component_callback = None\<rparr>"


end
