(* ===== verification/Dispatcher_Policy.thy ===== *)
theory Dispatcher_Policy
  imports Dispatcher_Invariants
begin

text \<open>
  What the dispatcher promises about failing handlers (containment, the number of handler
  calls, the exact outcome of RAISE_IN_INLINE_MODE), about who counts as running inside a
  handler, and about a stop that comes from a handler.
\<close>

section \<open>Failing handlers\<close>

lemma raises_with_dispatch [raises_rules]:
  "(\<And>ctx. raises Q (body ctx)) \<Longrightarrow> raises Q (with_handler_dispatch_context cfg ctx rid body)"
  by (rule raisesI)
    (auto simp: with_handler_dispatch_context_def Let_def finallyE_def modifyE_def
      split: option.splits sum.splits, (metis raisesD)+)

lemma enqueue_raises:
  assumes "\<And>s e s'. env A_queue_space s = (Some e, s') \<Longrightarrow> Q e"
  shows "raises Q (enqueue env cfg qe)"
proof (rule raisesI)
  fix s e s'
  assume "enqueue env cfg qe s = Some (Inl e, s')"
  then have "(\<forall>s e s'. env A_queue_space s = (Some e, s') \<longrightarrow> Q e) \<longrightarrow>
      (case fst (Inl e :: exn + unit, s') of Inl e \<Rightarrow> Q e | Inr _ \<Rightarrow> True)"
  proof (rule enqueue.raw_induct [rotated, where P = "\<lambda>env cfg qe s y.
        (\<forall>s e s'. env A_queue_space s = (Some e, s') \<longrightarrow> Q e) \<longrightarrow>
        (case fst y of Inl e \<Rightarrow> Q e | Inr _ \<Rightarrow> True)"])
    fix rec env cfg qe s y
    assume IH: "\<And>env cfg qe s y. rec env cfg qe s = Some y \<Longrightarrow>
        (\<forall>s e s'. env A_queue_space s = (Some e, s') \<longrightarrow> Q e) \<longrightarrow>
        (case fst y of Inl e \<Rightarrow> Q e | Inr _ \<Rightarrow> True)"
      and run: "(case enqueue_attempt cfg qe s of (r, s1) \<Rightarrow>
        if r = Blocked then
          (case env A_queue_space s1 of (e, s2) \<Rightarrow>
             if e = None then rec env cfg qe s2 else Some (Inl (the e), s2))
        else Some (Inr (), s1)) = Some y"
    obtain r s1 where a: "enqueue_attempt cfg qe s = (r, s1)" by force
    obtain e s2 where e: "env A_queue_space s1 = (e, s2)" by force
    show "(\<forall>s e s'. env A_queue_space s = (Some e, s') \<longrightarrow> Q e) \<longrightarrow>
        (case fst y of Inl e \<Rightarrow> Q e | Inr _ \<Rightarrow> True)"
    proof
      assume q: "\<forall>s e s'. env A_queue_space s = (Some e, s') \<longrightarrow> Q e"
      show "case fst y of Inl e \<Rightarrow> Q e | Inr _ \<Rightarrow> True"
      proof (cases "r = Blocked \<and> e = None")
        case True
        with run have "rec env cfg qe s2 = Some y" by (simp add: a e)
        from IH [OF this] q show ?thesis by blast
      next
        case False
        have "Q (the e)" if "e \<noteq> None" using q e that by (metis option.collapse)
        with False run e show ?thesis by (auto simp: a split: if_splits)
      qed
    qed
  qed
  then show "Q e" using assms by auto
qed

lemma not_exception_cases:
  "is_cancelled e \<and> c \<or> \<not> is_caught e \<Longrightarrow> \<not> is_Exception e"
  by (auto simp: is_caught_def)

text \<open>No policy but STOP_COMPONENT and RAISE_IN_INLINE_MODE lets an ordinary error out.\<close>

definition contains_failures :: "disp_config \<Rightarrow> bool" where
  "contains_failures cfg \<longleftrightarrow> dc_failure_policy cfg \<noteq> STOP_COMPONENT \<and>
     \<not> (dc_failure_policy cfg = RAISE_IN_INLINE_MODE \<and> dc_dispatch_mode cfg = INLINE)"

text \<open>
  \<open>Condition.wait()\<close> raises only when its task is cancelled (or by something outside
  \<open>Exception\<close>).
\<close>

definition space_wait_quiet :: "'a disp_scheme environment \<Rightarrow> bool" where
  "space_wait_quiet env \<longleftrightarrow>
     (\<forall>s e s'. env A_queue_space s = (Some e, s') \<longrightarrow> \<not> is_Exception e)"

lemma contained:
  shows "contains_failures cfg \<Longrightarrow> space_wait_quiet env \<Longrightarrow>
      raises (\<lambda>e. \<not> is_Exception e) (emit_now env cfg ctx event)"
    and "contains_failures cfg \<Longrightarrow> space_wait_quiet env \<Longrightarrow>
      raises (\<lambda>e. \<not> is_Exception e) (handle_handler_failure env cfg ctx error event)"
    and "contains_failures cfg \<Longrightarrow> space_wait_quiet env \<Longrightarrow>
      raises (\<lambda>e. \<not> is_Exception e) (emit_handler_failure_control_event env cfg ctx event)"
    and "contains_failures cfg \<Longrightarrow> space_wait_quiet env \<Longrightarrow>
      raises (\<lambda>e. \<not> is_Exception e) (emit env cfg ctx event)"
proof (induction env cfg ctx event and env cfg ctx error event and env cfg ctx event
    and env cfg ctx event rule: emit_induct)
  case (1 env cfg ctx event)
  note IH = 1(1) [OF _ 1(2,3)]
  show ?case
    unfolding emit_now.simps [of env cfg]
    by (intro raises_rules IH) (erule not_exception_cases)+
next
  case (2 env cfg ctx error event)
  then show ?case
    using remaining_policy [of "dc_failure_policy cfg"]
    by (auto simp: handle_handler_failure.simps [of env cfg] contains_failures_def
        intro: raises_rules)
next
  case (3 env cfg ctx event)
  note IH = 3(1) [OF _ 3(3,4)] 3(2) [OF _ 3(3,4)]
  show ?case
    unfolding emit_handler_failure_control_event.simps [of env cfg]
    by (intro raises_rules IH)
next
  case (4 env cfg ctx event)
  note IH = 4(1) [OF _ 4(4,5)] 4(2) [OF _ _ 4(4,5)] 4(3) [OF _ _ _ _ 4(4,5)]
  have q: "raises (\<lambda>e. \<not> is_Exception e) (enqueue env cfg qe)" for qe
    by (rule enqueue_raises) (use 4(5) in \<open>auto simp: space_wait_quiet_def\<close>)
  show ?case
    unfolding emit.simps [of env cfg]
    by (intro raises_rules IH q) auto
qed

text \<open>
  C7: Handler failures are contained.  Unless the policy is STOP_COMPONENT, or
  RAISE_IN_INLINE_MODE in INLINE mode, \<open>emit\<close> and the worker's delivery never raise an
  ordinary exception, whatever the handlers raise and however often; only a cancellation of
  the emitting task or an exception outside \<open>Exception\<close> gets out.
\<close>
theorem handler_failures_contained:
  assumes "contains_failures cfg"
    and "space_wait_quiet env"
    and "emit env cfg ctx event s = Some (Inl e, s') \<or> emit_now env cfg ctx event s = Some (Inl e, s')"
  shows "\<not> is_Exception e"
  using raisesD [OF contained(1) [OF assms(1,2)]] raisesD [OF contained(4) [OF assms(1,2)]] assms(3)
  by blast

definition failing_env :: "disp environment" where
  "failing_env p s = (case p of
     A_handler _ _ \<Rightarrow> (Some (Exn (OtherBaseException ''KeyboardInterrupt'') ''''), s) | _ \<Rightarrow> (None, s))"

definition empty_disp :: disp where
  "empty_disp = \<lparr>d_worker_task = None, d_queue = [], d_stopping = False, d_emit_calls_total = 0,
     d_enqueued_total = 0, d_handler_dispatch_attempts_total = 0, d_handler_failures_total = 0,
     d_inline_fallback_total = 0, d_dropped_backpressure_oldest_total = 0,
     d_dropped_backpressure_newest_total = 0, d_dropped_stop_phase_total = 0, d_queue_peak = 0,
     d_origin_tokens = {}, d_origin_resources = Map.empty, d_origin_owner_tasks = Map.empty,
     d_origin_child_provenance = {}, d_next_origin_token = 0, d_context_waiter = None,
     d_bypass_tokens = {}, d_bypass_owner_tasks = Map.empty, d_next_bypass_token = 0,
     d_futures = [], d_next_task = 0, d_cancelling = {}, d_delivered = []\<rparr>"

lemma failing_emit_now:
  "\<exists>s'. emit_now failing_env sample_config (plain_ctx None) (NetworkErrorEvent r e) empty_disp =
     Some (Inl (Exn (OtherBaseException ''KeyboardInterrupt'') ''''), s')"
  by (simp add: emit_now.simps [of failing_env] prog_defs with_handler_dispatch_context_def
      plain_ctx_def call_handler_def awaitE_def failing_env_def is_caught_def is_Exception_def
      is_cancelled_def)

theorem handler_failures_contained_witness:
  "\<not> is_Exception (Exn (OtherBaseException ''KeyboardInterrupt'') '''')"
proof -
  obtain s' where run: "emit_now failing_env sample_config (plain_ctx None)
      (NetworkErrorEvent ''c'' cancelled) empty_disp =
      Some (Inl (Exn (OtherBaseException ''KeyboardInterrupt'') ''''), s')"
    using failing_emit_now by blast
  show ?thesis
    by (rule handler_failures_contained [OF _ _ disjI2 [OF run]])
      (simp_all add: contains_failures_def sample_config_def failing_env_def space_wait_quiet_def)
qed

section \<open>How often the handler runs\<close>

abbreviation attempts :: "'a disp_scheme \<Rightarrow> nat" where
  "attempts \<equiv> d_handler_dispatch_attempts_total"

lemma attempts_context [simp]:
  "attempts (exit_origin token s) = attempts s" "attempts (enter_dispatch cfg t r s) = attempts s"
  "attempts (enter_origin_only t' r s) = attempts s" "attempts (enter_bypass ctx s) = attempts s"
  "attempts (exit_bypass token s) = attempts s"
  by (simp_all add: exit_origin_def notify_handler_context_changed_def enter_dispatch_def
      enter_origin_only_def enter_bypass_def exit_bypass_def Let_def split: option.splits)

lemma grows_dispatch:
  assumes "\<And>ctx. grows attempts k (body ctx)"
  shows "grows attempts k (with_handler_dispatch_context cfg ctx rid body)"
proof (cases "tc_task ctx")
  case None
  then show ?thesis
    using assms [of ctx] by (simp add: with_handler_dispatch_context_def [abs_def])
next
  case (Some t)
  have "grows attempts (k + 0) (finallyE (body c) (modifyE (exit_origin token)))" for c token
    by (intro grows_finallyE assms grows_modifyE) simp
  then show ?thesis
    using Some by (auto simp: grows_def with_handler_dispatch_context_def Let_def)
      (metis attempts_context(2))
qed

lemma grows_stop_callback:
  assumes "\<And>p s. attempts (snd (env p s)) \<le> attempts s"
  shows "grows attempts 0 (run_stop_callback env cfg ctx rid cb)"
proof -
  have o: "grows attempts (0 + 0) (finallyE (awaitE env p) (modifyE (exit_origin token)))"
    for p token
    by (intro grows_finallyE grows_awaitE grows_modifyE) (simp_all add: assms)
  have o': "grows attempts 0 (with_handler_origin_context_only cfg ctx' rid' (\<lambda>c. awaitE env (f c)))"
    for ctx' rid' f
    using o by (auto simp: grows_def with_handler_origin_context_only_def Let_def)
      (metis attempts_context(3))
  have "grows attempts (0 + 0) (finallyE
      (with_handler_origin_context_only cfg ctx' rid' (\<lambda>c. awaitE env (f c)))
      (modifyE (exit_bypass token)))" for ctx' rid' f token
    by (intro grows_finallyE o' grows_modifyE) simp
  then show ?thesis
    by (auto simp: grows_def run_stop_callback_def with_stop_await_bypass_context_def Let_def)
      (metis attempts_context(4))
qed

lemma grows_enqueue:
  assumes "\<And>p s. attempts (snd (env p s)) \<le> attempts s"
  shows "grows attempts 0 (enqueue env cfg qe)"
proof (rule grows_keeps)
  fix n
  have a: "attempts (snd (enqueue_attempt cfg qe s)) = attempts s" for s :: "'a disp_scheme"
    by (auto simp: queue_defs settle_queued_event_def Let_def split: option.splits)
  show "keeps (\<lambda>s. attempts s \<le> n) (enqueue env cfg qe)"
    by (rule keeps_enqueue) (auto simp: a env_keeps_def intro: order_trans [OF assms])
qed

lemma grows_call_handler:
  assumes "\<And>p s. attempts (snd (env p s)) \<le> attempts s"
  shows "grows attempts 0 (call_handler env event ctx)"
proof -
  have "grows attempts (0 + 0) (call_handler env event ctx)"
    unfolding call_handler_def by (intro grows_seqE grows_modifyE grows_awaitE assms) simp
  then show ?thesis by simp
qed

lemma attempts_bounded:
  shows "(\<And>p s. attempts (snd (env p s)) \<le> attempts s) \<Longrightarrow>
      grows attempts (1 + failure_rank cfg event) (emit_now env cfg ctx event)"
    and "(\<And>p s. attempts (snd (env p s)) \<le> attempts s) \<Longrightarrow>
      grows attempts (failure_rank cfg event) (handle_handler_failure env cfg ctx error event)"
    and "(\<And>p s. attempts (snd (env p s)) \<le> attempts s) \<Longrightarrow>
      grows attempts (1 + failure_rank cfg event) (emit_handler_failure_control_event env cfg ctx event)"
    and "(\<And>p s. attempts (snd (env p s)) \<le> attempts s) \<Longrightarrow>
      grows attempts (1 + failure_rank cfg event) (emit env cfg ctx event)"
proof (induction env cfg ctx event and env cfg ctx error event and env cfg ctx event
    and env cfg ctx event rule: emit_induct)
  case (1 env cfg ctx event)
  note IH = 1(1) [OF _ 1(2)]
  have count: "grows attempts k m \<Longrightarrow> grows attempts k (seqE
      (modifyE (\<lambda>s. s\<lparr>d_handler_failures_total := Suc (d_handler_failures_total s)\<rparr>)) m)" for k m
    using grows_seqE [OF grows_modifyE, of attempts _ 0 k m] by fastforce
  have fail: "grows attempts (0 + failure_rank cfg event)
      (if b then raiseE error else seqE (modifyE (\<lambda>s. s\<lparr>d_handler_failures_total :=
           Suc (d_handler_failures_total s)\<rparr>))
         (handle_handler_failure env cfg ctx
            (if is_cancelled error then handler_cancelled_error else error) event))"
    if "\<not> b \<Longrightarrow> \<not> (is_cancelled error \<and> c \<or> \<not> is_caught error)" for b c error
    by (rule grows_if) (simp_all add: grows_mono [OF grows_raiseE] count IH [OF that])
  have "grows attempts (1 + (0 + (0 + (0 + failure_rank cfg event)))) (emit_now env cfg ctx event)"
    unfolding emit_now.simps [of env cfg]
    by (intro grows_seqE grows_tryE grows_bindE grows_getsE grows_dispatch
        grows_call_handler [OF 1(2)] fail grows_modifyE) auto
  then show ?case by simp
next
  case (2 env cfg ctx error event)
  have seq: "grows attempts (Suc 0) m \<Longrightarrow> grows attempts (Suc 0) (seqE m (run_stop_callback env cfg ctx rid cb))"
    for m rid cb
    using grows_seqE [OF _ grows_stop_callback [OF 2(3)]] by fastforce
  show ?case
    using 2(1) [OF _ _ _ _ 2(3)] 2(2) [OF _ _ _ _ _ _ 2(3)]
    by (auto simp: handle_handler_failure.simps [of env cfg] failure_rank_def
        split: option.splits dest: remaining_policy
        intro!: grows_mono [OF grows_ret] grows_mono [OF grows_raiseE] seq intro: remaining_policy)
next
  case (3 env cfg ctx event)
  note IH = 3(1) [OF _ 3(3)] 3(2) [OF _ 3(3)]
  have "grows attempts (0 + (1 + failure_rank cfg event))
      (emit_handler_failure_control_event env cfg ctx event)"
    unfolding emit_handler_failure_control_event.simps [of env cfg]
    by (intro grows_bindE grows_getsE grows_if IH)
  then show ?case by simp
next
  case (4 env cfg ctx event)
  note IH = 4(1) [OF _ 4(4)] 4(2) [OF _ _ 4(4)] 4(3) [OF _ _ _ _ 4(4)]
  have count: "grows attempts k m \<Longrightarrow> grows attempts k (seqE
      (modifyE (\<lambda>s. s\<lparr>d_inline_fallback_total := Suc (d_inline_fallback_total s)\<rparr>)) m)" for k m
    using grows_seqE [OF grows_modifyE, of attempts _ 0 k m] by fastforce
  have "grows attempts (0 + (0 + (1 + failure_rank cfg event))) (emit env cfg ctx event)"
    unfolding emit.simps [of env cfg]
    by (intro grows_seqE grows_modifyE grows_bindE grows_getsE grows_if IH count
        grows_mono [OF grows_enqueue [OF 4(4)]] grows_mono [OF grows_modifyE [where k = 0]])
      (auto simp: record_stop_phase_drop_def)
  then show ?case by simp
qed

text \<open>
  C8: A failing handler cannot make the dispatcher loop: one \<open>emit\<close> (or one delivery by the
  worker) calls the handler at most twice, the second time only for the control event of the
  failure policy, and never twice when that event is itself the one delivered.
\<close>
theorem handler_attempts_bounded:
  assumes "\<And>p s. attempts (snd (env p s)) \<le> attempts s"
    and "emit env cfg ctx event s = Some (r, s') \<or> emit_now env cfg ctx event s = Some (r, s')"
  shows "attempts s' \<le> attempts s + 1 + failure_rank cfg event \<and> failure_rank cfg event \<le> 1 \<and>
    failure_rank cfg (NetworkErrorEvent src err) + failure_rank cfg
      (HandlerFailurePolicyStopEvent src name err pol mode) \<le> 1"
proof -
  have "attempts s' \<le> attempts s + (1 + failure_rank cfg event)"
    using growsD [OF attempts_bounded(1) [of env, OF assms(1)]]
      growsD [OF attempts_bounded(4) [of env, OF assms(1)]] assms(2) by blast
  then show ?thesis by (simp add: failure_rank_def)
qed

theorem handler_attempts_bounded_witness:
  "\<exists>s'. emit_now failing_env sample_config (plain_ctx None) (NetworkErrorEvent ''c'' cancelled)
       empty_disp = Some (Inl (Exn (OtherBaseException ''KeyboardInterrupt'') ''''), s') \<and>
     attempts s' \<le> 1"
proof -
  obtain s' where run: "emit_now failing_env sample_config (plain_ctx None)
      (NetworkErrorEvent ''c'' cancelled) empty_disp =
      Some (Inl (Exn (OtherBaseException ''KeyboardInterrupt'') ''''), s')"
    using failing_emit_now by blast
  have "attempts s' \<le> attempts empty_disp + 1 +
      failure_rank sample_config (NetworkErrorEvent ''c'' cancelled)"
    by (rule handler_attempts_bounded [OF _ disjI2 [OF run], THEN conjunct1])
      (simp add: failing_env_def split: await_point.splits)
  with run show ?thesis
    by (simp add: empty_disp_def sample_config_def failure_rank_def)
qed

section \<open>RAISE_IN_INLINE_MODE\<close>

text \<open>What one call of the handler does, inside its dispatch context.\<close>

definition handler_call ::
    "'a disp_scheme environment \<Rightarrow> disp_config \<Rightarrow> task_ctx \<Rightarrow> nat \<Rightarrow> network_event \<Rightarrow> 'a disp_scheme \<Rightarrow>
     exn option \<times> 'a disp_scheme" where
  "handler_call env cfg ctx t event s =
     env (A_handler (dispatch_ctx cfg ctx t (Suc (d_next_origin_token s))) event)
       ((enter_dispatch cfg t (Some (resource_id event)) s)\<lparr>d_delivered := d_delivered s @ [event]\<rparr>)"

lemma enter_dispatch_delivered [simp]: "d_delivered (enter_dispatch cfg t r s) = d_delivered s"
  by (simp add: enter_dispatch_def Let_def)

lemma exit_origin_cancelling [simp]: "d_cancelling (exit_origin token s) = d_cancelling s"
  by (simp add: exit_origin_def notify_handler_context_changed_def split: option.splits)

lemma dispatch_call_handler:
  assumes "tc_task ctx = Some t"
  shows "with_handler_dispatch_context cfg ctx (Some (resource_id event)) (call_handler env event) s =
    (let (out, s1) = handler_call env cfg ctx t event s
     in Some (case out of None \<Rightarrow> Inr () | Some e \<Rightarrow> Inl e,
              exit_origin (Suc (d_next_origin_token s)) s1))"
  using assms
  by (simp add: with_handler_dispatch_context_def call_handler_def handler_call_def finallyE_def
      seqE_def bindE_def modifyE_def awaitE_def Let_def split: prod.splits option.splits)

text \<open>
  In INLINE mode with RAISE_IN_INLINE_MODE the emitter sees exactly what the handler did:
  \<open>emit\<close> calls it once, returns when it returned, re-raises its exception, and turns a
  CancelledError that does not come from a cancellation of the emitting task into an ordinary
  error.
\<close>
theorem inline_raise_is_exact:
  assumes "dc_dispatch_mode cfg = INLINE" "dc_failure_policy cfg = RAISE_IN_INLINE_MODE"
    and "tc_task ctx = Some t"
  shows "map_option fst (emit env cfg ctx event s) =
    (let s0 = s\<lparr>d_emit_calls_total := Suc (d_emit_calls_total s),
                d_handler_dispatch_attempts_total := Suc (d_handler_dispatch_attempts_total s)\<rparr>;
         (out, s1) = handler_call env cfg ctx t event s0
     in Some (case out of
          None \<Rightarrow> Inr ()
        | Some e \<Rightarrow> if is_cancelled e \<and> t \<notin> d_cancelling s1 then Inl handler_cancelled_error
                    else Inl e))"
proof -
  let ?s0 = "s\<lparr>d_emit_calls_total := Suc (d_emit_calls_total s),
               d_handler_dispatch_attempts_total := Suc (d_handler_dispatch_attempts_total s)\<rparr>"
  obtain out s1 where h: "handler_call env cfg ctx t event ?s0 = (out, s1)" by force
  show ?thesis
    using assms
    by (cases out)
      (auto simp: emit.simps [of env cfg] emit_now.simps [of env cfg] handle_handler_failure.simps
        dispatch_call_handler prog_defs h Let_def is_task_being_cancelled_def is_caught_def)
qed

theorem inline_raise_is_exact_witness:
  "map_option fst (emit (\<lambda>p s. (Some (Exn ValueError ''boom''), s))
     (sample_config\<lparr>dc_dispatch_mode := INLINE, dc_failure_policy := RAISE_IN_INLINE_MODE\<rparr>)
     (plain_ctx (Some 3)) (NetworkErrorEvent ''c'' cancelled) empty_disp) =
   Some (Inl (Exn ValueError ''boom''))"
  by (subst inline_raise_is_exact)
    (simp_all add: plain_ctx_def handler_call_def is_cancelled_def)

section \<open>Who runs inside a handler\<close>

lemma fresh_token:
  "origins_wf s \<Longrightarrow> Suc (d_next_origin_token s) \<notin> d_origin_child_provenance s"
  by (auto simp: origins_wf_def)

text \<open>
  C10: Handler authority belongs to the handler's own task.  While a handler runs for a resource
  on task \<open>t\<close>, that task is recognised as dispatching for that resource; a task the handler
  spawns carries only provenance (enough to avoid waiting for itself), never authority; work
  that merely originates from a handler passes on neither; and when the handler returns all
  of it ends, also for tasks that still hold the old context.
\<close>
theorem handler_authority:
  assumes "t' \<noteq> t" "origins_wf s"
  shows "let token = Suc (d_next_origin_token s); ctx = plain_ctx (Some t);
             s1 = enter_dispatch cfg t (Some rid) s; h = dispatch_ctx cfg ctx t token;
             c = child_ctx h t'; s2 = enter_origin_only (Some t) (Some rid) s;
             oc = origin_ctx cfg ctx token
         in current_task_is_dispatching_handler cfg h s1 (Some rid) \<and>
            current_task_has_handler_origin_context cfg h s1 (Some rid) \<and>
            \<not> current_task_is_dispatching_handler cfg c s1 None \<and>
            \<not> current_task_has_handler_origin_context cfg c s1 None \<and>
            current_task_inherits_handler_origin_context cfg c s1 (Some rid) \<and>
            current_task_has_handler_origin_context cfg oc s2 (Some rid) \<and>
            \<not> current_task_is_dispatching_handler cfg oc s2 None \<and>
            \<not> current_task_inherits_handler_origin_context cfg (child_ctx oc t') s2 None \<and>
            \<not> current_task_has_handler_origin_context cfg h (exit_origin token s1) None \<and>
            \<not> current_task_is_dispatching_handler cfg h (exit_origin token s1) (Some rid) \<and>
            \<not> current_task_inherits_handler_origin_context cfg c (exit_origin token s1) None"
  using assms(1) fresh_token [OF assms(2)]
  by (simp add: Let_def plain_ctx_def child_ctx_def dispatch_ctx_def origin_ctx_def
      enter_dispatch_def enter_origin_only_def exit_origin_def
      current_task_is_dispatching_handler_def current_task_has_handler_origin_context_def
      current_task_inherits_handler_origin_context_def)

theorem handler_authority_witness:
  "current_task_is_dispatching_handler sample_config
     (dispatch_ctx sample_config (plain_ctx (Some 3)) 3 1)
     (enter_dispatch sample_config 3 (Some ''c'') empty_disp) (Some ''c'')"
  using handler_authority [of 4 3 empty_disp sample_config "''c''"]
  by (simp add: Let_def empty_disp_def origins_wf_def)

section \<open>Stopping from a handler\<close>

lemma settle_done:
  "f < length (d_futures s) \<Longrightarrow> is_done (d_futures s ! f) \<Longrightarrow>
     is_done (d_futures (settle_queued_event r qe s) ! f)"
  by (cases "qe_handled qe = Some f")
    (auto simp: settle_queued_event_def split: option.splits)

lemma settle_own:
  "qe_handled qe = Some f \<Longrightarrow> f < length (d_futures s) \<Longrightarrow>
     is_done (d_futures (settle_queued_event r qe s) ! f)"
  by (simp add: settle_queued_event_def)

lemma settle_all_done:
  assumes "f < length (d_futures s)" "is_done (d_futures s ! f) \<or> Some f \<in> qe_handled ` set qes"
  shows "is_done (d_futures (fold (settle_queued_event r) qes s) ! f)"
  using assms
proof (induction qes arbitrary: s)
  case (Cons qe qes)
  have "is_done (d_futures (settle_queued_event r qe s) ! f) \<or> Some f \<in> qe_handled ` set qes"
    using Cons.prems settle_done [of f s r qe] settle_own [of qe f s r] by auto
  then show ?case using Cons.IH [of "settle_queued_event r qe s"] Cons.prems(1) by simp
qed simp

lemma settle_all_selectors [simp]:
  "length (d_futures (fold (settle_queued_event r) qes s)) = length (d_futures s)"
  "d_queue (fold (settle_queued_event r) qes s) = d_queue s"
  "d_queue_peak (fold (settle_queued_event r) qes s) = d_queue_peak s"
  "d_stopping (fold (settle_queued_event r) qes s) = d_stopping s"
  "d_worker_task (fold (settle_queued_event r) qes s) = d_worker_task s"
  "d_dropped_stop_phase_total (fold (settle_queued_event r) qes s) = d_dropped_stop_phase_total s"
  by (induction qes arbitrary: s) simp_all

lemma drop_queue_spec:
  "d_queue (drop_queue s) = []"
  "d_stopping (drop_queue s) = d_stopping s"
  "d_dropped_stop_phase_total (drop_queue s) = d_dropped_stop_phase_total s + length (d_queue s)"
  "f < length (d_futures s) \<Longrightarrow> Some f \<in> qe_handled ` set (d_queue s) \<Longrightarrow>
     is_done (d_futures (drop_queue s) ! f)"
  by (simp_all add: drop_queue_def drop_all_def drop_queued_event_def Let_def settle_all_done)

text \<open>
  C9: A stop that comes from a handler cannot wait for itself.  On the worker task, and on any
  task that goes through \<open>stop_from_handler_origin\<close>, stopping returns at once whatever the
  environment does (the worker is not awaited); the dispatcher is then stopping, its queue is
  empty, everything that was queued is counted as dropped, and no barrier of a queued event
  is left pending.
\<close>
theorem stop_from_handler_never_waits:
  assumes "disp_wf cfg s" "d_worker_task s = Some w" "tc_task ctx = Some t"
    and "run = disp_stop env cfg \<and> t = w \<or> run = stop_from_handler_origin env cfg"
  shows "\<exists>s'. run ctx s = Some (Inr (), s') \<and> d_queue s' = [] \<and> d_stopping s' \<and>
    d_dropped_stop_phase_total s' = d_dropped_stop_phase_total s + length (d_queue s) \<and>
    list_all (\<lambda>qe. case qe_handled qe of None \<Rightarrow> True | Some f \<Rightarrow> is_done (d_futures s' ! f)) (d_queue s)"
proof -
  have settled: "list_all (\<lambda>qe. case qe_handled qe of None \<Rightarrow> True
      | Some f \<Rightarrow> is_done (d_futures (drop_queue s1) ! f)) (d_queue s)"
    if "d_queue s1 = d_queue s" "d_futures s1 = d_futures s" for s1
    unfolding list_all_iff
  proof
    fix qe
    assume qe: "qe \<in> set (d_queue s)"
    show "case qe_handled qe of None \<Rightarrow> True | Some f \<Rightarrow> is_done (d_futures (drop_queue s1) ! f)"
    proof (cases "qe_handled qe")
      case (Some f)
      have "f < length (d_futures s)" using assms(1) qe Some by (simp add: disp_wf_def futures_wf_def)
      moreover have "Some f \<in> qe_handled ` set (d_queue s)" using qe Some by force
      ultimately show ?thesis using Some that drop_queue_spec(4) [of f s1] by simp
    qed simp
  qed
  from assms(4) show ?thesis
  proof
    assume run: "run = disp_stop env cfg \<and> t = w"
    then have "run ctx s = Some (Inr (), drop_queue (s\<lparr>d_stopping := True\<rparr>))"
      using assms(2,3) by (simp add: disp_stop_def prog_defs)
    then show ?thesis using settled [of "s\<lparr>d_stopping := True\<rparr>"] by (simp add: drop_queue_spec)
  next
    assume run: "run = stop_from_handler_origin env cfg"
    let ?s1 = "(enter_bypass ctx s)\<lparr>d_stopping := True\<rparr>"
    have q: "d_queue ?s1 = d_queue s" "d_futures ?s1 = d_futures s" "d_stopping ?s1"
      "d_dropped_stop_phase_total ?s1 = d_dropped_stop_phase_total s"
      by (simp_all add: enter_bypass_def Let_def)
    have "run ctx s = Some (Inr (), exit_bypass (Suc (d_next_bypass_token s)) (drop_queue ?s1))"
      using assms(2,3)
      by (simp add: run stop_from_handler_origin_def with_stop_await_bypass_context_def disp_stop_def
          prog_defs is_in_stop_await_bypass_context_def enter_bypass_def Let_def)
    then show ?thesis using settled [of ?s1] q
      by (simp add: exit_bypass_def drop_queue_spec cong: option.case_cong)
  qed
qed

theorem stop_from_handler_never_waits_witness:
  "\<exists>s'. stop_from_handler_origin (\<lambda>p s. (Some cancelled, s)) sample_config (plain_ctx (Some 4))
     (empty_disp\<lparr>d_worker_task := Some 3\<rparr>) = Some (Inr (), s') \<and> d_queue s' = [] \<and> d_stopping s'"
  using stop_from_handler_never_waits [of sample_config "empty_disp\<lparr>d_worker_task := Some 3\<rparr>" 3
      "plain_ctx (Some 4)" 4 "stop_from_handler_origin (\<lambda>p s. (Some cancelled, s)) sample_config"
      "\<lambda>p s. (Some cancelled, s)"]
  by (auto simp: wf_defs empty_disp_def plain_ctx_def)

end
