(* ===== verification/Dispatcher_System.thy ===== *)
theory Dispatcher_System
  imports Dispatcher_Policy
begin

text \<open>
  One dispatcher in BACKGROUND mode with its worker and any number of producers, as an
  interleaving step relation.  A step is the code one task runs between two awaits; the
  functions are those of the dispatcher model.  The state adds what asyncio keeps outside the
  object: the producers that wait for queue space (each with a flag that says whether
  \<open>notify\<close> has woken it), the item the worker is delivering, and the barriers whose callers
  were cancelled while waiting.  Ghost fields record acceptance, delivery, eviction, the number of events
  that producers offered, and what was queued when the worker died.
\<close>

section \<open>States and steps\<close>

record dsys =
  sy_disp :: disp
  sy_blocked :: "(queued_event \<times> bool) list"
  sy_current :: "queued_event option"
  sy_abandoned :: "queued_event list"
  sy_accepted :: "queued_event list"
  sy_taken :: "queued_event list"
  sy_completed :: "queued_event list"
  sy_evicted :: "queued_event list"
  sy_offered :: nat
  sy_lost :: "queued_event list"

text \<open>\<open>notify()\<close> wakes the first waiter that has not been woken yet.\<close>

fun notify_one :: "(queued_event \<times> bool) list \<Rightarrow> (queued_event \<times> bool) list" where
  "notify_one [] = []"
| "notify_one ((qe, woken) # ws) = (if woken then (qe, woken) # notify_one ws else (qe, True) # ws)"

definition notify_all :: "(queued_event \<times> bool) list \<Rightarrow> (queued_event \<times> bool) list" where
  "notify_all ws = map (\<lambda>(qe, _). (qe, True)) ws"

text \<open>The queued item DROP_OLDEST evicts for \<open>qe\<close>, if any.\<close>

definition evicted_by :: "disp_config \<Rightarrow> disp \<Rightarrow> queued_event list" where
  "evicted_by cfg d =
     (if accepting_background_events d \<and> \<not> length (d_queue d) < dc_max_pending_events cfg \<and>
         dc_backpressure_policy cfg = DROP_OLDEST
      then (case find_index qe_drop_on_backpressure (d_queue d) of
              None \<Rightarrow> [] | Some i \<Rightarrow> [d_queue d ! i])
      else [])"

text \<open>A producer tries to enqueue; \<open>ws\<close> are the other waiting producers.\<close>

definition try_enqueue ::
    "disp_config \<Rightarrow> queued_event \<Rightarrow> (queued_event \<times> bool) list \<Rightarrow> dsys \<Rightarrow> dsys" where
  "try_enqueue cfg qe ws s =
     (case enqueue_attempt cfg qe (sy_disp s) of (r, d) \<Rightarrow>
        s\<lparr>sy_disp := d,
          sy_blocked := (if r = Blocked then ws @ [(qe, False)] else ws),
          sy_accepted := (if r = Accepted then sy_accepted s @ [qe] else sy_accepted s),
          sy_evicted := sy_evicted s @ evicted_by cfg (sy_disp s)\<rparr>)"

definition plain_item :: "network_event \<Rightarrow> queued_event" where
  "plain_item event = \<lparr>qe_event = event, qe_handled = None, qe_drop_on_backpressure = True\<rparr>"

definition barrier_item :: "network_event \<Rightarrow> bool \<Rightarrow> disp \<Rightarrow> queued_event" where
  "barrier_item event b d =
     \<lparr>qe_event = event, qe_handled = Some (length (d_futures d)), qe_drop_on_backpressure = b\<rparr>"

inductive dstep :: "disp_config \<Rightarrow> dsys \<Rightarrow> dsys \<Rightarrow> bool" for cfg :: disp_config where
  emit_step: "\<lbrakk>d_worker_task (sy_disp s) = Some w; \<not> d_stopping (sy_disp s)\<rbrakk> \<Longrightarrow>
     dstep cfg s (try_enqueue cfg (plain_item event) (sy_blocked s) (s\<lparr>sy_offered := Suc (sy_offered s)\<rparr>))"
| emit_and_wait_step: "\<lbrakk>d_worker_task (sy_disp s) = Some w; \<not> d_stopping (sy_disp s)\<rbrakk> \<Longrightarrow>
     dstep cfg s (try_enqueue cfg (barrier_item event b (sy_disp s)) (sy_blocked s)
       (s\<lparr>sy_disp := snd (create_future (sy_disp s)), sy_offered := Suc (sy_offered s)\<rparr>))"
| emit_stopping_step: "d_stopping (sy_disp s) \<Longrightarrow>
     dstep cfg s (s\<lparr>sy_disp := record_stop_phase_drop (sy_disp s), sy_offered := Suc (sy_offered s)\<rparr>)"
| retry_step: "sy_blocked s = ws1 @ (qe, True) # ws2 \<Longrightarrow>
     dstep cfg s (try_enqueue cfg qe (ws1 @ ws2) s)"
| cancel_step: "sy_blocked s = ws1 @ (qe, woken) # ws2 \<Longrightarrow>
     dstep cfg s (s\<lparr>sy_blocked := ws1 @ ws2, sy_abandoned := sy_abandoned s @ [qe]\<rparr>)"
| take_step: "\<lbrakk>d_worker_task (sy_disp s) = Some w; sy_current s = None; d_queue (sy_disp s) = qe # rest\<rbrakk> \<Longrightarrow>
     dstep cfg s (s\<lparr>sy_disp := (sy_disp s)\<lparr>d_queue := rest\<rparr>, sy_current := Some qe,
       sy_taken := sy_taken s @ [qe], sy_blocked := notify_one (sy_blocked s)\<rparr>)"
| complete_step: "sy_current s = Some qe \<Longrightarrow>
     dstep cfg s (s\<lparr>sy_disp := complete_queued_event qe (sy_disp s), sy_current := None,
       sy_completed := sy_completed s @ [qe]\<rparr>)"
| fail_step: "\<lbrakk>sy_current s = Some qe; d_worker_task (sy_disp s) = Some w\<rbrakk> \<Longrightarrow>
     dstep cfg s (s\<lparr>sy_disp := run_finally w (Some e) (fail_queued_event e qe (sy_disp s)),
       sy_current := None, sy_lost := sy_lost s @ d_queue (sy_disp s)\<rparr>)"
| worker_cancelled_step: "\<lbrakk>sy_current s = None; d_worker_task (sy_disp s) = Some w\<rbrakk> \<Longrightarrow>
     dstep cfg s (s\<lparr>sy_disp := run_finally w None (sy_disp s),
       sy_lost := sy_lost s @ d_queue (sy_disp s)\<rparr>)"
| exit_step: "\<lbrakk>sy_current s = None; d_worker_task (sy_disp s) = Some w; d_stopping (sy_disp s);
     d_queue (sy_disp s) = []\<rbrakk> \<Longrightarrow>
     dstep cfg s (s\<lparr>sy_disp := run_finally w None (sy_disp s)\<rparr>)"
| stop_step: "d_worker_task (sy_disp s) = Some w \<Longrightarrow>
     dstep cfg s (s\<lparr>sy_disp := (sy_disp s)\<lparr>d_stopping := True\<rparr>,
       sy_blocked := notify_all (sy_blocked s)\<rparr>)"
| stop_idle_step: "d_worker_task (sy_disp s) = None \<Longrightarrow>
     dstep cfg s (s\<lparr>sy_disp := (sy_disp s)\<lparr>d_stopping := True\<rparr>\<rparr>)"
| stop_from_handler_step: "d_worker_task (sy_disp s) = Some w \<Longrightarrow>
     dstep cfg s (s\<lparr>sy_disp := drop_queue ((sy_disp s)\<lparr>d_stopping := True\<rparr>),
       sy_blocked := notify_all (sy_blocked s)\<rparr>)"
| drop_resource_step: "drop_queued_events_for_resource rid (sy_disp s) = (n, d) \<Longrightarrow>
     dstep cfg s (s\<lparr>sy_disp := d,
       sy_blocked := (if n = 0 then sy_blocked s else notify_all (sy_blocked s))\<rparr>)"

inductive_cases dstep_cases: "dstep cfg s s'"

definition dsys_init :: "disp_config \<Rightarrow> disp \<Rightarrow> dsys" where
  "dsys_init cfg d = \<lparr>sy_disp = disp_start cfg d, sy_blocked = [], sy_current = None,
     sy_abandoned = [], sy_accepted = [], sy_taken = [], sy_completed = [], sy_evicted = [],
     sy_offered = 0, sy_lost = []\<rparr>"

inductive dreach :: "disp_config \<Rightarrow> dsys \<Rightarrow> bool" for cfg :: disp_config where
  init: "dreach cfg (dsys_init cfg empty_disp)"
| step: "dreach cfg s \<Longrightarrow> dstep cfg s s' \<Longrightarrow> dreach cfg s'"

section \<open>One attempt to enqueue\<close>

lemma attempt_cases:
  obtains
    (stopped) "d_stopping d"
      "enqueue_attempt cfg qe d = (Discarded, drop_queued_event dropped_stopped qe (record_stop_phase_drop d))"
      "evicted_by cfg d = []"
  | (room) "\<not> d_stopping d" "length (d_queue d) < dc_max_pending_events cfg"
      "enqueue_attempt cfg qe d = (Accepted, append_queued_event qe d)" "evicted_by cfg d = []"
  | (blocked) "\<not> d_stopping d" "enqueue_attempt cfg qe d = (Blocked, d)" "evicted_by cfg d = []"
      "dc_max_pending_events cfg \<le> length (d_queue d)"
      "dc_backpressure_policy cfg = BLOCK \<or> \<not> qe_drop_on_backpressure qe"
  | (newest) "\<not> d_stopping d" "enqueue_attempt cfg qe d = (Discarded, discard_newest qe d)"
      "evicted_by cfg d = []" "qe_drop_on_backpressure qe"
  | (oldest) i d' where "\<not> d_stopping d" "i < length (d_queue d)"
      "qe_drop_on_backpressure (d_queue d ! i)"
      "enqueue_attempt cfg qe d = (Accepted, d')" "d_queue d' = del_at i (d_queue d) @ [qe]"
      "d_futures d' = d_futures (drop_queued_event dropped_backpressure (d_queue d ! i) d)"
      "d_queue_peak d' = max (d_queue_peak d) (length (d_queue d))"
      "d_worker_task d' = d_worker_task d" "d_stopping d' = d_stopping d"
      "evicted_by cfg d = [d_queue d ! i]"
      "d_enqueued_total d' = Suc (d_enqueued_total d)"
      "d_dropped_backpressure_oldest_total d' = Suc (d_dropped_backpressure_oldest_total d)"
      "d_dropped_backpressure_newest_total d' = d_dropped_backpressure_newest_total d"
      "d_dropped_stop_phase_total d' = d_dropped_stop_phase_total d"
proof (cases "d_stopping d")
  case True
  then show ?thesis by (intro stopped) (simp_all add: enqueue_attempt_def evicted_by_def
        accepting_background_events_def)
next
  case ns: False
  show ?thesis
  proof (cases "length (d_queue d) < dc_max_pending_events cfg")
    case True
    with ns show ?thesis by (intro room) (simp_all add: enqueue_attempt_def evicted_by_def
          accepting_background_events_def)
  next
    case full: False
    show ?thesis
    proof (cases "dc_backpressure_policy cfg")
      case BLOCK
      with ns full show ?thesis by (intro blocked) (simp_all add: enqueue_attempt_def
            evicted_by_def accepting_background_events_def)
    next
      case DROP_NEWEST
      with ns full show ?thesis
        by (cases "qe_drop_on_backpressure qe")
          (auto intro: newest blocked simp: enqueue_attempt_def evicted_by_def
            accepting_background_events_def)
    next
      case DROP_OLDEST
      show ?thesis
      proof (cases "find_index qe_drop_on_backpressure (d_queue d)")
        case None
        with ns full DROP_OLDEST show ?thesis
          by (cases "qe_drop_on_backpressure qe")
            (auto intro: newest blocked simp: enqueue_attempt_def evicted_by_def
              accepting_background_events_def)
      next
        case (Some i)
        note i = find_index_Some [OF Some]
        then have len: "Suc (length (d_queue d) - Suc 0) = length (d_queue d)" by auto
        show ?thesis
          by (rule oldest [of i "snd (enqueue_attempt cfg qe d)"])
            (use ns full DROP_OLDEST Some i len in \<open>simp_all add: enqueue_attempt_def evicted_by_def
              accepting_background_events_def Let_def drop_queued_event_def length_del_at
              settle_queued_event_def split: option.splits\<close>)
      qed
    qed
  qed
qed

section \<open>The queue along a run\<close>

text \<open>The queue is within its bound, evicted items were droppable, delivery is FIFO.\<close>

definition queue_inv :: "disp_config \<Rightarrow> dsys \<Rightarrow> bool" where
  "queue_inv cfg s \<longleftrightarrow> queue_wf cfg (sy_disp s) \<and>
     subseq (sy_taken s @ d_queue (sy_disp s)) (sy_accepted s) \<and>
     list_all qe_drop_on_backpressure (sy_evicted s)"

lemma try_enqueue_queue_inv:
  assumes "queue_inv cfg s"
  shows "queue_inv cfg (try_enqueue cfg qe ws s)"
proof -
  let ?d = "sy_disp s"
  have wf: "queue_wf cfg (snd (enqueue_attempt cfg qe ?d))"
    using assms enqueue_attempt_queue by (auto simp: queue_inv_def)
  show ?thesis
  proof (cases rule: attempt_cases [of ?d cfg qe])
    case (oldest i d')
    have "subseq (sy_taken s @ del_at i (d_queue ?d)) (sy_taken s @ d_queue ?d)"
      by (simp only: subseq_append' subseq_del_at)
    then have "subseq (sy_taken s @ del_at i (d_queue ?d)) (sy_accepted s)"
      using assms by (auto simp: queue_inv_def intro: subseq_order.order_trans)
    then have "subseq ((sy_taken s @ del_at i (d_queue ?d)) @ [qe]) (sy_accepted s @ [qe])"
      by (rule list_emb_append_mono) simp
    then show ?thesis
      using assms wf oldest by (simp add: queue_inv_def try_enqueue_def)
  next
    case room
    have "subseq ((sy_taken s @ d_queue ?d) @ [qe]) (sy_accepted s @ [qe])"
      using assms by (intro list_emb_append_mono) (auto simp: queue_inv_def)
    then show ?thesis
      using assms wf room by (simp add: queue_inv_def try_enqueue_def append_queued_event_def Let_def)
  qed (use assms wf in \<open>simp_all add: queue_inv_def try_enqueue_def queue_defs\<close>)
qed

lemma drop_resource_queue:
  assumes "drop_queued_events_for_resource rid d = (n, d')"
  shows "d_queue d' = filter (\<lambda>qe. \<not> is_dropped_for rid qe) (d_queue d)"
    "d_queue_peak d' = d_queue_peak d"
  using assms
  by (auto simp: drop_queued_events_for_resource_def Let_def drop_all_def drop_queued_event_def
      filter_empty_conv split: if_splits intro: filter_True [symmetric])

lemma queue_inv_shrink:
  assumes "queue_inv cfg s" "subseq (d_queue (sy_disp s')) (d_queue (sy_disp s))"
    "d_queue_peak (sy_disp s') = d_queue_peak (sy_disp s)" "sy_taken s' = sy_taken s"
    "sy_accepted s' = sy_accepted s" "sy_evicted s' = sy_evicted s"
  shows "queue_inv cfg s'"
proof -
  have "subseq (sy_taken s @ d_queue (sy_disp s')) (sy_taken s @ d_queue (sy_disp s))"
    using assms(2) by (simp only: subseq_append')
  then have "subseq (sy_taken s @ d_queue (sy_disp s')) (sy_accepted s)"
    using assms(1) by (auto simp: queue_inv_def intro: subseq_order.order_trans)
  then show ?thesis
    using assms list_emb_length [OF assms(2)] by (auto simp: queue_inv_def queue_wf_def)
qed

lemma run_finally_queue [simp]:
  "d_queue (run_finally w e d) = []" "d_queue_peak (run_finally w e d) = d_queue_peak d"
  by (simp_all add: run_finally_def fail_queued_event_def Let_def)

lemma drop_queue_peak [simp]: "d_queue_peak (drop_queue d) = d_queue_peak d"
  by (simp add: drop_queue_def drop_all_def drop_queued_event_def Let_def)

lemma create_future_queue [simp]:
  "d_queue (snd (create_future d)) = d_queue d" "d_queue_peak (snd (create_future d)) = d_queue_peak d"
  by (simp_all add: create_future_def)

lemma dstep_queue_inv:
  assumes "dstep cfg s s'" "queue_inv cfg s"
  shows "queue_inv cfg s'"
  using assms
proof (induction rule: dstep.induct)
  case (emit_step s w event)
  then show ?case by (intro try_enqueue_queue_inv) (simp add: queue_inv_def)
next
  case (emit_and_wait_step s w event b)
  then show ?case by (intro try_enqueue_queue_inv) (simp add: queue_inv_def queue_wf_def)
next
  case (take_step s w qe rest)
  then show ?case by (auto simp: queue_inv_def queue_wf_def)
next
  case (drop_resource_step rid s n d)
  show ?case
    using drop_resource_step(2)
    by (rule queue_inv_shrink) (simp_all add: drop_resource_queue [OF drop_resource_step(1)])
qed ((erule try_enqueue_queue_inv | (erule queue_inv_shrink;
      simp add: record_stop_phase_drop_def complete_queued_event_def fail_queued_event_def
        drop_queue_spec))+)

section \<open>Completion barriers along a run\<close>

text \<open>
  \<open>fut_ok H A C fs\<close>: the items \<open>H\<close> refer to existing futures, a pending future belongs to an
  item of \<open>H\<close> or an abandoned one of \<open>A\<close>, and one settled with success to a completed item
  of \<open>C\<close>.
\<close>

definition fut_ok ::
    "queued_event set \<Rightarrow> queued_event set \<Rightarrow> queued_event set \<Rightarrow> future_state list \<Rightarrow> bool" where
  "fut_ok H A C fs \<longleftrightarrow>
     (\<forall>q \<in> H. \<forall>f. qe_handled q = Some f \<longrightarrow> f < length fs) \<and>
     (\<forall>f < length fs. fs ! f = Pending \<longrightarrow> Some f \<in> qe_handled ` (H \<union> A)) \<and>
     (\<forall>f < length fs. fs ! f = Done (Inr ()) \<longrightarrow> Some f \<in> qe_handled ` C)"

definition holders :: "dsys \<Rightarrow> queued_event set" where
  "holders s = set (d_queue (sy_disp s)) \<union> set_option (sy_current s) \<union> fst ` set (sy_blocked s)"

definition futures_inv :: "dsys \<Rightarrow> bool" where
  "futures_inv s \<longleftrightarrow>
     fut_ok (holders s) (set (sy_abandoned s)) (set (sy_completed s)) (d_futures (sy_disp s))"

lemma is_done_iff: "is_done x \<longleftrightarrow> x \<noteq> Pending"
  by (cases x) simp_all

lemma settle_nth:
  "f < length (d_futures s) \<Longrightarrow> d_futures (settle_queued_event r q s) ! f =
     (if qe_handled q = Some f \<and> d_futures s ! f = Pending then Done r else d_futures s ! f)"
  by (cases "qe_handled q = Some f")
    (auto simp: settle_queued_event_def is_done_iff split: option.splits)

lemma fut_ok_error:
  "fut_ok (insert q H) A C (d_futures s) \<Longrightarrow> fut_ok H A C (d_futures (settle_queued_event (Inl e) q s))"
  unfolding fut_ok_def by (fastforce simp: settle_nth split: if_splits)

lemma fut_ok_success:
  "fut_ok (insert q H) A C (d_futures s) \<Longrightarrow>
     fut_ok H A (insert q C) (d_futures (settle_queued_event (Inr ()) q s))"
  unfolding fut_ok_def by (fastforce simp: settle_nth split: if_splits)

lemma fut_ok_errors:
  "fut_ok (set qs \<union> H) A C (d_futures s) \<Longrightarrow>
     fut_ok H A C (d_futures (fold (settle_queued_event (Inl e)) qs s))"
proof (induction qs arbitrary: s)
  case (Cons q qs)
  have "fut_ok (insert q (set qs \<union> H)) A C (d_futures s)" using Cons.prems by simp
  from Cons.IH [OF fut_ok_error [OF this]] show ?case by simp
qed simp

lemma fut_ok_create:
  assumes "fut_ok H A C fs" "qe_handled q = Some (length fs)"
  shows "fut_ok (insert q H) A C (fs @ [Pending])"
  using assms unfolding fut_ok_def by (auto simp: nth_append less_Suc_eq)

lemma fut_ok_plain: "fut_ok H A C fs \<Longrightarrow> qe_handled q = None \<Longrightarrow> fut_ok (insert q H) A C fs"
  unfolding fut_ok_def by auto

lemma fut_ok_abandon: "fut_ok (insert q H) A C fs \<Longrightarrow> fut_ok H (insert q A) C fs"
  unfolding fut_ok_def by auto

lemma fut_ok_subst: "fut_ok H A C fs \<Longrightarrow> H = H' \<Longrightarrow> fs = fs' \<Longrightarrow> fut_ok H' A C fs'"
  by simp

text \<open>An attempt with item \<open>qe\<close>, which counts as held before and is settled or held after.\<close>

lemma try_enqueue_futures_inv:
  assumes "fut_ok (insert qe (set (d_queue (sy_disp s)) \<union> set_option (sy_current s) \<union> fst ` set ws))
      (set (sy_abandoned s)) (set (sy_completed s)) (d_futures (sy_disp s))"
  shows "futures_inv (try_enqueue cfg qe ws s)"
proof -
  let ?d = "sy_disp s"
  show ?thesis
  proof (cases rule: attempt_cases [of ?d cfg qe])
    case stopped
    have "d_futures (record_stop_phase_drop ?d) = d_futures ?d" "d_queue (record_stop_phase_drop ?d) = d_queue ?d"
      by (simp_all add: record_stop_phase_drop_def)
    with assms stopped show ?thesis
      by (auto simp: futures_inv_def try_enqueue_def holders_def drop_queued_event_def
          intro: fut_ok_error)
  next
    case room
    with assms show ?thesis
      by (auto simp: futures_inv_def try_enqueue_def holders_def append_queued_event_def Let_def
          elim: fut_ok_subst)
  next
    case blocked
    with assms show ?thesis
      by (auto simp: futures_inv_def try_enqueue_def holders_def elim: fut_ok_subst)
  next
    case newest
    let ?d1 = "?d\<lparr>d_dropped_backpressure_newest_total := Suc (d_dropped_backpressure_newest_total ?d)\<rparr>"
    have "d_futures ?d1 = d_futures ?d" "d_queue ?d1 = d_queue ?d" by simp_all
    with assms newest show ?thesis
      by (auto simp: futures_inv_def try_enqueue_def holders_def discard_newest_def
          drop_queued_event_def intro: fut_ok_error)
  next
    case (oldest i d')
    let ?H = "set (del_at i (d_queue ?d)) \<union> set_option (sy_current s) \<union> fst ` set ws"
    have "insert qe (set (d_queue ?d) \<union> set_option (sy_current s) \<union> fst ` set ws) =
        insert (d_queue ?d ! i) (insert qe ?H)"
      using mset_del_at [OF oldest(2)] by auto
    with assms have "fut_ok (insert qe ?H) (set (sy_abandoned s)) (set (sy_completed s)) (d_futures d')"
      by (auto simp: oldest(6) drop_queued_event_def intro: fut_ok_error)
    moreover have "holders (try_enqueue cfg qe ws s) = insert qe ?H"
      using oldest by (auto simp: holders_def try_enqueue_def)
    ultimately show ?thesis
      using oldest(4) by (simp add: futures_inv_def) (simp add: try_enqueue_def)
  qed
qed

lemma fst_notify [simp]:
  "fst ` set (notify_one ws) = fst ` set ws" "fst ` set (notify_all ws) = fst ` set ws"
proof -
  have "map fst (notify_one ws) = map fst ws" by (induction ws rule: notify_one.induct) auto
  then show "fst ` set (notify_one ws) = fst ` set ws" by (metis list.set_map)
  show "fst ` set (notify_all ws) = fst ` set ws" by (force simp: notify_all_def)
qed

lemma run_finally_futures:
  "fut_ok (set (d_queue d) \<union> H) A C (d_futures d) \<Longrightarrow> fut_ok H A C (d_futures (run_finally w e d))"
  by (simp add: run_finally_def fail_queued_event_def Let_def fut_ok_errors)

lemma drop_queue_futures:
  "fut_ok (set (d_queue d) \<union> H) A C (d_futures d) \<Longrightarrow> fut_ok H A C (d_futures (drop_queue d))"
  by (simp add: drop_queue_def drop_all_def drop_queued_event_def Let_def fut_ok_errors)

lemma drop_resource_futures:
  assumes "drop_queued_events_for_resource rid d = (n, d')" "fut_ok (set (d_queue d) \<union> H) A C (d_futures d)"
  shows "fut_ok (set (d_queue d') \<union> H) A C (d_futures d')"
proof (cases "filter (is_dropped_for rid) (d_queue d) = []")
  case True
  with assms show ?thesis by (simp add: drop_queued_events_for_resource_def Let_def)
next
  case False
  let ?D = "filter (is_dropped_for rid) (d_queue d)"
    and ?K = "filter (\<lambda>qe. \<not> is_dropped_for rid qe) (d_queue d)"
  have "set (d_queue d) \<union> H = set ?D \<union> (set ?K \<union> H)" by auto
  with assms(2) have "fut_ok (set ?D \<union> (set ?K \<union> H)) A C (d_futures (d\<lparr>d_queue := ?K,
      d_dropped_stop_phase_total := d_dropped_stop_phase_total d + length ?D\<rparr>))" by simp
  from fut_ok_errors [OF this] show ?thesis
    using assms(1) False
    by (auto simp: drop_queued_events_for_resource_def Let_def drop_all_def drop_queued_event_def)
qed

lemma dstep_futures_inv:
  assumes "dstep cfg s s'" "futures_inv s"
  shows "futures_inv s'"
  using assms
proof (induction rule: dstep.induct)
  case (emit_step s w event)
  then show ?case
    by (intro try_enqueue_futures_inv fut_ok_plain)
      (simp_all add: futures_inv_def holders_def plain_item_def)
next
  case (emit_and_wait_step s w event b)
  then show ?case
    by (intro try_enqueue_futures_inv)
      (auto simp: futures_inv_def holders_def barrier_item_def create_future_def intro: fut_ok_create)
next
  case (retry_step s ws1 qe ws2)
  then show ?case
    by (intro try_enqueue_futures_inv) (auto simp: futures_inv_def holders_def elim: fut_ok_subst)
next
  case (cancel_step s ws1 qe woken ws2)
  then show ?case
    by (auto simp: futures_inv_def holders_def intro!: fut_ok_abandon elim: fut_ok_subst)
next
  case (take_step s w qe rest)
  then show ?case by (auto simp: futures_inv_def holders_def elim: fut_ok_subst)
next
  case (complete_step s qe)
  then show ?case
    by (auto simp: futures_inv_def holders_def complete_queued_event_def intro!: fut_ok_success
        elim: fut_ok_subst)
next
  case (fail_step s qe w e)
  have "fut_ok (insert qe (set (d_queue (sy_disp s)) \<union> fst ` set (sy_blocked s)))
      (set (sy_abandoned s)) (set (sy_completed s)) (d_futures (sy_disp s))"
    using fail_step by (simp add: futures_inv_def holders_def)
  from run_finally_futures [of "fail_queued_event e qe (sy_disp s)" "fst ` set (sy_blocked s)"]
    fut_ok_error [OF this, of e]
  show ?case by (simp add: futures_inv_def holders_def fail_queued_event_def)
next
  case (drop_resource_step rid s n d)
  then show ?case
    using drop_resource_futures [OF drop_resource_step(1), of
        "set_option (sy_current s) \<union> fst ` set (sy_blocked s)"]
    by (auto simp: futures_inv_def holders_def Un_assoc)
qed (auto simp: futures_inv_def holders_def record_stop_phase_drop_def Un_assoc drop_queue_spec
    intro: run_finally_futures drop_queue_futures)

section \<open>What every run satisfies\<close>

lemma empty_disp_started [simp]:
  "d_queue (disp_start cfg empty_disp) = []" "d_queue_peak (disp_start cfg empty_disp) = 0"
  "d_futures (disp_start cfg empty_disp) = []"
  by (simp_all add: disp_start_def empty_disp_def)

lemma dreach_queue_inv: "dreach cfg s \<Longrightarrow> queue_inv cfg s"
proof (induction rule: dreach.induct)
  case init
  then show ?case by (simp add: dsys_init_def queue_inv_def queue_wf_def)
next
  case (step s s')
  then show ?case by (blast intro: dstep_queue_inv)
qed

lemma dreach_futures_inv: "dreach cfg s \<Longrightarrow> futures_inv s"
proof (induction rule: dreach.induct)
  case init
  then show ?case by (simp add: dsys_init_def futures_inv_def fut_ok_def holders_def)
next
  case (step s s')
  then show ?case by (blast intro: dstep_futures_inv)
qed

text \<open>A short run of the sample configuration: one barrier, taken, handled, completed.\<close>

definition sample_event :: network_event where
  "sample_event = NetworkErrorEvent ''c'' cancelled"

definition sample_barrier :: queued_event where
  "sample_barrier = \<lparr>qe_event = sample_event, qe_handled = Some 0, qe_drop_on_backpressure = False\<rparr>"

definition sample_start :: dsys where
  "sample_start = dsys_init sample_config empty_disp"

definition sample_queued :: dsys where
  "sample_queued = try_enqueue sample_config (barrier_item sample_event False (sy_disp sample_start))
     (sy_blocked sample_start) (sample_start\<lparr>sy_disp := snd (create_future (sy_disp sample_start)),
       sy_offered := Suc (sy_offered sample_start)\<rparr>)"

definition sample_taken :: dsys where
  "sample_taken = sample_queued\<lparr>sy_disp := (sy_disp sample_queued)\<lparr>d_queue := []\<rparr>,
     sy_current := Some sample_barrier, sy_taken := sy_taken sample_queued @ [sample_barrier],
     sy_blocked := notify_one (sy_blocked sample_queued)\<rparr>"

definition sample_end :: dsys where
  "sample_end = sample_taken\<lparr>sy_disp := complete_queued_event sample_barrier (sy_disp sample_taken),
     sy_current := None, sy_completed := sy_completed sample_taken @ [sample_barrier]\<rparr>"

lemmas sample_defs = sample_event_def sample_barrier_def sample_start_def sample_queued_def
  sample_taken_def sample_end_def dsys_init_def disp_start_def empty_disp_def
  sample_config_def try_enqueue_def barrier_item_def create_future_def enqueue_attempt_def
  append_queued_event_def accepting_background_events_def has_background_worker_def evicted_by_def
  complete_queued_event_def settle_queued_event_def

lemma sample_run: "dreach sample_config sample_end"
proof -
  have "dreach sample_config sample_start" unfolding sample_start_def by (rule dreach.init)
  then have "dreach sample_config sample_queued" unfolding sample_queued_def
    by (rule dreach.step) (rule emit_and_wait_step [where w = 0]; simp add: sample_defs)
  then have "dreach sample_config sample_taken" unfolding sample_taken_def
    by (rule dreach.step) (rule take_step [where w = 0]; simp add: sample_defs)
  then show ?thesis unfolding sample_end_def
    by (rule dreach.step) (rule complete_step; simp add: sample_defs)
qed



text \<open>
  C2: A completion barrier tells the truth and is never forgotten: in every reachable state a
  future of \<open>emit_and_wait\<close> that was settled with success belongs to an event whose delivery
  was completed, and one still pending belongs to an event that is queued, being delivered,
  waiting for space, or whose caller was cancelled while waiting for space.
\<close>
theorem barriers_truthful:
  assumes "dreach cfg s"
  shows "list_all (\<lambda>f. case d_futures (sy_disp s) ! f of
      Pending \<Rightarrow> Some f \<in> qe_handled ` (holders s \<union> set (sy_abandoned s))
    | Done (Inl e) \<Rightarrow> True
    | Done (Inr u) \<Rightarrow> Some f \<in> qe_handled ` set (sy_completed s))
    [0..<length (d_futures (sy_disp s))]"
  using dreach_futures_inv [OF assms]
  by (auto simp: futures_inv_def fut_ok_def list_all_iff split: future_state.splits sum.splits)

theorem barriers_truthful_witness:
  "d_futures (sy_disp sample_end) = [Done (Inr ())] \<and>
   Some 0 \<in> qe_handled ` set (sy_completed sample_end)"
proof -
  have f: "d_futures (sy_disp sample_end) = [Done (Inr ())]"
    by (simp add: sample_defs)
  then show ?thesis
    using barriers_truthful [OF sample_run] by simp
qed

section \<open>After stop\<close>

lemma attempt_stopping:
  "d_stopping (sy_disp s) \<Longrightarrow> sy_accepted (try_enqueue cfg qe ws s) = sy_accepted s \<and>
     d_stopping (sy_disp (try_enqueue cfg qe ws s)) \<and> sy_taken (try_enqueue cfg qe ws s) = sy_taken s \<and>
     d_queue (sy_disp (try_enqueue cfg qe ws s)) = d_queue (sy_disp s)"
  by (simp add: try_enqueue_def queue_defs)

lemma stopping_selectors [simp]:
  "d_stopping (run_finally w e d) = d_stopping d"
  by (simp add: run_finally_def fail_queued_event_def Let_def)

lemma drop_resource_stopping:
  "drop_queued_events_for_resource rid d = (n, d') \<Longrightarrow>
     d_stopping d' = d_stopping d \<and> d_worker_task d' = d_worker_task d"
  by (auto simp: drop_queued_events_for_resource_def Let_def drop_all_def drop_queued_event_def
      split: if_splits)

lemma dstep_stopping:
  assumes "dstep cfg s s'" "d_stopping (sy_disp s)"
  shows "sy_accepted s' = sy_accepted s \<and> d_stopping (sy_disp s') \<and>
    length (sy_taken s') + length (d_queue (sy_disp s')) \<le>
      length (sy_taken s) + length (d_queue (sy_disp s))"
  using assms
proof (induction rule: dstep.induct)
  case (retry_step s ws1 qe ws2)
  then show ?case using attempt_stopping [of s cfg qe "ws1 @ ws2"] by simp
next
  case (drop_resource_step rid s n d)
  then show ?case
    using drop_resource_stopping [OF drop_resource_step(1)] drop_resource_queue [OF drop_resource_step(1)]
    by simp
qed (simp_all add: record_stop_phase_drop_def complete_queued_event_def fail_queued_event_def
    drop_queue_spec)

text \<open>
  C3: Once stop has begun nothing is accepted any more, by no interleaving: the accepted list
  is final, the stopping flag stays, and the worker can take at most the events that were
  queued at that moment.
\<close>
theorem nothing_accepted_after_stop:
  assumes "(dstep cfg)\<^sup>*\<^sup>* s t" "d_stopping (sy_disp s)"
  shows "sy_accepted t = sy_accepted s \<and> d_stopping (sy_disp t) \<and>
    length (sy_taken t) \<le> length (sy_taken s) + length (d_queue (sy_disp s))"
proof -
  from assms have "sy_accepted t = sy_accepted s \<and> d_stopping (sy_disp t) \<and>
      length (sy_taken t) + length (d_queue (sy_disp t)) \<le>
        length (sy_taken s) + length (d_queue (sy_disp s))"
  proof (induction rule: rtranclp_induct)
    case (step t u)
    then show ?case using dstep_stopping [OF step(2)] by auto
  qed simp
  then show ?thesis by simp
qed

theorem nothing_accepted_after_stop_witness:
  "let s = sample_end\<lparr>sy_disp := (sy_disp sample_end)\<lparr>d_stopping := True\<rparr>\<rparr>
   in sy_accepted (s\<lparr>sy_disp := record_stop_phase_drop (sy_disp s), sy_offered := Suc (sy_offered s)\<rparr>) = sy_accepted s"
  using nothing_accepted_after_stop
    [OF r_into_rtranclp [where r = "dstep sample_config", OF emit_stopping_step [of
      "sample_end\<lparr>sy_disp := (sy_disp sample_end)\<lparr>d_stopping := True\<rparr>\<rparr>"]]]
  by simp

section \<open>A worker that dies\<close>

text \<open>
  A producer that waits for space, not woken, beside a dispatcher without a worker and with an
  empty queue.
\<close>

definition stranded :: "queued_event \<Rightarrow> dsys \<Rightarrow> bool" where
  "stranded qe s \<longleftrightarrow> d_worker_task (sy_disp s) = None \<and> d_queue (sy_disp s) = [] \<and>
     sy_current s = None \<and> sy_blocked s = [(qe, False)]"

definition given_up :: "queued_event \<Rightarrow> dsys \<Rightarrow> bool" where
  "given_up qe s \<longleftrightarrow> d_worker_task (sy_disp s) = None \<and> d_queue (sy_disp s) = [] \<and>
     sy_current s = None \<and> sy_blocked s = [] \<and> qe \<in> set (sy_abandoned s)"

lemma stranded_step: "dstep cfg s t \<Longrightarrow> stranded qe s \<Longrightarrow> stranded qe t \<or> given_up qe t"
proof (induction rule: dstep.induct)
  case (drop_resource_step rid s n d)
  then show ?case
    by (auto simp: stranded_def drop_queued_events_for_resource_def Let_def)
qed (auto simp: stranded_def given_up_def record_stop_phase_drop_def append_eq_Cons_conv
    Cons_eq_append_conv)

lemma given_up_step: "dstep cfg s t \<Longrightarrow> given_up qe s \<Longrightarrow> given_up qe t"
proof (induction rule: dstep.induct)
  case (drop_resource_step rid s n d)
  then show ?case
    by (auto simp: given_up_def drop_queued_events_for_resource_def Let_def)
qed (auto simp: given_up_def record_stop_phase_drop_def)

text \<open>The run that strands a producer: one event in delivery, one queued, one blocked barrier.\<close>

definition strand_config :: disp_config where
  "strand_config = sample_config\<lparr>dc_backpressure_policy := BLOCK, dc_max_pending_events := 1\<rparr>"

definition strand_barrier :: queued_event where
  "strand_barrier = \<lparr>qe_event = NetworkErrorEvent ''c'' cancelled, qe_handled = Some 0,
     qe_drop_on_backpressure = True\<rparr>"

lemma strand_run: "\<exists>s. dreach strand_config s \<and> stranded strand_barrier s \<and>
  d_futures (sy_disp s) = [Pending] \<and> \<not> d_stopping (sy_disp s)"
proof -
  let ?e = "NetworkErrorEvent ''c'' cancelled"
  let ?s0 = "dsys_init strand_config empty_disp"
  let ?s1 = "try_enqueue strand_config (plain_item ?e) (sy_blocked ?s0) (?s0\<lparr>sy_offered := Suc (sy_offered ?s0)\<rparr>)"
  let ?s2 = "?s1\<lparr>sy_disp := (sy_disp ?s1)\<lparr>d_queue := []\<rparr>, sy_current := Some (plain_item ?e),
       sy_taken := sy_taken ?s1 @ [plain_item ?e], sy_blocked := notify_one (sy_blocked ?s1)\<rparr>"
  let ?s3 = "try_enqueue strand_config (plain_item ?e) (sy_blocked ?s2) (?s2\<lparr>sy_offered := Suc (sy_offered ?s2)\<rparr>)"
  let ?s4 = "try_enqueue strand_config (barrier_item ?e True (sy_disp ?s3)) (sy_blocked ?s3)
       (?s3\<lparr>sy_disp := snd (create_future (sy_disp ?s3)), sy_offered := Suc (sy_offered ?s3)\<rparr>)"
  let ?x = "Exn (OtherBaseException ''SystemExit'') ''''"
  let ?s5 = "?s4\<lparr>sy_disp := run_finally 0 (Some ?x) (fail_queued_event ?x (plain_item ?e) (sy_disp ?s4)),
       sy_current := None, sy_lost := sy_lost ?s4 @ d_queue (sy_disp ?s4)\<rparr>"
  note defs = dsys_init_def disp_start_def empty_disp_def strand_config_def sample_config_def
    try_enqueue_def barrier_item_def plain_item_def create_future_def enqueue_attempt_def
    append_queued_event_def accepting_background_events_def has_background_worker_def Let_def
    fail_queued_event_def settle_queued_event_def run_finally_def evicted_by_def
  have "dreach strand_config ?s0" by (rule dreach.init)
  then have "dreach strand_config ?s1"
    by (rule dreach.step) (rule emit_step [where w = 0]; simp add: defs)
  then have "dreach strand_config ?s2"
    by (rule dreach.step) (rule take_step [where w = 0]; simp add: defs)
  then have "dreach strand_config ?s3"
    by (rule dreach.step) (rule emit_step [where w = 0]; simp add: defs)
  then have "dreach strand_config ?s4"
    by (rule dreach.step) (rule emit_and_wait_step [where w = 0]; simp add: defs)
  then have "dreach strand_config ?s5"
    by (rule dreach.step) (rule fail_step [where w = 0]; simp add: defs)
  moreover have "stranded strand_barrier ?s5" "d_futures (sy_disp ?s5) = [Pending]"
    "\<not> d_stopping (sy_disp ?s5)"
    by (simp_all add: stranded_def strand_barrier_def defs)
  ultimately show ?thesis by blast
qed



end
