(* ===== verification/Dispatcher_Accounting.thy ===== *)
theory Dispatcher_Accounting
  imports Dispatcher_System
begin

text \<open>
  The runtime statistics of the dispatcher (\<open>DispatcherRuntimeStats\<close>) along every interleaving
  of its producers, its worker and stop: which counter each event ends in.
\<close>

text \<open>The events offered so far, by where they are.\<close>

definition accounted :: "dsys \<Rightarrow> nat" where
  "accounted s =
     (let st = runtime_stats (sy_disp s)
      in length (sy_taken s) + st_queue_depth st + length (sy_blocked s) + length (sy_abandoned s) +
         st_dropped_backpressure_oldest_total st + st_dropped_backpressure_newest_total st +
         st_dropped_stop_phase_total st + length (sy_lost s))"

definition stats_inv :: "dsys \<Rightarrow> bool" where
  "stats_inv s \<longleftrightarrow> sy_offered s = accounted s \<and>
     d_enqueued_total (sy_disp s) = length (sy_accepted s) \<and>
     d_dropped_backpressure_oldest_total (sy_disp s) = length (sy_evicted s)"

lemmas stats_defs = stats_inv_def accounted_def runtime_stats_def

text \<open>The counters that settling a barrier leaves alone.\<close>

lemma settle_counters [simp]:
  "d_queue (settle_queued_event r qe d) = d_queue d"
  "d_enqueued_total (settle_queued_event r qe d) = d_enqueued_total d"
  "d_dropped_backpressure_oldest_total (settle_queued_event r qe d) = d_dropped_backpressure_oldest_total d"
  "d_dropped_backpressure_newest_total (settle_queued_event r qe d) = d_dropped_backpressure_newest_total d"
  "d_dropped_stop_phase_total (settle_queued_event r qe d) = d_dropped_stop_phase_total d"
  by (simp_all add: settle_queued_event_def split: option.split)

lemma settle_all_counters [simp]:
  "d_queue (fold (settle_queued_event r) qs d) = d_queue d"
  "d_enqueued_total (fold (settle_queued_event r) qs d) = d_enqueued_total d"
  "d_dropped_backpressure_oldest_total (fold (settle_queued_event r) qs d) = d_dropped_backpressure_oldest_total d"
  "d_dropped_backpressure_newest_total (fold (settle_queued_event r) qs d) = d_dropped_backpressure_newest_total d"
  "d_dropped_stop_phase_total (fold (settle_queued_event r) qs d) = d_dropped_stop_phase_total d"
  by (induction qs arbitrary: d) simp_all

lemma run_finally_counters [simp]:
  "d_enqueued_total (run_finally w e d) = d_enqueued_total d"
  "d_dropped_backpressure_oldest_total (run_finally w e d) = d_dropped_backpressure_oldest_total d"
  "d_dropped_backpressure_newest_total (run_finally w e d) = d_dropped_backpressure_newest_total d"
  "d_dropped_stop_phase_total (run_finally w e d) = d_dropped_stop_phase_total d"
  by (simp_all add: run_finally_def fail_queued_event_def Let_def)

lemma drop_queue_counters [simp]:
  "d_queue (drop_queue d) = []"
  "d_enqueued_total (drop_queue d) = d_enqueued_total d"
  "d_dropped_backpressure_oldest_total (drop_queue d) = d_dropped_backpressure_oldest_total d"
  "d_dropped_backpressure_newest_total (drop_queue d) = d_dropped_backpressure_newest_total d"
  "d_dropped_stop_phase_total (drop_queue d) = d_dropped_stop_phase_total d + length (d_queue d)"
  by (simp_all add: drop_queue_def drop_all_def drop_queued_event_def Let_def)

lemma drop_resource_counters:
  assumes "drop_queued_events_for_resource rid d = (n, d')"
  shows "d_enqueued_total d' = d_enqueued_total d \<and>
    d_dropped_backpressure_oldest_total d' = d_dropped_backpressure_oldest_total d \<and>
    d_dropped_backpressure_newest_total d' = d_dropped_backpressure_newest_total d \<and>
    length (d_queue d') + d_dropped_stop_phase_total d' = length (d_queue d) + d_dropped_stop_phase_total d"
  using assms sum_length_filter_compl [of "is_dropped_for rid" "d_queue d"]
  by (auto simp: drop_queued_events_for_resource_def Let_def drop_all_def drop_queued_event_def
      split: if_splits)

lemma notify_length [simp]:
  "length (notify_one ws) = length ws" "length (notify_all ws) = length ws"
  by (induction ws rule: notify_one.induct) (auto simp: notify_all_def)

text \<open>An attempt moves one event to where it now is.\<close>

lemma try_enqueue_stats:
  assumes "sy_offered s = Suc (accounted (s\<lparr>sy_blocked := ws\<rparr>))"
    and "d_enqueued_total (sy_disp s) = length (sy_accepted s)"
    and "d_dropped_backpressure_oldest_total (sy_disp s) = length (sy_evicted s)"
  shows "stats_inv (try_enqueue cfg qe ws s)"
proof (cases rule: attempt_cases [of "sy_disp s" cfg qe])
  case (oldest i d')
  have "length (del_at i (d_queue (sy_disp s))) = length (d_queue (sy_disp s)) - 1"
    using oldest by (simp add: length_del_at)
  then show ?thesis using assms oldest
    by (auto simp: stats_defs try_enqueue_def Let_def)
qed (use assms in \<open>auto simp: stats_defs try_enqueue_def Let_def drop_queued_event_def
      record_stop_phase_drop_def append_queued_event_def discard_newest_def\<close>)

lemma dstep_stats: "dstep cfg s s' \<Longrightarrow> stats_inv s \<Longrightarrow> stats_inv s'"
proof (induction rule: dstep.induct)
  case (emit_step s w event)
  then show ?case by (intro try_enqueue_stats) (simp_all add: stats_defs Let_def)
next
  case (emit_and_wait_step s w event b)
  then show ?case
    by (intro try_enqueue_stats) (simp_all add: stats_defs Let_def create_future_def)
next
  case (retry_step s ws1 qe ws2)
  then show ?case by (intro try_enqueue_stats) (simp_all add: stats_defs Let_def)
next
  case (drop_resource_step rid s n d)
  then show ?case
    using drop_resource_counters [OF drop_resource_step(1)] by (auto simp: stats_defs Let_def)
qed (auto simp: stats_defs Let_def record_stop_phase_drop_def complete_queued_event_def
    fail_queued_event_def)

lemma dreach_stats: "dreach cfg s \<Longrightarrow> stats_inv s"
proof (induction rule: dreach.induct)
  case init
  then show ?case by (simp add: stats_defs dsys_init_def disp_start_def empty_disp_def Let_def)
next
  case (step s s')
  then show ?case by (blast intro: dstep_stats)
qed

text \<open>
  C4: the runtime statistics account for every event.  In every reachable state of producers,
  worker and stop the number of events that producers offered is the number the worker has taken,
  plus those queued, waiting for space or given up by a cancelled producer, plus the three drop
  counters, plus the events a dying worker threw away, which no counter shows; \<open>enqueued_total\<close>
  is the number of accepted events, \<open>dropped_backpressure_oldest_total\<close> the number of evicted ones,
  and \<open>queue_peak\<close> bounds the queue within \<open>max_pending_events\<close>.
\<close>

theorem runtime_stats_account_for_events:
  assumes "dreach cfg s"
  shows "let st = runtime_stats (sy_disp s)
    in sy_offered s = length (sy_taken s) + st_queue_depth st + length (sy_blocked s) +
         length (sy_abandoned s) + st_dropped_backpressure_oldest_total st +
         st_dropped_backpressure_newest_total st + st_dropped_stop_phase_total st + length (sy_lost s) \<and>
       st_enqueued_total st = length (sy_accepted s) \<and>
       st_dropped_backpressure_oldest_total st = length (sy_evicted s) \<and>
       st_queue_depth st \<le> st_queue_peak st \<and> st_queue_peak st \<le> dc_max_pending_events cfg"
  using dreach_stats [OF assms] dreach_queue_inv [OF assms]
  by (simp add: stats_defs Let_def queue_inv_def queue_wf_def)

theorem runtime_stats_account_for_events_witness:
  "sy_offered sample_end = 1 \<and> st_enqueued_total (runtime_stats (sy_disp sample_end)) = 1 \<and>
   length (sy_taken sample_end) = 1 \<and> st_queue_peak (runtime_stats (sy_disp sample_end)) \<le> 2"
  using runtime_stats_account_for_events [OF sample_run]
  by (simp add: sample_defs runtime_stats_def Let_def)

end
