(* ===== verification/Dispatcher_Burst.thy ===== *)
theory Dispatcher_Burst
  imports Dispatcher_Policy
begin

text \<open>
  What the three backpressure policies keep of a burst: a task emits more events than the queue
  holds while the worker takes an event only when a producer waits for space.  The reference is
  the description in \<^verbatim>\<open>examples/backpressure_policies.py\<close>: BLOCK keeps everything,
  DROP_OLDEST the tail of the burst, DROP_NEWEST its head.
\<close>

section \<open>The reference\<close>

text \<open>What the handler gets during the burst, and what the queue holds after it.\<close>

fun burst_handled :: "event_backpressure_policy \<Rightarrow> nat \<Rightarrow> 'b list \<Rightarrow> 'b list" where
  "burst_handled BLOCK c xs = take (length xs - c) xs"
| "burst_handled _ c xs = []"

fun burst_kept :: "event_backpressure_policy \<Rightarrow> nat \<Rightarrow> 'b list \<Rightarrow> 'b list" where
  "burst_kept DROP_NEWEST c xs = take c xs"
| "burst_kept _ c xs = drop (length xs - c) xs"

definition overflow :: "event_backpressure_policy \<Rightarrow> event_backpressure_policy \<Rightarrow> nat \<Rightarrow> 'b list \<Rightarrow> nat" where
  "overflow p q c xs = (if p = q then length xs - c else 0)"

section \<open>The burst\<close>

fun emit_burst ::
    "'a disp_scheme environment \<Rightarrow> disp_config \<Rightarrow> task_ctx \<Rightarrow> network_event list \<Rightarrow> ('a disp_scheme, unit) prog" where
  "emit_burst env cfg ctx [] = ret ()"
| "emit_burst env cfg ctx (event # events) = seqE (emit env cfg ctx event) (emit_burst env cfg ctx events)"

text \<open>The worker's turn while a producer waits: it takes the oldest item and delivers it.\<close>

definition worker_turn :: "'a disp_scheme \<Rightarrow> 'a disp_scheme" where
  "worker_turn s = s\<lparr>d_queue := tl (d_queue s), d_delivered := d_delivered s @ [qe_event (hd (d_queue s))]\<rparr>"

text \<open>The task \<open>ctx\<close> can emit to the worker's queue, which holds no barrier that must stay.\<close>

definition can_emit :: "disp_config \<Rightarrow> task_ctx \<Rightarrow> 'a disp_scheme \<Rightarrow> bool" where
  "can_emit cfg ctx s \<longleftrightarrow> dc_dispatch_mode cfg = BACKGROUND \<and> \<not> is_in_inline_dispatch_context cfg ctx \<and>
     has_background_worker s \<and> \<not> current_task_is_worker ctx s \<and> accepting_background_events s \<and>
     0 < dc_max_pending_events cfg \<and> length (d_queue s) \<le> dc_max_pending_events cfg \<and>
     list_all qe_drop_on_backpressure (d_queue s)"

text \<open>What one state of the burst is to the next: a reference step on the events.\<close>

definition burst_view :: "'a disp_scheme \<Rightarrow> network_event list \<times> network_event list \<times> nat \<times> nat" where
  "burst_view s = (d_delivered s, map qe_event (d_queue s), d_dropped_backpressure_oldest_total s,
     d_dropped_backpressure_newest_total s)"

fun view_step ::
    "event_backpressure_policy \<Rightarrow> nat \<Rightarrow> 'b \<Rightarrow> 'b list \<times> 'b list \<times> nat \<times> nat \<Rightarrow> 'b list \<times> 'b list \<times> nat \<times> nat" where
  "view_step p c e (h, q, oldest, newest) =
     (if length q < c then (h, q @ [e], oldest, newest)
      else case p of
        BLOCK \<Rightarrow> (h @ [hd q], tl q @ [e], oldest, newest)
      | DROP_OLDEST \<Rightarrow> (h, tl q @ [e], Suc oldest, newest)
      | DROP_NEWEST \<Rightarrow> (h, q, oldest, Suc newest))"

lemma settle_keeps [simp]:
  "d_queue (settle_queued_event r qe s) = d_queue s"
  "d_delivered (settle_queued_event r qe s) = d_delivered s"
  "d_worker_task (settle_queued_event r qe s) = d_worker_task s"
  "d_stopping (settle_queued_event r qe s) = d_stopping s"
  "d_dropped_backpressure_oldest_total (settle_queued_event r qe s) = d_dropped_backpressure_oldest_total s"
  "d_dropped_backpressure_newest_total (settle_queued_event r qe s) = d_dropped_backpressure_newest_total s"
  by (simp_all add: settle_queued_event_def split: option.split)

lemma burst_emit:
  assumes "can_emit cfg ctx s" and "env A_queue_space = (\<lambda>s. (None, worker_turn s))"
  shows "\<exists>s'. emit env cfg ctx event s = Some (Inr (), s') \<and> can_emit cfg ctx s' \<and>
    burst_view s' = view_step (dc_backpressure_policy cfg) (dc_max_pending_events cfg) event (burst_view s)"
proof -
  let ?qe = "\<lparr>qe_event = event, qe_handled = None, qe_drop_on_backpressure = True\<rparr>"
  let ?s = "s\<lparr>d_emit_calls_total := Suc (d_emit_calls_total s)\<rparr>"
  note ready = assms(1) [unfolded can_emit_def]
  have unfold: "emit env cfg ctx event s = enqueue env cfg ?qe ?s"
    using ready by (auto simp: emit.simps prog_defs current_task_is_worker_def
        has_background_worker_def accepting_background_events_def)
  note queue = enqueue.simps [of env cfg] enqueue_attempt_def append_queued_event_def Let_def
    accepting_background_events_def
  consider (room) "length (d_queue s) < dc_max_pending_events cfg"
    | (full) x xs where "d_queue s = x # xs" "length (d_queue s) = dc_max_pending_events cfg"
    using ready by (cases "d_queue s") force+
  then show ?thesis
  proof cases
    case room
    with ready show ?thesis
      by (simp add: unfold queue)
        (simp add: can_emit_def burst_view_def current_task_is_worker_def has_background_worker_def
          accepting_background_events_def)
  next
    case full
    note state = can_emit_def burst_view_def current_task_is_worker_def has_background_worker_def
      accepting_background_events_def worker_turn_def drop_queued_event_def discard_newest_def del_at_def
    show ?thesis
    proof (cases "dc_backpressure_policy cfg")
      case BLOCK
      have "enqueue env cfg ?qe ?s = enqueue env cfg ?qe (worker_turn ?s)"
        using full ready assms(2) BLOCK
        by (subst enqueue.simps) (simp add: enqueue_attempt_def accepting_background_events_def)
      with full ready BLOCK show ?thesis
        by (simp add: unfold queue state)
    next
      case DROP_OLDEST
      with full ready show ?thesis
        by (simp add: unfold queue) (simp add: state)
    next
      case DROP_NEWEST
      with full ready show ?thesis
        by (simp add: unfold queue) (simp add: state)
    qed
  qed
qed

lemma burst_run:
  assumes "can_emit cfg ctx s" and "env A_queue_space = (\<lambda>s. (None, worker_turn s))"
  shows "\<exists>s'. emit_burst env cfg ctx events s = Some (Inr (), s') \<and> can_emit cfg ctx s' \<and>
    burst_view s' =
      fold (view_step (dc_backpressure_policy cfg) (dc_max_pending_events cfg)) events (burst_view s)"
  using assms(1)
proof (induction events arbitrary: s)
  case Nil
  then show ?case by (auto simp: ret_def)
next
  case (Cons event events)
  obtain s1 where s1: "emit env cfg ctx event s = Some (Inr (), s1)" "can_emit cfg ctx s1"
    "burst_view s1 = view_step (dc_backpressure_policy cfg) (dc_max_pending_events cfg) event (burst_view s)"
    using burst_emit [where env = env, OF Cons.prems assms(2)] by blast
  with Cons.IH [OF s1(2)] show ?case by (simp add: seqE_def bindE_def)
qed

text \<open>The steps add up to the reference.\<close>

lemma view_steps:
  "0 < c \<Longrightarrow> fold (view_step p c) xs (h, [], oldest, newest) =
     (h @ burst_handled p c xs, burst_kept p c xs, oldest + overflow p DROP_OLDEST c xs,
      newest + overflow p DROP_NEWEST c xs)"
proof (induction xs rule: rev_induct)
  case (snoc x xs)
  show ?case
  proof (cases "length xs < c")
    case True
    with snoc show ?thesis by (cases p) (simp_all add: overflow_def)
  next
    case False
    then have drop: "drop (length xs - c) xs = xs ! (length xs - c) # drop (Suc (length xs - c)) xs"
      using snoc.prems by (intro Cons_nth_drop_Suc [symmetric]) auto
    have le: "Suc (length xs) - c = Suc (length xs - c)" using False by auto
    have "take (Suc (length xs - c)) xs = take (length xs - c) xs @ [xs ! (length xs - c)]"
      using snoc.prems False by (intro take_Suc_conv_app_nth) auto
    with False snoc drop show ?thesis
      by (cases p) (simp_all add: overflow_def le min_def)
  qed
qed (cases p; simp add: overflow_def)

text \<open>
  C5: what a burst leaves behind is what the policy promises.  A task of which the dispatcher
  takes events emits any number of them into an empty queue, and the worker takes an event only
  while the producer waits for space.  Every emit returns; under BLOCK no event is lost, the
  oldest have been handled in order and the newest \<open>max_pending_events\<close> are queued; under
  DROP_OLDEST exactly the newest are queued and the others counted as evicted; under DROP_NEWEST
  exactly the oldest are queued and the others counted as rejected.
\<close>

theorem burst_follows_policy:
  assumes "can_emit cfg ctx s" and "d_queue s = []"
    and "env A_queue_space = (\<lambda>s. (None, worker_turn s))"
  shows "\<exists>s'. emit_burst env cfg ctx events s = Some (Inr (), s') \<and>
    (let p = dc_backpressure_policy cfg; c = dc_max_pending_events cfg
     in d_delivered s' = d_delivered s @ burst_handled p c events \<and>
        map qe_event (d_queue s') = burst_kept p c events \<and>
        d_dropped_backpressure_oldest_total s' =
          d_dropped_backpressure_oldest_total s + overflow p DROP_OLDEST c events \<and>
        d_dropped_backpressure_newest_total s' =
          d_dropped_backpressure_newest_total s + overflow p DROP_NEWEST c events)"
proof -
  let ?c = "dc_max_pending_events cfg"
  obtain s' where run: "emit_burst env cfg ctx events s = Some (Inr (), s')"
    and view: "burst_view s' = fold (view_step (dc_backpressure_policy cfg) ?c) events (burst_view s)"
    using burst_run [where env = env, OF assms(1,3)] by blast
  have "0 < ?c" using assms(1) by (simp add: can_emit_def)
  from view [unfolded burst_view_def [of s] assms(2) list.map(1) view_steps [OF this]] run show ?thesis
    by (intro exI [of _ s']) (simp add: burst_view_def Let_def)
qed

theorem burst_follows_policy_witness:
  "\<exists>s'. emit_burst (\<lambda>_ s. (None, worker_turn s)) sample_config (plain_ctx (Some 3))
      [NetworkErrorEvent ''a'' cancelled, NetworkErrorEvent ''b'' cancelled, NetworkErrorEvent ''c'' cancelled]
      (disp_start sample_config empty_disp) = Some (Inr (), s') \<and>
    map qe_event (d_queue s') = [NetworkErrorEvent ''b'' cancelled, NetworkErrorEvent ''c'' cancelled] \<and>
    d_dropped_backpressure_oldest_total s' = 1"
  using burst_follows_policy [of sample_config "plain_ctx (Some 3)" "disp_start sample_config empty_disp"
      "\<lambda>_ s. (None, worker_turn s)" "[NetworkErrorEvent ''a'' cancelled, NetworkErrorEvent ''b'' cancelled,
        NetworkErrorEvent ''c'' cancelled]"]
  by (auto simp: can_emit_def sample_config_def disp_start_def empty_disp_def has_background_worker_def
      is_in_inline_dispatch_context_def current_task_is_worker_def accepting_background_events_def
      plain_ctx_def overflow_def)

end
