(* ===== verification/Udp_Sender.thy ===== *)
theory Udp_Sender
  imports Identifiers Dispatcher
begin

text \<open>
  Models \<^verbatim>\<open>implementations/asyncio_impl/asyncio_udp_sender.py\<close>: lazy socket creation, target
  resolution, the native send and the polling fallback.  The socket module is a parameter
  (\<open>socket_api\<close>); the sends themselves are awaits or system calls of the environment.
\<close>

record socket_api =
  sa_create_error :: "exn option"
  sa_configure_error :: "exn option"
  sa_getsockname :: "exn + peer_info"
  sa_is_win32 :: bool
  sa_has_exclusive :: bool
  sa_has_sock_sendto :: bool

text \<open>
  The sender object.  \<open>un_open\<close> counts the sockets created and not closed, \<open>un_options\<close> holds
  the options set on the last one, \<open>un_slept\<close> and \<open>un_attempts\<close> record the polling.
\<close>

record udp_sender =
  un_socket :: bool
  un_closed :: bool
  un_owner_loop :: "nat option"
  un_connection_id :: string
  un_fallback_warned :: bool
  un_open :: nat
  un_options :: "socket_option list"
  un_attempts :: nat
  un_slept :: "rat list"

definition udp_sender_init :: "udp_sender_settings \<Rightarrow> exn + udp_sender" where
  "udp_sender_init settings =
     bindR (udp_sender_validate settings) (\<lambda>_.
       Inr \<lparr>un_socket = False, un_closed = False, un_owner_loop = None,
            un_connection_id = udp_sender_component_id
              (case str_of (us_local_host settings) of None \<Rightarrow> [] | Some h \<Rightarrow> h)
              (case us_local_port settings of PInt p \<Rightarrow> p | _ \<Rightarrow> 0),
            un_fallback_warned = False, un_open = 0, un_options = [], un_attempts = 0, un_slept = []\<rparr>)"

definition is_socket_initialized :: "udp_sender \<Rightarrow> bool" where
  "is_socket_initialized s = un_socket s"

definition udp_assert_owner_loop :: "nat option \<Rightarrow> (udp_sender, unit) prog" where
  "udp_assert_owner_loop running_loop s =
     (case assert_running_on_owner_loop ''AsyncioUdpSender'' running_loop (un_owner_loop s) of
        Inl e \<Rightarrow> Some (Inl e, s)
      | Inr l \<Rightarrow> Some (Inr (), s\<lparr>un_owner_loop := Some l\<rparr>))"

definition refresh_connection_identity :: "socket_api \<Rightarrow> udp_sender \<Rightarrow> udp_sender" where
  "refresh_connection_identity api s =
     (case sa_getsockname api of
        Inl e \<Rightarrow> s
      | Inr NotTuple \<Rightarrow> s
      | Inr (PTuple items) \<Rightarrow>
          if length items \<ge> 2
          then s\<lparr>un_connection_id := udp_sender_component_id (str_item (items ! 0))
                   (case items ! 1 of IInt p \<Rightarrow> p | _ \<Rightarrow> 0)\<rparr>
          else s)"

text \<open>
  \<open>_ensure_socket\<close>: creation fails before there is a socket; a failure of the configuration or
  the bind closes it again.
\<close>

definition ensure_socket :: "socket_api \<Rightarrow> udp_sender_settings \<Rightarrow> (udp_sender, unit) prog" where
  "ensure_socket api settings s =
     (if un_socket s then Some (Inr (), s)
      else case sa_create_error api of
        Some e \<Rightarrow> Some (Inl e, s)
      | None \<Rightarrow>
          let options = configure_listener_bind_socket (sa_is_win32 api) (sa_has_exclusive api) False @
                (if truthy (us_enable_broadcast settings) then [SO_BROADCAST] else []);
              s1 = s\<lparr>un_open := Suc (un_open s), un_options := options\<rparr>
          in case sa_configure_error api of
               Some e \<Rightarrow>
                 if is_OSError e then Some (Inl e, s1\<lparr>un_open := un_open s1 - 1\<rparr>)
                 else Some (Inl e, s1)
             | None \<Rightarrow> Some (Inr (), (refresh_connection_identity api s1)\<lparr>un_socket := True\<rparr>))"

text \<open>The polling loop; \<open>sendto\<close> is the system call at \<open>A_sendto\<close>.\<close>

definition would_block_initial_delay :: rat where
  "would_block_initial_delay = 1 / 2000"

definition would_block_max_delay :: rat where
  "would_block_max_delay = 1 / 50"

partial_function (option) sendto_loop ::
    "(await_point \<Rightarrow> udp_sender \<Rightarrow> exn option \<times> udp_sender) \<Rightarrow> nat list \<Rightarrow> string \<Rightarrow> int \<Rightarrow> rat \<Rightarrow>
     udp_sender \<Rightarrow> ((exn + unit) \<times> udp_sender) option" where
  "sendto_loop env payload host port delay s =
     (case env (A_sendto payload host port) s of (e, s1) \<Rightarrow>
        let s2 = s1\<lparr>un_attempts := Suc (un_attempts s1)\<rparr>
        in if e = None then Some (Inr (), s2)
           else if is_would_block (the e) then
             (case env (A_sleep delay) s2 of (e', s3) \<Rightarrow>
                if e' = None
                then sendto_loop env payload host port (min would_block_max_delay (delay * 2))
                       (s3\<lparr>un_slept := un_slept s3 @ [delay]\<rparr>)
                else Some (Inl (the e'), s3))
           else Some (Inl (the e), s2))"

definition send_nonblocking ::
    "(await_point \<Rightarrow> udp_sender \<Rightarrow> exn option \<times> udp_sender) \<Rightarrow> socket_api \<Rightarrow> nat list \<Rightarrow> string \<Rightarrow> int \<Rightarrow>
     (udp_sender, unit) prog" where
  "send_nonblocking env api payload host port =
     (if sa_has_sock_sendto api then awaitE env (A_sock_sendto payload host port)
      else seqE (modifyE (\<lambda>s. s\<lparr>un_fallback_warned := True\<rparr>))
             (sendto_loop env payload host port would_block_initial_delay))"

text \<open>The target of a send: the override when given, else the default, both checked.\<close>

definition resolve_target ::
    "udp_sender_settings \<Rightarrow> pyval \<Rightarrow> pyval \<Rightarrow> exn + (string \<times> int)" where
  "resolve_target settings host port =
     (let target_host = (if host \<noteq> PNone then host else us_default_host settings);
          target_port = (if port \<noteq> PNone then port else us_default_port settings)
      in bindR (require_non_empty_str ''UDP target host'' UdpInvalidTargetError target_host) (\<lambda>h.
         if target_port = PNone then Inl (Exn UdpInvalidTargetError ''UDP target port'')
         else bindR (require_int_range ''UDP target port'' 1 65535 UdpInvalidTargetError target_port)
                (\<lambda>p. Inr (h, p))))"

definition udp_send ::
    "(await_point \<Rightarrow> udp_sender \<Rightarrow> exn option \<times> udp_sender) \<Rightarrow> socket_api \<Rightarrow> udp_sender_settings \<Rightarrow>
     nat option \<Rightarrow> pyval \<Rightarrow> pyval \<Rightarrow> pyval \<Rightarrow> (udp_sender, unit) prog" where
  "udp_send env api settings running_loop data host port =
     seqE (udp_assert_owner_loop running_loop)
       (bindE (getsE un_closed) (\<lambda>closed.
          if closed then raiseE (Exn UdpSenderStoppedError ''UDP sender is stopped.'')
          else case bytes_of data of
            None \<Rightarrow> raiseE (Exn TypeError ''send expects bytes-like data.'')
          | Some payload \<Rightarrow>
              bindE (liftR (resolve_target settings host port)) (\<lambda>(h, p).
                seqE (ensure_socket api settings) (send_nonblocking env api payload h p))))"

definition udp_stop :: "nat option \<Rightarrow> (udp_sender, unit) prog" where
  "udp_stop running_loop =
     bindE (getsE un_closed) (\<lambda>closed.
       if closed then ret ()
       else seqE (udp_assert_owner_loop running_loop)
              (modifyE (\<lambda>s. s\<lparr>un_closed := True, un_socket := False,
                            un_open := (if un_socket s then un_open s - 1 else un_open s)\<rparr>)))"

section \<open>Lemmas\<close>

lemma resolve_target_Inr:
  "resolve_target settings host port = Inr (h, p) \<Longrightarrow> \<not> is_blank h \<and> 1 \<le> p \<and> p \<le> 65535"
  by (auto simp: resolve_target_def Let_def bindR_Inr split: if_splits)

lemma resolve_target_Inl:
  "resolve_target settings host port = Inl e \<Longrightarrow> exn_class e = UdpInvalidTargetError"
  by (auto simp: resolve_target_def Let_def bindR_Inl require_non_empty_str_def require_int_range_def
      split: if_splits option.splits pyval.splits)

text \<open>At most one socket is open, and only while the object holds it.\<close>

definition socket_owned :: "udp_sender \<Rightarrow> bool" where
  "socket_owned s \<longleftrightarrow> un_open s = (if un_socket s then 1 else 0)"

lemma socket_owned_update [simp]:
  "socket_owned (s\<lparr>un_owner_loop := l\<rparr>) = socket_owned s"
  "socket_owned (s\<lparr>un_fallback_warned := b\<rparr>) = socket_owned s"
  "socket_owned (s\<lparr>un_attempts := n\<rparr>) = socket_owned s"
  "socket_owned (s\<lparr>un_slept := ds\<rparr>) = socket_owned s"
  "socket_owned (s\<lparr>un_connection_id := i\<rparr>) = socket_owned s"
  by (simp_all add: socket_owned_def)

lemma ensure_socket_keeps:
  assumes "\<And>e. sa_configure_error api = Some e \<Longrightarrow> is_OSError e"
  shows "keeps socket_owned (ensure_socket api settings)"
  using assms
  by (intro keepsI)
    (auto simp: ensure_socket_def socket_owned_def refresh_connection_identity_def Let_def
      split: if_splits option.splits sum.splits peer_info.splits)

lemma sendto_loop_keeps:
  assumes "sendto_loop env payload host port delay s = Some y"
  shows "env_keeps socket_owned env \<longrightarrow> socket_owned s \<longrightarrow> socket_owned (snd y)"
  using assms
proof (rule sendto_loop.raw_induct [rotated, where P = "\<lambda>env payload host port delay s y.
      env_keeps socket_owned env \<longrightarrow> socket_owned s \<longrightarrow> socket_owned (snd y)"], intro impI)
  fix rec env payload host port delay s y
  assume IH: "\<And>env payload host port delay s y. rec env payload host port delay s = Some y \<Longrightarrow>
      env_keeps socket_owned env \<longrightarrow> socket_owned s \<longrightarrow> socket_owned (snd y)"
    and run: "(case env (A_sendto payload host port) s of (e, s1) \<Rightarrow>
        let s2 = s1\<lparr>un_attempts := Suc (un_attempts s1)\<rparr>
        in if e = None then Some (Inr (), s2)
           else if is_would_block (the e) then
             (case env (A_sleep delay) s2 of (e', s3) \<Rightarrow>
                if e' = None
                then rec env payload host port (min would_block_max_delay (delay * 2))
                       (s3\<lparr>un_slept := un_slept s3 @ [delay]\<rparr>)
                else Some (Inl (the e'), s3))
           else Some (Inl (the e), s2)) = Some y"
    and env: "env_keeps socket_owned env" and "socket_owned s"
  obtain e s1 where e: "env (A_sendto payload host port) s = (e, s1)" by force
  let ?s2 = "s1\<lparr>un_attempts := Suc (un_attempts s1)\<rparr>"
  obtain e' s3 where e': "env (A_sleep delay) ?s2 = (e', s3)" by force
  have "socket_owned s1" using env \<open>socket_owned s\<close> e by (auto simp: env_keeps_def) (metis snd_conv)
  moreover from this have "socket_owned s3"
    using env e' by (auto simp: env_keeps_def) (metis snd_conv socket_owned_update(3))
  ultimately show "socket_owned (snd y)"
    using run IH [of env payload host port "min would_block_max_delay (delay * 2)"
        "s3\<lparr>un_slept := un_slept s3 @ [delay]\<rparr>" y] env
    by (auto simp: e e' Let_def split: if_splits)
qed

lemma keeps_udp_assert: "keeps socket_owned (udp_assert_owner_loop l)"
  by (intro keepsI) (auto simp: udp_assert_owner_loop_def split: sum.splits)


definition sample_api :: socket_api where
  "sample_api = \<lparr>sa_create_error = None, sa_configure_error = Some (Exn OSError ''in use''),
     sa_getsockname = Inr NotTuple, sa_is_win32 = False, sa_has_exclusive = False,
     sa_has_sock_sendto = False\<rparr>"


text \<open>
  A send that cannot be made touches nothing: on a stopped sender, for data that is not
  bytes-like, or without a valid target, \<open>send\<close> raises UdpSenderStoppedError, TypeError or
  UdpInvalidTargetError, in this order, before any socket exists and whatever the environment
  would do; only the owner loop is pinned.
\<close>
theorem udp_send_rejects_early:
  assumes "un_owner_loop s = None \<or> un_owner_loop s = Some l"
    and "un_closed s \<or> bytes_of data = None \<or> resolve_target settings host port = Inl err"
  shows "udp_send env api settings (Some l) data host port s =
    Some (Inl (if un_closed s then Exn UdpSenderStoppedError ''UDP sender is stopped.''
               else if bytes_of data = None then Exn TypeError ''send expects bytes-like data.''
               else err),
          s\<lparr>un_owner_loop := Some l\<rparr>)"
  using assms
  by (auto simp: udp_send_def prog_defs udp_assert_owner_loop_def assert_running_on_owner_loop_def
      liftR_def split: option.splits)

theorem udp_send_rejects_early_witness:
  "map_option fst (udp_send (\<lambda>p s. (None, s)) sample_api default_udp_sender (Some 0) (PBytes [1]) PNone PNone
     \<lparr>un_socket = False, un_closed = False, un_owner_loop = None, un_connection_id = [],
      un_fallback_warned = False, un_open = 0, un_options = [], un_attempts = 0, un_slept = []\<rparr>) =
   Some (Inl (Exn UdpInvalidTargetError ''UDP target host''))"
  by (subst udp_send_rejects_early [where err = "Exn UdpInvalidTargetError ''UDP target host''"])
    (simp_all add: resolve_target_def default_udp_sender_def require_non_empty_str_def)

section \<open>The polling fallback\<close>

fun poll_delays :: "nat \<Rightarrow> rat \<Rightarrow> rat list" where
  "poll_delays 0 d = []"
| "poll_delays (Suc n) d = d # poll_delays n (min would_block_max_delay (d * 2))"

lemma poll_delays_bounds:
  "0 < d \<Longrightarrow> d \<le> would_block_max_delay \<Longrightarrow>
     list_all (\<lambda>x. d \<le> x \<and> x \<le> would_block_max_delay) (poll_delays n d)"
proof (induction n arbitrary: d)
  case (Suc n)
  let ?d = "min would_block_max_delay (d * 2)"
  have "0 < ?d" "?d \<le> would_block_max_delay" "d \<le> ?d"
    using Suc.prems by (auto simp: would_block_max_delay_def)
  then have "list_all (\<lambda>x. ?d \<le> x \<and> x \<le> would_block_max_delay) (poll_delays n ?d)"
    using Suc.IH [of ?d] by blast
  then show ?case using Suc.prems \<open>d \<le> ?d\<close> by (auto simp: list_all_iff intro: order_trans)
qed simp

text \<open>The environment in which \<open>sendto\<close> blocks until \<open>k\<close> attempts were made.\<close>

definition blocks_until :: "nat \<Rightarrow> (await_point \<Rightarrow> udp_sender \<Rightarrow> exn option \<times> udp_sender) \<Rightarrow> bool" where
  "blocks_until k env \<longleftrightarrow>
     (\<forall>s p h n. env (A_sendto p h n) s =
        (if un_attempts s < k then Some (Exn BlockingIOError '''') else None, s)) \<and>
     (\<forall>d s. env (A_sleep d) s = (None, s))"

lemma sendto_loop_polls:
  assumes "blocks_until k env" "un_attempts s + n = k"
  shows "sendto_loop env payload host port d s =
    Some (Inr (), s\<lparr>un_attempts := Suc k, un_slept := un_slept s @ poll_delays n d\<rparr>)"
  using assms(2)
proof (induction n arbitrary: s d)
  case 0
  then show ?case
    using assms(1) by (subst sendto_loop.simps) (simp add: blocks_until_def)
next
  case (Suc n)
  let ?s = "s\<lparr>un_attempts := Suc (un_attempts s), un_slept := un_slept s @ [d]\<rparr>"
  have "sendto_loop env payload host port d s =
      sendto_loop env payload host port (min would_block_max_delay (d * 2)) ?s"
    using assms(1) Suc.prems
    by (subst sendto_loop.simps) (simp add: blocks_until_def is_would_block_def)
  also have "\<dots> = Some (Inr (), ?s\<lparr>un_attempts := Suc k,
      un_slept := un_slept ?s @ poll_delays n (min would_block_max_delay (d * 2))\<rparr>)"
    by (rule Suc.IH) (use Suc.prems in simp)
  finally show ?case by simp
qed

text \<open>
  The polling fallback ends as soon as the socket accepts the datagram: when \<open>sendto\<close>
  would block \<open>k\<close> times and then succeeds, the send returns after exactly \<open>k + 1\<close> attempts and
  \<open>k\<close> sleeps; the first sleep is half a millisecond, each is at most twice the one before,
  and none is shorter than the first or longer than 20 milliseconds.
\<close>
theorem udp_polling_returns:
  assumes "blocks_until (un_attempts s + k) env" "\<not> sa_has_sock_sendto api"
  shows "\<exists>ds. send_nonblocking env api payload host port s =
      Some (Inr (), s\<lparr>un_fallback_warned := True, un_attempts := Suc (un_attempts s + k),
                     un_slept := un_slept s @ ds\<rparr>) \<and>
    length ds = k \<and> ds = poll_delays k would_block_initial_delay \<and>
    list_all (\<lambda>x. would_block_initial_delay \<le> x \<and> x \<le> would_block_max_delay) ds"
proof -
  have "length (poll_delays k d) = k" for d by (induction k arbitrary: d) simp_all
  moreover have "list_all (\<lambda>x. would_block_initial_delay \<le> x \<and> x \<le> would_block_max_delay)
      (poll_delays k would_block_initial_delay)"
    by (rule poll_delays_bounds) (simp_all add: would_block_initial_delay_def would_block_max_delay_def)
  ultimately show ?thesis
    using assms sendto_loop_polls [of "un_attempts s + k" env "s\<lparr>un_fallback_warned := True\<rparr>" k]
    by (simp add: send_nonblocking_def prog_defs)
qed

theorem udp_polling_returns_witness:
  "\<exists>s ds. send_nonblocking (\<lambda>p s. case p of
       A_sendto _ _ _ \<Rightarrow> (if un_attempts s < 3 then Some (Exn BlockingIOError '''') else None, s)
     | _ \<Rightarrow> (None, s)) sample_api [7] ''h'' 9
     \<lparr>un_socket = True, un_closed = False, un_owner_loop = None, un_connection_id = [],
      un_fallback_warned = False, un_open = 1, un_options = [], un_attempts = 0, un_slept = []\<rparr> =
     Some (Inr (), s) \<and> un_slept s = ds \<and> length ds = 3"
  using udp_polling_returns
    [of "\<lparr>un_socket = True, un_closed = False, un_owner_loop = None, un_connection_id = [],
          un_fallback_warned = False, un_open = 1, un_options = [], un_attempts = 0, un_slept = []\<rparr>"
        3 "\<lambda>p s. case p of
       A_sendto _ _ _ \<Rightarrow> (if un_attempts s < 3 then Some (Exn BlockingIOError '''') else None, s)
     | _ \<Rightarrow> (None, s)" sample_api "[7]" "''h''" 9]
  by (force simp: blocks_until_def sample_api_def)

end
