(* ===== verification/Component_Base.thy ===== *)
theory Component_Base
  imports Dispatcher_Policy Lifecycle Identifiers
begin

text \<open>
  What every transport that owns a dispatcher needs of it.  A transport's record extends
  \<open>disp\<close>; its own fields are \<open>disp.more\<close>.  A property of these fields is kept by every
  dispatcher operation, and when the awaits raise nothing outside \<open>except (Exception,
  CancelledError)\<close> the operations raise nothing else either.
\<close>

section \<open>A transport's own fields\<close>

lemma settle_more [simp]: "disp.more (settle_queued_event r qe s) = disp.more s"
  by (auto simp: settle_queued_event_def split: option.splits)

lemma enqueue_attempt_more [simp]: "disp.more (snd (enqueue_attempt cfg qe s)) = disp.more s"
  by (auto simp: queue_defs Let_def split: option.splits)

lemma notify_more [simp]: "disp.more (notify_handler_context_changed s) = disp.more s"
  by (auto simp: notify_handler_context_changed_def split: option.splits)

lemma settle_next_task [simp]: "d_next_task (settle_queued_event r qe s) = d_next_task s"
  by (auto simp: settle_queued_event_def split: option.splits)

lemma enqueue_attempt_next_task [simp]: "d_next_task (snd (enqueue_attempt cfg qe s)) = d_next_task s"
  by (auto simp: queue_defs Let_def split: option.splits)

lemma notify_next_task [simp]: "d_next_task (notify_handler_context_changed s) = d_next_task s"
  by (auto simp: notify_handler_context_changed_def split: option.splits)

lemma enqueue_attempt_futures_length [simp]:
  "length (d_futures (snd (enqueue_attempt cfg qe s))) = length (d_futures s)"
  by (rule enqueue_attempt_futures)

lemma notify_futures_length [simp]:
  "length (d_futures (notify_handler_context_changed s)) = length (d_futures s)"
  by (auto simp: notify_handler_context_changed_def split: option.splits)

text \<open>
  \<open>stable I\<close>: the predicate \<open>I\<close> speaks of the transport's own fields, and of the counters of
  tasks and futures in a way that survives the creation of more of them.
\<close>

definition evolves :: "'a disp_scheme \<Rightarrow> 'a disp_scheme \<Rightarrow> bool" where
  "evolves s s' \<longleftrightarrow> disp.more s' = disp.more s \<and> d_next_task s \<le> d_next_task s' \<and>
     length (d_futures s) \<le> length (d_futures s')"

definition stable :: "('a disp_scheme \<Rightarrow> bool) \<Rightarrow> bool" where
  "stable I \<longleftrightarrow> (\<forall>s s'. evolves s s' \<longrightarrow> I s \<longrightarrow> I s')"

lemma stableD: "stable I \<Longrightarrow> I s \<Longrightarrow> evolves s s' \<Longrightarrow> I s'"
  unfolding stable_def by metis

lemma stable_own: "(\<And>s s'. disp.more s' = disp.more s \<Longrightarrow> I s \<Longrightarrow> I s') \<Longrightarrow> stable I"
  unfolding stable_def evolves_def by blast

lemma stable_conj: "stable I \<Longrightarrow> stable J \<Longrightarrow> stable (\<lambda>s. I s \<and> J s)"
  unfolding stable_def by metis

lemma evolves_trans: "evolves s s1 \<Longrightarrow> evolves s1 s2 \<Longrightarrow> evolves s s2"
  unfolding evolves_def by auto

lemma evolves_disp_invariant: "disp_invariant cfg (evolves s0)"
  by unfold_locales
    (simp_all add: evolves_def enter_dispatch_def enter_origin_only_def exit_origin_def
      enter_bypass_def exit_bypass_def create_future_def disp_start_def Let_def le_SucI
      split: option.splits)

text \<open>
  The laws of the interface all have the form that one update keeps the predicate; the updates
  only let the state evolve, so they keep every stable predicate.
\<close>

lemma stable_disp_invariant:
  assumes "stable I"
  shows "disp_invariant cfg I"
proof -
  have refl: "evolves s s" for s :: "'a disp_scheme" by (simp add: evolves_def)
  show ?thesis
    by unfold_locales
      ((erule stableD [OF assms], rule disp_invariant.counters [OF evolves_disp_invariant, OF refl]
        disp_invariant.delivered [OF evolves_disp_invariant, OF refl]
        disp_invariant.dispatch_entered [OF evolves_disp_invariant, OF refl]
        disp_invariant.origin_entered [OF evolves_disp_invariant, OF refl]
        disp_invariant.origin_left [OF evolves_disp_invariant, OF refl]
        disp_invariant.bypass_entered [OF evolves_disp_invariant, OF refl]
        disp_invariant.bypass_left [OF evolves_disp_invariant, OF refl]
        disp_invariant.attempted [OF evolves_disp_invariant, OF refl]
        disp_invariant.barrier_attempted [OF evolves_disp_invariant, OF refl]
        disp_invariant.future_created [OF evolves_disp_invariant, OF refl]
        disp_invariant.waiter_created [OF evolves_disp_invariant, OF refl]
        disp_invariant.settled [OF evolves_disp_invariant, OF refl]
        disp_invariant.taken [OF evolves_disp_invariant, OF refl]
        disp_invariant.kept [OF evolves_disp_invariant, OF refl]
        disp_invariant.stopping [OF evolves_disp_invariant, OF refl]
        disp_invariant.worker_left [OF evolves_disp_invariant, OF refl]
        disp_invariant.started [OF evolves_disp_invariant, OF refl]; assumption)+)
qed

lemmas stable_emit_keeps = disp_invariant.emit_keeps [OF stable_disp_invariant]
  and stable_emit_now_keeps = disp_invariant.emit_now_keeps [OF stable_disp_invariant]
  and stable_stop_keeps = disp_invariant.stop_keeps [OF stable_disp_invariant]
  and stable_stop_from_handler_keeps =
    disp_invariant.stop_from_handler_origin_keeps [OF stable_disp_invariant]

lemma stable_emit_and_wait_keeps:
  assumes "stable I" "env_keeps I env"
  shows "keeps I (emit_and_wait env cfg ctx event b)"
proof -
  have c: "I s \<Longrightarrow> I (snd (create_future s))" for s
    by (erule stableD [OF assms(1)]) (simp add: evolves_def create_future_def)
  have e: "keeps I (enqueue env cfg qe)" for qe
    by (rule keeps_enqueue [OF assms(2)]) (erule stableD [OF assms(1)], simp add: evolves_def)
  have "keeps I (enqueue_and_wait env cfg event b)"
  proof (rule keepsI)
    fix s r s'
    assume "I s" and run: "enqueue_and_wait env cfg event b s = Some (r, s')"
    moreover have "keeps I (seqE (enqueue env cfg qe) (wait_handled env f False))" for qe f
      by (intro keeps_seqE e keeps_wait_handled assms(2))
    ultimately show "I s'"
      using c [OF \<open>I s\<close>] by (auto simp: enqueue_and_wait_def create_future_def dest: keepsD)
  qed
  moreover have "I s \<Longrightarrow> I (s\<lparr>d_emit_calls_total := n\<rparr>)" "I s \<Longrightarrow> I (s\<lparr>d_inline_fallback_total := n\<rparr>)"
      "I s \<Longrightarrow> I (record_stop_phase_drop s)" for s n
    by (erule stableD [OF assms(1)], simp add: evolves_def record_stop_phase_drop_def)+
  ultimately show ?thesis
    unfolding emit_and_wait_def
    by (intro keeps_seqE keeps_bindE keeps_getsE keeps_if keeps_raiseE keeps_modifyE
        stable_emit_now_keeps [OF assms refl])
qed

lemma stable_wait_for_handler_context_keeps:
  assumes "stable I" "env_keeps I env"
  shows "keeps I (wait_for_handler_context env rid)"
proof -
  have "env_keeps I env \<longrightarrow> I s \<longrightarrow> I (snd y)" if "wait_for_handler_context env rid s = Some y" for s y
    using that
  proof (rule wait_for_handler_context.raw_induct [rotated, where P = "\<lambda>env rid s y.
      env_keeps I env \<longrightarrow> I s \<longrightarrow> I (snd y)"], intro impI)
    fix rec env rid s y
    assume IH: "\<And>env rid s y. rec env rid s = Some y \<Longrightarrow> env_keeps I env \<longrightarrow> I s \<longrightarrow> I (snd y)"
      and run: "(if \<not> has_active_handler_context s rid then Some (Inr (), s)
      else
        (case (if d_context_waiter s = None \<or> is_done (d_futures s ! the (d_context_waiter s))
               then (length (d_futures s),
                     s\<lparr>d_futures := d_futures s @ [Pending],
                       d_context_waiter := Some (length (d_futures s))\<rparr>)
               else (the (d_context_waiter s), s)) of (w, s1) \<Rightarrow>
          (case env (A_context_waiter w) s1 of (e, s2) \<Rightarrow>
             if e = None then rec env rid s2
             else Some (Inl (the e), s2)))) = Some y"
      and env: "env_keeps I env" and s: "I s"
    show "I (snd y)"
    proof (cases "has_active_handler_context s rid")
      case False
      then show ?thesis using run s by auto
    next
      case True
      let ?p = "if d_context_waiter s = None \<or> is_done (d_futures s ! the (d_context_waiter s))
               then (length (d_futures s),
                     s\<lparr>d_futures := d_futures s @ [Pending],
                       d_context_waiter := Some (length (d_futures s))\<rparr>)
               else (the (d_context_waiter s), s)"
      obtain w s1 where p: "?p = (w, s1)" by force
      have "I (s\<lparr>d_futures := d_futures s @ [Pending], d_context_waiter := Some (length (d_futures s))\<rparr>)"
        using s by (rule stableD [OF assms(1)]) (simp add: evolves_def)
      then have "I s1" using p s by (auto split: if_splits)
      obtain e s2 where e: "env (A_context_waiter w) s1 = (e, s2)" by force
      have "I s2" using env_keepsD [OF env \<open>I s1\<close> e] .
      then show ?thesis
        using run True IH [of env rid s2 y] env unfolding p by (auto simp: e split: if_splits)
    qed
  qed
  then show ?thesis using assms(2) by (intro keepsI) (metis snd_conv)
qed

section \<open>What the operations raise\<close>

lemma raises_wait_for_handler_context:
  assumes "\<And>w s e s'. env (A_context_waiter w) s = (Some e, s') \<Longrightarrow> Q e"
  shows "raises Q (wait_for_handler_context env rid)"
proof -
  have "env' = env \<longrightarrow> (\<forall>e s'. y = (Inl e, s') \<longrightarrow> Q e)" if "wait_for_handler_context env' rid s = Some y"
    for env' s y
    using that
  proof (rule wait_for_handler_context.raw_induct [rotated, where P = "\<lambda>env' rid s y.
      env' = env \<longrightarrow> (\<forall>e s'. y = (Inl e, s') \<longrightarrow> Q e)"], intro impI allI)
    fix rec env' rid s y e s'
    assume IH: "\<And>env' rid s y. rec env' rid s = Some y \<Longrightarrow> env' = env \<longrightarrow> (\<forall>e s'. y = (Inl e, s') \<longrightarrow> Q e)"
      and run: "(if \<not> has_active_handler_context s rid then Some (Inr (), s)
      else
        (case (if d_context_waiter s = None \<or> is_done (d_futures s ! the (d_context_waiter s))
               then (length (d_futures s),
                     s\<lparr>d_futures := d_futures s @ [Pending],
                       d_context_waiter := Some (length (d_futures s))\<rparr>)
               else (the (d_context_waiter s), s)) of (w, s1) \<Rightarrow>
          (case env' (A_context_waiter w) s1 of (e, s2) \<Rightarrow>
             if e = None then rec env' rid s2
             else Some (Inl (the e), s2)))) = Some y"
      and same: "env' = env" and y: "y = (Inl e, s')"
    then show "Q e"
      using IH assms by (auto simp: Let_def split: if_splits prod.splits) 
  qed
  then show ?thesis by (intro raisesI) blast
qed

definition env_caught :: "'a disp_scheme environment \<Rightarrow> bool" where
  "env_caught env \<longleftrightarrow> (\<forall>p s e s'. env p s = (Some e, s') \<longrightarrow> is_caught e)"

lemma raises_awaitE_caught [raises_rules]:
  "env_caught env \<Longrightarrow> raises is_caught (awaitE env p)"
  by (rule raises_awaitE) (auto simp: env_caught_def)

lemma handler_cancelled_error_caught [simp]: "is_caught handler_cancelled_error"
  by (simp add: handler_cancelled_error_def is_caught_def is_Exception_def)

lemma RuntimeError_caught [simp]: "is_caught (Exn RuntimeError m)"
  by (simp add: is_caught_def is_Exception_def)

lemma raises_with:
  assumes "\<And>ctx. raises Q (body ctx)"
  shows "raises Q (with_handler_dispatch_context cfg ctx rid body)"
    and "raises Q (with_handler_origin_context_only cfg ctx rid body)"
    and "raises Q (with_stop_await_bypass_context cfg ctx body)"
proof -
  have fin: "Q e" if "finallyE (body c) (modifyE g) s = Some (Inl e, s')" for c g s e s'
    using raisesD [OF raises_finallyE [OF assms raises_modifyE] that] .
  show "raises Q (with_handler_dispatch_context cfg ctx rid body)"
    using fin raisesD [OF assms]
    by (auto intro!: raisesI simp: with_handler_dispatch_context_def Let_def split: option.splits)
  show "raises Q (with_handler_origin_context_only cfg ctx rid body)"
    using fin by (auto intro!: raisesI simp: with_handler_origin_context_only_def Let_def)
  show "raises Q (with_stop_await_bypass_context cfg ctx body)"
    using fin by (auto intro!: raisesI simp: with_stop_await_bypass_context_def Let_def)
qed

lemma emission_caught:
  shows "env_caught env \<Longrightarrow> raises is_caught (emit_now env cfg ctx event)"
    and "env_caught env \<Longrightarrow> is_caught error \<Longrightarrow>
      raises is_caught (handle_handler_failure env cfg ctx error event)"
    and "env_caught env \<Longrightarrow> raises is_caught (emit_handler_failure_control_event env cfg ctx event)"
    and "env_caught env \<Longrightarrow> raises is_caught (emit env cfg ctx event)"
proof (induction env cfg ctx event and env cfg ctx error event and env cfg ctx event
    and env cfg ctx event rule: emit_induct)
  case (1 env cfg ctx event)
  have body: "raises is_caught (with_handler_dispatch_context cfg ctx (Some (resource_id event))
      (call_handler env event))"
    unfolding call_handler_def by (intro raises_with raises_rules 1(2))
  show ?case
    unfolding emit_now.simps [of env cfg]
  proof (intro raises_seqE raises_modifyE raises_tryE [OF body] raises_bindE raises_getsE
        raises_if raises_raiseE)
    fix e cancelling
    assume "is_caught e" "\<not> (is_cancelled e \<and> cancelling \<or> \<not> is_caught e)"
    then show "raises is_caught (handle_handler_failure env cfg ctx
        (if is_cancelled e then handler_cancelled_error else e) event)"
      by (intro 1(1) [OF _ 1(2)]) auto
  qed
next
  case (2 env cfg ctx error event)
  have cb: "raises is_caught (run_stop_callback env cfg ctx (resource_id event) callback)" for callback
    unfolding run_stop_callback_def by (intro raises_with raises_rules 2(3))
  show ?case
    using 2(1) [OF _ _ _ _ 2(3)] 2(2) [OF _ _ _ _ _ _ 2(3)] 2(4)
    by (cases "dc_failure_policy cfg")
      (auto simp: handle_handler_failure.simps [of env cfg] intro!: raises_ret raises_raiseE
        raises_seqE cb split: option.splits)
next
  case (3 env cfg ctx event)
  note IH = 3(1) [OF _ 3(3)] 3(2) [OF _ 3(3)]
  show ?case
    unfolding emit_handler_failure_control_event.simps [of env cfg]
    by (intro raises_rules IH)
next
  case (4 env cfg ctx event)
  note IH = 4(1) [OF _ 4(4)] 4(2) [OF _ _ 4(4)] 4(3) [OF _ _ _ _ 4(4)]
  have q: "raises is_caught (enqueue env cfg qe)" for qe
    by (rule enqueue_raises) (use 4(4) in \<open>auto simp: env_caught_def\<close>)
  show ?case
    unfolding emit.simps [of env cfg]
    by (intro raises_rules IH q) auto
qed

lemma disp_stop_caught [raises_rules]:
  "env_caught env \<Longrightarrow> raises is_caught (disp_stop env cfg ctx)"
  unfolding disp_stop_def by (auto intro!: raises_rules split: option.splits)

lemma stop_from_handler_caught [raises_rules]:
  "env_caught env \<Longrightarrow> raises is_caught (stop_from_handler_origin env cfg ctx)"
  unfolding stop_from_handler_origin_def by (intro raises_with disp_stop_caught)

lemmas [raises_rules] = emission_caught(4)

section \<open>Which operations always return\<close>

text \<open>\<open>returns m\<close>: from every state \<open>m\<close> ends.  In INLINE mode the dispatcher never waits.\<close>

definition returns :: "('s, 'a) prog \<Rightarrow> bool" where
  "returns m \<longleftrightarrow> (\<forall>s. m s \<noteq> None)"

named_theorems returns_rules \<open>coroutines that always end\<close>

lemma returns_basic [returns_rules]:
  "returns (ret a)" "returns (raiseE e)" "returns (getsE f)" "returns (modifyE g)"
  by (simp_all add: returns_def prog_defs)

lemma returns_awaitE [returns_rules]: "returns (awaitE env p)"
  by (simp add: returns_def awaitE_def split: prod.split option.split)

lemma returns_bindE [returns_rules]: "returns m \<Longrightarrow> (\<And>a. returns (f a)) \<Longrightarrow> returns (bindE m f)"
  by (auto simp: returns_def bindE_def split: option.split sum.split)

lemma returns_seqE [returns_rules]: "returns m \<Longrightarrow> returns n \<Longrightarrow> returns (seqE m n)"
  by (simp add: seqE_def returns_bindE)

lemma returns_tryE [returns_rules]: "returns m \<Longrightarrow> (\<And>e. returns (h e)) \<Longrightarrow> returns (tryE m h)"
  by (auto simp: returns_def tryE_def split: option.split sum.split)

lemma returns_finallyE [returns_rules]: "returns m \<Longrightarrow> returns n \<Longrightarrow> returns (finallyE m n)"
proof -
  assume m: "returns m" and n: "returns n"
  have "finallyE m n s \<noteq> None" for s
  proof -
    obtain r s' where "m s = Some (r, s')" using m unfolding returns_def by fastforce
    moreover obtain r' s'' where "n s' = Some (r', s'')" using n unfolding returns_def by fastforce
    ultimately show ?thesis by (simp add: finallyE_def split: sum.split)
  qed
  then show ?thesis by (simp add: returns_def)
qed

lemma returns_if [returns_rules]: "(b \<Longrightarrow> returns m) \<Longrightarrow> (\<not> b \<Longrightarrow> returns n) \<Longrightarrow> returns (if b then m else n)"
  by simp

lemma returns_with:
  assumes "\<And>ctx. returns (body ctx)"
  shows "returns (with_handler_dispatch_context cfg ctx rid body)"
    and "returns (with_handler_origin_context_only cfg ctx rid body)"
    and "returns (with_stop_await_bypass_context cfg ctx body)"
proof -
  have fin: "finallyE (body c) (modifyE g) s \<noteq> None" for c g s
    using returns_finallyE [OF assms returns_basic(4)] by (auto simp: returns_def)
  then show "returns (with_handler_origin_context_only cfg ctx rid body)"
    and "returns (with_stop_await_bypass_context cfg ctx body)"
    by (simp_all add: returns_def with_handler_origin_context_only_def
        with_stop_await_bypass_context_def Let_def)
  show "returns (with_handler_dispatch_context cfg ctx rid body)"
    using fin assms
    by (simp add: returns_def with_handler_dispatch_context_def Let_def split: option.split)
qed

lemma emission_returns:
  shows "dc_dispatch_mode cfg = INLINE \<Longrightarrow> returns (emit_now env cfg ctx event)"
    and "dc_dispatch_mode cfg = INLINE \<Longrightarrow> returns (handle_handler_failure env cfg ctx error event)"
    and "dc_dispatch_mode cfg = INLINE \<Longrightarrow> returns (emit_handler_failure_control_event env cfg ctx event)"
    and "dc_dispatch_mode cfg = INLINE \<Longrightarrow> returns (emit env cfg ctx event)"
proof (induction env cfg ctx event and env cfg ctx error event and env cfg ctx event
    and env cfg ctx event rule: emit_induct)
  case (1 env cfg ctx event)
  have body: "returns (with_handler_dispatch_context cfg ctx (Some (resource_id event))
      (call_handler env event))"
    unfolding call_handler_def by (intro returns_with returns_rules)
  show ?case
    unfolding emit_now.simps [of env cfg]
    by (intro returns_rules body 1(1) [OF _ 1(2)])
next
  case (2 env cfg ctx error event)
  have cb: "returns (run_stop_callback env cfg ctx (resource_id event) callback)" for callback
    unfolding run_stop_callback_def by (intro returns_with returns_rules)
  show ?case
    using 2
    by (cases "dc_failure_policy cfg")
      (auto simp: handle_handler_failure.simps [of env cfg] intro!: returns_rules cb
        split: option.splits)
next
  case (3 env cfg ctx event)
  then show ?case
    by (auto simp: emit_handler_failure_control_event.simps [of env cfg] intro!: returns_rules)
next
  case (4 env cfg ctx event)
  then show ?case
    by (auto simp: emit.simps [of env cfg] intro!: returns_rules)
qed

lemma disp_stop_returns [returns_rules]: "returns (disp_stop env cfg ctx)"
  unfolding disp_stop_def by (auto intro!: returns_rules split: option.splits)

lemma stop_from_handler_returns [returns_rules]: "returns (stop_from_handler_origin env cfg ctx)"
  unfolding stop_from_handler_origin_def by (intro returns_with disp_stop_returns)

lemmas [returns_rules] = emission_returns(4)

section \<open>Preconditions of emissions and stops\<close>

text \<open>
  One rule for every operation: it keeps the property \<open>I\<close> of the transport's fields, raises
  only exceptions with \<open>P\<close> (those that the stop paths catch), and returns when \<open>t\<close> accepts a run that does not or when
  the dispatcher is in INLINE mode.
\<close>

lemma wp_by_parts:
  assumes "keeps I m" "raises P m" "t \<or> returns m" "I s"
    and "\<And>a s'. I s' \<Longrightarrow> Q a s'" and "\<And>e s'. P e \<Longrightarrow> I s' \<Longrightarrow> E e s'"
  shows "wp t m Q E s"
proof (cases "m s")
  case None
  moreover have "\<not> returns m" unfolding returns_def using None by blast
  ultimately show ?thesis using assms(3) by (simp add: wp_def)
next
  case (Some y)
  obtain r s' where y: "y = (r, s')" by force
  have "I s'" using keepsD [OF assms(1,4)] Some y by blast
  then show ?thesis
    using Some y assms(5,6) raisesD [OF assms(2)] by (cases r) (simp_all add: wp_def)
qed

lemma wp_emit:
  assumes "stable I" "env_keeps I env" "env_caught env" "t \<or> dc_dispatch_mode cfg = INLINE"
    and "I s" "\<And>a s'. I s' \<Longrightarrow> Q a s'" "\<And>e s'. is_caught e \<Longrightarrow> I s' \<Longrightarrow> E e s'"
  shows "wp t (emit env cfg ctx event) Q E s"
proof -
  have "t \<or> returns (emit env cfg ctx event)" using assms(4) emission_returns(4) by blast
  then show ?thesis
    by (rule wp_by_parts [OF stable_emit_keeps [OF assms(1,2) refl] emission_caught(4) [OF assms(3)]
          _ assms(5)]) (fact assms(6,7))+
qed

lemma wp_disp_stop:
  assumes "stable I" "env_keeps I env" "env_caught env"
    and "I s" "\<And>a s'. I s' \<Longrightarrow> Q a s'" "\<And>e s'. is_caught e \<Longrightarrow> I s' \<Longrightarrow> E e s'"
  shows "wp t (disp_stop env cfg ctx) Q E s"
  by (rule wp_by_parts [OF stable_stop_keeps [OF assms(1,2)] disp_stop_caught [OF assms(3)]
        disjI2 [OF disp_stop_returns] assms(4-6)])

lemma wp_stop_from_handler:
  assumes "stable I" "env_keeps I env" "env_caught env"
    and "I s" "\<And>a s'. I s' \<Longrightarrow> Q a s'" "\<And>e s'. is_caught e \<Longrightarrow> I s' \<Longrightarrow> E e s'"
  shows "wp t (stop_from_handler_origin env cfg ctx) Q E s"
  by (rule wp_by_parts [OF stable_stop_from_handler_keeps [OF assms(1,2)]
        stop_from_handler_caught [OF assms(3)] disjI2 [OF stop_from_handler_returns] assms(4-6)])

lemma wp_awaitE_keeps:
  assumes "env_keeps I env" "I s" "\<And>a s'. I s' \<Longrightarrow> Q a s'" "\<And>e s'. I s' \<Longrightarrow> E e s'"
  shows "wp t (awaitE env p) Q E s"
  using assms(1,2,3,4) by (auto simp: wp_awaitE env_keeps_def split: prod.split option.split)
    (metis snd_conv)+

lemma wp_awaitE_frame:
  assumes "env_keeps I env" "env_caught env" "I s"
    and "\<And>a s'. I s' \<Longrightarrow> Q a s'" "\<And>e s'. is_caught e \<Longrightarrow> I s' \<Longrightarrow> E e s'"
  shows "wp t (awaitE env p) Q E s"
  by (rule wp_by_parts [OF keeps_awaitE [OF assms(1)] raises_awaitE_caught [OF assms(2)]
        disjI2 [OF returns_awaitE] assms(3-5)])

section \<open>Inline delivery to a handler that returns\<close>

text \<open>The handler returns at once and changes nothing.\<close>

definition handler_returns :: "'a disp_scheme environment \<Rightarrow> bool" where
  "handler_returns env \<longleftrightarrow> (\<forall>ctx event s. env (A_handler ctx event) s = (None, s))"

lemma exit_origin_own [simp]:
  "d_delivered (exit_origin token s) = d_delivered s" "disp.more (exit_origin token s) = disp.more s"
  "d_next_task (exit_origin token s) = d_next_task s"
  "d_worker_task (exit_origin token s) = d_worker_task s" "d_futures (exit_origin token s) =
    (case d_context_waiter s of None \<Rightarrow> d_futures s
     | Some w \<Rightarrow> if is_done (d_futures s ! w) then d_futures s else (d_futures s)[w := Done (Inr ())])"
  by (simp_all add: exit_origin_def notify_handler_context_changed_def split: option.split)

lemma enter_dispatch_own [simp]:
  "disp.more (enter_dispatch cfg t r s) = disp.more s"
  "d_futures (enter_dispatch cfg t r s) = d_futures s"
  "d_worker_task (enter_dispatch cfg t r s) = d_worker_task s"
  "d_next_task (enter_dispatch cfg t r s) = d_next_task s"
  by (simp_all add: enter_dispatch_def Let_def)

lemma emit_inline:
  assumes "dc_dispatch_mode cfg = INLINE" "handler_returns env"
  shows "\<exists>s'. emit env cfg ctx event s = Some (Inr (), s') \<and>
    d_delivered s' = d_delivered s @ [event] \<and> disp.more s' = disp.more s \<and>
    d_next_task s' = d_next_task s \<and> d_worker_task s' = d_worker_task s"
  using assms
  by (simp add: emit.simps [of env cfg] emit_now.simps [of env cfg] prog_defs Let_def
      with_handler_dispatch_context_def call_handler_def awaitE_def handler_returns_def
      split: option.split)

lemma wp_emit_inline:
  assumes "dc_dispatch_mode cfg = INLINE" "handler_returns env"
    and "\<And>a s'. d_delivered s' = d_delivered s @ [event] \<Longrightarrow> disp.more s' = disp.more s \<Longrightarrow>
      d_next_task s' = d_next_task s \<Longrightarrow> d_worker_task s' = d_worker_task s \<Longrightarrow> Q a s'"
  shows "wp t (emit env cfg ctx event) Q E s"
  using emit_inline [OF assms(1,2), of ctx event s] assms(3) by (auto simp: wp_def)

lemma emit_and_wait_inline:
  "dc_dispatch_mode cfg = INLINE \<Longrightarrow> emit_and_wait env cfg ctx event b = emit env cfg ctx event"
  by (simp add: emit_and_wait_def emit.simps [of env cfg])

text \<open>The environment in which nothing happens at any await and every await succeeds.\<close>

definition quiet :: "'s environment" where
  "quiet p s = (None, s)"

lemma quiet_env [simp]: "env_keeps I quiet" "env_caught quiet" "handler_returns quiet"
  by (simp_all add: quiet_def env_keeps_def env_caught_def handler_returns_def)

end
