(* ===== verification/Connection.thy ===== *)
theory Connection
  imports Component_Base
begin

text \<open>
  Models \<^verbatim>\<open>implementations/asyncio_impl/asyncio_tcp_connection.py\<close> and
  \<^verbatim>\<open>_tcp_connection_helpers.py\<close>: the TCP connection of clients and servers, its start, its
  shared close, the deferral of the close event while a handler of the connection is active,
  and the read loop.

  A transport holds a table of connections and a table of the tasks that were created for
  them; both live in the record \<open>transport\<close>, which the client and the server extend.  What a
  task runs is its \<open>job\<close>; that it is scheduled, suspended and cancelled is the environment's.
\<close>

section \<open>State\<close>

record connection =
  cn_connection_id :: string
  cn_role :: connection_role
  cn_metadata :: connection_metadata
  cn_receive_buffer_size :: int
  cn_idle_timeout_seconds :: "rat option"
  cn_send_timeout_seconds :: "rat option"
  cn_state :: connection_state
  cn_read_task :: "nat option"
  cn_closed_event_published :: bool
  cn_close_event_previous_state :: "connection_state option"
  cn_close_task :: "nat option"
  cn_close_event_task :: "nat option"
  cn_opening_event_task :: "nat option"
  cn_close_event_deferred :: bool
  cn_deferred_close_event_waiter :: "nat option"
  cn_deferred_close_publish_task :: "nat option"
  cn_writer_closed :: bool
  cn_written :: "nat list list"
  cn_publications :: nat

text \<open>
  The tasks the connection and its owner create, with the arguments of their coroutines; what
  an \<open>Owner_call\<close> runs is in a table of the owner.
\<close>

datatype job =
    Close_lifecycle nat bool "nat option" "nat option" bool
  | Close_publication nat connection_state
  | Read_loop nat
  | Deferred_publisher nat
  | Publish_after_opened nat
  | Supervisor
  | Stop_completion "nat option" "network_event option" "network_event option" "nat list" "nat option" bool
  | Stop_after_closes nat "nat list"
  | Owner_call

text \<open>
  \<open>t_jobs\<close>: what each created task runs; \<open>t_task_state\<close>: whether and how it ended;
  \<open>t_task_bool\<close>: its result where that is a bool; \<open>t_cancelled_futures\<close>: the futures on which
  \<open>cancel()\<close> was called; \<open>t_data\<close>: the bytes of the last read.
\<close>

record transport = disp +
  t_conns :: "nat \<Rightarrow> connection"
  t_jobs :: "nat \<rightharpoonup> job \<times> task_ctx"
  t_task_state :: "nat \<Rightarrow> future_state"
  t_task_bool :: "nat \<Rightarrow> bool"
  t_cancelled_futures :: "nat set"
  t_data :: "nat list"

definition conn_update :: "nat \<Rightarrow> (connection \<Rightarrow> connection) \<Rightarrow> 'a transport_scheme \<Rightarrow> 'a transport_scheme" where
  "conn_update c f s = s\<lparr>t_conns := (t_conns s)(c := f (t_conns s c))\<rparr>"

abbreviation updC :: "nat \<Rightarrow> (connection \<Rightarrow> connection) \<Rightarrow> ('a transport_scheme, unit) prog" where
  "updC c f \<equiv> modifyE (conn_update c f)"

definition create_task :: "job \<Rightarrow> task_ctx \<Rightarrow> 'a transport_scheme \<Rightarrow> nat \<times> 'a transport_scheme" where
  "create_task job ctx s =
     (let t = d_next_task s
      in (t, s\<lparr>d_next_task := Suc t, t_jobs := (t_jobs s)(t \<mapsto> (job, child_ctx ctx t)),
               t_task_state := (t_task_state s)(t := Pending)\<rparr>))"

definition task_done :: "nat \<Rightarrow> 'a transport_scheme \<Rightarrow> bool" where
  "task_done t s = is_done (t_task_state s t)"

definition task_cancelled :: "nat \<Rightarrow> 'a transport_scheme \<Rightarrow> bool" where
  "task_cancelled t s = (case t_task_state s t of Done (Inl e) \<Rightarrow> is_cancelled e | _ \<Rightarrow> False)"

text \<open>\<open>x is None or x.done()\<close> for a task attribute.\<close>

definition absent_or_done :: "nat option \<Rightarrow> 'a transport_scheme \<Rightarrow> bool" where
  "absent_or_done x s = (case x of None \<Rightarrow> True | Some t \<Rightarrow> task_done t s)"

definition future_done :: "nat \<Rightarrow> 'a disp_scheme \<Rightarrow> bool" where
  "future_done f s = is_done (d_futures s ! f)"

definition settle_future :: "nat \<Rightarrow> exn + unit \<Rightarrow> 'a disp_scheme \<Rightarrow> 'a disp_scheme" where
  "settle_future f r s =
     (if future_done f s then s else s\<lparr>d_futures := (d_futures s)[f := Done r]\<rparr>)"

section \<open>Creation\<close>

text \<open>
  \<open>build_connection_metadata\<close>; an item that \<open>int\<close> cannot read (ValueError, TypeError) leaves
  the port None.  \<open>parse_int\<close> is Python's \<open>int(text)\<close> on ASCII text: surrounding white space, a
  sign, and digits that single underscores may separate.
\<close>

fun int_digits :: "string \<Rightarrow> string option" where
  "int_digits [] = None"
| "int_digits [c] = (if is_digit c then Some [c] else None)"
| "int_digits (c # d # cs) =
     (if \<not> is_digit c then None
      else if d = CHR ''_'' then map_option (Cons c) (int_digits cs)
      else map_option (Cons c) (int_digits (d # cs)))"

definition strip :: "string \<Rightarrow> string" where
  "strip s = rev (dropWhile is_space (rev (dropWhile is_space s)))"

definition parse_int :: "string \<Rightarrow> int option" where
  "parse_int s =
     (case strip s of
        [] \<Rightarrow> None
      | c # cs \<Rightarrow>
          if c = CHR ''-'' then map_option (\<lambda>ds. - int (read_nat ds)) (int_digits cs)
          else if c = CHR ''+'' then map_option (\<lambda>ds. int (read_nat ds)) (int_digits cs)
          else map_option (\<lambda>ds. int (read_nat ds)) (int_digits (c # cs)))"

fun int_item :: "peer_item \<Rightarrow> int option" where
  "int_item (IInt n) = Some n"
| "int_item (IStr s) = parse_int s"
| "int_item (IOther _ n) = n"

definition endpoint :: "peer_info \<Rightarrow> string option \<times> int option" where
  "endpoint info =
     (case info of
        PTuple items \<Rightarrow> if length items \<ge> 2 then (Some (str_item (items ! 0)), int_item (items ! 1))
                        else (None, None)
      | NotTuple \<Rightarrow> (None, None))"

definition build_connection_metadata ::
    "string \<Rightarrow> connection_role \<Rightarrow> peer_info \<Rightarrow> peer_info \<Rightarrow> connection_metadata" where
  "build_connection_metadata connection_id role sockname peername =
     \<lparr>cm_connection_id = connection_id, cm_role = role,
      cm_local_host = fst (endpoint sockname), cm_local_port = snd (endpoint sockname),
      cm_remote_host = fst (endpoint peername), cm_remote_port = snd (endpoint peername)\<rparr>"

definition connection_init ::
    "string \<Rightarrow> connection_role \<Rightarrow> peer_info \<Rightarrow> peer_info \<Rightarrow> int \<Rightarrow> rat option \<Rightarrow> pyval \<Rightarrow> exn + connection" where
  "connection_init connection_id role sockname peername receive_buffer_size idle_timeout send_timeout =
     (if connection_id = [] then Inl (Exn ValueError ''connection_id must not be empty.'')
      else if receive_buffer_size \<le> 0 then Inl (Exn ValueError ''receive_buffer_size must be > 0.'')
      else if (case idle_timeout of None \<Rightarrow> False | Some q \<Rightarrow> q \<le> 0)
      then Inl (Exn ValueError ''idle_timeout_seconds must be > 0 when provided.'')
      else bindR (require_optional_positive_finite_number ''send_timeout_seconds'' ValueError send_timeout)
        (\<lambda>send_timeout_seconds. Inr
          \<lparr>cn_connection_id = connection_id, cn_role = role,
           cn_metadata = build_connection_metadata connection_id role sockname peername,
           cn_receive_buffer_size = receive_buffer_size, cn_idle_timeout_seconds = idle_timeout,
           cn_send_timeout_seconds = send_timeout_seconds,
           cn_state = CREATED, cn_read_task = None, cn_closed_event_published = False,
           cn_close_event_previous_state = None, cn_close_task = None, cn_close_event_task = None,
           cn_opening_event_task = None, cn_close_event_deferred = False,
           cn_deferred_close_event_waiter = None, cn_deferred_close_publish_task = None,
           cn_writer_closed = False, cn_written = [], cn_publications = 0\<rparr>))"

definition is_connected :: "connection \<Rightarrow> bool" where
  "is_connected cn = (cn_state cn = CONNECTED)"

text \<open>\<open>_pending_deferred_close_waiter\<close>.\<close>

definition pending_deferred_close_waiter :: "nat \<Rightarrow> 'a transport_scheme \<Rightarrow> nat option" where
  "pending_deferred_close_waiter c s =
     (case cn_deferred_close_event_waiter (t_conns s c) of
        None \<Rightarrow> None
      | Some w \<Rightarrow> if future_done w s then None else Some w)"

section \<open>Publication of the close event\<close>

abbreviation the_id :: "nat \<Rightarrow> 'a transport_scheme \<Rightarrow> string" where
  "the_id c s \<equiv> cn_connection_id (t_conns s c)"

definition settle_opt :: "nat option \<Rightarrow> exn + unit \<Rightarrow> ('a transport_scheme, unit) prog" where
  "settle_opt w r = (case w of None \<Rightarrow> ret () | Some f \<Rightarrow> modifyE (settle_future f r))"

definition cancel_task :: "nat \<Rightarrow> ('a transport_scheme, unit) prog" where
  "cancel_task t = modifyE (\<lambda>s. s\<lparr>d_cancelling := insert t (d_cancelling s)\<rparr>)"

definition conn_safe_emit_error ::
    "'a transport_scheme environment \<Rightarrow> disp_config \<Rightarrow> task_ctx \<Rightarrow> nat \<Rightarrow> exn \<Rightarrow> ('a transport_scheme, unit) prog" where
  "conn_safe_emit_error env cfg ctx c error =
     bindE (getsE (the_id c)) (\<lambda>rid. emit env cfg ctx (NetworkErrorEvent rid error))"

text \<open>\<open>_run_close_event_publication\<close>: what its \<open>finally\<close> does, and the whole.\<close>

definition publication_finished :: "nat option \<Rightarrow> bool \<Rightarrow> connection \<Rightarrow> connection" where
  "publication_finished current_task published_successfully cn =
     (let cn1 = (if published_successfully
                 then cn\<lparr>cn_closed_event_published := True, cn_close_event_previous_state := None,
                         cn_publications := Suc (cn_publications cn)\<rparr>
                 else cn)
      in if cn_close_event_task cn1 = current_task then cn1\<lparr>cn_close_event_task := None\<rparr> else cn1)"

definition run_close_event_publication ::
    "'a transport_scheme environment \<Rightarrow> disp_config \<Rightarrow> task_ctx \<Rightarrow> nat \<Rightarrow> connection_state \<Rightarrow>
     ('a transport_scheme, unit) prog" where
  "run_close_event_publication env cfg ctx c previous_state =
     bindE (getsE (\<lambda>s. t_conns s c)) (\<lambda>cn.
       bindE (tryE (seqE (emit env cfg ctx
                  (ConnectionClosedEvent (cn_connection_id cn) previous_state (Some (cn_metadata cn))))
                (ret None)) (\<lambda>e. ret (Some e)))
         (\<lambda>failure. seqE (updC c (publication_finished (tc_task ctx) (failure = None)))
                      (raise_if failure)))"

text \<open>\<open>_finalize_close\<close>: the part under the lock, which names the shared publication task.\<close>

definition finalize_begin ::
    "task_ctx \<Rightarrow> nat \<Rightarrow> 'a transport_scheme \<Rightarrow> nat option \<times> 'a transport_scheme" where
  "finalize_begin ctx c s =
     (let cn = t_conns s c
      in if cn_closed_event_published cn then (None, s)
         else if absent_or_done (cn_close_event_task cn) s then
           (let previous_state = (case cn_close_event_previous_state cn of None \<Rightarrow> CLOSING | Some p \<Rightarrow> p);
                (t, s1) = create_task (Close_publication c previous_state) ctx s
            in (Some t, conn_update c (\<lambda>cn. cn\<lparr>cn_state := CLOSED, cn_close_event_task := Some t\<rparr>) s1))
         else (cn_close_event_task cn, s))"

definition done_cancelled :: "nat \<Rightarrow> 'a transport_scheme \<Rightarrow> bool" where
  "done_cancelled t s = (task_done t s \<and> task_cancelled t s)"

definition finalize_close ::
    "'a transport_scheme environment \<Rightarrow> task_ctx \<Rightarrow> nat \<Rightarrow> ('a transport_scheme, unit) prog" where
  "finalize_close env ctx c =
     bindE (stateE (finalize_begin ctx c)) (\<lambda>task. case task of
       None \<Rightarrow> ret ()
     | Some t \<Rightarrow>
         if task = tc_task ctx then ret ()
         else bindE
           (tryE (seqE (awaitE env (A_task t)) (ret False))
              (\<lambda>e. if is_cancelled e then
                     bindE (getsE (done_cancelled t)) (\<lambda>b.
                       if b then raiseE e else seqE (awaitE env (A_task t)) (ret True))
                   else raiseE e))
           (\<lambda>cancelled_during_emit. if cancelled_during_emit then raiseE cancelled else ret ()))"

section \<open>Deferral of the close event\<close>

definition ensure_waiter :: "nat \<Rightarrow> 'a transport_scheme \<Rightarrow> 'a transport_scheme" where
  "ensure_waiter c s =
     (case cn_deferred_close_event_waiter (t_conns s c) of
        Some w \<Rightarrow> if future_done w s then
            (case create_future s of (f, s1) \<Rightarrow>
               conn_update c (\<lambda>cn. cn\<lparr>cn_deferred_close_event_waiter := Some f\<rparr>) s1)
          else s
      | None \<Rightarrow> (case create_future s of (f, s1) \<Rightarrow>
          conn_update c (\<lambda>cn. cn\<lparr>cn_deferred_close_event_waiter := Some f\<rparr>) s1))"

definition ensure_publisher :: "task_ctx \<Rightarrow> nat \<Rightarrow> 'a transport_scheme \<Rightarrow> 'a transport_scheme" where
  "ensure_publisher ctx c s =
     (if absent_or_done (cn_deferred_close_publish_task (t_conns s c)) s then
        (case create_task (Deferred_publisher c) ctx s of (t, s1) \<Rightarrow>
           conn_update c (\<lambda>cn. cn\<lparr>cn_deferred_close_publish_task := Some t\<rparr>) s1)
      else s)"

text \<open>\<open>_defer_close_event_until_opened_event_completes\<close>, which never suspends.\<close>

definition defer_close_event ::
    "disp_config \<Rightarrow> task_ctx \<Rightarrow> nat \<Rightarrow> nat option \<Rightarrow> bool \<Rightarrow> 'a transport_scheme \<Rightarrow>
     (bool \<times> nat option) \<times> 'a transport_scheme" where
  "defer_close_event cfg ctx c close_caller_task close_caller_uses_inline_delivery s =
     (let rid = Some (the_id c s);
          opening_event_task = cn_opening_event_task (t_conns s c);
          inherited_handler_origin = current_task_inherits_handler_origin_context cfg ctx s rid;
          handler_origin_in_flight = (close_caller_task = opening_event_task \<or>
            current_task_is_dispatching_handler cfg ctx s rid \<or>
            current_task_has_handler_origin_context cfg ctx s rid);
          active_inline_handler_in_flight = (has_active_handler_context s rid \<and>
            current_task_would_deliver_inline cfg ctx s)
      in if opening_event_task = None \<and> \<not> handler_origin_in_flight \<and>
            \<not> close_caller_uses_inline_delivery \<and> \<not> inherited_handler_origin \<and>
            \<not> active_inline_handler_in_flight \<and> \<not> cn_close_event_deferred (t_conns s c)
         then ((False, None), s)
         else
           let s1 = conn_update c (\<lambda>cn. cn\<lparr>cn_state := CLOSED, cn_close_event_deferred := True\<rparr>) s;
               s2 = ensure_waiter c s1;
               s3 = (if opening_event_task = None \<and> (handler_origin_in_flight \<or>
                       close_caller_uses_inline_delivery \<or> inherited_handler_origin \<or>
                       active_inline_handler_in_flight)
                     then ensure_publisher ctx c s2 else s2)
           in if handler_origin_in_flight \<or> close_caller_uses_inline_delivery \<or>
                 inherited_handler_origin \<or> current_task_has_handler_origin_context cfg ctx s rid
              then ((True, None), s3)
              else ((True, cn_deferred_close_event_waiter (t_conns s3 c)), s3))"

definition ensure_deferred_close_publication_waiter ::
    "task_ctx \<Rightarrow> nat \<Rightarrow> 'a transport_scheme \<Rightarrow> nat option \<times> 'a transport_scheme" where
  "ensure_deferred_close_publication_waiter ctx c s =
     (if cn_closed_event_published (t_conns s c) then (None, s)
      else let s1 = ensure_publisher ctx c (ensure_waiter c
                      (conn_update c (\<lambda>cn. cn\<lparr>cn_close_event_deferred := True\<rparr>) s))
           in (cn_deferred_close_event_waiter (t_conns s1 c), s1))"

text \<open>\<open>_publish_deferred_close_after_opened_event\<close>.\<close>

definition publish_deferred_close ::
    "'a transport_scheme environment \<Rightarrow> disp_config \<Rightarrow> task_ctx \<Rightarrow> nat \<Rightarrow> ('a transport_scheme, bool) prog" where
  "publish_deferred_close env cfg ctx c =
     bindE (getsE (\<lambda>s. t_conns s c)) (\<lambda>cn.
       if \<not> cn_close_event_deferred cn then ret False
       else
         let deferred_waiter = cn_deferred_close_event_waiter cn
         in seqE (updC c (\<lambda>cn. cn\<lparr>cn_close_event_deferred := False\<rparr>))
              (seqE
                (finallyE
                  (seqE
                    (tryE (with_inline_delivery_context cfg ctx (\<lambda>ctx1. finalize_close env ctx1 c))
                       (\<lambda>e. if is_caught e then seqE (settle_opt deferred_waiter (Inl e)) (raiseE e)
                             else raiseE e))
                    (settle_opt deferred_waiter (Inr ())))
                  (updC c (\<lambda>cn. if cn_deferred_close_event_waiter cn = deferred_waiter
                                then cn\<lparr>cn_deferred_close_event_waiter := None\<rparr> else cn)))
                (ret True)))"

text \<open>\<open>_publish_deferred_close_after_handler_context_expires\<close>.\<close>

definition publish_after_handler_context ::
    "'a transport_scheme environment \<Rightarrow> disp_config \<Rightarrow> task_ctx \<Rightarrow> nat \<Rightarrow> ('a transport_scheme, unit) prog" where
  "publish_after_handler_context env cfg ctx c =
     finallyE
       (tryE
         (bindE (getsE (the_id c)) (\<lambda>rid.
            seqE (wait_for_handler_context env (Some rid))
              (bindE (publish_deferred_close env cfg ctx c) (\<lambda>_. ret ()))))
         (\<lambda>e. if is_caught e then
                bindE (getsE (\<lambda>s. cn_deferred_close_event_waiter (t_conns s c))) (\<lambda>w. settle_opt w (Inl e))
              else raiseE e))
       (updC c (\<lambda>cn. if cn_deferred_close_publish_task cn = tc_task ctx
                     then cn\<lparr>cn_deferred_close_publish_task := None\<rparr> else cn))"

text \<open>
  \<open>_publish_deferred_close_after_opened_event_preserving_cancellation\<close>: its loop over the
  shielded publication task \<open>t\<close>, then its \<open>finally\<close> and its result.
\<close>

partial_function (option) publish_wait_loop ::
    "'a transport_scheme environment \<Rightarrow> nat \<Rightarrow> bool \<Rightarrow> 'a transport_scheme \<Rightarrow>
     ((exn + unit) \<times> bool \<times> 'a transport_scheme) option" where
  "publish_wait_loop env t caller_cancelled s =
     (case env (A_task t) s of (e, s1) \<Rightarrow>
        if e = None then Some (Inr (), caller_cancelled, s1)
        else if is_cancelled (the e) then
          (case t_task_state s1 t of
             Done r \<Rightarrow> Some (r, True, s1)
           | Pending \<Rightarrow> publish_wait_loop env t True s1)
        else Some (Inl (the e), caller_cancelled, s1))"

definition publish_deferred_preserving ::
    "'a transport_scheme environment \<Rightarrow> task_ctx \<Rightarrow> nat \<Rightarrow> ('a transport_scheme, bool) prog" where
  "publish_deferred_preserving env ctx c s =
     (case create_task (Publish_after_opened c) ctx s of (t, s1) \<Rightarrow>
        case publish_wait_loop env t False s1 of
          None \<Rightarrow> None
        | Some (r, caller_cancelled, s2) \<Rightarrow>
            bindE
              (finallyE (\<lambda>s. Some (r, s))
                 (bindE (getsE (task_done t)) (\<lambda>finished.
                    if caller_cancelled \<and> \<not> finished then awaitE env (A_task t) else ret ())))
              (\<lambda>_. if caller_cancelled then raiseE cancelled
                   else getsE (\<lambda>s. t_task_bool s t)) s2)"

section \<open>Close\<close>

text \<open>
  The part of \<open>close\<close> under its lock: None for its two early returns, else the shared close
  task, which is created when there is none in flight.
\<close>

definition close_begin ::
    "disp_config \<Rightarrow> task_ctx \<Rightarrow> nat \<Rightarrow> 'a transport_scheme \<Rightarrow> nat option \<times> 'a transport_scheme" where
  "close_begin cfg ctx c s =
     (let cn = t_conns s c; current_task = tc_task ctx
      in if cn_state cn = CLOSED \<and> cn_close_event_deferred cn \<and> cn_opening_event_task cn = current_task
         then (None, s)
         else if cn_state cn = CLOSED \<and> cn_closed_event_published cn then (None, s)
         else if absent_or_done (cn_close_task cn) s then
           let needs_teardown = (cn_state cn \<noteq> CLOSING \<and> cn_state cn \<noteq> CLOSED);
               read_task = (if needs_teardown then cn_read_task cn else None);
               s1 = (if needs_teardown then conn_update c (\<lambda>cn. cn\<lparr>cn_read_task := None\<rparr>) s else s);
               s2 = (if cn_state cn \<noteq> CLOSED then
                       conn_update c (\<lambda>cn. cn\<lparr>cn_close_event_previous_state :=
                           (case cn_close_event_previous_state cn of
                              None \<Rightarrow> Some (cn_state cn) | Some p \<Rightarrow> Some p),
                         cn_state := CLOSING\<rparr>) s1
                     else s1);
               uses_inline = (current_task_is_worker ctx s \<or>
                 current_task_is_dispatching_handler cfg ctx s None \<or>
                 current_task_has_handler_origin_context cfg ctx s None \<or>
                 is_in_inline_dispatch_context cfg ctx);
               job_ctx = (if uses_inline
                 then ctx\<lparr>tc_inline_dispatcher := insert (dc_id cfg) (tc_inline_dispatcher ctx)\<rparr>
                 else ctx);
               (t, s3) = create_task (Close_lifecycle c needs_teardown read_task current_task uses_inline)
                           job_ctx s2
           in (Some t, conn_update c (\<lambda>cn. cn\<lparr>cn_close_task := Some t\<rparr>) s3)
         else (cn_close_task cn, s))"

definition is_handler_origin_caller ::
    "disp_config \<Rightarrow> task_ctx \<Rightarrow> nat \<Rightarrow> 'a transport_scheme \<Rightarrow> bool" where
  "is_handler_origin_caller cfg ctx c s =
     (current_task_is_dispatching_handler cfg ctx s (Some (the_id c s)) \<or>
      current_task_inherits_handler_origin_context cfg ctx s (Some (the_id c s)))"

definition future_cancelled :: "nat \<Rightarrow> 'a transport_scheme \<Rightarrow> bool" where
  "future_cancelled f s = (future_done f s \<and> f \<in> t_cancelled_futures s)"

text \<open>
  The \<open>except asyncio.CancelledError\<close> of \<open>close\<close>, entered with the cancellation \<open>e\<close> and the
  value \<open>deferred_waiter\<close> had by then; and the final \<open>raise\<close>.
\<close>

definition close_cancelled ::
    "'a transport_scheme environment \<Rightarrow> nat \<Rightarrow> nat \<Rightarrow> bool \<Rightarrow> nat option \<Rightarrow> exn \<Rightarrow> ('a transport_scheme, unit) prog" where
  "close_cancelled env c t handler_origin_caller deferred_waiter e =
     bindE (getsE (done_cancelled t)) (\<lambda>b.
       if b then raiseE e
       else seqE
         (tryE (awaitE env (A_task t))
            (\<lambda>e. if is_cancelled e
                  then bindE (getsE (done_cancelled t)) (\<lambda>b. if b then raiseE e else ret ())
                  else raiseE e))
         (bindE (getsE (\<lambda>s. if deferred_waiter = None \<and> \<not> handler_origin_caller
                            then pending_deferred_close_waiter c s else deferred_waiter))
            (\<lambda>deferred_waiter. seqE
              (case deferred_waiter of
                 None \<Rightarrow> ret ()
               | Some f \<Rightarrow>
                   if handler_origin_caller then ret ()
                   else tryE (awaitE env (A_future f))
                     (\<lambda>e. if is_cancelled e
                           then bindE (getsE (future_cancelled f)) (\<lambda>b. if b then raiseE e else ret ())
                           else raiseE e))
              (raiseE cancelled))))"

definition close_wait ::
    "'a transport_scheme environment \<Rightarrow> nat \<Rightarrow> nat \<Rightarrow> bool \<Rightarrow> ('a transport_scheme, unit) prog" where
  "close_wait env c t handler_origin_caller =
     bindE (tryE (seqE (awaitE env (A_task t)) (ret None))
              (\<lambda>e. if is_cancelled e then ret (Some e) else raiseE e))
       (\<lambda>interrupted. case interrupted of
          Some e \<Rightarrow> close_cancelled env c t handler_origin_caller None e
        | None \<Rightarrow>
            bindE (getsE (\<lambda>s. s)) (\<lambda>s. case pending_deferred_close_waiter c s of
              None \<Rightarrow> ret ()
            | Some f \<Rightarrow>
                if \<not> handler_origin_caller \<and> has_active_handler_context s (Some (the_id c s))
                then tryE (awaitE env (A_future f))
                  (\<lambda>e. if is_cancelled e
                        then close_cancelled env c t handler_origin_caller (Some f) e
                        else raiseE e)
                else ret ()))"

definition conn_close ::
    "'a transport_scheme environment \<Rightarrow> disp_config \<Rightarrow> task_ctx \<Rightarrow> nat \<Rightarrow> ('a transport_scheme, unit) prog" where
  "conn_close env cfg ctx c =
     bindE (stateE (close_begin cfg ctx c)) (\<lambda>close_task. case close_task of
       None \<Rightarrow> ret ()
     | Some t \<Rightarrow>
         bindE (getsE (\<lambda>s. s)) (\<lambda>s.
           if close_task = tc_task ctx then ret ()
           else if cn_close_event_task (t_conns s c) = tc_task ctx then ret ()
           else if cn_close_event_deferred (t_conns s c) \<and> is_handler_origin_caller cfg ctx c s then ret ()
           else close_wait env c t (is_handler_origin_caller cfg ctx c s)))"

section \<open>The shared close task\<close>

text \<open>
  \<open>await_read_task_shutdown\<close> swallows the timeout and the errors of the read loop, and its
  cancellation unless the close task itself is being cancelled; \<open>await_writer_shutdown\<close>
  swallows everything but a cancellation.
\<close>

definition await_read_task_shutdown ::
    "'a transport_scheme environment \<Rightarrow> task_ctx \<Rightarrow> nat \<Rightarrow> ('a transport_scheme, unit) prog" where
  "await_read_task_shutdown env ctx read_task =
     tryE (awaitE env (A_task read_task))
       (\<lambda>e. if is_cancelled e
             then bindE (getsE (is_task_being_cancelled ctx)) (\<lambda>b. if b then raiseE e else ret ())
             else if is_Exception e then ret () else raiseE e)"

definition await_writer_shutdown ::
    "'a transport_scheme environment \<Rightarrow> nat \<Rightarrow> ('a transport_scheme, unit) prog" where
  "await_writer_shutdown env c =
     tryE (awaitE env (A_writer_closed c))
       (\<lambda>e. if is_cancelled e then raiseE e else if is_Exception e then ret () else raiseE e)"

definition drop_queued_for :: "nat \<Rightarrow> 'a transport_scheme \<Rightarrow> 'a transport_scheme" where
  "drop_queued_for c s = snd (drop_queued_events_for_resource (the_id c s) s)"

definition close_teardown ::
    "'a transport_scheme environment \<Rightarrow> disp_config \<Rightarrow> task_ctx \<Rightarrow>
     (nat \<Rightarrow> ('a transport_scheme, unit) prog) option \<Rightarrow> nat \<Rightarrow> nat option \<Rightarrow> nat option \<Rightarrow>
     ('a transport_scheme, unit) prog" where
  "close_teardown env cfg ctx on_closed c read_task close_caller_task =
     bindE (getsE (\<lambda>s. s)) (\<lambda>s.
       let preserve_active_inline_read_task =
             (has_active_handler_context s (Some (the_id c s)) \<and> current_task_would_deliver_inline cfg ctx s)
       in seqE (whenE (has_active_handler_context s (Some (the_id c s))) (modifyE (drop_queued_for c)))
         (seqE
           (case read_task of
              None \<Rightarrow> ret ()
            | Some r \<Rightarrow>
                if read_task \<noteq> tc_task ctx \<and> read_task \<noteq> close_caller_task \<and>
                   \<not> preserve_active_inline_read_task
                then seqE (cancel_task r) (await_read_task_shutdown env ctx r)
                else ret ())
           (seqE (updC c (\<lambda>cn. cn\<lparr>cn_writer_closed := True\<rparr>))
             (seqE (await_writer_shutdown env c)
               (case on_closed of
                  None \<Rightarrow> ret ()
                | Some callback \<Rightarrow>
                    tryE (callback c)
                      (\<lambda>e. if is_Exception e then conn_safe_emit_error env cfg ctx c e
                            else raiseE e))))))"

definition close_rest ::
    "'a transport_scheme environment \<Rightarrow> disp_config \<Rightarrow> task_ctx \<Rightarrow> nat \<Rightarrow> nat option \<Rightarrow> bool \<Rightarrow>
     ('a transport_scheme, unit) prog" where
  "close_rest env cfg ctx c close_caller_task close_caller_uses_inline_delivery =
     bindE (stateE (defer_close_event cfg ctx c close_caller_task close_caller_uses_inline_delivery))
       (\<lambda>(deferred, deferred_waiter).
          seqE (whenE deferred (modifyE (drop_queued_for c)))
            (seqE (case deferred_waiter of None \<Rightarrow> ret () | Some w \<Rightarrow> awaitE env (A_future w))
              (whenE (\<not> deferred)
                (seqE (modifyE (drop_queued_for c)) (finalize_close env ctx c)))))"

definition run_close_lifecycle ::
    "'a transport_scheme environment \<Rightarrow> disp_config \<Rightarrow> task_ctx \<Rightarrow>
     (nat \<Rightarrow> ('a transport_scheme, unit) prog) option \<Rightarrow> nat \<Rightarrow> bool \<Rightarrow> nat option \<Rightarrow> nat option \<Rightarrow> bool \<Rightarrow>
     ('a transport_scheme, unit) prog" where
  "run_close_lifecycle env cfg ctx on_closed c needs_teardown read_task close_caller_task
     close_caller_uses_inline_delivery =
     (let release = updC c (\<lambda>cn. if cn_close_task cn = tc_task ctx then cn\<lparr>cn_close_task := None\<rparr> else cn)
      in bindE
           (tryE
             (if needs_teardown then
                tryE (seqE (close_teardown env cfg ctx on_closed c read_task close_caller_task) (ret False))
                  (\<lambda>e. if is_cancelled e then ret True else raiseE e)
              else ret False)
             (\<lambda>e. seqE release (raiseE e)))
           (\<lambda>cancellation_requested.
              finallyE
                (close_rest env cfg ctx c close_caller_task close_caller_uses_inline_delivery)
                (seqE release (if cancellation_requested then raiseE cancelled else ret ()))))"

section \<open>Read loop and send\<close>

partial_function (option) read_loop_body ::
    "'a transport_scheme environment \<Rightarrow> disp_config \<Rightarrow> task_ctx \<Rightarrow> nat \<Rightarrow> 'a transport_scheme \<Rightarrow>
     ((exn + unit) \<times> 'a transport_scheme) option" where
  "read_loop_body env cfg ctx c s =
     (if cn_state (t_conns s c) \<noteq> CONNECTED then Some (Inr (), s)
      else case env (A_read c) s of (e, s1) \<Rightarrow>
        if e \<noteq> None then Some (Inl (the e), s1)
        else if t_data s1 = [] then Some (Inr (), s1)
        else Option.bind (emit env cfg ctx (BytesReceivedEvent (the_id c s1) (t_data s1) None None) s1)
          (\<lambda>(r, s2). if isl r then Some (Inl (projl r), s2) else read_loop_body env cfg ctx c s2))"

definition read_loop ::
    "'a transport_scheme environment \<Rightarrow> disp_config \<Rightarrow> task_ctx \<Rightarrow> nat \<Rightarrow> ('a transport_scheme, unit) prog" where
  "read_loop env cfg ctx c =
     finallyE
       (tryE (read_loop_body env cfg ctx c)
          (\<lambda>e. if is_cancelled e then raiseE e
                else if is_Exception e then conn_safe_emit_error env cfg ctx c e
                else raiseE e))
       (bindE (getsE (\<lambda>s. cn_state (t_conns s c))) (\<lambda>state.
          if state \<noteq> CLOSING \<and> state \<noteq> CLOSED then conn_close env cfg ctx c else ret ()))"

definition conn_send ::
    "'a transport_scheme environment \<Rightarrow> nat \<Rightarrow> pyval \<Rightarrow> ('a transport_scheme, unit) prog" where
  "conn_send env c data =
     bindE (getsE (\<lambda>s. cn_state (t_conns s c))) (\<lambda>state.
       if state \<noteq> CONNECTED then raiseE (Exn ConnectionClosedError ''is not connected'')
       else case bytes_of data of
         None \<Rightarrow> raiseE (Exn TypeError ''send expects bytes-like data.'')
       | Some payload \<Rightarrow>
           seqE (updC c (\<lambda>cn. cn\<lparr>cn_written := cn_written cn @ [payload]\<rparr>)) (awaitE env (A_drain c)))"

section \<open>Start\<close>

definition conn_start ::
    "'a transport_scheme environment \<Rightarrow> disp_config \<Rightarrow> task_ctx \<Rightarrow>
     (nat \<Rightarrow> ('a transport_scheme, unit) prog) option \<Rightarrow> nat \<Rightarrow> ('a transport_scheme, unit) prog" where
  "conn_start env cfg ctx on_ready c =
     bindE (getsE (\<lambda>s. t_conns s c)) (\<lambda>cn.
       let close_and_raise = (\<lambda>e. if is_caught e
             then seqE (suppress_all (conn_close env cfg ctx c)) (raiseE e) else raiseE e);
           opening_task = tc_task ctx;
           forget_opening = updC c (\<lambda>cn. if cn_opening_event_task cn = opening_task
             then cn\<lparr>cn_opening_event_task := None\<rparr> else cn);
           connected = (\<lambda>s. cn_state (t_conns s c) = CONNECTED)
       in if cn_state cn = CONNECTED then ret ()
          else if cn_state cn \<noteq> CREATED \<and> cn_state cn \<noteq> CONNECTING
          then raiseE (Exn RuntimeError ''cannot be started from state'')
          else seqE (updC c (\<lambda>cn. cn\<lparr>cn_state := CONNECTED\<rparr>))
            (seqE (tryE (case on_ready of None \<Rightarrow> ret () | Some callback \<Rightarrow> callback c) close_and_raise)
              (bindE (getsE connected) (\<lambda>still. if \<not> still then ret () else
                seqE (updC c (\<lambda>cn. cn\<lparr>cn_opening_event_task := opening_task\<rparr>))
                (seqE
                  (tryE (emit_and_wait env cfg ctx
                           (ConnectionOpenedEvent (cm_connection_id (cn_metadata cn)) (cn_metadata cn)) False)
                    (\<lambda>e. if is_caught e
                       then seqE (suppress_all (bindE (publish_deferred_preserving env ctx c) (\<lambda>_. ret ())))
                         (seqE forget_opening (close_and_raise e))
                       else raiseE e))
                  (seqE forget_opening
                    (bindE (tryE (publish_deferred_preserving env ctx c)
                              (\<lambda>e. seqE (close_and_raise e) (ret True)))
                      (\<lambda>published. if published then ret () else
                        bindE (getsE connected) (\<lambda>still. if \<not> still then ret () else
                          bindE (stateE (create_task (Read_loop c) ctx)) (\<lambda>t.
                            updC c (\<lambda>cn. cn\<lparr>cn_read_task := Some t\<rparr>)))))))))))"

section \<open>Running a created task\<close>

text \<open>
  What the event loop does with a task of the connection: run its coroutine in its own
  context and record the outcome.  The jobs of the owning transport are a parameter.
\<close>

definition finish_task :: "nat \<Rightarrow> exn + unit \<Rightarrow> 'a transport_scheme \<Rightarrow> 'a transport_scheme" where
  "finish_task t r s = s\<lparr>t_task_state := (t_task_state s)(t := Done r)\<rparr>"

definition run_coroutine ::
    "nat \<Rightarrow> ('a transport_scheme, unit) prog \<Rightarrow> ('a transport_scheme, unit) prog" where
  "run_coroutine t m s = (case m s of None \<Rightarrow> None | Some (r, s') \<Rightarrow> Some (Inr (), finish_task t r s'))"

definition run_job ::
    "'a transport_scheme environment \<Rightarrow> disp_config \<Rightarrow> (nat \<Rightarrow> ('a transport_scheme, unit) prog) option \<Rightarrow>
     (job \<Rightarrow> task_ctx \<Rightarrow> ('a transport_scheme, unit) prog) \<Rightarrow> nat \<Rightarrow> job \<Rightarrow> task_ctx \<Rightarrow>
     ('a transport_scheme, unit) prog" where
  "run_job env cfg on_closed owner_job t job ctx =
     run_coroutine t (case job of
       Close_lifecycle c needs_teardown read_task caller inl \<Rightarrow>
         run_close_lifecycle env cfg ctx on_closed c needs_teardown read_task caller inl
     | Close_publication c previous_state \<Rightarrow> run_close_event_publication env cfg ctx c previous_state
     | Read_loop c \<Rightarrow> read_loop env cfg ctx c
     | Deferred_publisher c \<Rightarrow> publish_after_handler_context env cfg ctx c
     | Publish_after_opened c \<Rightarrow>
         bindE (publish_deferred_close env cfg ctx c) (\<lambda>b.
           modifyE (\<lambda>s. s\<lparr>t_task_bool := (t_task_bool s)(t := b)\<rparr>))
     | _ \<Rightarrow> owner_job job ctx)"

end
