(* ===== verification/Connection_Invariants.thy ===== *)
theory Connection_Invariants
  imports Connection
begin

text \<open>
  What the operations of a connection keep.  The interface \<open>connection_invariant\<close> lists the
  updates a connection makes to the shared tables; a predicate that survives them is kept by
  every operation and by every task of the connection, whatever happens at the awaits.  It is
  interpreted on the invariant of the close protocol, on the progress of the connection state,
  and, by the client, on the client's own fields.
\<close>

section \<open>The interface\<close>

text \<open>Two versions of a connection that agree in all the close protocol relies on.\<close>

definition same_public :: "connection \<Rightarrow> connection \<Rightarrow> bool" where
  "same_public cn cn' \<longleftrightarrow> cn_state cn = cn_state cn' \<and>
     cn_closed_event_published cn = cn_closed_event_published cn' \<and>
     cn_publications cn = cn_publications cn' \<and>
     cn_close_event_task cn = cn_close_event_task cn' \<and>
     cn_connection_id cn = cn_connection_id cn'"

definition is_publication :: "job \<Rightarrow> bool" where
  "is_publication job \<longleftrightarrow> (\<exists>c p. job = Close_publication c p)"

lemma is_publication_simps [simp]:
  "is_publication (Close_publication c p)" "\<not> is_publication (Close_lifecycle c n r t b)"
  "\<not> is_publication (Read_loop c)" "\<not> is_publication (Deferred_publisher c)"
  "\<not> is_publication (Publish_after_opened c)" "\<not> is_publication Supervisor"
  "\<not> is_publication (Stop_completion w e1 e2 ws u b)" "\<not> is_publication (Stop_after_closes f ws)"
  "\<not> is_publication Owner_call"
  by (simp_all add: is_publication_def)

locale connection_invariant =
  fixes I :: "'a transport_scheme \<Rightarrow> bool"
  assumes stable: "stable I"
    and quiet_update: "I s \<Longrightarrow> (\<And>cn. same_public (f cn) cn) \<Longrightarrow> I (conn_update c f s)"
    and connected: "I s \<Longrightarrow> cn_state (t_conns s c) = CREATED \<or> cn_state (t_conns s c) = CONNECTING \<Longrightarrow>
          I (conn_update c (\<lambda>cn. cn\<lparr>cn_state := CONNECTED\<rparr>) s)"
    and closing: "I s \<Longrightarrow> cn_state (t_conns s c) \<noteq> CLOSED \<Longrightarrow>
          I (conn_update c (\<lambda>cn. cn\<lparr>cn_close_event_previous_state := p cn, cn_state := CLOSING\<rparr>) s)"
    and closed: "I s \<Longrightarrow> I (conn_update c (\<lambda>cn. cn\<lparr>cn_state := CLOSED, cn_close_event_deferred := b\<rparr>) s)"
    and task_created: "I s \<Longrightarrow> \<not> is_publication job \<Longrightarrow> I (snd (create_task job ctx s))"
    and publication_created: "I s \<Longrightarrow> \<not> cn_closed_event_published (t_conns s c) \<Longrightarrow>
          absent_or_done (cn_close_event_task (t_conns s c)) s \<Longrightarrow>
          create_task (Close_publication c prev) ctx s = (t, s1) \<Longrightarrow>
          I (conn_update c (\<lambda>cn. cn\<lparr>cn_state := CLOSED, cn_close_event_task := Some t\<rparr>) s1)"
    and bool_result: "I s \<Longrightarrow> I (s\<lparr>t_task_bool := g\<rparr>)"
begin

lemma settle_opt_keeps: "keeps I (settle_opt w r)"
  unfolding settle_opt_def settle_future_def
  by (auto intro!: keeps_rules elim!: stableD [OF stable] simp: evolves_def split: option.split)

lemma cancel_keeps: "keeps I (cancel_task t)"
  unfolding cancel_task_def by (auto intro!: keeps_rules elim!: stableD [OF stable] simp: evolves_def)

lemma future_keeps: "I s \<Longrightarrow> I (snd (create_future s))"
  by (erule stableD [OF stable]) (simp_all add: create_future_def evolves_def)

lemma quiet_keeps: "(\<And>cn. same_public (f cn) cn) \<Longrightarrow> keeps I (updC c f)"
  by (intro keeps_modifyE quiet_update)

lemma stateE_keeps: "(\<And>s. I s \<Longrightarrow> I (snd (f s))) \<Longrightarrow> keeps I (stateE f)"
  by (rule keepsI) (auto simp: stateE_def split: prod.splits, metis snd_conv)

lemma ensure_waiter_keeps: "I s \<Longrightarrow> I (ensure_waiter c s)"
  using future_keeps [of s]
  by (auto simp: ensure_waiter_def same_public_def intro!: quiet_update split: option.split prod.split)

lemma ensure_publisher_keeps: "I s \<Longrightarrow> I (ensure_publisher ctx c s)"
  using task_created [of s "Deferred_publisher c" ctx]
  by (auto simp: ensure_publisher_def same_public_def intro!: quiet_update split: prod.split)

lemma defer_keeps: "I s \<Longrightarrow> I (snd (defer_close_event cfg ctx c caller inl s))"
  by (simp add: defer_close_event_def Let_def ensure_publisher_keeps ensure_waiter_keeps closed)

lemma ensure_deferred_keeps: "I s \<Longrightarrow> I (snd (ensure_deferred_close_publication_waiter ctx c s))"
  by (simp add: ensure_deferred_close_publication_waiter_def Let_def ensure_publisher_keeps
      ensure_waiter_keeps quiet_update same_public_def)

lemma finalize_begin_keeps: "I s \<Longrightarrow> I (snd (finalize_begin ctx c s))"
  by (auto simp: finalize_begin_def Let_def publication_created split: prod.split)

lemma close_begin_keeps:
  assumes "I s"
  shows "I (snd (close_begin cfg ctx c s))"
proof -
  have task: "I (conn_update c (\<lambda>cn. cn\<lparr>cn_close_task := Some t\<rparr>) s3)"
    if "create_task (Close_lifecycle c n r ct b) jc s2 = (t, s3)" "I s2" for n r ct b jc s2 t s3
    using task_created [OF that(2), of "Close_lifecycle c n r ct b" jc] that(1)
    by (intro quiet_update) (simp_all add: same_public_def)
  have detach: "I (conn_update c (\<lambda>cn. cn\<lparr>cn_read_task := None\<rparr>) s)"
    using assms by (intro quiet_update) (simp_all add: same_public_def)
  have mark: "I (conn_update c (\<lambda>cn. cn\<lparr>cn_close_event_previous_state := p cn, cn_state := CLOSING\<rparr>) s')"
    if "I s'" "cn_state (t_conns s' c) \<noteq> CLOSED" for s' p
    by (rule closing [OF that])
  show ?thesis
    using assms
    by (auto simp: close_begin_def Let_def conn_update_def [of c "\<lambda>cn. cn\<lparr>cn_read_task := None\<rparr>" s]
        intro!: task mark detach [unfolded conn_update_def] split: prod.split)
qed

text \<open>The coroutines, for an environment that keeps \<open>I\<close>.\<close>

lemmas coroutine_keeps = keeps_bindE keeps_seqE keeps_tryE keeps_finallyE keeps_getsE keeps_ret
  keeps_raiseE keeps_if keeps_whenE keeps_suppress_all keeps_raise_if settle_opt_keeps cancel_keeps
  quiet_keeps stateE_keeps

lemma drop_keeps: "I s \<Longrightarrow> I (drop_queued_for c s)"
  unfolding drop_queued_for_def
  by (rule disp_invariant.drop_resource [OF stable_disp_invariant [OF stable]])

lemma emit_error_keeps: "env_keeps I env \<Longrightarrow> keeps I (conn_safe_emit_error env cfg ctx c e)"
  unfolding conn_safe_emit_error_def
  by (intro coroutine_keeps stable_emit_keeps [OF stable _ refl])

lemma finalize_keeps: "env_keeps I env \<Longrightarrow> keeps I (finalize_close env ctx c)"
  unfolding finalize_close_def
  by (auto intro!: coroutine_keeps finalize_begin_keeps keeps_awaitE split: option.split)

lemma publish_deferred_keeps:
  assumes "env_keeps I env"
  shows "keeps I (publish_deferred_close env cfg ctx c)"
  unfolding publish_deferred_close_def Let_def with_inline_delivery_context_def
  by (intro coroutine_keeps finalize_keeps assms) (simp_all add: same_public_def)

lemma publisher_keeps:
  assumes "env_keeps I env"
  shows "keeps I (publish_after_handler_context env cfg ctx c)"
  unfolding publish_after_handler_context_def
  by (intro coroutine_keeps publish_deferred_keeps assms
      stable_wait_for_handler_context_keeps [OF stable assms]) (simp_all add: same_public_def)

lemma publish_wait_loop_keeps:
  assumes "publish_wait_loop env t b s = Some y"
  shows "env_keeps I env \<longrightarrow> I s \<longrightarrow> I (snd (snd y))"
  using assms
proof (rule publish_wait_loop.raw_induct [rotated, where P = "\<lambda>env t b s y.
      env_keeps I env \<longrightarrow> I s \<longrightarrow> I (snd (snd y))"], intro impI)
  fix rec env t b s y
  assume IH: "\<And>env t b s y. rec env t b s = Some y \<Longrightarrow> env_keeps I env \<longrightarrow> I s \<longrightarrow> I (snd (snd y))"
    and run: "(case env (A_task t) s of (e, s1) \<Rightarrow>
        if e = None then Some (Inr (), b, s1)
        else if is_cancelled (the e) then
          (case t_task_state s1 t of Done r \<Rightarrow> Some (r, True, s1) | Pending \<Rightarrow> rec env t True s1)
        else Some (Inl (the e), b, s1)) = Some y"
    and env: "env_keeps I env" and s: "I s"
  obtain e s1 where e: "env (A_task t) s = (e, s1)" by force
  have "I s1" using env_keepsD [OF env s e] .
  then show "I (snd (snd y))"
    using run IH [of env t True s1 y] env
    by (auto simp: e split: if_splits future_state.splits)
qed

lemma publish_preserving_keeps:
  assumes "env_keeps I env"
  shows "keeps I (publish_deferred_preserving env ctx c)"
proof (rule keepsI)
  fix s r s'
  assume s: "I s" and run: "publish_deferred_preserving env ctx c s = Some (r, s')"
  obtain t s1 where t: "create_task (Publish_after_opened c) ctx s = (t, s1)" by force
  have s1: "I s1" using task_created [OF s, of "Publish_after_opened c" ctx] t by simp
  obtain r0 b s2 where w: "publish_wait_loop env t False s1 = Some (r0, b, s2)"
    and rest: "bindE (finallyE (\<lambda>s. Some (r0, s))
        (bindE (getsE (task_done t)) (\<lambda>finished. if b \<and> \<not> finished then awaitE env (A_task t) else ret ())))
      (\<lambda>_. if b then raiseE cancelled else getsE (\<lambda>s. t_task_bool s t)) s2 = Some (r, s')"
    using run by (auto simp: publish_deferred_preserving_def t split: option.splits prod.splits)
  have "I s2" using publish_wait_loop_keeps [OF w] assms s1 by simp
  moreover have "keeps I (\<lambda>s. Some (r0, s))" by (simp add: keeps_def)
  ultimately show "I s'"
    using keepsD [OF keeps_bindE [OF keeps_finallyE] _ rest] assms
    by (metis (no_types, lifting) coroutine_keeps(1,5,6,7,8) keeps_awaitE)
qed

lemma close_cancelled_keeps: "env_keeps I env \<Longrightarrow> keeps I (close_cancelled env c t b w e)"
  unfolding close_cancelled_def
  by (auto intro!: coroutine_keeps keeps_awaitE split: option.split)

lemma close_wait_keeps: "env_keeps I env \<Longrightarrow> keeps I (close_wait env c t b)"
  unfolding close_wait_def
  by (auto intro!: coroutine_keeps keeps_awaitE close_cancelled_keeps split: option.split)

lemma conn_close_keeps: "env_keeps I env \<Longrightarrow> keeps I (conn_close env cfg ctx c)"
  unfolding conn_close_def
  by (auto intro!: coroutine_keeps close_begin_keeps close_wait_keeps split: option.split)

lemma close_lifecycle_keeps:
  assumes "env_keeps I env" "\<And>cb. on_closed = Some cb \<Longrightarrow> keeps I (cb c)"
  shows "keeps I (run_close_lifecycle env cfg ctx on_closed c n rt ct b)"
proof -
  have callback: "keeps I (case on_closed of None \<Rightarrow> ret () | Some callback \<Rightarrow> tryE (callback c)
      (\<lambda>e. if is_Exception e then conn_safe_emit_error env cfg ctx c e else raiseE e))"
  proof (cases on_closed)
    case (Some cb)
    from assms(2) [OF Some] show ?thesis
      unfolding Some option.case by (intro coroutine_keeps emit_error_keeps assms(1))
  qed (simp add: keeps_ret)
  have reader: "keeps I (case rt of None \<Rightarrow> ret () | Some r \<Rightarrow>
      if P r then seqE (cancel_task r) (await_read_task_shutdown env ctx r) else ret ())" for P
    by (auto intro!: coroutine_keeps keeps_awaitE assms(1) simp: await_read_task_shutdown_def
        split: option.split)
  have "keeps I (close_teardown env cfg ctx on_closed c rt ct)"
    unfolding close_teardown_def Let_def await_writer_shutdown_def
    by (intro coroutine_keeps keeps_awaitE keeps_modifyE drop_keeps callback reader assms(1))
      (simp_all add: same_public_def)
  moreover have "keeps I (close_rest env cfg ctx c ct b)"
    unfolding close_rest_def
    by (auto intro!: coroutine_keeps keeps_awaitE keeps_modifyE drop_keeps defer_keeps finalize_keeps
        assms(1) split: option.split prod.split)
  ultimately show ?thesis
    unfolding run_close_lifecycle_def Let_def
    by (intro coroutine_keeps) (simp_all add: same_public_def)
qed

lemma read_loop_keeps:
  assumes "env_keeps I env"
  shows "keeps I (read_loop env cfg ctx c)"
proof -
  have "env_keeps I env \<longrightarrow> I s \<longrightarrow> I (snd y)" if "read_loop_body env cfg ctx c s = Some y" for s y
    using that
  proof (rule read_loop_body.raw_induct [rotated, where P = "\<lambda>env cfg ctx c s y.
        env_keeps I env \<longrightarrow> I s \<longrightarrow> I (snd y)"], intro impI)
    fix rec env cfg ctx c s y
    assume IH: "\<And>env cfg ctx c s y. rec env cfg ctx c s = Some y \<Longrightarrow>
        env_keeps I env \<longrightarrow> I s \<longrightarrow> I (snd y)"
      and run: "(if cn_state (t_conns s c) \<noteq> CONNECTED then Some (Inr (), s)
        else case env (A_read c) s of (e, s1) \<Rightarrow>
          if e \<noteq> None then Some (Inl (the e), s1)
          else if t_data s1 = [] then Some (Inr (), s1)
          else Option.bind (emit env cfg ctx (BytesReceivedEvent (the_id c s1) (t_data s1) None None) s1)
            (\<lambda>(r, s2). if isl r then Some (Inl (projl r), s2) else rec env cfg ctx c s2)) = Some y"
      and env: "env_keeps I env" and s: "I s"
    obtain e s1 where e: "env (A_read c) s = (e, s1)" by force
    have s1: "I s1" using env_keepsD [OF env s e] .
    have s2: "I s2" if "emit env cfg ctx ev s1 = Some (r, s2)" for ev r s2
      using keepsD [OF stable_emit_keeps [OF stable env refl] s1 that] .
    show "I (snd y)"
      using run s s1 s2 IH [of env cfg ctx c _ y] env
      by (auto simp: e bind_eq_Some_conv split: if_splits)
  qed
  then have "keeps I (read_loop_body env cfg ctx c)"
    using assms by (intro keepsI) (metis snd_conv)
  then show ?thesis
    unfolding read_loop_def by (intro coroutine_keeps emit_error_keeps conn_close_keeps assms)
qed

lemma conn_send_keeps: "env_keeps I env \<Longrightarrow> keeps I (conn_send env c data)"
  unfolding conn_send_def
  by (auto intro!: coroutine_keeps keeps_awaitE simp: same_public_def split: option.split)

lemma conn_start_keeps:
  assumes "env_keeps I env" "\<And>cb. on_ready = Some cb \<Longrightarrow> keeps I (cb c)"
  shows "keeps I (conn_start env cfg ctx on_ready c)"
proof (rule keepsI)
  fix s r s'
  assume s: "I s" and run: "conn_start env cfg ctx on_ready c s = Some (r, s')"
  note rules = coroutine_keeps conn_close_keeps [OF assms(1)] publish_preserving_keeps [OF assms(1)]
    stable_emit_and_wait_keeps [OF stable assms(1)]
  have start: "I (conn_update c (\<lambda>cn. cn\<lparr>cn_state := CONNECTED\<rparr>) s)"
    if "cn_state (t_conns s c) = CREATED \<or> cn_state (t_conns s c) = CONNECTING"
    using connected [OF s that] .
  have ready: "keeps I (case on_ready of None \<Rightarrow> ret () | Some callback \<Rightarrow> callback c)"
    using assms(2) by (auto intro: keeps_ret split: option.split)
  have read: "I s \<Longrightarrow> I (snd (create_task (Read_loop c) ctx s))" for s
    by (rule task_created) simp_all
  have "wp True (conn_start env cfg ctx on_ready c) (\<lambda>_. I) (\<lambda>_. I) s"
    unfolding conn_start_def Let_def wp_bindE wp_getsE
    by (intro wp_if_intro wp_update_keeps start wp_keeps [where I = I, OF keeps_ret s]
        wp_keeps [where I = I, OF keeps_raiseE s] rules ready read) (auto simp: same_public_def)
  then show "I s'" using run by (rule wp_invariantD)
qed

end

section \<open>The close protocol\<close>

text \<open>A publication task of connection \<open>c\<close> that has not ended.\<close>

definition live_publication :: "nat \<Rightarrow> nat \<Rightarrow> 'a transport_scheme \<Rightarrow> bool" where
  "live_publication c t s \<longleftrightarrow>
     (\<exists>p ctx. t_jobs s t = Some (Close_publication c p, ctx)) \<and> t_task_state s t = Pending"

text \<open>
  The invariant: task numbers are fresh, every task knows itself, and for each connection a
  publication was made exactly when the flag says so; the connection is CLOSED from the first
  attempt on; and there is at most one live publication task, which is the recorded one and
  exists only while nothing is published.
\<close>

definition conn_ok :: "nat \<Rightarrow> 'a transport_scheme \<Rightarrow> bool" where
  "conn_ok c s \<longleftrightarrow> (let cn = t_conns s c in
     cn_publications cn = (if cn_closed_event_published cn then 1 else 0) \<and>
     (cn_closed_event_published cn \<or> cn_close_event_task cn \<noteq> None \<longrightarrow> cn_state cn = CLOSED) \<and>
     (\<forall>t. live_publication c t s \<longrightarrow>
        cn_close_event_task cn = Some t \<and> \<not> cn_closed_event_published cn))"

definition conn_inv :: "'a transport_scheme \<Rightarrow> bool" where
  "conn_inv s \<longleftrightarrow>
     (\<forall>t job ctx. t_jobs s t = Some (job, ctx) \<longrightarrow> t < d_next_task s \<and> tc_task ctx = Some t) \<and>
     (\<forall>c. conn_ok c s)"

lemmas conn_inv_defs = conn_inv_def conn_ok_def live_publication_def Let_def

lemma transport_own:
  fixes s s' :: "'a transport_scheme"
  assumes "disp.more s' = disp.more s"
  shows "t_conns s' = t_conns s \<and> t_jobs s' = t_jobs s \<and> t_task_state s' = t_task_state s \<and>
    transport.more s' = transport.more s"
  using assms by (cases s; cases s') simp

lemma stable_conn_inv: "stable conn_inv"
  unfolding stable_def evolves_def
proof (intro allI impI, elim conjE)
  fix s s' :: "'a transport_scheme"
  assume "disp.more s' = disp.more s" "d_next_task s \<le> d_next_task s'" "conn_inv s"
  then show "conn_inv s'"
    using transport_own [of s' s] unfolding conn_inv_defs by (auto intro: less_le_trans)
qed

lemma conn_update_selectors [simp]:
  "t_conns (conn_update c f s) d = (if d = c then f (t_conns s c) else t_conns s d)"
  "t_jobs (conn_update c f s) = t_jobs s" "t_task_state (conn_update c f s) = t_task_state s"
  "d_next_task (conn_update c f s) = d_next_task s"
  "transport.more (conn_update c f s) = transport.more s"
  "live_publication e t (conn_update c f s) = live_publication e t s"
  by (simp_all add: conn_update_def live_publication_def)

lemma conn_inv_ok: "conn_inv s \<Longrightarrow> conn_ok c s"
  by (simp add: conn_inv_def)

lemma conn_inv_fresh: "conn_inv s \<Longrightarrow> t_jobs s (d_next_task s) = None"
  unfolding conn_inv_def by (metis less_irrefl option.exhaust surj_pair)

lemma conn_ok_live:
  "conn_ok c s \<Longrightarrow> live_publication c t s \<Longrightarrow>
     cn_close_event_task (t_conns s c) = Some t \<and> \<not> cn_closed_event_published (t_conns s c)"
  unfolding conn_ok_def Let_def by blast

lemma conn_ok_closed:
  "conn_ok c s \<Longrightarrow> cn_closed_event_published (t_conns s c) \<or> cn_close_event_task (t_conns s c) \<noteq> None \<Longrightarrow>
     cn_state (t_conns s c) = CLOSED"
  unfolding conn_ok_def Let_def by blast

lemma conn_inv_update:
  assumes "conn_inv s"
    and "cn_publications (f (t_conns s c)) = cn_publications (t_conns s c)"
    and "cn_closed_event_published (f (t_conns s c)) = cn_closed_event_published (t_conns s c)"
    and "cn_close_event_task (f (t_conns s c)) = cn_close_event_task (t_conns s c)"
    and "cn_closed_event_published (t_conns s c) \<or> cn_close_event_task (t_conns s c) \<noteq> None \<Longrightarrow>
      cn_state (f (t_conns s c)) = CLOSED"
  shows "conn_inv (conn_update c f s)"
proof -
  have "conn_ok d (conn_update c f s)" for d
    using conn_inv_ok [OF assms(1), of d] assms(2-5)
    by (cases "d = c") (simp_all add: conn_ok_def Let_def)
  then show ?thesis using assms(1) by (simp add: conn_inv_def)
qed

lemma create_task_selectors:
  assumes "create_task job ctx s = (t, s1)"
  shows "t = d_next_task s" "t_conns s1 = t_conns s" "d_next_task s1 = Suc t"
    "t_jobs s1 = (t_jobs s)(t \<mapsto> (job, child_ctx ctx t))"
    "t_task_state s1 = (t_task_state s)(t := Pending)" "transport.more s1 = transport.more s"
  using assms by (auto simp: create_task_def Let_def)

lemma live_created:
  assumes "conn_inv s" "create_task job ctx s = (t, s1)"
  shows "live_publication c t' s1 \<longleftrightarrow>
    live_publication c t' s \<or> t' = t \<and> (\<exists>p. job = Close_publication c p)"
  using conn_inv_fresh [OF assms(1)]
  by (auto simp: live_publication_def create_task_selectors [OF assms(2)])

lemma jobs_created:
  assumes "conn_inv s" "create_task job ctx s = (t, s1)" "t_jobs s1 t' = Some (job', ctx')"
  shows "t' < d_next_task s1 \<and> tc_task ctx' = Some t'"
  using assms(1,3) unfolding conn_inv_def
  by (auto simp: create_task_selectors [OF assms(2)] child_ctx_def intro: less_SucI split: if_splits)

lemma conn_inv_task:
  assumes "conn_inv s" "\<not> is_publication job"
  shows "conn_inv (snd (create_task job ctx s))"
proof -
  obtain t s1 where t: "create_task job ctx s = (t, s1)" by force
  have "live_publication c t' s1 = live_publication c t' s" for c t'
    using live_created [OF assms(1) t] assms(2) by (auto simp: is_publication_def)
  then have "conn_ok c s1" for c
    using conn_inv_ok [OF assms(1), of c] by (simp add: conn_ok_def create_task_selectors [OF t])
  then show ?thesis
    using jobs_created [OF assms(1) t] unfolding conn_inv_def t by simp
qed

lemma no_live_publication:
  "conn_ok c s \<Longrightarrow> absent_or_done (cn_close_event_task (t_conns s c)) s \<Longrightarrow> \<not> live_publication c t s"
  using conn_ok_live [of c s t] unfolding absent_or_done_def task_done_def live_publication_def
  by auto

lemma conn_inv_publication:
  assumes "conn_inv s" "\<not> cn_closed_event_published (t_conns s c)"
    and "absent_or_done (cn_close_event_task (t_conns s c)) s"
    and t: "create_task (Close_publication c prev) ctx s = (t, s1)"
  shows "conn_inv (conn_update c (\<lambda>cn. cn\<lparr>cn_state := CLOSED, cn_close_event_task := Some t\<rparr>) s1)"
    (is "conn_inv ?s")
proof -
  have "conn_ok d ?s" for d
    using conn_inv_ok [OF assms(1), of d] assms(2) live_created [OF assms(1) t, of d]
      no_live_publication [OF conn_inv_ok [OF assms(1)] assms(3)]
    by (cases "d = c") (auto simp: conn_ok_def Let_def create_task_selectors [OF t])
  then show ?thesis
    using jobs_created [OF assms(1) t] unfolding conn_inv_def by simp
qed

interpretation cp: connection_invariant conn_inv
proof
  fix s :: "'a transport_scheme" and c :: nat and p g
  assume inv: "conn_inv s"
  note cl = conn_ok_closed [OF conn_inv_ok [OF inv], of c]
  show "conn_inv (conn_update c (\<lambda>cn. cn\<lparr>cn_state := CONNECTED\<rparr>) s)"
    if "cn_state (t_conns s c) = CREATED \<or> cn_state (t_conns s c) = CONNECTING"
    using that inv cl by (intro conn_inv_update) auto
  show "conn_inv (conn_update c (\<lambda>cn. cn\<lparr>cn_close_event_previous_state := p cn, cn_state := CLOSING\<rparr>) s)"
    if "cn_state (t_conns s c) \<noteq> CLOSED"
    using that inv cl by (intro conn_inv_update) auto
  show "conn_inv (s\<lparr>t_task_bool := g\<rparr>)"
    using inv by (simp add: conn_inv_defs)
next
  fix s :: "'a transport_scheme" and c f
  assume "conn_inv s" and f: "\<And>cn. same_public (f cn) cn"
  then show "conn_inv (conn_update c f s)"
    using f [of "t_conns s c"] conn_ok_closed [OF conn_inv_ok [OF \<open>conn_inv s\<close>], of c]
    by (intro conn_inv_update) (auto simp: same_public_def)
next
  fix s :: "'a transport_scheme" and c b
  assume "conn_inv s"
  then show "conn_inv (conn_update c (\<lambda>cn. cn\<lparr>cn_state := CLOSED, cn_close_event_deferred := b\<rparr>) s)"
    by (intro conn_inv_update) auto
qed (use stable_conn_inv conn_inv_task conn_inv_publication in blast)+

lemma conn_inv_finish: "conn_inv s \<Longrightarrow> conn_inv (finish_task t r s)"
  unfolding conn_inv_def conn_ok_def live_publication_def finish_task_def Let_def
  by (simp split: if_splits)

lemma conn_inv_fresh_connection:
  assumes "conn_inv s" "\<And>t. \<not> live_publication c t s"
    and "connection_init i role sn pn n idle timeout = Inr cn"
  shows "conn_inv (conn_update c (\<lambda>_. cn) s)"
proof -
  have cn: "cn_publications cn = 0" "\<not> cn_closed_event_published cn" "cn_close_event_task cn = None"
    using assms(3) by (auto simp: connection_init_def bindR_Inr split: if_splits)
  have "conn_ok d (conn_update c (\<lambda>_. cn) s)" for d
    using conn_inv_ok [OF assms(1), of d] assms(2) cn
    by (cases "d = c") (simp_all add: conn_ok_def Let_def)
  then show ?thesis using assms(1) by (simp add: conn_inv_def)
qed

lemma run_coroutine_keeps: "keeps conn_inv m \<Longrightarrow> keeps conn_inv (run_coroutine t m)"
  unfolding run_coroutine_def
  by (rule keepsI) (auto split: option.splits dest: keepsD intro: conn_inv_finish)

text \<open>Other tasks do not end task \<open>t\<close>: only its own coroutine does.\<close>

definition ends_itself :: "nat \<Rightarrow> 'a transport_scheme environment \<Rightarrow> bool" where
  "ends_itself t env \<longleftrightarrow> (\<forall>c. env_keeps (\<lambda>s. conn_inv s \<and> live_publication c t s) env)"

lemma stable_live: "stable (\<lambda>s. conn_inv s \<and> live_publication c t s)"
proof (rule stable_conj [OF stable_conn_inv])
  show "stable (live_publication c t)"
    by (rule stable_own) (unfold live_publication_def, metis transport_own)
qed

lemma publication_done:
  assumes "conn_inv s" "live_publication c t s"
  shows "conn_inv (finish_task t r (conn_update c (publication_finished (Some t) ok) s))"
    (is "conn_inv ?s")
proof -
  note ok = conn_inv_ok [OF assms(1)]
  have live: "live_publication d t' ?s \<longleftrightarrow> live_publication d t' s \<and> t' \<noteq> t" for d t'
    by (auto simp: live_publication_def finish_task_def)
  have own: "cn_close_event_task (t_conns s c) = Some t" "\<not> cn_closed_event_published (t_conns s c)"
    using conn_ok_live [OF ok assms(2)] by auto
  have "conn_ok d ?s" for d
  proof (cases "d = c")
    case True
    have "\<not> live_publication c t' ?s" for t'
      using live conn_ok_live [OF ok, of c t'] own by auto
    moreover have "cn_publications (t_conns s c) = 0" "cn_state (t_conns s c) = CLOSED"
      using ok [of c] own by (auto simp: conn_ok_def Let_def)
    ultimately show ?thesis
      unfolding conn_ok_def True using own
      by (auto simp: finish_task_def publication_finished_def Let_def)
  next
    case False
    then show ?thesis
      using ok [of d] unfolding conn_ok_def Let_def live
      by (auto simp: finish_task_def)
  qed
  then show ?thesis using assms(1) unfolding conn_inv_def by (simp add: finish_task_def)
qed

lemma publication_job:
  assumes "ends_itself t env" "conn_inv s" "live_publication c t s" "tc_task ctx = Some t"
    and "run_coroutine t (run_close_event_publication env cfg ctx c p) s = Some (r, s')"
  shows "conn_inv s'"
proof -
  let ?J = "\<lambda>s. conn_inv s \<and> live_publication c t s"
  have env: "env_keeps ?J env" using assms(1) by (simp add: ends_itself_def)
  have emit: "keeps ?J (emit env cfg ctx ev)" for ev
    by (rule stable_emit_keeps [OF stable_live env refl])
  let ?body = "tryE (seqE (emit env cfg ctx (ConnectionClosedEvent (cn_connection_id (t_conns s c)) p
      (Some (cn_metadata (t_conns s c))))) (ret None)) (\<lambda>e. ret (Some e))"
  obtain f s1 where body: "?body s = Some (Inr f, s1)" and
    s': "s' = finish_task t (case f of None \<Rightarrow> Inr () | Some e \<Rightarrow> Inl e)
      (conn_update c (publication_finished (Some t) (f = None)) s1)"
    using assms(4,5)
    by (auto simp: run_coroutine_def run_close_event_publication_def prog_defs
        split: option.splits sum.splits)
  have "keeps ?J ?body" by (intro keeps_tryE keeps_seqE keeps_ret emit)
  then have "?J s1" unfolding keeps_def using body assms(2,3) by blast
  then show ?thesis unfolding s' using publication_done by blast
qed

text \<open>
  C37: The terminal close event of a connection is published at most once.  In every
  interleaving of starts, sends, concurrent and repeated closes, read loops, deferred
  publishers and shared close tasks, with failing handlers, callbacks and cancellations at any
  await: whatever job of a connection runs, and whatever of its methods is called, the close
  protocol stays intact, so that there is at most one publication task in flight, the
  connection is CLOSED before it starts, and a successful publication is never repeated.
\<close>
theorem close_event_published_once:
  assumes "env_keeps conn_inv env" "ends_itself t env"
    and "\<And>rb. on_ready = Some rb \<Longrightarrow> keeps conn_inv (rb c)"
    and "\<And>job ctx. keeps conn_inv (owner_job job ctx)"
    and "\<And>c cb. on_closed = Some cb \<Longrightarrow> keeps conn_inv (cb c)"
    and "conn_inv s" "t_jobs s t = Some (job, jctx)" "t_task_state s t = Pending"
  shows "(\<forall>r s'. run_job env cfg on_closed owner_job t job jctx s = Some (r, s') \<longrightarrow> conn_inv s') \<and>
    keeps conn_inv (conn_start env cfg ctx on_ready c) \<and> keeps conn_inv (conn_close env cfg ctx c) \<and>
    keeps conn_inv (conn_send env c data) \<and> cn_publications (t_conns s c) \<le> 1"
proof (intro conjI allI impI)
  fix r s'
  assume run: "run_job env cfg on_closed owner_job t job jctx s = Some (r, s')"
  note keeps = cp.close_lifecycle_keeps [OF assms(1,5)] cp.read_loop_keeps [OF assms(1)]
    cp.publisher_keeps [OF assms(1)] cp.publish_deferred_keeps [OF assms(1)] assms(4)
  show "conn_inv s'"
  proof (cases "is_publication job")
    case True
    then obtain d p where job: "job = Close_publication d p" by (auto simp: is_publication_def)
    have "live_publication d t s" "tc_task jctx = Some t"
      using assms(6-8) by (auto simp: job live_publication_def conn_inv_def)
    then show ?thesis
      using publication_job [OF assms(2,6)] run by (simp add: run_job_def job)
  next
    case False
    have bool: "keeps conn_inv (bindE (publish_deferred_close env cfg jctx d)
        (\<lambda>b. modifyE (\<lambda>s. s\<lparr>t_task_bool := (t_task_bool s)(t := b)\<rparr>)))" for d
      by (intro keeps_bindE keeps_modifyE keeps cp.bool_result)
    show ?thesis
    proof -
      have "keeps conn_inv (run_job env cfg on_closed owner_job t job jctx)"
        using False unfolding run_job_def
        by (intro run_coroutine_keeps) (cases job, auto simp: is_publication_def intro: keeps bool)
      then show ?thesis using assms(6) run unfolding keeps_def by blast
    qed
  qed
next
  show "keeps conn_inv (conn_start env cfg ctx on_ready c)"
    using assms(3) by (rule cp.conn_start_keeps [OF assms(1)])
  show "cn_publications (t_conns s c) \<le> 1"
    using conn_inv_ok [OF assms(6), of c] by (simp add: conn_ok_def Let_def)
qed (rule cp.conn_close_keeps [OF assms(1)] cp.conn_send_keeps [OF assms(1)])+

definition sample_connection :: connection where
  "sample_connection =
     \<lparr>cn_connection_id = ''c'', cn_role = CLIENT,
      cn_metadata = build_connection_metadata ''c'' CLIENT NotTuple NotTuple,
      cn_receive_buffer_size = 4096, cn_idle_timeout_seconds = None, cn_send_timeout_seconds = None,
      cn_state = CREATED, cn_read_task = None, cn_closed_event_published = False,
      cn_close_event_previous_state = None, cn_close_task = None, cn_close_event_task = None,
      cn_opening_event_task = None, cn_close_event_deferred = False,
      cn_deferred_close_event_waiter = None, cn_deferred_close_publish_task = None,
      cn_writer_closed = False, cn_written = [], cn_publications = 0\<rparr>"

definition sample_transport :: transport where
  "sample_transport = disp.extend empty_disp
     \<lparr>t_conns = (\<lambda>_. sample_connection), t_jobs = Map.empty, t_task_state = (\<lambda>_. Pending),
      t_task_bool = (\<lambda>_. False), t_cancelled_futures = {}, t_data = []\<rparr>"

lemma sample_transport_simps [simp]:
  "t_conns sample_transport = (\<lambda>_. sample_connection)" "t_jobs sample_transport = Map.empty"
  "d_next_task sample_transport = 0" "d_delivered sample_transport = []"
  "cn_state sample_connection = CREATED" "cn_connection_id sample_connection = ''c''"
  "\<not> cn_closed_event_published sample_connection" "cn_publications sample_connection = 0"
  "cn_close_event_task sample_connection = None"
  by (simp_all add: sample_transport_def disp.defs empty_disp_def sample_connection_def)

text \<open>A connection that was closed and whose publication task 0 has just been created.\<close>

definition closing_transport :: transport where
  "closing_transport = snd (finalize_begin (plain_ctx (Some 7)) 0 sample_transport)"

lemma closing_transport_inv: "conn_inv closing_transport"
  unfolding closing_transport_def
  by (rule cp.finalize_begin_keeps) (simp add: conn_inv_defs)

theorem close_event_published_once_witness:
  "case run_job (\<lambda>p s. (None, s)) sample_config None (\<lambda>job ctx. ret ()) 0 (Close_publication 0 CLOSING)
     (child_ctx (plain_ctx (Some 7)) 0) closing_transport of
     Some (r, s') \<Rightarrow> conn_inv s' | None \<Rightarrow> True"
proof -
  have "t_jobs closing_transport 0 = Some (Close_publication 0 CLOSING, child_ctx (plain_ctx (Some 7)) 0)"
    "t_task_state closing_transport 0 = Pending"
    by (simp_all add: closing_transport_def finalize_begin_def absent_or_done_def create_task_def
        sample_connection_def Let_def)
  then show ?thesis
    using close_event_published_once [where env = "\<lambda>p s. (None, s)" and t = 0 and on_ready = None and
        on_closed = None and owner_job = "\<lambda>job ctx. ret ()" and s = closing_transport and
        job = "Close_publication 0 CLOSING" and jctx = "child_ctx (plain_ctx (Some 7)) 0" and
        cfg = sample_config]
      closing_transport_inv
    by (auto simp: env_keeps_def ends_itself_def keeps_ret split: option.split)
qed

end
