(* ===== verification/Connection_Behaviour.thy ===== *)
theory Connection_Behaviour
  imports Connection_Invariants
begin

text \<open>
  What a connection shows to the outside: its state only moves forward, \<open>send\<close> hands the exact
  bytes to the writer or refuses, the read loop delivers what it reads in order, and the
  connection metadata is what the peer tuples say.
\<close>

section \<open>Progress of the state\<close>

fun rank :: "connection_state \<Rightarrow> nat" where
  "rank CREATED = 0"
| "rank CONNECTING = 1"
| "rank CONNECTED = 2"
| "rank CLOSING = 3"
| "rank CLOSED = 4"

lemma rank_le_4: "rank st \<le> 4"
  by (cases st) simp_all

lemma rank_4 [simp]: "4 \<le> rank st \<longleftrightarrow> st = CLOSED"
  by (cases st) simp_all

definition at_least :: "nat \<Rightarrow> nat \<Rightarrow> 'a transport_scheme \<Rightarrow> bool" where
  "at_least k c s \<longleftrightarrow> k \<le> rank (cn_state (t_conns s c))"

lemma stable_at_least: "stable (at_least k c)"
  by (rule stable_own) (unfold at_least_def, metis transport_own)

interpretation progress: connection_invariant "at_least k c" for k c
proof
  fix s :: "'a transport_scheme" and d
  assume s: "at_least k c s"
  show "at_least k c (conn_update d (\<lambda>cn. cn\<lparr>cn_state := CONNECTED\<rparr>) s)"
    if "cn_state (t_conns s d) = CREATED \<or> cn_state (t_conns s d) = CONNECTING"
    using s that by (auto simp: at_least_def)
  show "at_least k c (conn_update d (\<lambda>cn. cn\<lparr>cn_close_event_previous_state := p cn, cn_state := CLOSING\<rparr>) s)"
    if "cn_state (t_conns s d) \<noteq> CLOSED" for p
    using s that by (cases "cn_state (t_conns s d)") (auto simp: at_least_def)
  show "at_least k c (conn_update d (\<lambda>cn. cn\<lparr>cn_state := CLOSED, cn_close_event_deferred := b\<rparr>) s)" for b
    using s rank_le_4 [of "cn_state (t_conns s d)"] by (auto simp: at_least_def)
  show "at_least k c (snd (create_task job ctx s))" for job ctx
    using s by (simp add: at_least_def create_task_def Let_def)
  show "at_least k c (s\<lparr>t_task_bool := g\<rparr>)" for g
    using s by (simp add: at_least_def)
next
  fix s :: "'a transport_scheme" and d f
  assume "at_least k c s" "\<And>cn. same_public (f cn) cn"
  then show "at_least k c (conn_update d f s)"
    by (auto simp: at_least_def same_public_def)
next
  fix s s1 :: "'a transport_scheme" and d prev ctx t
  assume "at_least k c s" "create_task (Close_publication d prev) ctx s = (t, s1)"
  then show "at_least k c (conn_update d (\<lambda>cn. cn\<lparr>cn_state := CLOSED, cn_close_event_task := Some t\<rparr>) s1)"
    using rank_le_4 [of "cn_state (t_conns s d)"] create_task_selectors(2)
    by (fastforce simp: at_least_def)
qed (rule stable_at_least)

lemma publication_keeps_state:
  assumes "env_keeps (at_least k c) env"
  shows "keeps (at_least k c) (run_close_event_publication env cfg ctx d p)"
  unfolding run_close_event_publication_def
  by (intro keeps_bindE keeps_getsE keeps_tryE keeps_seqE keeps_ret keeps_raise_if keeps_modifyE
      stable_emit_keeps [OF stable_at_least assms refl])
    (auto simp: at_least_def publication_finished_def Let_def)

text \<open>
  C38: A connection only moves forward, through CREATED, CONNECTING, CONNECTED, CLOSING and
  CLOSED: no method and no task of a connection takes any connection back to an earlier state,
  whatever happens at the awaits.  In particular (\<open>k = 4\<close>) a CLOSED connection stays closed
  and cannot be started or written to again.
\<close>
theorem connection_state_monotone:
  assumes "env_keeps (at_least k c) env"
    and "\<And>d cb. on_closed = Some cb \<Longrightarrow> keeps (at_least k c) (cb d)"
    and "\<And>d cb. on_ready = Some cb \<Longrightarrow> keeps (at_least k c) (cb d)"
    and "\<And>job ctx. keeps (at_least k c) (owner_job job ctx)"
  shows "keeps (at_least k c) (run_job env cfg on_closed owner_job t job ctx) \<and>
    keeps (at_least k c) (conn_start env cfg ctx on_ready d) \<and>
    keeps (at_least k c) (conn_close env cfg ctx d) \<and> keeps (at_least k c) (conn_send env d data)"
proof -
  have run: "keeps (at_least k c) m \<Longrightarrow> keeps (at_least k c) (run_coroutine t m)" for m
    unfolding run_coroutine_def keeps_def finish_task_def at_least_def
    by (auto split: option.splits)
  have bool: "keeps (at_least k c) (bindE (publish_deferred_close env cfg ctx d)
      (\<lambda>b. modifyE (\<lambda>s. s\<lparr>t_task_bool := (t_task_bool s)(t := b)\<rparr>)))" for d
    by (intro keeps_bindE keeps_modifyE progress.publish_deferred_keeps assms(1) progress.bool_result)
  have life: "keeps (at_least k c) (run_close_lifecycle env cfg ctx on_closed d n rt ct b)" for d n rt ct b
    using assms(2) by (rule progress.close_lifecycle_keeps [OF assms(1)])
  have "keeps (at_least k c) (run_job env cfg on_closed owner_job t job ctx)"
    unfolding run_job_def
    by (intro run) (cases job, auto intro: life progress.read_loop_keeps [OF assms(1)]
        progress.publisher_keeps [OF assms(1)] publication_keeps_state [OF assms(1)] bool assms(4))
  moreover have "keeps (at_least k c) (conn_start env cfg ctx on_ready d)"
    using assms(3) by (rule progress.conn_start_keeps [OF assms(1)])
  ultimately show ?thesis
    using progress.conn_close_keeps [OF assms(1)] progress.conn_send_keeps [OF assms(1)] by blast
qed

theorem connection_state_monotone_witness:
  "keeps (at_least 4 0) (conn_close (\<lambda>p (s :: transport). (Some cancelled, s)) sample_config (plain_ctx (Some 9)) 0)"
  using connection_state_monotone
    [where k = 4 and c = 0 and env = "\<lambda>p (s :: transport). (Some cancelled, s)" and on_closed = None and
      on_ready = None and owner_job = "\<lambda>job ctx. ret ()" and cfg = sample_config and
      ctx = "plain_ctx (Some 9)" and d = 0]
  by (simp add: env_keeps_def keeps_ret)

section \<open>Sending\<close>

text \<open>
  \<open>send\<close> either refuses, leaving everything as it is, or hands exactly the given bytes to
  the stream writer once: ConnectionClosedError when the connection is not CONNECTED, TypeError
  for data that is not bytes-like, and otherwise the bytes are written before the drain can
  fail, so that a timeout does not take them back.
\<close>
theorem conn_send_spec:
  "conn_send env c data s =
    (if cn_state (t_conns s c) \<noteq> CONNECTED then
       Some (Inl (Exn ConnectionClosedError ''is not connected''), s)
     else case bytes_of data of
       None \<Rightarrow> Some (Inl (Exn TypeError ''send expects bytes-like data.''), s)
     | Some payload \<Rightarrow>
         (let (e, s') = env (A_drain c) (conn_update c (\<lambda>cn. cn\<lparr>cn_written := cn_written cn @ [payload]\<rparr>) s)
          in Some (case e of None \<Rightarrow> Inr () | Some e \<Rightarrow> Inl e, s')))"
  by (simp add: conn_send_def prog_defs awaitE_def split: option.split prod.split)

section \<open>The read loop\<close>

text \<open>
  The peer: the \<open>i\<close>-th read returns the \<open>i\<close>-th chunk, every further read the empty bytes of
  the end of the stream; \<open>i\<close> is counted by the events delivered since \<open>base\<close>.
\<close>

definition reads_chunks :: "'a transport_scheme environment \<Rightarrow> nat \<Rightarrow> nat \<Rightarrow> nat list list \<Rightarrow> bool" where
  "reads_chunks env c base chunks \<longleftrightarrow> (\<forall>s. env (A_read c) s =
     (None, s\<lparr>t_data := (let i = length (d_delivered s) - base
                        in if i < length chunks then chunks ! i else [])\<rparr>))"

lemma read_loop_body_delivers:
  assumes "dc_dispatch_mode cfg = INLINE" "handler_returns env" "reads_chunks env c base chunks"
    and "[] \<notin> set chunks" "cn_state (t_conns s c) = CONNECTED"
    and "length (d_delivered s) = base + length (take n chunks)" "n \<le> length chunks"
  shows "\<exists>s'. read_loop_body env cfg ctx c s = Some (Inr (), s') \<and>
    d_delivered s' = d_delivered s @
      map (\<lambda>b. BytesReceivedEvent (the_id c s) b None None) (drop n chunks) \<and>
    t_conns s' = t_conns s"
  using assms(5-7)
proof (induction "length chunks - n" arbitrary: n s)
  case 0
  then show ?case
    using assms(3) by (subst read_loop_body.simps) (simp add: reads_chunks_def)
next
  case (Suc m)
  let ?b = "chunks ! n"
  have n: "n < length chunks" using Suc.hyps(2) by simp
  have b: "?b \<noteq> []" using assms(4) n by (metis nth_mem)
  let ?s1 = "s\<lparr>t_data := ?b\<rparr>"
  have r: "env (A_read c) s = (None, ?s1)"
    using assms(3) Suc.prems(2) n by (simp add: reads_chunks_def min_def)
  obtain s2 where e: "emit env cfg ctx (BytesReceivedEvent (the_id c s) ?b None None) ?s1 = Some (Inr (), s2)"
    and d: "d_delivered s2 = d_delivered s @ [BytesReceivedEvent (the_id c s) ?b None None]"
    and more: "disp.more s2 = disp.more ?s1"
    using emit_inline [OF assms(1,2), of ctx "BytesReceivedEvent (the_id c s) ?b None None" ?s1] by auto
  have conns: "t_conns s2 = t_conns s" using transport_own [OF more] by simp
  have "read_loop_body env cfg ctx c s = read_loop_body env cfg ctx c s2"
    using Suc.prems(1) r b e by (subst read_loop_body.simps) simp
  moreover have "\<exists>s'. read_loop_body env cfg ctx c s2 = Some (Inr (), s') \<and>
    d_delivered s' = d_delivered s2 @
      map (\<lambda>b. BytesReceivedEvent (the_id c s2) b None None) (drop (Suc n) chunks) \<and>
    t_conns s' = t_conns s2"
    using Suc.hyps(2) Suc.prems n d conns by (intro Suc.hyps(1)) (auto simp: min_def)
  ultimately show ?case
    using d conns Cons_nth_drop_Suc [OF n, symmetric] by simp
qed

text \<open>
  The read loop delivers the stream: over INLINE delivery to a handler that returns, from
  a CONNECTED connection whose peer sends the non-empty chunks \<open>chunks\<close> and then closes, the
  loop ends by itself, having delivered exactly one BytesReceivedEvent per chunk, with its
  bytes unchanged and in order, and nothing else.
\<close>
theorem read_loop_delivers_stream:
  assumes "dc_dispatch_mode cfg = INLINE" "handler_returns env"
    and "reads_chunks env c (length (d_delivered s)) chunks"
    and "[] \<notin> set chunks" "cn_state (t_conns s c) = CONNECTED"
  shows "\<exists>s'. read_loop_body env cfg ctx c s = Some (Inr (), s') \<and>
    d_delivered s' = d_delivered s @ map (\<lambda>b. BytesReceivedEvent (the_id c s) b None None) chunks \<and>
    t_conns s' = t_conns s"
  using read_loop_body_delivers [OF assms, of 0] by simp

theorem read_loop_delivers_stream_witness:
  "\<exists>s'. read_loop_body (\<lambda>p s. case p of
       A_read _ \<Rightarrow> (None, s\<lparr>t_data := (if d_delivered s = [] then [1, 2] else [])\<rparr>) | _ \<Rightarrow> (None, s))
     (sample_config\<lparr>dc_dispatch_mode := INLINE\<rparr>) (plain_ctx (Some 5)) 0
     (sample_transport\<lparr>t_conns := \<lambda>_. sample_connection\<lparr>cn_state := CONNECTED\<rparr>\<rparr>) = Some (Inr (), s') \<and>
   d_delivered s' = [BytesReceivedEvent ''c'' [1, 2] None None]"
  using read_loop_delivers_stream [of "sample_config\<lparr>dc_dispatch_mode := INLINE\<rparr>"
      "\<lambda>p s. case p of
       A_read _ \<Rightarrow> (None, s\<lparr>t_data := (if d_delivered s = [] then [1, 2] else [])\<rparr>) | _ \<Rightarrow> (None, s)"
      0 "sample_transport\<lparr>t_conns := \<lambda>_. sample_connection\<lparr>cn_state := CONNECTED\<rparr>\<rparr>" "[[1, 2]]"
      "plain_ctx (Some 5)"]
  by (auto simp: handler_returns_def reads_chunks_def Let_def)

end
