(* ===== verification/Heartbeat.thy ===== *)
theory Heartbeat
  imports Component_Base
begin

text \<open>
  Models \<^verbatim>\<open>implementations/asyncio_impl/asyncio_heartbeat_sender.py\<close>: the periodic sender of
  one connection.  The provider and the connection are reached through awaits of the
  environment; \<open>hb_provided\<close> is what the provider's last call returned and \<open>hb_connected\<close> the
  connection's \<open>is_connected\<close>.
\<close>

section \<open>State\<close>

datatype provided = NotAResult | AResult heartbeat_result

record heartbeat_config =
  hc_connection_id :: string
  hc_interval_seconds :: rat

text \<open>
  The sender's fields, the shared state it reads, and two records of what it did: the
  payloads handed to the connection, oldest first, and the number of completed sleeps.
\<close>

record heartbeat = disp +
  hb_task :: "nat option"
  hb_running :: bool
  hb_connected :: bool
  hb_provided :: provided
  hb_sent :: "nat list list"
  hb_slept :: nat

text \<open>\<open>__init__\<close>: the settings are checked, and a disabled heartbeat is refused.\<close>

definition heartbeat_init :: "string \<Rightarrow> heartbeat_settings \<Rightarrow> exn + heartbeat_config" where
  "heartbeat_init connection_id settings =
     bindR (heartbeat_validate settings) (\<lambda>_.
       if \<not> truthy (hs_enabled settings)
       then Inl (Exn ValueError ''AsyncioHeartbeatSender requires TcpHeartbeatSettings.enabled=True.'')
       else Inr \<lparr>hc_connection_id = connection_id,
                 hc_interval_seconds = num_of (hs_interval_seconds settings)\<rparr>)"

definition hb_is_running :: "heartbeat \<Rightarrow> bool" where
  "hb_is_running s = hb_running s"

section \<open>Operations\<close>

definition hb_start :: "(heartbeat, unit) prog" where
  "hb_start =
     bindE (getsE hb_running) (\<lambda>running.
       if running then ret ()
       else modifyE (\<lambda>s. s\<lparr>hb_running := True, hb_task := Some (d_next_task s),
                            d_next_task := Suc (d_next_task s)\<rparr>))"

definition hb_stop :: "heartbeat environment \<Rightarrow> (heartbeat, unit) prog" where
  "hb_stop env =
     bindE (getsE (\<lambda>s. s)) (\<lambda>s.
       if \<not> hb_running s then ret ()
       else seqE (modifyE (\<lambda>s. s\<lparr>hb_running := False, hb_task := None\<rparr>))
         (case hb_task s of
            None \<Rightarrow> ret ()
          | Some task \<Rightarrow>
              seqE (modifyE (\<lambda>s. s\<lparr>d_cancelling := insert task (d_cancelling s)\<rparr>))
                (awaitE env (A_task task))))"

text \<open>One pass of the loop after its sleep: \<open>True\<close> to go on, \<open>False\<close> for \<open>break\<close>.\<close>

definition hb_tick :: "heartbeat environment \<Rightarrow> heartbeat_config \<Rightarrow> (heartbeat, bool) prog" where
  "hb_tick env hc =
     bindE (getsE (\<lambda>s. \<not> hb_running s \<or> \<not> hb_connected s)) (\<lambda>leave.
       if leave then ret False
       else seqE (awaitE env (A_provider (hc_connection_id hc)))
         (bindE (getsE hb_provided) (\<lambda>result. case result of
            NotAResult \<Rightarrow> raiseE (Exn TypeError ''heartbeat_provider.create_heartbeat must return HeartbeatResult.'')
          | AResult r \<Rightarrow>
              if \<not> truthy (hr_should_send r) then ret True
              else case bytes_of (hr_payload r) of
                None \<Rightarrow> raiseE (Exn TypeError ''HeartbeatResult.payload must be bytes-like when should_send=True.'')
              | Some payload \<Rightarrow>
                  seqE (modifyE (\<lambda>s. s\<lparr>hb_sent := hb_sent s @ [payload]\<rparr>))
                    (seqE (awaitE env (A_send payload)) (ret True)))))"

partial_function (option) hb_loop ::
    "heartbeat environment \<Rightarrow> heartbeat_config \<Rightarrow> heartbeat \<Rightarrow> ((exn + unit) \<times> heartbeat) option" where
  "hb_loop env hc s =
     (if \<not> hb_running s then Some (Inr (), s)
      else case env (A_sleep (hc_interval_seconds hc)) s of (e, s1) \<Rightarrow>
        if e \<noteq> None then Some (Inl (the e), s1)
        else Option.bind (hb_tick env hc (s1\<lparr>hb_slept := Suc (hb_slept s1)\<rparr>)) (\<lambda>(r, s2).
          if r = Inr True then hb_loop env hc s2
          else Some (if isl r then Inl (projl r) else Inr (), s2)))"

definition safe_emit_error ::
    "heartbeat environment \<Rightarrow> disp_config \<Rightarrow> task_ctx \<Rightarrow> heartbeat_config \<Rightarrow> exn \<Rightarrow> (heartbeat, unit) prog" where
  "safe_emit_error env cfg ctx hc error =
     suppress_Exception
       (emit env cfg ctx (NetworkErrorEvent (hc_connection_id hc @ '':heartbeat'') error))"

definition hb_run ::
    "heartbeat environment \<Rightarrow> disp_config \<Rightarrow> task_ctx \<Rightarrow> heartbeat_config \<Rightarrow> (heartbeat, unit) prog" where
  "hb_run env cfg ctx hc =
     finallyE
       (tryE (hb_loop env hc)
          (\<lambda>error. if is_cancelled error then raiseE error
                   else if is_Exception error then safe_emit_error env cfg ctx hc error
                   else raiseE error))
       (modifyE (\<lambda>s. s\<lparr>hb_running := False, hb_task := None\<rparr>))"

section \<open>The loop\<close>

lemma hb_tick_keeps:
  assumes "env_keeps I env" and "\<And>s ps. I s \<Longrightarrow> I (s\<lparr>hb_sent := ps\<rparr>)"
  shows "keeps I (hb_tick env hc)"
  unfolding hb_tick_def
  by (auto intro!: keeps_rules assms split: provided.split option.split)

text \<open>Only this loop sends and sleeps for the sender: the rely condition of its pacing.\<close>

definition only_loop_sends :: "heartbeat environment \<Rightarrow> bool" where
  "only_loop_sends env \<longleftrightarrow>
     (\<forall>p s. hb_sent (snd (env p s)) = hb_sent s \<and> hb_slept (snd (env p s)) = hb_slept s)"

definition paced :: "nat \<Rightarrow> heartbeat \<Rightarrow> bool" where
  "paced k s \<longleftrightarrow> length (hb_sent s) + k \<le> hb_slept s"

lemma only_loop_sends_paced: "only_loop_sends env \<Longrightarrow> env_keeps (paced k) env"
  by (simp add: only_loop_sends_def env_keeps_def paced_def)

lemma paced_mono: "paced (Suc k) s \<Longrightarrow> paced k s"
  by (simp add: paced_def)

lemma paced_sent [simp]: "paced k (s\<lparr>hb_sent := hb_sent s @ [p]\<rparr>) = paced (Suc k) s"
  by (simp add: paced_def)

lemma paced_slept [simp]: "paced (Suc k) (s\<lparr>hb_slept := Suc (hb_slept s)\<rparr>) = paced k s"
  by (simp add: paced_def)

lemma hb_tick_paced:
  assumes "only_loop_sends env" "paced (Suc k) s"
  shows "wp True (hb_tick env hc) (\<lambda>_. paced k) (\<lambda>_. paced k) s"
proof -
  note aw = wp_awaitE_keeps [OF only_loop_sends_paced [OF assms(1)]]
  have after: "wp True (case hb_provided s' of
        NotAResult \<Rightarrow> raiseE e1
      | AResult r \<Rightarrow> if \<not> truthy (hr_should_send r) then ret True
          else case bytes_of (hr_payload r) of None \<Rightarrow> raiseE e2
          | Some payload \<Rightarrow> seqE (modifyE (\<lambda>s. s\<lparr>hb_sent := hb_sent s @ [payload]\<rparr>))
              (seqE (awaitE env (A_send payload)) (ret True))) (\<lambda>_. paced k) (\<lambda>_. paced k) s'"
    if "paced (Suc k) s'" for s' e1 e2
    using that
    by (auto simp: wp_simps intro!: aw [of k] intro: paced_mono split: provided.split option.split)
  show ?thesis
    using assms(2) unfolding hb_tick_def
    by (auto simp: wp_simps intro: paced_mono intro!: aw [of "Suc k"] after)
qed

lemma hb_loop_paced:
  assumes "hb_loop env hc s = Some y"
  shows "only_loop_sends env \<longrightarrow> paced 0 s \<longrightarrow> paced 0 (snd y)"
  using assms
proof (rule hb_loop.raw_induct [rotated, where P = "\<lambda>env hc s y.
      only_loop_sends env \<longrightarrow> paced 0 s \<longrightarrow> paced 0 (snd y)"], intro impI)
  fix rec env hc s y
  assume IH: "\<And>env hc s y. rec env hc s = Some y \<Longrightarrow>
      only_loop_sends env \<longrightarrow> paced 0 s \<longrightarrow> paced 0 (snd y)"
    and run: "(if \<not> hb_running s then Some (Inr (), s)
      else case env (A_sleep (hc_interval_seconds hc)) s of (e, s1) \<Rightarrow>
        if e \<noteq> None then Some (Inl (the e), s1)
        else Option.bind (hb_tick env hc (s1\<lparr>hb_slept := Suc (hb_slept s1)\<rparr>)) (\<lambda>(r, s2).
          if r = Inr True then rec env hc s2
          else Some (if isl r then Inl (projl r) else Inr (), s2))) = Some y"
    and env: "only_loop_sends env" and s: "paced 0 s"
  obtain e s1 where e: "env (A_sleep (hc_interval_seconds hc)) s = (e, s1)" by force
  have s1: "paced 0 s1" using env_keepsD [OF only_loop_sends_paced [OF env] s e] .
  show "paced 0 (snd y)"
  proof (cases "hb_running s \<and> e = None")
    case False
    then show ?thesis using run s s1 by (auto simp: e split: if_splits)
  next
    case True
    then obtain r s2 where t: "hb_tick env hc (s1\<lparr>hb_slept := Suc (hb_slept s1)\<rparr>) = Some (r, s2)"
      and y: "(if r = Inr True then rec env hc s2
          else Some (if isl r then Inl (projl r) else Inr (), s2)) = Some y"
      using run by (auto simp: e bind_eq_Some_conv)
    have "paced 0 s2"
      using wp_SomeD [OF hb_tick_paced [OF env] t] s1 by (cases r) simp_all
    then show ?thesis using y IH [of env hc s2 y] env by (auto split: if_splits)
  qed
qed

lemma hb_own: "disp.more s = disp.more s' \<Longrightarrow> hb_sent s = hb_sent s' \<and> hb_slept s = hb_slept s'"
  for s s' :: heartbeat
  by (cases s; cases s') simp

lemma stable_paced: "stable (paced k)"
  by (rule stable_own) (unfold paced_def, metis hb_own)

lemma hb_run_leaves:
  "hb_run env cfg ctx hc s = Some (r, s') \<Longrightarrow> \<not> hb_running s' \<and> hb_task s' = None"
  by (auto simp: hb_run_def finallyE_def modifyE_def split: option.splits)

text \<open>
  Heartbeats are paced: whatever the provider returns and however the connection and the
  other tasks behave, the loop hands at most one payload to the connection per completed
  sleep of \<open>interval_seconds\<close>, so a burst is impossible; and it always leaves the sender
  stopped, raising no ordinary exception when the handler failures are contained.
\<close>
theorem heartbeat_loop_paced:
  assumes "only_loop_sends env" "length (hb_sent s) \<le> hb_slept s"
    and "hb_run env cfg ctx hc s = Some (r, s')"
  shows "length (hb_sent s') \<le> hb_slept s' \<and> \<not> hb_running s' \<and> hb_task s' = None \<and>
    (\<forall>e. r = Inl e \<longrightarrow> \<not> is_Exception e)"
proof -
  have loop: "keeps (paced 0) (hb_loop env hc)"
    using hb_loop_paced assms(1) by (intro keepsI) (metis snd_conv)
  have emit: "keeps (paced 0) (emit env cfg ctx ev)" for ev
    using stable_emit_keeps [OF stable_paced only_loop_sends_paced [OF assms(1)] refl] .
  have run: "keeps (paced 0) (hb_run env cfg ctx hc)"
    unfolding hb_run_def safe_emit_error_def
    by (intro keeps_rules loop emit) (simp add: paced_def)
  have quiet: "raises (\<lambda>e. \<not> is_Exception e) (hb_run env cfg ctx hc)"
    unfolding hb_run_def safe_emit_error_def by (intro raises_rules) auto
  show ?thesis
    using keepsD [OF run _ assms(3)] assms(2) raisesD [OF quiet] assms(3) hb_run_leaves [OF assms(3)]
    by (auto simp: paced_def)
qed

definition sample_heartbeat :: heartbeat where
  "sample_heartbeat = disp.extend empty_disp
     \<lparr>hb_task = Some 0, hb_running = True, hb_connected = True,
      hb_provided = AResult \<lparr>hr_should_send = PBool True, hr_payload = PBytes [7]\<rparr>,
      hb_sent = [], hb_slept = 0\<rparr>"

definition sample_hc :: heartbeat_config where
  "sample_hc = \<lparr>hc_connection_id = ''c'', hc_interval_seconds = 1\<rparr>"

lemma sample_heartbeat_simps [simp]:
  "hb_task sample_heartbeat = Some 0" "hb_running sample_heartbeat" "hb_connected sample_heartbeat"
  "hb_sent sample_heartbeat = []" "hb_slept sample_heartbeat = 0"
  "hb_provided sample_heartbeat = AResult \<lparr>hr_should_send = PBool True, hr_payload = PBytes [7]\<rparr>"
  by (simp_all add: sample_heartbeat_def disp.defs empty_disp_def)

theorem heartbeat_loop_paced_witness:
  "case hb_run (\<lambda>p s. case p of A_sleep _ \<Rightarrow> (None, s\<lparr>hb_connected := hb_sent s = []\<rparr>) | _ \<Rightarrow> (None, s))
      (sample_config\<lparr>dc_dispatch_mode := INLINE\<rparr>) (plain_ctx (Some 1)) sample_hc sample_heartbeat of
     Some (r, s') \<Rightarrow> length (hb_sent s') \<le> hb_slept s' \<and> \<not> hb_running s' | None \<Rightarrow> True"
  using heartbeat_loop_paced
    [of "\<lambda>p s. case p of A_sleep _ \<Rightarrow> (None, s\<lparr>hb_connected := hb_sent s = []\<rparr>) | _ \<Rightarrow> (None, s)"
      sample_heartbeat "sample_config\<lparr>dc_dispatch_mode := INLINE\<rparr>" "plain_ctx (Some 1)" sample_hc]
  by (auto simp: only_loop_sends_def split: option.split await_point.split)

section \<open>Termination\<close>

lemma hb_tick_returns: "returns (hb_tick env hc)"
  unfolding hb_tick_def
  by (auto intro!: returns_rules split: provided.split option.split)

lemma hb_tick_slept:
  assumes "only_loop_sends env"
  shows "wp t (hb_tick env hc) (\<lambda>_ s'. hb_slept s' = hb_slept s) (\<lambda>_ s'. hb_slept s' = hb_slept s) s"
proof (rule wp_total)
  show "hb_tick env hc s \<noteq> None" using hb_tick_returns by (simp add: returns_def)
  have "env_keeps (\<lambda>s'. hb_slept s' = hb_slept s) env"
    using assms by (simp add: env_keeps_def only_loop_sends_def)
  then show "wp True (hb_tick env hc) (\<lambda>_ s'. hb_slept s' = hb_slept s) (\<lambda>_ s'. hb_slept s' = hb_slept s) s"
    by (intro wp_keeps hb_tick_keeps) simp_all
qed

lemma hb_tick_disconnected: "\<not> hb_connected s \<Longrightarrow> hb_tick env hc s = Some (Inr False, s)"
  by (simp add: hb_tick_def prog_defs)

lemma hb_loop_ends:
  assumes "only_loop_sends env"
    and "\<And>s. N \<le> hb_slept s \<Longrightarrow> \<not> hb_connected (snd (env (A_sleep (hc_interval_seconds hc)) s))"
  shows "\<exists>r s'. hb_loop env hc s = Some (r, s') \<and> hb_slept s' \<le> Suc (max (hb_slept s) N)"
proof (induction "N - hb_slept s" arbitrary: s rule: less_induct)
  case less
  obtain e s1 where e: "env (A_sleep (hc_interval_seconds hc)) s = (e, s1)" by force
  have sl: "hb_slept s1 = hb_slept s"
    using assms(1) e unfolding only_loop_sends_def by (metis snd_conv)
  let ?s1 = "s1\<lparr>hb_slept := Suc (hb_slept s1)\<rparr>"
  show ?case
  proof (cases "hb_running s \<and> e = None")
    case False
    then show ?thesis using e sl by (subst hb_loop.simps) auto
  next
    case True
    obtain r s2 where t: "hb_tick env hc ?s1 = Some (r, s2)" and sl2: "hb_slept s2 = Suc (hb_slept s)"
      using hb_tick_slept [OF assms(1), of False hc ?s1] sl
      by (auto simp: wp_def split: option.splits sum.splits)
    show ?thesis
    proof (cases "N \<le> hb_slept s")
      case True
      then have "hb_tick env hc ?s1 = Some (Inr False, ?s1)"
        using assms(2) [OF True] e by (intro hb_tick_disconnected) simp
      then show ?thesis using \<open>hb_running s \<and> e = None\<close> e sl by (subst hb_loop.simps) simp
    next
      case False
      then show ?thesis
        using less [of s2] \<open>hb_running s \<and> e = None\<close> e t sl2
        by (subst hb_loop.simps) (auto simp: max_def)
    qed
  qed
qed

text \<open>
  A heartbeat loop does not outlive its connection: when every sleep from the \<open>N\<close>-th on
  finds the connection gone, the loop ends, after at most one sleep more, whatever the provider,
  the sends and the other tasks do; with INLINE delivery the whole task ends, its error event
  included, and the sender is left stopped.
\<close>
theorem heartbeat_ends_with_connection:
  assumes "only_loop_sends env"
    and "\<And>s. N \<le> hb_slept s \<Longrightarrow> \<not> hb_connected (snd (env (A_sleep (hc_interval_seconds hc)) s))"
  shows "(\<exists>r s'. hb_loop env hc s = Some (r, s') \<and> hb_slept s' \<le> Suc (max (hb_slept s) N)) \<and>
    (dc_dispatch_mode cfg = INLINE \<longrightarrow>
      (\<exists>r s'. hb_run env cfg ctx hc s = Some (r, s') \<and> \<not> hb_running s' \<and> hb_task s' = None))"
proof -
  have "returns (hb_loop env hc)"
    using hb_loop_ends [OF assms] unfolding returns_def by (metis option.distinct(1))
  then have "returns (hb_run env cfg ctx hc)" if "dc_dispatch_mode cfg = INLINE"
    using that unfolding hb_run_def safe_emit_error_def suppress_Exception_def
    by (intro returns_rules)
  then have "\<exists>r s'. hb_run env cfg ctx hc s = Some (r, s')" if "dc_dispatch_mode cfg = INLINE"
    using that unfolding returns_def by fastforce
  then show ?thesis using hb_loop_ends [OF assms] hb_run_leaves by meson
qed

theorem heartbeat_ends_with_connection_witness:
  "\<exists>r s'. hb_loop (\<lambda>p s. case p of A_sleep _ \<Rightarrow> (None, s\<lparr>hb_connected := hb_slept s < 2\<rparr>) | _ \<Rightarrow> (None, s))
     sample_hc sample_heartbeat = Some (r, s') \<and> hb_slept s' \<le> 3"
  using heartbeat_ends_with_connection
    [of "\<lambda>p s. case p of A_sleep _ \<Rightarrow> (None, s\<lparr>hb_connected := hb_slept s < 2\<rparr>) | _ \<Rightarrow> (None, s)"
      2 sample_hc sample_heartbeat]
  by (auto simp: only_loop_sends_def split: await_point.split)

section \<open>Restarting while stopping\<close>

text \<open>
  The interference of \<open>heartbeat_start_lost\<close>: while \<open>stop\<close> waits for the cancelled loop task
  \<open>t\<close>, another task calls \<open>start\<close>, and then the cancelled loop runs its \<open>finally\<close>.
\<close>

definition restarts_during_stop ::
    "heartbeat environment \<Rightarrow> disp_config \<Rightarrow> task_ctx \<Rightarrow> heartbeat_config \<Rightarrow> nat \<Rightarrow> bool" where
  "restarts_during_stop env cfg ctx hc t \<longleftrightarrow>
     (\<forall>s1 s2. hb_start s1 = Some (Inr (), s2) \<longrightarrow>
        (\<exists>s3. hb_run (\<lambda>p s. (Some cancelled, s)) cfg ctx hc s2 = Some (Inl cancelled, s3) \<and>
              env (A_task t) s1 = (None, s3)))"

lemma hb_start_eq:
  "\<not> hb_running s \<Longrightarrow> hb_start s = Some (Inr (), s\<lparr>hb_running := True, hb_task := Some (d_next_task s),
     d_next_task := Suc (d_next_task s)\<rparr>)"
  by (simp add: hb_start_def prog_defs)

lemma hb_run_cancelled:
  "hb_running s \<Longrightarrow> hb_run (\<lambda>p s. (Some cancelled, s)) cfg ctx hc s =
     Some (Inl cancelled, s\<lparr>hb_running := False, hb_task := None\<rparr>)"
  by (simp add: hb_run_def prog_defs hb_loop.simps is_cancelled_def)

text \<open>
  C36: A \<open>start\<close> that overlaps a \<open>stop\<close> is lost: it creates a new loop task, but the \<open>finally\<close>
  of the cancelled loop, which does not check that the recorded task is its own, then clears
  the running flag and the task; the sender ends up stopped, the new loop leaves without a
  single heartbeat, and no task handle to it remains.
\<close>
theorem heartbeat_start_lost:
  assumes "hb_running s" "hb_task s = Some t" "restarts_during_stop env cfg ctx hc t"
  shows "\<exists>s'. hb_stop env s = Some (Inr (), s') \<and> d_next_task s' = Suc (d_next_task s) \<and>
    \<not> hb_running s' \<and> hb_task s' = None \<and>
    hb_run env' cfg ctx hc s' = Some (Inr (), s')"
proof -
  let ?s1 = "s\<lparr>hb_running := False, hb_task := None, d_cancelling := insert t (d_cancelling s)\<rparr>"
  let ?s2 = "?s1\<lparr>hb_running := True, hb_task := Some (d_next_task s), d_next_task := Suc (d_next_task s)\<rparr>"
  let ?s3 = "?s2\<lparr>hb_running := False, hb_task := None\<rparr>"
  have "hb_start ?s1 = Some (Inr (), ?s2)" by (subst hb_start_eq) simp_all
  then have "env (A_task t) ?s1 = (None, ?s3)"
    using assms(3) hb_run_cancelled [of ?s2 cfg ctx hc] unfolding restarts_during_stop_def by fastforce
  then have "hb_stop env s = Some (Inr (), ?s3)"
    using assms(1,2) by (simp add: hb_stop_def prog_defs awaitE_def)
  moreover have "hb_run env' cfg ctx hc ?s3 = Some (Inr (), ?s3)"
    by (simp add: hb_run_def prog_defs hb_loop.simps)
  ultimately show ?thesis by (intro exI [of _ ?s3]) simp
qed

theorem heartbeat_start_lost_witness:
  "\<exists>env s'. hb_stop env sample_heartbeat = Some (Inr (), s') \<and>
     d_next_task s' = Suc (d_next_task sample_heartbeat) \<and> \<not> hb_running s'"
proof -
  let ?env = "\<lambda>p s. (None, if hb_running s then s\<lparr>hb_running := False, hb_task := None\<rparr>
      else s\<lparr>hb_running := False, hb_task := None, d_next_task := Suc (d_next_task s)\<rparr>)"
  have "restarts_during_stop ?env sample_config (plain_ctx None) sample_hc 0"
    unfolding restarts_during_stop_def
  proof (intro allI impI)
    fix s1 s2
    assume st: "hb_start s1 = Some (Inr (), s2)"
    then have "hb_running s2" and "s2\<lparr>hb_running := False, hb_task := None\<rparr> = snd (?env (A_task 0) s1)"
      by (auto simp: hb_start_def prog_defs split: if_splits)
    then show "\<exists>s3. hb_run (\<lambda>p s. (Some cancelled, s)) sample_config (plain_ctx None) sample_hc s2 =
        Some (Inl cancelled, s3) \<and> ?env (A_task 0) s1 = (None, s3)"
      by (simp add: hb_run_cancelled)
  qed
  from heartbeat_start_lost [OF _ _ this, of sample_heartbeat "\<lambda>p s. (None, s)"]
  show ?thesis by (simp, blast)
qed

end
