(* ===== verification/Transport_Base.thy ===== *)
theory Transport_Base
  imports Connection_Behaviour Heartbeat
begin

text \<open>
  What the TCP client and the TCP server share on top of their connections: the dispatcher
  they create from their delivery settings, the two cancellation-preserving waits of
  \<^verbatim>\<open>runtime_utils.py\<close> on the task and future tables, where a stop request comes from, the
  waiters of deferred close events, and the task that completes a deferred stop.
\<close>

section \<open>Delivery settings\<close>

fun delivery_mode :: "pyval \<Rightarrow> event_dispatch_mode" where
  "delivery_mode (PEnum (EDispatch m)) = m"
| "delivery_mode _ = BACKGROUND"

fun delivery_backpressure :: "pyval \<Rightarrow> event_backpressure_policy" where
  "delivery_backpressure (PEnum (EBackpressure p)) = p"
| "delivery_backpressure _ = BLOCK"

fun delivery_failure :: "pyval \<Rightarrow> event_handler_failure_policy" where
  "delivery_failure (PEnum (EFailure p)) = p"
| "delivery_failure _ = LOG_ONLY"

fun int_value :: "pyval \<Rightarrow> int" where
  "int_value (PInt n) = n"
| "int_value _ = 0"

fun str_value :: "pyval \<Rightarrow> string" where
  "str_value (PStr s) = s"
| "str_value _ = []"

text \<open>
  The configuration of a component's dispatcher; \<open>disp_init\<close> fills in the stop policy.  The
  delivery settings have passed their validation, so the conversions meet their first
  equations.
\<close>

definition delivery_config :: "nat \<Rightarrow> event_delivery_settings \<Rightarrow> string \<Rightarrow> disp_config" where
  "delivery_config i delivery error_source =
     \<lparr>dc_id = i, dc_dispatch_mode = delivery_mode (ed_dispatch_mode delivery),
      dc_backpressure_policy = delivery_backpressure (ed_backpressure_policy delivery),
      dc_max_pending_events = nat (int_value (ed_max_pending_events delivery)),
      dc_failure_policy = delivery_failure (ed_handler_failure_policy delivery),
      dc_error_source = Some error_source,
      dc_stop_policy_enabled = False, dc_stop_component_callback = None\<rparr>"

section \<open>Waiting without losing a cancellation\<close>

text \<open>
  \<open>await_task_completion_preserving_cancellation\<close> and its sibling for futures.  The loop
  variable is \<open>caller_cancelled\<close>.
\<close>

definition await_task_preserving ::
    "'a transport_scheme environment \<Rightarrow> task_ctx \<Rightarrow> nat \<Rightarrow> ('a transport_scheme, unit) prog" where
  "await_task_preserving env ctx t =
     bindE
       (loopE (\<lambda>caller_cancelled.
          tryE (seqE (awaitE env (A_task t)) (ret (Leave caller_cancelled)))
            (\<lambda>e. if is_cancelled e then
                   bindE (getsE (\<lambda>s. (is_task_being_cancelled ctx s, task_done t s)))
                     (\<lambda>(cancelling, finished).
                        if cancelling then ret (if finished then Leave True else Again True)
                        else ret (Leave caller_cancelled))
                 else raiseE e)) False)
       (\<lambda>caller_cancelled. if caller_cancelled then raiseE cancelled else ret ())"

definition await_future_preserving ::
    "'a disp_scheme environment \<Rightarrow> task_ctx \<Rightarrow> nat \<Rightarrow> ('a disp_scheme, unit) prog" where
  "await_future_preserving env ctx f =
     bindE
       (loopE (\<lambda>caller_cancelled.
          tryE (seqE (awaitE env (A_future f)) (ret (Leave caller_cancelled)))
            (\<lambda>e. if is_cancelled e then
                   bindE (getsE (\<lambda>s. (is_task_being_cancelled ctx s, future_done f s)))
                     (\<lambda>(cancelling, finished).
                        if cancelling then ret (if finished then Leave True else Again True)
                        else raiseE e)
                 else raiseE e)) False)
       (\<lambda>caller_cancelled. bindE (getsE (\<lambda>s. d_futures s ! f))
          (\<lambda>future. liftR (settle future caller_cancelled)))"

text \<open>
  The coroutines against the loops of Await\_Loops, whose wake-ups are what the environment
  answers: the wake-up of one await, and the list of them a run consumes.
\<close>

definition task_wake :: "task_ctx \<Rightarrow> nat \<Rightarrow> exn option \<times> 'a transport_scheme \<Rightarrow> wake" where
  "task_wake ctx t answer = (case answer of (e, s) \<Rightarrow>
     \<lparr>wk_raised = e, wk_future = t_task_state s t, wk_cancelling = is_task_being_cancelled ctx s\<rparr>)"

definition future_wake :: "task_ctx \<Rightarrow> nat \<Rightarrow> exn option \<times> 'a disp_scheme \<Rightarrow> wake" where
  "future_wake ctx f answer = (case answer of (e, s) \<Rightarrow>
     \<lparr>wk_raised = e, wk_future = d_futures s ! f, wk_cancelling = is_task_being_cancelled ctx s\<rparr>)"

text \<open>The environment's answers when it is asked \<open>n\<close> times in a row, and where they lead.\<close>

fun answers :: "'s environment \<Rightarrow> await_point \<Rightarrow> nat \<Rightarrow> 's \<Rightarrow> (exn option \<times> 's) list" where
  "answers env p 0 s = []"
| "answers env p (Suc n) s = env p s # answers env p n (snd (env p s))"

lemma loopE_refines:
  fixes loop :: "bool \<Rightarrow> wake list \<Rightarrow> ((exn + unit) \<times> wake list) option"
  assumes again: "\<And>c s c' s'. body c s = Some (Inr (Again c'), s') \<Longrightarrow>
      s' = snd (env p s) \<and> (\<forall>ws. loop c (wake (env p s) # ws) = loop c' ws)"
    and leave: "\<And>c s a s' r s''. body c s = Some (Inr (Leave a), s') \<Longrightarrow> rest a s' = Some (r, s'') \<Longrightarrow>
      loop c [wake (env p s)] = Some (r, [])"
    and failed: "\<And>c s e s'. body c s = Some (Inl e, s') \<Longrightarrow> loop c [wake (env p s)] = Some (Inl e, [])"
    and run: "bindE (loopE body c) rest s = Some (r, s')"
  shows "\<exists>n. loop c (map wake (answers env p n s)) = Some (r, [])"
proof -
  have "body' = body \<longrightarrow> (case y of (x, s1) \<Rightarrow> case x of
      Inl e \<Rightarrow> \<exists>n. loop c (map wake (answers env p n s)) = Some (Inl e, [])
    | Inr a \<Rightarrow> \<forall>r s2. rest a s1 = Some (r, s2) \<longrightarrow>
        (\<exists>n. loop c (map wake (answers env p n s)) = Some (r, [])))"
    if "loopE body' c s = Some y" for body' c s y
    using that
  proof (rule loopE.raw_induct [rotated, where P = "\<lambda>body' c s y. body' = body \<longrightarrow>
      (case y of (x, s1) \<Rightarrow> case x of
        Inl e \<Rightarrow> \<exists>n. loop c (map wake (answers env p n s)) = Some (Inl e, [])
      | Inr a \<Rightarrow> \<forall>r s2. rest a s1 = Some (r, s2) \<longrightarrow>
          (\<exists>n. loop c (map wake (answers env p n s)) = Some (r, [])))"], intro impI)
    fix rec body' c s y
    assume IH: "\<And>body' c s y. rec body' c s = Some y \<Longrightarrow> body' = body \<longrightarrow>
        (case y of (x, s1) \<Rightarrow> case x of
          Inl e \<Rightarrow> \<exists>n. loop c (map wake (answers env p n s)) = Some (Inl e, [])
        | Inr a \<Rightarrow> \<forall>r s2. rest a s1 = Some (r, s2) \<longrightarrow>
            (\<exists>n. loop c (map wake (answers env p n s)) = Some (r, [])))"
      and step: "Option.bind (body' c s) (\<lambda>(r, s'). case r of
          Inl e \<Rightarrow> Some (Inl e, s')
        | Inr t \<Rightarrow> (case t of Leave a \<Rightarrow> Some (Inr a, s') | Again b' \<Rightarrow> rec body' b' s')) = Some y"
      and same: "body' = body"
    have one: "\<exists>n. loop c (map wake (answers env p n s)) = Some (r, [])"
      if "loop c [wake (env p s)] = Some (r, [])" for r
      by (rule exI [of _ "Suc 0"]) (simp add: that)
    have more: "loop c (map wake (answers env p (Suc n) s)) = loop c' (map wake (answers env p n s1))"
      if "body c s = Some (Inr (Again c'), s1)" for c' s1 n
      using again [OF that] by simp
    obtain x s1 where b: "body c s = Some (x, s1)" using step same by (auto simp: bind_eq_Some_conv)
    consider e where "x = Inl e" | a where "x = Inr (Leave a)" | c' where "x = Inr (Again c')"
      by (metis sum.exhaust turn.exhaust)
    then show "case y of (x, s1) \<Rightarrow> case x of
          Inl e \<Rightarrow> \<exists>n. loop c (map wake (answers env p n s)) = Some (Inl e, [])
        | Inr a \<Rightarrow> \<forall>r s2. rest a s1 = Some (r, s2) \<longrightarrow>
            (\<exists>n. loop c (map wake (answers env p n s)) = Some (r, []))"
    proof cases
      case (1 e)
      then have "y = (Inl e, s1)" using step same by (simp add: b)
      then show ?thesis using one [OF failed] b 1 by simp
    next
      case (2 a)
      then have "y = (Inr a, s1)" using step same by (simp add: b)
      then show ?thesis using one [OF leave] b 2 by auto
    next
      case (3 c')
      then have "rec body c' s1 = Some y" using step same by (auto simp: b)
      note inner = IH [OF this, THEN mp, OF refl]
      have up: "\<exists>n. loop c (map wake (answers env p n s)) = Some (r, [])"
        if "\<exists>n. loop c' (map wake (answers env p n s1)) = Some (r, [])" for r
        using that more [of c' s1] b 3 by metis
      obtain x2 s2 where y: "y = (x2, s2)" by force
      show ?thesis
        using inner unfolding y by (cases x2) (auto intro!: up)
    qed
  qed
  note whole = this [THEN mp, OF _ refl]
  show ?thesis
    using run
    by (auto simp: bindE_def split: option.splits prod.splits sum.splits dest!: whole)
qed


lemma await_future_refines:
  assumes "await_future_preserving env ctx f s = Some (r, s')"
  shows "\<exists>n. await_future_loop False (map (future_wake ctx f) (answers env (A_future f) n s)) = Some (r, [])"
  using assms unfolding await_future_preserving_def
  by (rule loopE_refines [where wake = "future_wake ctx f", rotated -1])
    (auto simp: prog_defs awaitE_def future_wake_def liftR_def future_done_def split: prod.splits
      option.splits if_splits sum.splits)


section \<open>Where a stop comes from\<close>

record stop_provenance =
  pv_handler_originated :: bool
  pv_active_inline_handler :: bool

definition defers_terminal_events :: "stop_provenance \<Rightarrow> bool" where
  "defers_terminal_events pv = (pv_handler_originated pv \<or> pv_active_inline_handler pv)"

definition current_stop_is_handler_originated ::
    "disp_config \<Rightarrow> task_ctx \<Rightarrow> 'a disp_scheme \<Rightarrow> bool" where
  "current_stop_is_handler_originated cfg ctx s =
     (current_task_is_dispatching_handler cfg ctx s None \<or>
      current_task_has_handler_origin_context cfg ctx s None \<or>
      current_task_inherits_handler_origin_context cfg ctx s None)"

definition capture_stop_provenance ::
    "disp_config \<Rightarrow> task_ctx \<Rightarrow> 'a disp_scheme \<Rightarrow> stop_provenance" where
  "capture_stop_provenance cfg ctx s =
     (let handler_originated = current_stop_is_handler_originated cfg ctx s
      in \<lparr>pv_handler_originated = handler_originated,
          pv_active_inline_handler =
            (\<not> handler_originated \<and> has_active_handler_context s None \<and>
             current_task_would_deliver_inline cfg ctx s)\<rparr>)"

section \<open>Deferred close events\<close>

text \<open>
  The waiter of a connection's deferred close event, if it has one or if an active handler of
  the connection makes it create one.
\<close>

definition deferred_waiter_of ::
    "disp_config \<Rightarrow> task_ctx \<Rightarrow> nat \<Rightarrow> 'a transport_scheme \<Rightarrow> nat option \<times> 'a transport_scheme" where
  "deferred_waiter_of cfg ctx c s =
     (case pending_deferred_close_waiter c s of
        Some w \<Rightarrow> (Some w, s)
      | None \<Rightarrow>
          if \<not> cn_closed_event_published (t_conns s c) \<and>
             (has_active_handler_context s (Some (the_id c s)) \<or>
              current_task_inherits_handler_origin_context cfg ctx s (Some (the_id c s)))
          then ensure_deferred_close_publication_waiter ctx c s
          else (None, s))"

definition append_opt :: "'a list \<Rightarrow> 'a option \<Rightarrow> 'a list" where
  "append_opt xs x = (case x of None \<Rightarrow> xs | Some a \<Rightarrow> xs @ [a])"

text \<open>
  The task that releases the callers of \<open>stop\<close>: \<open>work\<close> in \<open>try\<close>, its outcome into the stop
  waiter, and in \<open>finally\<close> the waiter is forgotten.
\<close>

definition complete_stop_waiter ::
    "nat option \<Rightarrow> ('a transport_scheme, unit) prog \<Rightarrow> ('a transport_scheme, unit) prog \<Rightarrow>
     ('a transport_scheme, unit) prog" where
  "complete_stop_waiter stop_waiter forget work =
     finallyE
       (tryE (seqE work (settle_opt stop_waiter (Inr ())))
          (\<lambda>e. if is_caught e then settle_opt stop_waiter (Inl e) else raiseE e))
       forget"

text \<open>\<open>await asyncio.gather(*(asyncio.shield(w) for w in waiters))\<close>, skipped for none.\<close>

definition await_all :: "'s environment \<Rightarrow> nat list \<Rightarrow> ('s, unit) prog" where
  "await_all env waiters = (if waiters \<noteq> [] then awaitE env (A_futures waiters) else ret ())"

context connection_invariant
begin

lemma await_preserving_keeps:
  assumes "env_keeps I env"
  shows "keeps I (await_task_preserving env ctx t)" "keeps I (await_future_preserving env ctx f)"
  unfolding await_task_preserving_def await_future_preserving_def
  by (auto intro!: keeps_rules assms split: prod.split)

lemma await_all_keeps: "env_keeps I env \<Longrightarrow> keeps I (await_all env ws)"
  unfolding await_all_def by (intro keeps_rules)

lemma deferred_waiter_keeps: "I s \<Longrightarrow> I (snd (deferred_waiter_of cfg ctx c s))"
  by (auto simp: deferred_waiter_of_def ensure_deferred_keeps split: option.split)

lemma complete_stop_waiter_keeps:
  "keeps I work \<Longrightarrow> keeps I forget \<Longrightarrow> keeps I (complete_stop_waiter w forget work)"
  unfolding complete_stop_waiter_def by (intro coroutine_keeps)

end

section \<open>What a close raises, and that it returns\<close>

lemma raises_stateE [raises_rules]: "raises Q (stateE f)"
  by (simp add: raises_def stateE_def split: prod.split)

lemma raises_settle_opt [raises_rules]: "raises Q (settle_opt w r)"
  unfolding settle_opt_def by (auto intro: raises_rules split: option.split)

lemma returns_stateE [returns_rules]: "returns (stateE f)"
  by (simp add: returns_def stateE_def split: prod.split)

lemma returns_settle_opt [returns_rules]: "returns (settle_opt w r)"
  unfolding settle_opt_def by (auto intro: returns_rules split: option.split)

lemma returns_suppress_all [returns_rules]: "returns m \<Longrightarrow> returns (suppress_all m)"
  unfolding suppress_all_def by (auto intro: returns_rules)

lemma returns_whenE [returns_rules]: "returns m \<Longrightarrow> returns (whenE b m)"
  unfolding whenE_def by (auto intro: returns_rules)

lemma returns_keep_first [returns_rules]: "returns m \<Longrightarrow> returns (keep_first fe m)"
  unfolding keep_first_def by (auto intro: returns_rules)

lemma cancelled_caught [simp]: "is_cancelled e \<Longrightarrow> is_caught e" "is_caught cancelled"
  by (simp_all add: is_caught_def is_cancelled_def)

lemma raises_wpI: "(\<And>s. wp True m (\<lambda>_ _. True) (\<lambda>e _. Q e) s) \<Longrightarrow> raises Q m"
  by (fastforce simp: raises_def wp_def split: option.splits sum.splits)

lemma returns_wpI: "(\<And>s. wp False m (\<lambda>_ _. True) (\<lambda>_ _. True) s) \<Longrightarrow> returns m"
  by (fastforce simp: returns_def wp_def split: option.splits)

lemma wp_raises_caught:
  assumes "raises is_caught m" "\<And>a s'. Q a s'" "\<And>e s'. is_caught e \<Longrightarrow> E e s'"
  shows "wp True m Q E s"
  by (rule wp_mono [OF wp_raises [OF assms(1)]]) (use assms in auto)

lemma raises_tryE_caught:
  "raises is_caught m \<Longrightarrow> (\<And>e. is_caught e \<Longrightarrow> raises is_caught (h e)) \<Longrightarrow> raises is_caught (tryE m h)"
  by (rule raises_tryE)

lemma raises_whenE [raises_rules]: "raises Q m \<Longrightarrow> raises Q (whenE b m)"
  unfolding whenE_def by (auto intro: raises_rules)

lemma close_cancelled_caught:
  assumes "env_caught env" "is_caught e"
  shows "raises is_caught (close_cancelled env c t b w e)"
  unfolding close_cancelled_def
  by (auto intro!: raises_bindE raises_seqE raises_getsE raises_if raises_raiseE raises_ret
      raises_tryE_caught raises_awaitE_caught assms split: option.split)

lemma close_wait_caught:
  assumes "env_caught env"
  shows "raises is_caught (close_wait env c t b)"
proof (rule raises_wpI)
  fix s
  note aw = wp_raises_caught [OF raises_awaitE_caught [OF assms]]
    and cc = wp_raises_caught [OF close_cancelled_caught [OF assms]]
  show "wp True (close_wait env c t b) (\<lambda>_ _. True) (\<lambda>e _. is_caught e) s"
    unfolding close_wait_def
    by (auto simp: wp_simps intro!: aw cc split: option.split)
qed

lemma conn_close_caught:
  assumes "env_caught env"
  shows "raises is_caught (conn_close env cfg ctx c)"
  unfolding conn_close_def
  by (auto intro!: raises_bindE raises_getsE raises_if raises_ret raises_stateE close_wait_caught assms
      split: option.split)

lemma close_cancelled_returns: "returns (close_cancelled env c t b w e)"
  unfolding close_cancelled_def by (auto intro!: returns_rules split: option.split)

lemma close_wait_returns: "returns (close_wait env c t b)"
proof -
  have "returns (case i of Some e \<Rightarrow> close_cancelled env c t b None e | None \<Rightarrow> m)"
    if "returns m" for i m
    using that by (auto intro: close_cancelled_returns split: option.split)
  moreover have "returns (case f of None \<Rightarrow> ret () | Some f \<Rightarrow> if P f then tryE (awaitE env (A_future f)) (h f) else ret ())"
    if "\<And>f e. returns (h f e)" for f P and h :: "nat \<Rightarrow> exn \<Rightarrow> _"
    using that by (auto intro!: returns_rules split: option.split)
  ultimately show ?thesis
    unfolding close_wait_def
    by (intro returns_bindE returns_rules) (auto intro!: returns_rules close_cancelled_returns
        split: option.splits)
qed

lemma conn_close_returns: "returns (conn_close env cfg ctx c)"
  unfolding conn_close_def
  by (auto intro!: returns_rules close_wait_returns split: option.split)

text \<open>
  A wait on a task ends at its first wake-up unless a cancellation of the caller arrives while
  the task is still pending.
\<close>

definition uninterrupted :: "task_ctx \<Rightarrow> 'a transport_scheme environment \<Rightarrow> bool" where
  "uninterrupted ctx env \<longleftrightarrow> (\<forall>t s e s'. env (A_task t) s = (Some e, s') \<longrightarrow>
     is_cancelled e \<longrightarrow> is_task_being_cancelled ctx s' \<longrightarrow> task_done t s')"

lemma await_task_returns:
  assumes "uninterrupted ctx env"
  shows "returns (await_task_preserving env ctx t)"
proof (rule returns_wpI)
  fix s
  show "wp False (await_task_preserving env ctx t) (\<lambda>_ _. True) (\<lambda>_ _. True) s"
    unfolding await_task_preserving_def wp_bindE
    by (rule wp_loopE_step)
      (use assms in \<open>auto simp: wp_simps wp_awaitE uninterrupted_def split: prod.split option.split\<close>)
qed

lemma quiet_uninterrupted [simp]: "uninterrupted ctx quiet"
  by (simp add: uninterrupted_def quiet_def)

lemma await_task_caught: "env_caught env \<Longrightarrow> raises is_caught (await_task_preserving env ctx t)"
  unfolding await_task_preserving_def
  by (auto intro!: raises_bindE raises_loopE raises_tryE_caught raises_seqE raises_awaitE_caught
      raises_ret raises_getsE raises_raiseE raises_if split: prod.split)

section \<open>Predicates of the owner's fields\<close>

text \<open>
  The client and the server extend \<open>transport\<close>; nothing a connection does touches their
  fields, so any predicate of them is an invariant of the connections.
\<close>

lemma create_task_more [simp]: "transport.more (snd (create_task job ctx s)) = transport.more s"
  by (simp add: create_task_def Let_def)

lemma conn_update_more [simp]: "transport.more (conn_update c f s) = transport.more s"
  by (simp add: conn_update_def)

lemma create_task_futures [simp]: "d_futures (snd (create_task job ctx s)) = d_futures s"
  by (simp add: create_task_def Let_def)

lemma conn_update_futures [simp]: "d_futures (conn_update c f s) = d_futures s"
  by (simp add: conn_update_def)

lemma transport_more_eq:
  fixes s s' :: "'a transport_scheme"
  shows "disp.more s' = disp.more s \<Longrightarrow> transport.more s' = transport.more s"
  by (cases s; cases s') simp

text \<open>
  A predicate of the owner's own fields.  Everything the tasks of its connections do keeps it,
  provided that the close callback and the owner's own tasks do.
\<close>

locale owner_invariant =
  fixes I :: "'a transport_scheme \<Rightarrow> bool"
  assumes own: "I s \<Longrightarrow> transport.more s' = transport.more s \<Longrightarrow>
      length (d_futures s) \<le> length (d_futures s') \<Longrightarrow> I s'"

sublocale owner_invariant \<subseteq> connection_invariant I
proof
  show "stable I"
    unfolding stable_def evolves_def
  proof (intro allI impI, elim conjE)
    fix s s' :: "'a transport_scheme"
    assume more: "disp.more s' = disp.more s" and "length (d_futures s) \<le> length (d_futures s')" and "I s"
    from \<open>I s\<close> show "I s'" using transport_more_eq [OF more] \<open>length _ \<le> _\<close> by (rule own)
  qed
next
  fix s s1 :: "'a transport_scheme" and c prev ctx t
  assume "I s" and t: "create_task (Close_publication c prev) ctx s = (t, s1)"
  have more: "transport.more s1 = transport.more s" "d_futures s1 = d_futures s"
    using create_task_more [of "Close_publication c prev" ctx s]
      create_task_futures [of "Close_publication c prev" ctx s] unfolding t by simp_all
  from \<open>I s\<close> show "I (conn_update c (\<lambda>cn. cn\<lparr>cn_state := CLOSED, cn_close_event_task := Some t\<rparr>) s1)"
    by (rule own) (simp_all only: conn_update_more conn_update_futures more order.refl)
qed (erule own, simp, simp)+

context owner_invariant
begin

lemma run_job_keeps:
  assumes "env_keeps I env" "\<And>c. keeps I (callback c)" "\<And>job ctx. keeps I (owner_job job ctx)"
  shows "keeps I (run_job env cfg (Some callback) owner_job t job ctx)"
proof -
  have finish: "I (finish_task t r s)" if "I s" for r s
    using that by (rule own) (simp_all add: finish_task_def)
  have run: "keeps I (run_coroutine t m)" if "keeps I m" for m
    unfolding run_coroutine_def
    by (rule keepsI) (auto split: option.splits dest: keepsD [OF that] intro: finish)
  have publish: "keeps I (bindE (publish_deferred_close env cfg ctx c) (\<lambda>b.
      modifyE (\<lambda>s. s\<lparr>t_task_bool := (t_task_bool s)(t := b)\<rparr>)))" for c
    by (intro keeps_bindE publish_deferred_keeps assms keeps_modifyE) (erule bool_result)
  have emission: "keeps I (run_close_event_publication env cfg ctx c p)" for c p
    unfolding run_close_event_publication_def
    by (intro coroutine_keeps stable_emit_keeps [OF stable _ refl] assms keeps_modifyE)
      (erule own, simp_all)
  show ?thesis
    unfolding run_job_def
    by (rule run, cases job)
      (auto intro!: close_lifecycle_keeps emission read_loop_keeps publisher_keeps publish assms)
qed

end

end
