(* ===== verification/Client_State.thy ===== *)
theory Client_State
  imports Transport_Base
begin

text \<open>
  Models the state of \<^verbatim>\<open>asyncio_tcp_client.py\<close> (with \<^verbatim>\<open>_tcp_client_runtime.py\<close>) and the
  operations that supervision and stop share: status and lifecycle updates, opening a
  connection (\<^verbatim>\<open>_tcp_client_connect.py\<close>), heartbeat ownership, closing the current connection,
  and \<open>wait_until_connected\<close>.
\<close>

section \<open>State\<close>

text \<open>
  What never changes: the settings, the provider, the dispatcher's configuration, the
  component identifier, and the numbers in \<open>[0, 1]\<close> that the random source yields.
\<close>

record client_config =
  cc_settings :: tcp_client_settings
  cc_provider :: "attribute option"
  cc_disp :: disp_config
  cc_component_id :: string
  cc_draw :: "nat \<Rightarrow> rat"

text \<open>
  The client's fields.  Connections are named by their index in \<open>t_conns\<close>, the next free one
  being \<open>cl_next_connection\<close>; heartbeat senders by numbers from \<open>cl_next_sender\<close>.
  \<open>cl_peername\<close> and \<open>cl_sockname\<close> are what the last opened socket reports, \<open>cl_draws\<close> counts the
  backoff delays drawn, \<open>cl_timer_expired\<close> says that the timer of an \<open>asyncio.wait_for\<close> fired,
  and \<open>cl_transitions\<close> records, oldest first, the lifecycle transitions that were applied.
\<close>

record client = transport +
  cl_running :: bool
  cl_has_started :: bool
  cl_connection :: "nat option"
  cl_starting_connection :: "nat option"
  cl_heartbeat_sender :: "nat option"
  cl_connection_closed_event :: bool
  cl_last_connect_error :: "exn option"
  cl_status_version :: nat
  cl_attempt_counter :: nat
  cl_supervisor_task :: "nat option"
  cl_stop_waiter :: "nat option"
  cl_stop_owner_task :: "nat option"
  cl_lifecycle_state :: component_lifecycle_state
  cl_backoff :: reconnect_backoff
  cl_status_changed :: bool
  cl_owner_loop :: "nat option"
  cl_next_connection :: nat
  cl_next_sender :: nat
  cl_peername :: peer_info
  cl_sockname :: peer_info
  cl_draws :: nat
  cl_timer_expired :: bool
  cl_transitions :: "(component_lifecycle_state \<times> component_lifecycle_state) list"

abbreviation client_host :: "client_config \<Rightarrow> string" where
  "client_host cc \<equiv> str_value (cs_host (cc_settings cc))"

abbreviation client_port :: "client_config \<Rightarrow> int" where
  "client_port cc \<equiv> int_value (cs_port (cc_settings cc))"

abbreviation reconnect_enabled :: "client_config \<Rightarrow> bool" where
  "reconnect_enabled cc \<equiv> truthy (rs_enabled (cs_reconnect (cc_settings cc)))"

text \<open>
  \<open>__init__\<close>.  The dispatcher is number 0 and the stop callback it is given is number 0, the
  client's own \<open>stop\<close>.  The table of connections is empty; its entries are arbitrary.
\<close>

definition client_init ::
    "tcp_client_settings \<Rightarrow> attribute \<Rightarrow> attribute option \<Rightarrow> (nat \<Rightarrow> rat) \<Rightarrow> connection \<Rightarrow>
     exn + (client_config \<times> client)" where
  "client_init settings on_event provider draw no_connection =
     bindR (tcp_client_validate settings) (\<lambda>_.
     bindR (validate_heartbeat_provider (cs_heartbeat settings) provider) (\<lambda>_.
     bindR (new_backoff (cs_reconnect settings)) (\<lambda>backoff.
     let component_id = tcp_client_component_id (str_value (cs_host settings)) (int_value (cs_port settings))
     in bindR (disp_init on_event (delivery_config 0 (cs_event_delivery settings) component_id) None (Some 0))
       (\<lambda>(cfg, d). Inr
          (\<lparr>cc_settings = settings, cc_provider = provider, cc_disp = cfg,
            cc_component_id = component_id, cc_draw = draw\<rparr>,
           transport.extend
             (disp.extend d (transport.fields (\<lambda>_. no_connection) Map.empty (\<lambda>_. Pending) (\<lambda>_. False) {} []))
                \<lparr>cl_running = False, cl_has_started = False, cl_connection = None,
                 cl_starting_connection = None, cl_heartbeat_sender = None,
                 cl_connection_closed_event = True, cl_last_connect_error = None,
                 cl_status_version = 0, cl_attempt_counter = 0, cl_supervisor_task = None,
                 cl_stop_waiter = None, cl_stop_owner_task = None, cl_lifecycle_state = STOPPED,
                 cl_backoff = backoff, cl_status_changed = False, cl_owner_loop = None,
                 cl_next_connection = 0, cl_next_sender = 0, cl_peername = NotTuple,
                 cl_sockname = NotTuple, cl_draws = 0, cl_timer_expired = False,
                 cl_transitions = []\<rparr>)))))"

section \<open>Status and lifecycle\<close>

definition notify_status_changed :: "client \<Rightarrow> client" where
  "notify_status_changed s =
     s\<lparr>cl_status_version := Suc (cl_status_version s), cl_status_changed := True\<rparr>"

definition client_set_state :: "component_lifecycle_state \<Rightarrow> client \<Rightarrow> client" where
  "client_set_state target s =
     s\<lparr>cl_lifecycle_state := target,
       cl_transitions := cl_transitions s @ [(cl_lifecycle_state s, target)]\<rparr>"

definition client_on_lifecycle_state_applied :: "component_lifecycle_state \<Rightarrow> client \<Rightarrow> client" where
  "client_on_lifecycle_state_applied target s =
     notify_status_changed (s\<lparr>cl_running := (target = STARTING \<or> target = RUNNING)\<rparr>)"

definition client_publisher :: "client_config \<Rightarrow> lifecycle_publisher" where
  "client_publisher cc =
     \<lparr>lp_component_name = cc_component_id cc, lp_resource_id = cc_component_id cc,
      lp_role = TCP_CLIENT_ROLE\<rparr>"

definition apply_lifecycle_state ::
    "client_config \<Rightarrow> component_lifecycle_state \<Rightarrow> (client, network_event option) prog" where
  "apply_lifecycle_state cc target =
     publisher_apply (client_publisher cc) cl_lifecycle_state client_set_state
       client_on_lifecycle_state_applied target"

definition client_emit_lifecycle_event ::
    "client environment \<Rightarrow> client_config \<Rightarrow> task_ctx \<Rightarrow> network_event option \<Rightarrow> (client, unit) prog" where
  "client_emit_lifecycle_event env cc ctx event =
     emit_lifecycle_event (emit env (cc_disp cc) ctx) event"

definition client_transition_lifecycle_state ::
    "client environment \<Rightarrow> client_config \<Rightarrow> task_ctx \<Rightarrow> component_lifecycle_state \<Rightarrow> (client, unit) prog" where
  "client_transition_lifecycle_state env cc ctx target =
     bindE (apply_lifecycle_state cc target) (client_emit_lifecycle_event env cc ctx)"

text \<open>The \<open>connection\<close> property.\<close>

definition current_connection :: "client \<Rightarrow> nat option" where
  "current_connection s =
     (case cl_connection s of
        None \<Rightarrow> None
      | Some c \<Rightarrow> if cn_state (t_conns s c) = CLOSED then None else Some c)"

definition resolve_error_policy :: "client_config \<Rightarrow> error_policy" where
  "resolve_error_policy cc =
     (case cs_error_policy (cc_settings cc) of
        PEnum (EErrorPolicy p) \<Rightarrow> p
      | _ \<Rightarrow> if reconnect_enabled cc then RETRY else FAIL_FAST)"

text \<open>\<open>_assert_owner_loop\<close>, with the loop the caller runs on.\<close>

definition client_assert_owner_loop :: "nat option \<Rightarrow> (client, unit) prog" where
  "client_assert_owner_loop running_loop =
     bindE (getsE cl_owner_loop) (\<lambda>owner_loop.
       bindE (liftR (assert_running_on_owner_loop ''AsyncioTcpClient'' running_loop owner_loop))
         (\<lambda>loop. modifyE (\<lambda>s. s\<lparr>cl_owner_loop := Some loop\<rparr>)))"

section \<open>Heartbeat ownership\<close>

text \<open>
  A sender is created after its settings are checked; its own \<open>start\<close> and \<open>stop\<close> (theory
  Heartbeat) are the environment's.
\<close>

definition start_heartbeat_sender ::
    "client environment \<Rightarrow> client_config \<Rightarrow> nat \<Rightarrow> (client, nat option) prog" where
  "start_heartbeat_sender env cc c =
     (let settings = cs_heartbeat (cc_settings cc)
      in bindE (liftR (validate_heartbeat_provider settings (cc_provider cc))) (\<lambda>_.
           if \<not> truthy (hs_enabled settings) then ret None
           else if cc_provider cc = None
           then raiseE (Exn RuntimeError ''Heartbeat is enabled but no heartbeat_provider was supplied.'')
           else bindE (getsE (the_id c)) (\<lambda>rid.
             bindE (liftR (heartbeat_init rid settings)) (\<lambda>_.
               bindE (stateE (\<lambda>s. (cl_next_sender s, s\<lparr>cl_next_sender := Suc (cl_next_sender s)\<rparr>)))
                 (\<lambda>sender. seqE (awaitE env (A_heartbeat_start sender)) (ret (Some sender)))))))"

definition client_start_heartbeat_sender ::
    "client environment \<Rightarrow> client_config \<Rightarrow> nat \<Rightarrow> (client, unit) prog" where
  "client_start_heartbeat_sender env cc c =
     bindE (start_heartbeat_sender env cc c) (\<lambda>sender.
       modifyE (\<lambda>s. s\<lparr>cl_heartbeat_sender := sender\<rparr>))"

definition stop_heartbeat_sender :: "client environment \<Rightarrow> nat option \<Rightarrow> (client, unit) prog" where
  "stop_heartbeat_sender env sender =
     (case sender of None \<Rightarrow> ret () | Some n \<Rightarrow> awaitE env (A_heartbeat_stop n))"

definition client_stop_heartbeat_sender :: "client environment \<Rightarrow> (client, unit) prog" where
  "client_stop_heartbeat_sender env =
     bindE (getsE cl_heartbeat_sender) (\<lambda>sender.
       seqE (modifyE (\<lambda>s. s\<lparr>cl_heartbeat_sender := None\<rparr>)) (stop_heartbeat_sender env sender))"

text \<open>\<open>_on_connection_closed\<close>, the callback every connection of the client is given.\<close>

definition client_on_connection_closed :: "client environment \<Rightarrow> nat \<Rightarrow> (client, unit) prog" where
  "client_on_connection_closed env c =
     seqE (modifyE (\<lambda>s.
             if cl_connection s = Some c then
               let s1 = s\<lparr>cl_connection := None\<rparr>
               in if cl_lifecycle_state s \<noteq> STOPPING
                  then notify_status_changed (s1\<lparr>cl_connection_closed_event := True\<rparr>)
                  else s1
             else s))
       (client_stop_heartbeat_sender env)"

section \<open>Connecting\<close>

definition track_starting_connection :: "nat \<Rightarrow> client \<Rightarrow> client" where
  "track_starting_connection c s = s\<lparr>cl_starting_connection := Some c\<rparr>"

definition forget_starting_connection :: "nat \<Rightarrow> client \<Rightarrow> client" where
  "forget_starting_connection c s =
     (if cl_starting_connection s = Some c then s\<lparr>cl_starting_connection := None\<rparr> else s)"

definition attach_starting_connection :: "nat \<Rightarrow> client \<Rightarrow> client" where
  "attach_starting_connection c s =
     (if cl_lifecycle_state s \<noteq> RUNNING \<or> cn_state (t_conns s c) \<noteq> CONNECTED
      then forget_starting_connection c s
      else notify_status_changed
        ((forget_starting_connection c (s\<lparr>cl_connection := Some c\<rparr>))\<lparr>cl_connection_closed_event := False\<rparr>))"

definition new_client_connection :: "client_config \<Rightarrow> client \<Rightarrow> exn + connection" where
  "new_client_connection cc s =
     connection_init (tcp_client_connection_id (client_host cc) (client_port cc) (cl_peername s)) CLIENT
       (cl_sockname s) (cl_peername s) (int_value (cs_receive_buffer_size (cc_settings cc))) None
       (cs_connection_send_timeout_seconds (cc_settings cc))"

definition store_connection :: "connection \<Rightarrow> client \<Rightarrow> nat \<times> client" where
  "store_connection cn s =
     (cl_next_connection s,
      (conn_update (cl_next_connection s) (\<lambda>_. cn) s)\<lparr>cl_next_connection := Suc (cl_next_connection s)\<rparr>)"

definition open_connection :: "client environment \<Rightarrow> client_config \<Rightarrow> (client, unit) prog" where
  "open_connection env cc =
     (if cs_connect_timeout_seconds (cc_settings cc) \<noteq> PNone
      then tryE (awaitE env A_open_connection)
        (\<lambda>e. if exn_class e = TimeoutError
              then raiseE (Exn ConnectionError ''TCP connect timed out.'') else raiseE e)
      else awaitE env A_open_connection)"

definition connect_once ::
    "client environment \<Rightarrow> client_config \<Rightarrow> task_ctx \<Rightarrow> (client, nat) prog" where
  "connect_once env cc ctx =
     seqE (open_connection env cc)
       (bindE (getsE (new_client_connection cc)) (\<lambda>created.
        bindE (liftR created) (\<lambda>cn.
        bindE (stateE (store_connection cn)) (\<lambda>c.
        seqE (modifyE (track_starting_connection c))
          (seqE
            (tryE (conn_start env (cc_disp cc) ctx
                     (Some (\<lambda>c. modifyE (attach_starting_connection c))) c)
               (\<lambda>e. if is_caught e
                     then seqE (suppress_all (conn_close env (cc_disp cc) ctx c)) (raiseE e)
                     else raiseE e))
            (ret c))))))"

definition client_connect_once ::
    "client environment \<Rightarrow> client_config \<Rightarrow> task_ctx \<Rightarrow> (client, unit) prog" where
  "client_connect_once env cc ctx =
     bindE (connect_once env cc ctx) (\<lambda>c.
       seqE (modifyE (forget_starting_connection c))
         (bindE (getsE (\<lambda>s. s)) (\<lambda>s.
            if cl_connection s = Some c then
              (if cl_lifecycle_state s = RUNNING \<and> cn_state (t_conns s c) = CONNECTED
               then client_start_heartbeat_sender env cc c else ret ())
            else if cl_lifecycle_state s \<noteq> RUNNING \<or> cn_state (t_conns s c) = CLOSED then
              seqE (whenE (cn_state (t_conns s c) \<noteq> CLOSED)
                     (suppress_all (conn_close env (cc_disp cc) ctx c)))
                (modifyE (\<lambda>s. notify_status_changed (s\<lparr>cl_connection_closed_event := True\<rparr>)))
            else
              seqE (modifyE (\<lambda>s. notify_status_changed
                     (s\<lparr>cl_connection := Some c, cl_connection_closed_event := False\<rparr>)))
                (client_start_heartbeat_sender env cc c))))"

section \<open>Closing the current connection\<close>

text \<open>The connections to close, the starting one first, each once.\<close>

definition close_targets :: "client \<Rightarrow> nat list" where
  "close_targets s =
     (let live = (\<lambda>x. case x of None \<Rightarrow> []
                     | Some c \<Rightarrow> if cn_state (t_conns s c) \<noteq> CLOSED then [c] else []);
          first = live (cl_starting_connection s);
          second = live (cl_connection s)
      in first @ (if second = first then [] else second))"

fun close_all ::
    "client environment \<Rightarrow> client_config \<Rightarrow> task_ctx \<Rightarrow> nat list \<Rightarrow> nat list \<Rightarrow> (client, nat list) prog" where
  "close_all env cc ctx [] waiters = ret waiters"
| "close_all env cc ctx (c # cs) waiters =
     seqE (conn_close env (cc_disp cc) ctx c)
       (bindE (stateE (deferred_waiter_of (cc_disp cc) ctx c)) (\<lambda>waiter.
          close_all env cc ctx cs (append_opt waiters waiter)))"

definition close_current_connection ::
    "client environment \<Rightarrow> client_config \<Rightarrow> task_ctx \<Rightarrow> (client, nat list) prog" where
  "close_current_connection env cc ctx =
     bindE (getsE (\<lambda>s. s)) (\<lambda>s0.
       seqE (modifyE (\<lambda>s. s\<lparr>cl_starting_connection := None\<rparr>))
         (finallyE (close_all env cc ctx (close_targets s0) [])
            (modifyE (\<lambda>s. notify_status_changed
               ((if cl_connection s = cl_connection s0 \<or> cl_connection s = cl_starting_connection s0
                 then s\<lparr>cl_connection := None\<rparr> else s)\<lparr>cl_connection_closed_event := True\<rparr>)))))"

section \<open>Waiting for a connection\<close>

text \<open>\<open>wait_until_client_connected\<close>: one pass of its loop, and the loop.\<close>

definition client_wait_pass ::
    "client environment \<Rightarrow> client_config \<Rightarrow> rat \<Rightarrow> unit \<Rightarrow> (client, (unit, nat) turn) prog" where
  "client_wait_pass env cc poll_interval_seconds _ =
     bindE (getsE (\<lambda>s. s)) (\<lambda>s.
       case (case current_connection s of None \<Rightarrow> None
             | Some c \<Rightarrow> if is_connected (t_conns s c) then Some c else None) of
         Some c \<Rightarrow> ret (Leave c)
       | None \<Rightarrow>
           if cl_lifecycle_state s = STOPPED \<and> cl_has_started s
           then raiseE (Exn ConnectionError ''TCP client is stopped.'')
           else if cl_last_connect_error s \<noteq> None \<and>
                   (\<not> reconnect_enabled cc \<or> cl_lifecycle_state s = STOPPED)
           then raiseE (Exn ConnectionError ''TCP client failed to connect.'')
           else
             seqE (modifyE (\<lambda>s. s\<lparr>cl_status_changed := False\<rparr>))
               (bindE (getsE cl_status_version) (\<lambda>version.
                  if version \<noteq> cl_status_version s then ret (Again ())
                  else seqE
                    (tryE (awaitE env (A_status_changed poll_interval_seconds))
                       (\<lambda>e. if exn_class e = TimeoutError then ret () else raiseE e))
                    (ret (Again ())))))"

definition wait_until_client_connected ::
    "client environment \<Rightarrow> client_config \<Rightarrow> rat \<Rightarrow> (client, nat) prog" where
  "wait_until_client_connected env cc poll_interval_seconds =
     loopE (client_wait_pass env cc poll_interval_seconds) ()"

text \<open>
  \<open>asyncio.wait_for\<close> around a coroutine: its timer cancels the coroutine, and a cancellation
  that the timer caused becomes TimeoutError.
\<close>

definition client_wait_until_connected ::
    "client environment \<Rightarrow> client_config \<Rightarrow> nat option \<Rightarrow> rat option \<Rightarrow> rat \<Rightarrow> (client, nat) prog" where
  "client_wait_until_connected env cc running_loop timeout_seconds poll_interval_seconds =
     seqE (client_assert_owner_loop running_loop)
       (if poll_interval_seconds \<le> 0
        then raiseE (Exn ValueError ''poll_interval_seconds must be > 0.'')
        else case timeout_seconds of
          None \<Rightarrow> wait_until_client_connected env cc poll_interval_seconds
        | Some _ \<Rightarrow>
            tryE (wait_until_client_connected env cc poll_interval_seconds)
              (\<lambda>e. bindE (getsE cl_timer_expired) (\<lambda>expired.
                 if is_cancelled e \<and> expired then raiseE (Exn TimeoutError '''') else raiseE e)))"

section \<open>The publisher's host\<close>

interpretation cl: lifecycle_host cl_lifecycle_state client_set_state client_on_lifecycle_state_applied
  by unfold_locales
    (simp_all add: client_set_state_def client_on_lifecycle_state_applied_def notify_status_changed_def)

abbreviation client_moved :: "component_lifecycle_state \<Rightarrow> client \<Rightarrow> client" where
  "client_moved t s \<equiv> client_on_lifecycle_state_applied t (client_set_state t s)"

abbreviation client_event :: "client_config \<Rightarrow> component_lifecycle_state \<Rightarrow>
    component_lifecycle_state \<Rightarrow> network_event" where
  "client_event cc p t \<equiv> ComponentLifecycleChangedEvent (cc_component_id cc) p t"

lemma client_publisher_id [simp]: "lp_resource_id (client_publisher cc) = cc_component_id cc"
  by (simp add: client_publisher_def)

lemma wp_apply_lifecycle_state [wp_simps]:
  "wp t (apply_lifecycle_state cc target) Q E s =
     (if cl_lifecycle_state s = target then Q None s
      else if legal (cl_lifecycle_state s) target
      then Q (Some (client_event cc (cl_lifecycle_state s) target)) (client_moved target s)
      else E (Exn RuntimeError (lp_component_name (client_publisher cc))) s)"
  unfolding wp_def apply_lifecycle_state_def
  using cl.apply_same [of s target] cl.apply_legal [of s target] cl.apply_illegal [of s target] by auto

lemma client_moved_simps [simp]:
  "cl_lifecycle_state (client_moved t s) = t"
  "cl_running (client_moved t s) = (t = STARTING \<or> t = RUNNING)"
  "cl_transitions (client_moved t s) = cl_transitions s @ [(cl_lifecycle_state s, t)]"
  "cl_supervisor_task (client_moved t s) = cl_supervisor_task s"
  "cl_stop_waiter (client_moved t s) = cl_stop_waiter s"
  "cl_stop_owner_task (client_moved t s) = cl_stop_owner_task s"
  "cl_connection (client_moved t s) = cl_connection s"
  "cl_starting_connection (client_moved t s) = cl_starting_connection s"
  "cl_heartbeat_sender (client_moved t s) = cl_heartbeat_sender s"
  "transport.truncate (client_moved t s) = transport.truncate s"
  by (simp_all add: client_on_lifecycle_state_applied_def client_set_state_def
      notify_status_changed_def transport.defs)

section \<open>Invariants of the lifecycle fields\<close>

text \<open>
  A predicate of the three lifecycle fields that legal transitions keep is kept by everything
  the client does.
\<close>

locale client_invariant =
  fixes I :: "client \<Rightarrow> bool"
  assumes depends: "I s \<Longrightarrow> cl_lifecycle_state s' = cl_lifecycle_state s \<Longrightarrow>
      cl_running s' = cl_running s \<Longrightarrow> cl_transitions s' = cl_transitions s \<Longrightarrow> I s'"
    and moved: "I s \<Longrightarrow> legal (cl_lifecycle_state s) t \<Longrightarrow> I (client_moved t s)"

lemma client_own:
  fixes s s' :: client
  assumes "transport.more s' = transport.more s"
  shows "cl_lifecycle_state s' = cl_lifecycle_state s" "cl_running s' = cl_running s"
    "cl_transitions s' = cl_transitions s"
  using assms by (cases s; cases s'; simp)+

sublocale client_invariant \<subseteq> owner_invariant I
  by unfold_locales (erule depends, (rule client_own, assumption)+)

context client_invariant
begin

lemma own_keeps:
  "(\<And>s. cl_lifecycle_state (f s) = cl_lifecycle_state s \<and> cl_running (f s) = cl_running s \<and>
      cl_transitions (f s) = cl_transitions s) \<Longrightarrow> keeps I (modifyE f)"
  by (rule keeps_modifyE) (erule depends, auto)

lemmas own_simps = notify_status_changed_def track_starting_connection_def
  forget_starting_connection_def attach_starting_connection_def Let_def

lemma apply_keeps: "keeps I (apply_lifecycle_state cc t)"
proof (rule keepsI)
  fix s r s'
  assume "I s" "apply_lifecycle_state cc t s = Some (r, s')"
  then show "I s'"
    unfolding apply_lifecycle_state_def
    using moved [of s t] by (cases rule: cl.apply_cases [of s t "client_publisher cc"]) auto
qed

lemma emit_keeps: "env_keeps I env \<Longrightarrow> keeps I (emit env cfg ctx event)"
  by (rule stable_emit_keeps [OF stable _ refl])

lemma emit_lifecycle_keeps: "env_keeps I env \<Longrightarrow> keeps I (client_emit_lifecycle_event env cc ctx event)"
  unfolding client_emit_lifecycle_event_def emit_lifecycle_event_def
  by (auto intro: keeps_ret emit_keeps split: option.split)

lemma owner_loop_keeps: "keeps I (client_assert_owner_loop l)"
  unfolding client_assert_owner_loop_def by (intro keeps_rules own_keeps) simp

lemma start_heartbeat_keeps:
  assumes "env_keeps I env"
  shows "keeps I (client_start_heartbeat_sender env cc c)"
  unfolding client_start_heartbeat_sender_def start_heartbeat_sender_def Let_def
  by (intro keeps_bindE keeps_seqE keeps_if keeps_liftR keeps_ret keeps_raiseE keeps_getsE keeps_awaitE
      stateE_keeps own_keeps assms) (auto elim: depends)

lemma stop_heartbeat_keeps: "env_keeps I env \<Longrightarrow> keeps I (client_stop_heartbeat_sender env)"
  unfolding client_stop_heartbeat_sender_def stop_heartbeat_sender_def
  by (intro keeps_bindE keeps_seqE keeps_getsE own_keeps)
    (auto intro: keeps_rules split: option.split)

lemma on_connection_closed_keeps: "env_keeps I env \<Longrightarrow> keeps I (client_on_connection_closed env c)"
  unfolding client_on_connection_closed_def
  by (intro keeps_seqE own_keeps stop_heartbeat_keeps) (simp_all add: own_simps)

lemma attach_keeps: "keeps I (modifyE (attach_starting_connection c))"
  by (rule own_keeps) (simp add: own_simps)

lemma connect_once_keeps:
  assumes "env_keeps I env"
  shows "keeps I (connect_once env cc ctx)"
proof -
  have store: "I (snd (store_connection cn s))" if "I s" for cn s
    using that by (rule depends) (simp_all add: store_connection_def conn_update_def)
  have start: "keeps I (conn_start env cfg ctx (Some (\<lambda>c. modifyE (attach_starting_connection c))) c)" for cfg c
    by (rule conn_start_keeps [OF assms]) (auto intro: attach_keeps)
  show ?thesis
    unfolding connect_once_def open_connection_def
    by (intro coroutine_keeps keeps_liftR keeps_awaitE store start own_keeps conn_close_keeps assms)
      (simp_all add: own_simps)
qed

lemma client_connect_once_keeps:
  assumes "env_keeps I env"
  shows "keeps I (client_connect_once env cc ctx)"
  unfolding client_connect_once_def
  by (intro keeps_bindE keeps_seqE keeps_if keeps_whenE keeps_suppress_all keeps_getsE keeps_ret own_keeps
      connect_once_keeps start_heartbeat_keeps conn_close_keeps assms) (simp_all add: own_simps)

lemma close_all_keeps: "env_keeps I env \<Longrightarrow> keeps I (close_all env cc ctx cs ws)"
  by (induction cs arbitrary: ws)
    (auto intro!: keeps_rules conn_close_keeps stateE_keeps deferred_waiter_keeps)

lemma close_current_keeps: "env_keeps I env \<Longrightarrow> keeps I (close_current_connection env cc ctx)"
  unfolding close_current_connection_def
  by (intro keeps_bindE keeps_seqE keeps_finallyE keeps_getsE own_keeps close_all_keeps)
    (simp_all add: own_simps)

lemma wait_keeps:
  assumes "env_keeps I env"
  shows "keeps I (wait_until_client_connected env cc poll)"
    "keeps I (client_wait_until_connected env cc l timeout poll)"
proof -
  have pass: "keeps I (client_wait_pass env cc poll u)" for u
    unfolding client_wait_pass_def
    by (intro keeps_bindE keeps_getsE)
      (auto intro!: keeps_rules own_keeps assms split: option.split)
  then show w: "keeps I (wait_until_client_connected env cc poll)"
    unfolding wait_until_client_connected_def by (rule keeps_loopE)
  show "keeps I (client_wait_until_connected env cc l timeout poll)"
    unfolding client_wait_until_connected_def
    by (auto intro!: keeps_rules owner_loop_keeps w split: option.split)
qed

end

lemma transport_more_own:
  fixes s s' :: client
  assumes "disp.more s' = disp.more s"
  shows "t_conns s' = t_conns s" "cl_running s' = cl_running s"
    "cl_lifecycle_state s' = cl_lifecycle_state s" "cl_heartbeat_sender s' = cl_heartbeat_sender s"
    "cl_connection s' = cl_connection s" "cl_starting_connection s' = cl_starting_connection s"
    "cl_attempt_counter s' = cl_attempt_counter s" "cl_backoff s' = cl_backoff s"
    "cl_draws s' = cl_draws s" "cl_stop_waiter s' = cl_stop_waiter s"
    "cl_status_version s' = cl_status_version s" "cl_last_connect_error s' = cl_last_connect_error s"
    "cl_transitions s' = cl_transitions s"
  using assms by (cases s; cases s'; simp)+

section \<open>A client for examples\<close>

definition sample_client_settings :: tcp_client_settings where
  "sample_client_settings = (default_tcp_client (PStr ''h'') (PInt 1))
     \<lparr>cs_event_delivery := default_event_delivery\<lparr>ed_dispatch_mode := PEnum (EDispatch INLINE)\<rparr>\<rparr>"

definition sample_cc :: client_config where
  "sample_cc = \<lparr>cc_settings = sample_client_settings, cc_provider = None,
     cc_disp = (delivery_config 0 (cs_event_delivery sample_client_settings) (tcp_client_component_id ''h'' 1))
       \<lparr>dc_stop_policy_enabled := True, dc_stop_component_callback := Some 0\<rparr>,
     cc_component_id = tcp_client_component_id ''h'' 1, cc_draw = (\<lambda>_. 0)\<rparr>"

text \<open>The client \<open>__init__\<close> makes of them.\<close>

definition sample_client :: client where
  "sample_client = transport.extend
     (disp.extend empty_disp
        (transport.fields (\<lambda>_. sample_connection) Map.empty (\<lambda>_. Pending) (\<lambda>_. False) {} []))
     \<lparr>cl_running = False, cl_has_started = False, cl_connection = None,
      cl_starting_connection = None, cl_heartbeat_sender = None,
      cl_connection_closed_event = True, cl_last_connect_error = None,
      cl_status_version = 0, cl_attempt_counter = 0, cl_supervisor_task = None,
      cl_stop_waiter = None, cl_stop_owner_task = None, cl_lifecycle_state = STOPPED,
      cl_backoff = \<lparr>rb_settings = default_reconnect, rb_current_delay = 1\<rparr>,
      cl_status_changed = False, cl_owner_loop = None,
      cl_next_connection = 0, cl_next_sender = 0, cl_peername = NotTuple,
      cl_sockname = NotTuple, cl_draws = 0, cl_timer_expired = False,
      cl_transitions = []\<rparr>"


lemma sample_client_valid: "tcp_client_validate sample_client_settings = Inr ()"
  by code_simp

lemma sample_backoff:
  "new_backoff default_reconnect = Inr \<lparr>rb_settings = default_reconnect, rb_current_delay = 1\<rparr>"
  by code_simp

lemma sample_client_init:
  "client_init sample_client_settings (IsCallable True False) None (\<lambda>_. 0) sample_connection =
     Inr (sample_cc, sample_client)"
  using sample_client_valid sample_backoff
  by (simp add: client_init_def sample_cc_def sample_client_def sample_client_settings_def
      default_tcp_client_def default_heartbeat_def validate_heartbeat_provider_def disp_init_def
      validate_async_event_handler_def async_callable_def delivery_config_def
      stop_policy_stop_component_def stop_policy_validate_def empty_disp_def default_event_delivery_def
      Let_def)

lemma sample_cc_inline: "dc_dispatch_mode (cc_disp sample_cc) = INLINE"
  by (simp add: sample_cc_def delivery_config_def sample_client_settings_def)

lemma sample_client_simps [simp]:
  "cl_lifecycle_state sample_client = STOPPED" "cl_owner_loop sample_client = None"
  "cl_transitions sample_client = []" "cl_stop_waiter sample_client = None"
  "d_worker_task sample_client = None" "d_delivered sample_client = []"
  "cl_supervisor_task sample_client = None" "cl_connection sample_client = None"
  "cl_heartbeat_sender sample_client = None" "cl_starting_connection sample_client = None"
  "cl_attempt_counter sample_client = 0" "cl_draws sample_client = 0"
  "cl_backoff sample_client = \<lparr>rb_settings = default_reconnect, rb_current_delay = 1\<rparr>"
  "d_origin_tokens sample_client = {}" "d_futures sample_client = []"
  by (simp_all add: sample_client_def transport.defs disp.defs empty_disp_def)

end
