(* ===== verification/Supervision.thy ===== *)
theory Supervision
  imports Client_State
begin

text \<open>
  Models \<^verbatim>\<open>implementations/asyncio_impl/tcp_client_supervision.py\<close>: the task that connects,
  waits for the connection to end, reconnects with a delay or gives up, and on its way out
  releases the resources and publishes the terminal lifecycle events.
\<close>

section \<open>Reconnect plans\<close>

record reconnect_plan =
  rp_should_reconnect :: bool
  rp_delay_seconds :: "rat option"

definition reconnect_plan_init :: "bool \<Rightarrow> rat option \<Rightarrow> exn + reconnect_plan" where
  "reconnect_plan_init should_reconnect delay_seconds =
     (if should_reconnect \<and> delay_seconds = None
      then Inl (Exn ValueError ''Reconnect plan delay must be set when reconnect is scheduled.'')
      else Inr \<lparr>rp_should_reconnect = should_reconnect, rp_delay_seconds = delay_seconds\<rparr>)"

definition reconnect_disabled :: reconnect_plan where
  "reconnect_disabled = \<lparr>rp_should_reconnect = False, rp_delay_seconds = None\<rparr>"

definition reconnect_scheduled :: "rat \<Rightarrow> reconnect_plan" where
  "reconnect_scheduled delay_seconds =
     \<lparr>rp_should_reconnect = True, rp_delay_seconds = Some delay_seconds\<rparr>"

lemma reconnect_plans_valid:
  "reconnect_plan_init False None = Inr reconnect_disabled"
  "reconnect_plan_init True (Some d) = Inr (reconnect_scheduled d)"
  by (simp_all add: reconnect_plan_init_def reconnect_disabled_def reconnect_scheduled_def)

record failure_outcome =
  fo_policy :: error_policy
  fo_reconnect :: reconnect_plan

definition plan_reconnect :: "client_config \<Rightarrow> client \<Rightarrow> reconnect_plan \<times> client" where
  "plan_reconnect cc s =
     (if \<not> cl_running s \<or> \<not> reconnect_enabled cc then (reconnect_disabled, s)
      else case next_delay (cc_draw cc (cl_draws s)) (cl_backoff s) of
        (delay, backoff) \<Rightarrow>
          (reconnect_scheduled delay, s\<lparr>cl_backoff := backoff, cl_draws := Suc (cl_draws s)\<rparr>))"

definition capture_failure_state :: "client_config \<Rightarrow> exn \<Rightarrow> client \<Rightarrow> error_policy \<times> client" where
  "capture_failure_state cc error s =
     (resolve_error_policy cc, notify_status_changed (s\<lparr>cl_last_connect_error := Some error\<rparr>))"

definition determine_failure_outcome :: "client_config \<Rightarrow> exn \<Rightarrow> client \<Rightarrow> failure_outcome \<times> client" where
  "determine_failure_outcome cc error s =
     (case capture_failure_state cc error s of (policy, s1) \<Rightarrow>
        case plan_reconnect cc s1 of (reconnect, s2) \<Rightarrow>
          (\<lparr>fo_policy = policy, fo_reconnect = reconnect\<rparr>, s2))"

definition should_stop_after_failure :: "client_config \<Rightarrow> error_policy \<Rightarrow> client \<Rightarrow> bool" where
  "should_stop_after_failure cc policy s =
     (policy = FAIL_FAST \<or> \<not> cl_running s \<or> \<not> reconnect_enabled cc)"

section \<open>The delay before a reconnect\<close>

definition may_reconnect :: "client_config \<Rightarrow> client \<Rightarrow> bool" where
  "may_reconnect cc s = (cl_running s \<and> reconnect_enabled cc)"

definition emit_reconnect_scheduled ::
    "client environment \<Rightarrow> client_config \<Rightarrow> task_ctx \<Rightarrow> rat \<Rightarrow> (client, unit) prog" where
  "emit_reconnect_scheduled env cc ctx next_delay_seconds =
     bindE (getsE cl_attempt_counter) (\<lambda>attempts.
       emit env (cc_disp cc) ctx
         (ReconnectScheduledEvent (cc_component_id cc) (int attempts + 1) next_delay_seconds))"

definition wait_for_reconnect_delay_or_stop ::
    "client environment \<Rightarrow> client_config \<Rightarrow> rat \<Rightarrow> (client, bool) prog" where
  "wait_for_reconnect_delay_or_stop env cc delay_seconds =
     bindE (getsE cl_status_version) (\<lambda>observed_version.
       seqE (modifyE (\<lambda>s. s\<lparr>cl_status_changed := False\<rparr>))
         (bindE (getsE cl_status_version) (\<lambda>version.
            if version \<noteq> observed_version then getsE (may_reconnect cc)
            else bindE
              (tryE (seqE (awaitE env (A_status_changed delay_seconds)) (ret True))
                 (\<lambda>e. if exn_class e = TimeoutError then ret False else raiseE e))
              (\<lambda>_. getsE (may_reconnect cc)))))"

definition sleep_until_next_reconnect ::
    "client environment \<Rightarrow> client_config \<Rightarrow> task_ctx \<Rightarrow> reconnect_plan \<Rightarrow> (client, bool) prog" where
  "sleep_until_next_reconnect env cc ctx reconnect =
     (if \<not> rp_should_reconnect reconnect then ret False
      else bindE (getsE (may_reconnect cc)) (\<lambda>may.
        if \<not> may then ret False
        else case rp_delay_seconds reconnect of
          None \<Rightarrow> raiseE (Exn RuntimeError ''Reconnect plan does not provide delay_seconds.'')
        | Some delay_seconds \<Rightarrow>
            seqE (emit_reconnect_scheduled env cc ctx delay_seconds)
              (bindE (getsE (may_reconnect cc)) (\<lambda>may.
                 if \<not> may then ret False
                 else wait_for_reconnect_delay_or_stop env cc delay_seconds))))"

section \<open>One cycle\<close>

definition begin_attempt :: "client \<Rightarrow> client" where
  "begin_attempt s =
     notify_status_changed
       (s\<lparr>cl_last_connect_error := None, cl_attempt_counter := Suc (cl_attempt_counter s)\<rparr>)"

definition start_connect_attempt ::
    "client environment \<Rightarrow> client_config \<Rightarrow> task_ctx \<Rightarrow> (client, bool) prog" where
  "start_connect_attempt env cc ctx =
     seqE (modifyE begin_attempt)
       (bindE (getsE cl_attempt_counter) (\<lambda>attempt.
          seqE (emit env (cc_disp cc) ctx (ReconnectAttemptStartedEvent (cc_component_id cc) (int attempt)))
            (bindE (getsE (\<lambda>s. \<not> cl_running s \<or> cl_lifecycle_state s \<noteq> RUNNING)) (\<lambda>leave.
               if leave then ret False
               else seqE (client_connect_once env cc ctx)
                 (bindE (getsE cl_running) (\<lambda>running.
                    if \<not> running then ret False
                    else seqE (modifyE (\<lambda>s. s\<lparr>cl_backoff := backoff_reset (cl_backoff s)\<rparr>))
                           (ret True)))))))"

definition connection_gone :: "client \<Rightarrow> bool" where
  "connection_gone s =
     (case cl_connection s of None \<Rightarrow> True | Some c \<Rightarrow> cn_state (t_conns s c) = CLOSED)"

definition termination_pass :: "client environment \<Rightarrow> unit \<Rightarrow> (client, (unit, unit) turn) prog" where
  "termination_pass env _ =
     bindE (getsE cl_running) (\<lambda>running.
       if \<not> running then ret (Leave ())
       else seqE (awaitE env A_connection_closed)
         (seqE (modifyE (\<lambda>s. s\<lparr>cl_connection_closed_event := False\<rparr>))
            (bindE (getsE connection_gone) (\<lambda>gone.
               ret (if gone then Leave () else Again ())))))"

definition await_connection_termination :: "client environment \<Rightarrow> (client, unit) prog" where
  "await_connection_termination env = loopE (termination_pass env) ()"

definition run_connect_cycle ::
    "client environment \<Rightarrow> client_config \<Rightarrow> task_ctx \<Rightarrow> (client, bool) prog" where
  "run_connect_cycle env cc ctx =
     bindE (start_connect_attempt env cc ctx) (\<lambda>connected.
       if \<not> connected then ret False
       else seqE (await_connection_termination env)
         (bindE (stateE (plan_reconnect cc)) (sleep_until_next_reconnect env cc ctx)))"

definition emit_failure_events ::
    "client environment \<Rightarrow> client_config \<Rightarrow> task_ctx \<Rightarrow> exn \<Rightarrow> error_policy \<Rightarrow> rat option \<Rightarrow>
     (client, unit) prog" where
  "emit_failure_events env cc ctx error policy next_delay_seconds =
     seqE (if policy \<noteq> IGNORE
           then emit env (cc_disp cc) ctx (NetworkErrorEvent (cc_component_id cc) error) else ret ())
       (bindE (getsE cl_attempt_counter) (\<lambda>attempt.
          emit env (cc_disp cc) ctx
            (ReconnectAttemptFailedEvent (cc_component_id cc) (int attempt) error next_delay_seconds)))"

text \<open>\<open>_teardown_after_failure\<close> and \<open>_shutdown_active_resources\<close>: heartbeat first.\<close>

definition teardown_after_failure ::
    "client environment \<Rightarrow> client_config \<Rightarrow> task_ctx \<Rightarrow> (client, unit) prog" where
  "teardown_after_failure env cc ctx =
     seqE (client_stop_heartbeat_sender env)
       (bindE (close_current_connection env cc ctx) (\<lambda>_. ret ()))"

definition handle_connect_cycle_failure ::
    "client environment \<Rightarrow> client_config \<Rightarrow> task_ctx \<Rightarrow> exn \<Rightarrow> (client, bool) prog" where
  "handle_connect_cycle_failure env cc ctx error =
     bindE (stateE (determine_failure_outcome cc error)) (\<lambda>outcome.
       seqE (emit_failure_events env cc ctx error (fo_policy outcome)
               (rp_delay_seconds (fo_reconnect outcome)))
         (seqE (teardown_after_failure env cc ctx)
            (bindE (getsE (should_stop_after_failure cc (fo_policy outcome))) (\<lambda>stop.
               if stop then ret False
               else sleep_until_next_reconnect env cc ctx (fo_reconnect outcome)))))"

section \<open>Finalization\<close>

definition shutdown_active_resources ::
    "client environment \<Rightarrow> client_config \<Rightarrow> task_ctx \<Rightarrow> (client, unit) prog" where
  "shutdown_active_resources env cc ctx =
     seqE (client_stop_heartbeat_sender env)
       (bindE (close_current_connection env cc ctx) (\<lambda>_. ret ()))"

definition collect_terminal_lifecycle_events :: "client_config \<Rightarrow> (client, network_event list) prog" where
  "collect_terminal_lifecycle_events cc =
     bindE (apply_stopping_transition_if_active cl_lifecycle_state (apply_lifecycle_state cc))
       (\<lambda>stopping_event.
          bindE (apply_stopped_transition_if_stopping cl_lifecycle_state (apply_lifecycle_state cc))
            (\<lambda>stopped_event. ret (append_opt (append_opt [] stopping_event) stopped_event)))"

fun emit_in_order ::
    "client environment \<Rightarrow> client_config \<Rightarrow> task_ctx \<Rightarrow> network_event list \<Rightarrow> (client, unit) prog" where
  "emit_in_order env cc ctx [] = ret ()"
| "emit_in_order env cc ctx (event # events) =
     seqE (client_emit_lifecycle_event env cc ctx (Some event)) (emit_in_order env cc ctx events)"

definition publish_terminal_lifecycle_transitions ::
    "client environment \<Rightarrow> client_config \<Rightarrow> task_ctx \<Rightarrow> (client, unit) prog" where
  "publish_terminal_lifecycle_transitions env cc ctx =
     bindE (collect_terminal_lifecycle_events cc) (emit_in_order env cc ctx)"

definition supervision_stop_dispatcher ::
    "client environment \<Rightarrow> client_config \<Rightarrow> task_ctx \<Rightarrow> (client, unit) prog" where
  "supervision_stop_dispatcher env cc ctx =
     bindE (getsE cl_stop_waiter) (\<lambda>stop_waiter.
       if stop_waiter \<noteq> None then ret () else disp_stop env (cc_disp cc) ctx)"

definition finalize_supervision ::
    "client environment \<Rightarrow> client_config \<Rightarrow> task_ctx \<Rightarrow> (client, unit) prog" where
  "finalize_supervision env cc ctx =
     finallyE
       (seqE (shutdown_active_resources env cc ctx)
          (bindE (getsE (\<lambda>s. cl_stop_waiter s \<noteq> None)) (\<lambda>explicit_stop_in_progress.
             if explicit_stop_in_progress then ret ()
             else publish_terminal_lifecycle_transitions env cc ctx)))
       (supervision_stop_dispatcher env cc ctx)"

section \<open>The supervisor\<close>

definition supervise_pass ::
    "client environment \<Rightarrow> client_config \<Rightarrow> task_ctx \<Rightarrow> unit \<Rightarrow> (client, (unit, unit) turn) prog" where
  "supervise_pass env cc ctx _ =
     bindE (getsE cl_running) (\<lambda>running.
       if \<not> running then ret (Leave ())
       else bindE
         (tryE (run_connect_cycle env cc ctx)
            (\<lambda>error. if is_cancelled error then raiseE error
                      else if is_Exception error then handle_connect_cycle_failure env cc ctx error
                      else raiseE error))
         (\<lambda>should_continue. ret (if should_continue then Again () else Leave ())))"

definition supervise ::
    "client environment \<Rightarrow> client_config \<Rightarrow> task_ctx \<Rightarrow> (client, unit) prog" where
  "supervise env cc ctx =
     finallyE (loopE (supervise_pass env cc ctx) ()) (finalize_supervision env cc ctx)"

end
