(* ===== verification/Client.thy ===== *)
theory Client
  imports Supervision
begin

text \<open>
  Models the lifecycle operations of \<^verbatim>\<open>implementations/asyncio_impl/asyncio_tcp_client.py\<close>:
  \<open>start\<close> with its rollback, \<open>stop\<close> with the plan, provenance and execution state of
  \<^verbatim>\<open>_tcp_client_stop_state.py\<close>, and the tasks the client creates.
\<close>

section \<open>Stop plans\<close>

record stop_plan =
  pl_stop_waiter :: "nat option"
  pl_owns_stop :: bool
  pl_stopping_event :: "network_event option"
  pl_supervisor_task :: "nat option"
  pl_should_stop_dispatcher :: bool
  pl_await_supervisor_completion_only :: bool
  pl_skip_await_supervisor :: bool
  pl_stop_called_from_supervisor :: bool
  pl_cancel_supervisor_after_local_cleanup :: bool

definition empty_plan :: stop_plan where
  "empty_plan =
     \<lparr>pl_stop_waiter = None, pl_owns_stop = False, pl_stopping_event = None,
      pl_supervisor_task = None, pl_should_stop_dispatcher = False,
      pl_await_supervisor_completion_only = False, pl_skip_await_supervisor = False,
      pl_stop_called_from_supervisor = False, pl_cancel_supervisor_after_local_cleanup = False\<rparr>"

definition waits_for_owner :: "stop_plan \<Rightarrow> bool" where
  "waits_for_owner plan = (pl_stop_waiter plan \<noteq> None \<and> \<not> pl_owns_stop plan)"

record stop_execution =
  ex_deferred_close_waiters :: "nat list"
  ex_stop_waiter_completion_deferred :: bool
  ex_raise_cancel_after_stop_waiter :: bool

definition new_execution :: stop_execution where
  "new_execution =
     \<lparr>ex_deferred_close_waiters = [], ex_stop_waiter_completion_deferred = False,
      ex_raise_cancel_after_stop_waiter = False\<rparr>"

definition is_fully_stopped :: "client \<Rightarrow> bool" where
  "is_fully_stopped s =
     (cl_lifecycle_state s = STOPPED \<and> cl_supervisor_task s = None \<and>
      cl_heartbeat_sender s = None \<and> cl_connection s = None \<and> \<not> has_background_worker s)"

definition add_existing_supervisor ::
    "task_ctx \<Rightarrow> stop_plan \<Rightarrow> client \<Rightarrow> stop_plan \<times> client" where
  "add_existing_supervisor ctx plan s =
     (if cl_supervisor_task s \<noteq> None \<and> task_done (the (cl_supervisor_task s)) s
      then (plan\<lparr>pl_supervisor_task := None\<rparr>, s\<lparr>cl_supervisor_task := None\<rparr>)
      else (plan\<lparr>pl_supervisor_task := cl_supervisor_task s,
                 pl_await_supervisor_completion_only :=
                   (cl_supervisor_task s \<noteq> None \<and> cl_supervisor_task s \<noteq> tc_task ctx)\<rparr>, s))"

text \<open>\<open>_plan_stop\<close>: the part that only creates the waiter, and the whole.\<close>

definition own_stop :: "task_ctx \<Rightarrow> client \<Rightarrow> stop_plan \<times> client" where
  "own_stop ctx s =
     (case create_future s of (w, s1) \<Rightarrow>
        (empty_plan\<lparr>pl_stop_waiter := Some w, pl_owns_stop := True\<rparr>,
         s1\<lparr>cl_stop_waiter := Some w, cl_stop_owner_task := tc_task ctx\<rparr>))"

definition detach_supervisor ::
    "disp_config \<Rightarrow> task_ctx \<Rightarrow> network_event option \<Rightarrow> stop_plan \<Rightarrow> client \<Rightarrow> stop_plan \<times> client" where
  "detach_supervisor cfg ctx stopping_event plan s =
     (let supervisor_task = cl_supervisor_task s;
          connection_startup_in_progress =
            (cl_starting_connection s \<noteq> None \<or>
             (case cl_connection s of None \<Rightarrow> False
              | Some c \<Rightarrow> cn_opening_event_task (t_conns s c) \<noteq> None));
          called_from_supervisor = (supervisor_task \<noteq> None \<and> tc_task ctx = supervisor_task);
          skip_await = (supervisor_task \<noteq> None \<and>
            (called_from_supervisor \<or>
             (tc_task ctx \<noteq> None \<and> current_task_is_worker ctx s) \<or>
             (tc_task ctx \<noteq> None \<and> current_stop_is_handler_originated cfg ctx s)))
      in (plan\<lparr>pl_stopping_event := stopping_event, pl_supervisor_task := supervisor_task,
               pl_stop_called_from_supervisor := called_from_supervisor,
               pl_should_stop_dispatcher := True, pl_skip_await_supervisor := skip_await,
               pl_cancel_supervisor_after_local_cleanup :=
                 (supervisor_task \<noteq> None \<and> skip_await \<and> \<not> called_from_supervisor \<and>
                  \<not> connection_startup_in_progress)\<rparr>,
          s\<lparr>cl_supervisor_task := None\<rparr>))"

definition plan_stop :: "client_config \<Rightarrow> task_ctx \<Rightarrow> (client, stop_plan) prog" where
  "plan_stop cc ctx =
     bindE (getsE (\<lambda>s. s)) (\<lambda>s.
       if cl_stop_waiter s \<noteq> None then
         ret (if tc_task ctx = cl_stop_owner_task s then empty_plan
              else empty_plan\<lparr>pl_stop_waiter := cl_stop_waiter s\<rparr>)
       else if is_fully_stopped s then ret empty_plan
       else bindE (stateE (own_stop ctx)) (\<lambda>plan.
         if cl_lifecycle_state s = STOPPING \<or> cl_lifecycle_state s = STOPPED then
           bindE (stateE (add_existing_supervisor ctx plan)) (\<lambda>plan.
             getsE (\<lambda>s. plan\<lparr>pl_should_stop_dispatcher := has_background_worker s\<rparr>))
         else bindE (apply_lifecycle_state cc STOPPING) (\<lambda>stopping_event.
           stateE (detach_supervisor (cc_disp cc) ctx stopping_event plan))))"

section \<open>The tasks of a deferred stop\<close>

definition forget_stop_waiter :: "nat option \<Rightarrow> client \<Rightarrow> client" where
  "forget_stop_waiter stop_waiter s =
     (if cl_stop_waiter s = stop_waiter
      then s\<lparr>cl_stop_waiter := None, cl_stop_owner_task := None\<rparr> else s)"

definition complete_after_deferred_stop_events ::
    "client environment \<Rightarrow> client_config \<Rightarrow> task_ctx \<Rightarrow> nat option \<Rightarrow> network_event option \<Rightarrow>
     network_event option \<Rightarrow> nat list \<Rightarrow> nat option \<Rightarrow> bool \<Rightarrow> (client, unit) prog" where
  "complete_after_deferred_stop_events env cc ctx stop_waiter stopping_event stopped_event
     deferred_close_waiters supervisor_task stop_dispatcher =
     complete_stop_waiter stop_waiter (modifyE (forget_stop_waiter stop_waiter))
       (seqE (wait_for_handler_context env None)
         (seqE
           (with_inline_delivery_context (cc_disp cc) ctx (\<lambda>ctx1.
              seqE (client_emit_lifecycle_event env cc ctx1 stopping_event)
                (seqE (await_all env deferred_close_waiters)
                  (seqE (case supervisor_task of
                           None \<Rightarrow> ret () | Some t \<Rightarrow> await_task_preserving env ctx1 t)
                    (client_emit_lifecycle_event env cc ctx1 stopped_event)))))
           (whenE stop_dispatcher (disp_stop env (cc_disp cc) ctx))))"

definition complete_after_deferred_closes ::
    "client environment \<Rightarrow> nat \<Rightarrow> nat list \<Rightarrow> (client, unit) prog" where
  "complete_after_deferred_closes env stop_waiter deferred_close_waiters =
     complete_stop_waiter (Some stop_waiter) (modifyE (forget_stop_waiter (Some stop_waiter)))
       (awaitE env (A_futures deferred_close_waiters))"

definition client_owner_job ::
    "client environment \<Rightarrow> client_config \<Rightarrow> job \<Rightarrow> task_ctx \<Rightarrow> (client, unit) prog" where
  "client_owner_job env cc job ctx =
     (case job of
        Supervisor \<Rightarrow> supervise env cc ctx
      | Stop_completion w stopping stopped waiters supervisor stop_dispatcher \<Rightarrow>
          complete_after_deferred_stop_events env cc ctx w stopping stopped waiters supervisor stop_dispatcher
      | Stop_after_closes w waiters \<Rightarrow> complete_after_deferred_closes env w waiters
      | _ \<Rightarrow> ret ())"

text \<open>What the event loop runs for a task of the client.\<close>

definition client_run_job ::
    "client environment \<Rightarrow> client_config \<Rightarrow> nat \<Rightarrow> job \<Rightarrow> task_ctx \<Rightarrow> (client, unit) prog" where
  "client_run_job env cc t job ctx =
     run_job env (cc_disp cc) (Some (client_on_connection_closed env)) (client_owner_job env cc) t job ctx"

section \<open>The owned stop\<close>

definition await_or_cancel_supervisor ::
    "client environment \<Rightarrow> task_ctx \<Rightarrow> stop_plan \<Rightarrow> exn option \<Rightarrow> (client, exn option) prog" where
  "await_or_cancel_supervisor env ctx plan earlier =
     (case pl_supervisor_task plan of
        Some t \<Rightarrow>
          if \<not> pl_skip_await_supervisor plan then
            keep_first earlier
              (finallyE
                (seqE (whenE (\<not> pl_await_supervisor_completion_only plan) (cancel_task t))
                   (await_task_preserving env ctx t))
                (modifyE (\<lambda>s. if cl_supervisor_task s = Some t
                              then s\<lparr>cl_supervisor_task := None\<rparr> else s)))
          else ret earlier
      | None \<Rightarrow> ret earlier)"

text \<open>The waiters are those of a close that returned; otherwise the empty tuple stays.\<close>

definition teardown_client_stop_resources ::
    "client environment \<Rightarrow> client_config \<Rightarrow> task_ctx \<Rightarrow> stop_plan \<Rightarrow> exn option \<Rightarrow>
     (client, nat list \<times> exn option) prog" where
  "teardown_client_stop_resources env cc ctx plan earlier =
     bindE (keep_first earlier (client_stop_heartbeat_sender env)) (\<lambda>earlier.
     bindE (tryE (bindE (close_current_connection env cc ctx) (\<lambda>waiters. ret (waiters, earlier)))
              (\<lambda>e. if is_caught e
                    then ret ([], case earlier of None \<Rightarrow> Some e | Some e0 \<Rightarrow> Some e0)
                    else raiseE e))
       (\<lambda>(waiters, earlier).
          case pl_supervisor_task plan of
            Some t \<Rightarrow> seqE (whenE (pl_cancel_supervisor_after_local_cleanup plan) (cancel_task t))
                        (ret (waiters, earlier))
          | None \<Rightarrow> ret (waiters, earlier)))"

definition schedule_deferred_stop_events ::
    "task_ctx \<Rightarrow> stop_plan \<Rightarrow> stop_execution \<Rightarrow> network_event option \<Rightarrow> bool \<Rightarrow>
     (client, stop_execution) prog" where
  "schedule_deferred_stop_events ctx plan ex stopped_event stop_dispatcher =
     bindE
       (stateE (create_task
          (Stop_completion (pl_stop_waiter plan) (pl_stopping_event plan) stopped_event
             (ex_deferred_close_waiters ex)
             (if pl_supervisor_task plan \<noteq> tc_task ctx then pl_supervisor_task plan else None)
             stop_dispatcher) ctx))
       (\<lambda>_. ret (ex\<lparr>ex_stop_waiter_completion_deferred := True\<rparr>))"

definition finish_stop_with_dispatcher ::
    "client environment \<Rightarrow> client_config \<Rightarrow> task_ctx \<Rightarrow> stop_plan \<Rightarrow> stop_provenance \<Rightarrow>
     stop_execution \<Rightarrow> network_event option \<Rightarrow> exn option \<Rightarrow> (client, stop_execution \<times> exn option) prog" where
  "finish_stop_with_dispatcher env cc ctx plan pv ex stopped_event earlier =
     (if defers_terminal_events pv then
        bindE (if earlier = None
               then keep_first None (stop_from_handler_origin env (cc_disp cc) ctx)
               else ret earlier)
          (\<lambda>earlier.
             let cancel_later = (pv_active_inline_handler pv \<and>
                   (case earlier of None \<Rightarrow> False | Some e \<Rightarrow> is_cancelled e));
                 ex1 = (if cancel_later then ex\<lparr>ex_raise_cancel_after_stop_waiter := True\<rparr> else ex);
                 earlier1 = (if cancel_later then None else earlier)
             in if earlier1 = None
                then bindE (schedule_deferred_stop_events ctx plan ex1 stopped_event True)
                       (\<lambda>ex2. ret (ex2, None))
                else ret (ex1, earlier1))
      else
        bindE (if earlier = None
               then keep_first None (client_emit_lifecycle_event env cc ctx stopped_event)
               else ret earlier)
          (\<lambda>earlier.
             bindE (keep_first earlier (disp_stop env (cc_disp cc) ctx))
               (\<lambda>earlier. ret (ex, earlier))))"

text \<open>
  \<open>_execute_owned_stop\<close>: the execution state it leaves and the first error, which it raises at its end.
  An exception that \<open>except (Exception, CancelledError)\<close> does not catch passes through.
\<close>

definition execute_owned_stop ::
    "client environment \<Rightarrow> client_config \<Rightarrow> task_ctx \<Rightarrow> stop_plan \<Rightarrow> stop_provenance \<Rightarrow>
     (client, stop_execution \<times> exn option) prog" where
  "execute_owned_stop env cc ctx plan pv =
     bindE (if \<not> defers_terminal_events pv
            then keep_first None (client_emit_lifecycle_event env cc ctx (pl_stopping_event plan))
            else ret None) (\<lambda>earlier.
     bindE (await_or_cancel_supervisor env ctx plan earlier) (\<lambda>earlier.
     bindE (teardown_client_stop_resources env cc ctx plan earlier) (\<lambda>(waiters, earlier).
       let ex = new_execution\<lparr>ex_deferred_close_waiters := waiters\<rparr>
       in if pl_should_stop_dispatcher plan then
            bindE (bindE (getsE cl_lifecycle_state) (\<lambda>state.
                     if state = STOPPING then apply_lifecycle_state cc STOPPED else ret None))
              (\<lambda>stopped_event.
                 finish_stop_with_dispatcher env cc ctx plan pv ex stopped_event earlier)
          else if defers_terminal_events pv \<and> earlier = None then
            bindE (schedule_deferred_stop_events ctx plan ex None False) (\<lambda>ex1. ret (ex1, None))
          else ret (ex, earlier))))"

text \<open>
  \<open>stop\<close> from the owned plan on.  \<open>stop_outcome\<close> is the \<open>try\<close> block: its execution state and
  the exception it ends with; \<open>stop_finish\<close> the \<open>except\<close>, \<open>else\<close> and \<open>finally\<close>.
\<close>

definition stop_release ::
    "stop_plan \<Rightarrow> stop_execution \<Rightarrow> (client, unit) prog" where
  "stop_release plan ex =
     whenE (\<not> ex_stop_waiter_completion_deferred ex) (modifyE (forget_stop_waiter (pl_stop_waiter plan)))"

definition stop_outcome ::
    "client environment \<Rightarrow> client_config \<Rightarrow> task_ctx \<Rightarrow> stop_plan \<Rightarrow> stop_provenance \<Rightarrow>
     (client, stop_execution \<times> exn option) prog" where
  "stop_outcome env cc ctx plan pv =
     bindE (tryE (execute_owned_stop env cc ctx plan pv)
              (\<lambda>e. if is_caught e then ret (new_execution, Some e)
                    else seqE (stop_release plan new_execution) (raiseE e)))
       (\<lambda>(ex, earlier). case earlier of
          Some e \<Rightarrow> ret (ex, Some e)
        | None \<Rightarrow>
            tryE
              (bindE (getsE (\<lambda>s. s)) (\<lambda>s.
                 seqE (case pl_stop_waiter plan of
                         None \<Rightarrow> ret ()
                       | Some w \<Rightarrow> whenE (pv_active_inline_handler pv \<and> \<not> future_done w s)
                           (await_future_preserving env ctx w))
                   (ret (ex, if ex_raise_cancel_after_stop_waiter ex then Some cancelled else None))))
              (\<lambda>e. if is_caught e then ret (ex, Some e)
                    else seqE (stop_release plan ex) (raiseE e)))"

definition stop_finish ::
    "task_ctx \<Rightarrow> stop_plan \<Rightarrow> stop_provenance \<Rightarrow> stop_execution \<Rightarrow> exn option \<Rightarrow> (client, unit) prog" where
  "stop_finish ctx plan pv ex outcome =
     (case outcome of
        Some e \<Rightarrow> seqE (settle_opt (pl_stop_waiter plan) (Inl e)) (seqE (stop_release plan ex) (raiseE e))
      | None \<Rightarrow>
          bindE (getsE (\<lambda>s. case pl_stop_waiter plan of None \<Rightarrow> None
                            | Some w \<Rightarrow> if future_done w s then None else Some w)) (\<lambda>open_waiter.
            case open_waiter of
              None \<Rightarrow> stop_release plan ex
            | Some w \<Rightarrow>
                if ex_stop_waiter_completion_deferred ex then stop_release plan ex
                else if defers_terminal_events pv \<and> ex_deferred_close_waiters ex \<noteq> [] then
                  bindE (stateE (create_task (Stop_after_closes w (ex_deferred_close_waiters ex)) ctx))
                    (\<lambda>_. stop_release plan (ex\<lparr>ex_stop_waiter_completion_deferred := True\<rparr>))
                else seqE (settle_opt (Some w) (Inr ())) (stop_release plan ex)))"

definition client_owned_stop ::
    "client environment \<Rightarrow> client_config \<Rightarrow> task_ctx \<Rightarrow> stop_plan \<Rightarrow> stop_provenance \<Rightarrow> (client, unit) prog" where
  "client_owned_stop env cc ctx plan pv =
     bindE (stop_outcome env cc ctx plan pv) (\<lambda>(ex, outcome). stop_finish ctx plan pv ex outcome)"

definition client_stop ::
    "client environment \<Rightarrow> client_config \<Rightarrow> task_ctx \<Rightarrow> nat option \<Rightarrow> (client, unit) prog" where
  "client_stop env cc ctx running_loop =
     seqE (client_assert_owner_loop running_loop)
       (bindE (plan_stop cc ctx) (\<lambda>plan.
        bindE (getsE (capture_stop_provenance (cc_disp cc) ctx)) (\<lambda>pv.
          if waits_for_owner plan then
            (case pl_stop_waiter plan of
               None \<Rightarrow> ret ()
             | Some w \<Rightarrow> whenE (\<not> pv_handler_originated pv) (awaitE env (A_future w)))
          else if \<not> pl_owns_stop plan then ret ()
          else client_owned_stop env cc ctx plan pv)))"

section \<open>Start\<close>

text \<open>\<open>_rollback_failed_startup\<close>.\<close>

definition rollback_failed_startup ::
    "client environment \<Rightarrow> client_config \<Rightarrow> task_ctx \<Rightarrow> (client, unit) prog" where
  "rollback_failed_startup env cc ctx =
     bindE (getsE cl_supervisor_task) (\<lambda>supervisor_task.
       seqE (modifyE (\<lambda>s. s\<lparr>cl_supervisor_task := None\<rparr>))
      (bindE (getsE cl_lifecycle_state) (\<lambda>state.
       seqE (if state = RUNNING then
               bindE (apply_lifecycle_state cc STOPPING) (\<lambda>_.
                 bindE (apply_lifecycle_state cc STOPPED) (\<lambda>_. ret ()))
             else if state = STARTING then bindE (apply_lifecycle_state cc STOPPED) (\<lambda>_. ret ())
             else ret ())
      (seqE (case supervisor_task of
               None \<Rightarrow> ret ()
             | Some t \<Rightarrow> seqE (cancel_task t) (suppress_all (awaitE env (A_task t))))
      (seqE (suppress_all (client_stop_heartbeat_sender env))
      (seqE (suppress_all (bindE (close_current_connection env cc ctx) (\<lambda>_. ret ())))
            (suppress_all (disp_stop env (cc_disp cc) ctx))))))))"

definition or_rollback ::
    "client environment \<Rightarrow> client_config \<Rightarrow> task_ctx \<Rightarrow> (client, unit) prog \<Rightarrow> (client, unit) prog" where
  "or_rollback env cc ctx publish =
     tryE publish
       (\<lambda>e. if is_caught e then seqE (rollback_failed_startup env cc ctx) (raiseE e) else raiseE e)"

text \<open>The second locked section: start the supervisor, unless a stop came in between.\<close>

definition start_supervisor ::
    "client_config \<Rightarrow> task_ctx \<Rightarrow> (client, nat option \<times> network_event option) prog" where
  "start_supervisor cc ctx =
     bindE (getsE (\<lambda>s. s)) (\<lambda>s.
       if cl_lifecycle_state s \<noteq> STARTING then ret (cl_stop_waiter s, None)
       else bindE (stateE (create_task Supervisor ctx)) (\<lambda>t.
         seqE (modifyE (\<lambda>s. s\<lparr>cl_supervisor_task := Some t\<rparr>))
           (bindE (apply_lifecycle_state cc RUNNING) (\<lambda>running_event. ret (None, running_event)))))"

definition client_start ::
    "client environment \<Rightarrow> client_config \<Rightarrow> task_ctx \<Rightarrow> nat option \<Rightarrow> (client, unit) prog" where
  "client_start env cc ctx running_loop =
     seqE (client_assert_owner_loop running_loop)
       (bindE (getsE cl_lifecycle_state) (\<lambda>state.
          if state = STARTING \<or> state = RUNNING then ret ()
          else
            seqE (modifyE (\<lambda>s. disp_start (cc_disp cc)
                    (s\<lparr>cl_last_connect_error := None, cl_has_started := True\<rparr>)))
           (bindE (apply_lifecycle_state cc STARTING) (\<lambda>starting_event.
            seqE (or_rollback env cc ctx
                    (case starting_event of
                       None \<Rightarrow> ret ()
                     | Some event \<Rightarrow> emit_and_wait env (cc_disp cc) ctx event False))
           (bindE (start_supervisor cc ctx) (\<lambda>(stop_waiter, running_event).
            seqE (case stop_waiter of None \<Rightarrow> ret () | Some w \<Rightarrow> awaitE env (A_future w))
              (case running_event of
                 None \<Rightarrow> ret ()
               | Some event \<Rightarrow>
                   or_rollback env cc ctx (client_emit_lifecycle_event env cc ctx (Some event)))))))))"

text \<open>\<open>async with client\<close>.\<close>

definition client_session ::
    "client environment \<Rightarrow> client_config \<Rightarrow> task_ctx \<Rightarrow> nat option \<Rightarrow> (client, unit) prog \<Rightarrow>
     (client, unit) prog" where
  "client_session env cc ctx running_loop body =
     seqE (client_start env cc ctx running_loop) (finallyE body (client_stop env cc ctx running_loop))"

end
