(* ===== verification/Client_Safety.thy ===== *)
theory Client_Safety
  imports Client
begin

text \<open>
  What the operations of the client keep of its lifecycle fields, whatever the network, the
  handlers and the other tasks do, and the runs of the client as a transition system.
\<close>

section \<open>Every operation keeps an invariant of the lifecycle\<close>

context client_invariant
begin

lemma may_reconnect_gets: "keeps I (getsE (may_reconnect cc))"
  by (rule keeps_getsE)

lemma sleep_keeps:
  assumes "env_keeps I env"
  shows "keeps I (sleep_until_next_reconnect env cc ctx plan)"
  unfolding sleep_until_next_reconnect_def emit_reconnect_scheduled_def wait_for_reconnect_delay_or_stop_def
  by (auto intro!: coroutine_keeps own_keeps keeps_awaitE emit_keeps assms split: option.split)

lemma plan_reconnect_keeps: "I s \<Longrightarrow> I (snd (plan_reconnect cc s))"
  by (auto simp: plan_reconnect_def elim: depends split: prod.split)

lemma outcome_keeps: "I s \<Longrightarrow> I (snd (determine_failure_outcome cc error s))"
proof -
  assume "I s"
  then have "I (snd (capture_failure_state cc error s))"
    by (rule depends) (simp_all add: capture_failure_state_def own_simps)
  then show ?thesis
    using plan_reconnect_keeps [of "snd (capture_failure_state cc error s)" cc]
    by (simp add: determine_failure_outcome_def case_prod_beta)
qed

lemma attempt_keeps:
  assumes "env_keeps I env"
  shows "keeps I (start_connect_attempt env cc ctx)"
  unfolding start_connect_attempt_def
  by (intro coroutine_keeps own_keeps emit_keeps client_connect_once_keeps assms)
    (simp_all add: begin_attempt_def own_simps)

lemma termination_keeps:
  assumes "env_keeps I env"
  shows "keeps I (await_connection_termination env)"
  unfolding await_connection_termination_def termination_pass_def
  by (intro keeps_loopE coroutine_keeps own_keeps keeps_awaitE assms) simp

lemma cycle_keeps:
  assumes "env_keeps I env"
  shows "keeps I (run_connect_cycle env cc ctx)"
  unfolding run_connect_cycle_def
  by (intro coroutine_keeps attempt_keeps termination_keeps plan_reconnect_keeps sleep_keeps assms)

lemma shutdown_keeps:
  assumes "env_keeps I env"
  shows "keeps I (shutdown_active_resources env cc ctx)" "keeps I (teardown_after_failure env cc ctx)"
  unfolding shutdown_active_resources_def teardown_after_failure_def
  by (intro coroutine_keeps stop_heartbeat_keeps close_current_keeps assms)+

lemma failure_keeps:
  assumes "env_keeps I env"
  shows "keeps I (handle_connect_cycle_failure env cc ctx error)"
  unfolding handle_connect_cycle_failure_def emit_failure_events_def
  by (intro coroutine_keeps outcome_keeps emit_keeps shutdown_keeps sleep_keeps assms)

lemma terminal_keeps:
  assumes "env_keeps I env"
  shows "keeps I (publish_terminal_lifecycle_transitions env cc ctx)"
proof -
  have order: "keeps I (emit_in_order env cc ctx es)" for es
    by (induction es) (auto intro: keeps_ret keeps_seqE emit_lifecycle_keeps assms)
  have guarded: "keeps I (apply_stopping_transition_if_active cl_lifecycle_state (apply_lifecycle_state cc))"
    "keeps I (apply_stopped_transition_if_stopping cl_lifecycle_state (apply_lifecycle_state cc))"
    unfolding apply_stopping_transition_if_active_def apply_stopped_transition_if_stopping_def keeps_def
    by (auto simp: ret_def split: if_splits option.splits
        dest!: keepsD [OF keeps_bindE [OF apply_keeps], rotated -1] intro: keeps_ret keeps_raiseE
        split: option.split)
  show ?thesis
    unfolding publish_terminal_lifecycle_transitions_def collect_terminal_lifecycle_events_def
    by (intro coroutine_keeps guarded order)
qed

lemma supervise_keeps:
  assumes "env_keeps I env"
  shows "keeps I (supervise env cc ctx)"
proof -
  have pass: "keeps I (supervise_pass env cc ctx u)" for u
    unfolding supervise_pass_def by (intro coroutine_keeps cycle_keeps failure_keeps assms)
  show ?thesis
    unfolding supervise_def finalize_supervision_def supervision_stop_dispatcher_def
    by (intro keeps_finallyE keeps_loopE pass coroutine_keeps shutdown_keeps terminal_keeps
        stable_stop_keeps [OF stable assms] assms)
qed

lemma rollback_keeps:
  assumes "env_keeps I env"
  shows "keeps I (rollback_failed_startup env cc ctx)" "keeps I m \<Longrightarrow> keeps I (or_rollback env cc ctx m)"
proof -
  show r: "keeps I (rollback_failed_startup env cc ctx)"
    unfolding rollback_failed_startup_def
    by (auto intro!: coroutine_keeps own_keeps apply_keeps keeps_awaitE stop_heartbeat_keeps
        close_current_keeps stable_stop_keeps [OF stable assms] assms split: option.split)
  show "keeps I m \<Longrightarrow> keeps I (or_rollback env cc ctx m)"
    unfolding or_rollback_def by (intro coroutine_keeps r)
qed

lemma disp_start_keeps: "I s \<Longrightarrow> I (disp_start cfg s)"
  by (erule depends) (simp_all add: disp_start_def)

lemma client_start_keeps:
  assumes "env_keeps I env"
  shows "keeps I (client_start env cc ctx l)"
proof -
  have launch: "keeps I (modifyE (\<lambda>s. disp_start (cc_disp cc)
      (s\<lparr>cl_last_connect_error := None, cl_has_started := True\<rparr>)))"
    by (intro keeps_modifyE disp_start_keeps) (auto elim: depends)
  have task: "I s \<Longrightarrow> I (snd (create_task Supervisor ctx s))" for s
    by (rule task_created) simp_all
  have supervisor: "keeps I (start_supervisor cc ctx)"
    unfolding start_supervisor_def
    by (intro coroutine_keeps task own_keeps apply_keeps) simp_all
  show ?thesis
    unfolding client_start_def
    by (intro coroutine_keeps owner_loop_keeps launch apply_keeps)
      (auto intro!: coroutine_keeps supervisor rollback_keeps keeps_awaitE emit_lifecycle_keeps
        stable_emit_and_wait_keeps [OF stable assms] assms split: option.split prod.split)
qed

lemma plan_keeps: "keeps I (plan_stop cc ctx)"
proof -
  have own: "I s \<Longrightarrow> I (snd (own_stop ctx s))" for s
    by (erule depends) (simp_all add: own_stop_def create_future_def)
  have existing: "I s \<Longrightarrow> I (snd (add_existing_supervisor ctx plan s))" for plan s
    by (erule depends) (simp_all add: add_existing_supervisor_def)
  have detach: "I s \<Longrightarrow> I (snd (detach_supervisor cfg ctx e plan s))" for cfg e plan s
    by (erule depends) (simp_all add: detach_supervisor_def Let_def)
  show ?thesis
    unfolding plan_stop_def
    by (intro coroutine_keeps own existing detach apply_keeps)
qed

lemma schedule_keeps: "keeps I (schedule_deferred_stop_events ctx plan ex e b)"
  unfolding schedule_deferred_stop_events_def
  by (intro coroutine_keeps task_created) simp_all

lemma finish_stop_keeps:
  assumes "env_keeps I env"
  shows "keeps I (finish_stop_with_dispatcher env cc ctx plan pv ex e fe)"
  unfolding finish_stop_with_dispatcher_def Let_def
  by (intro coroutine_keeps keeps_keep_first schedule_keeps emit_lifecycle_keeps
      stable_stop_from_handler_keeps [OF stable assms] stable_stop_keeps [OF stable assms] assms)

lemma execute_keeps:
  assumes "env_keeps I env"
  shows "keeps I (execute_owned_stop env cc ctx plan pv)"
proof -
  have forget: "keeps I (modifyE (\<lambda>s. if cl_supervisor_task s = Some t
      then s\<lparr>cl_supervisor_task := None\<rparr> else s))" for t
    by (rule own_keeps) simp
  have supervisor: "keeps I (await_or_cancel_supervisor env ctx plan fe)" for fe
    unfolding await_or_cancel_supervisor_def
    by (auto intro!: coroutine_keeps keeps_keep_first forget await_preserving_keeps assms
        split: option.split)
  have teardown: "keeps I (teardown_client_stop_resources env cc ctx plan fe)" for fe
    unfolding teardown_client_stop_resources_def
    by (auto intro!: coroutine_keeps keeps_keep_first stop_heartbeat_keeps close_current_keeps assms
        split: option.split prod.split)
  show ?thesis
    unfolding execute_owned_stop_def Let_def
    by (auto intro!: coroutine_keeps keeps_keep_first emit_lifecycle_keeps supervisor teardown apply_keeps
        finish_stop_keeps schedule_keeps assms split: prod.split)
qed

lemma owned_stop_keeps:
  assumes "env_keeps I env"
  shows "keeps I (client_owned_stop env cc ctx plan pv)"
proof -
  have release: "keeps I (stop_release plan ex)" for ex
    unfolding stop_release_def
    by (intro keeps_whenE own_keeps) (simp add: forget_stop_waiter_def)
  have outcome: "keeps I (stop_outcome env cc ctx plan pv)"
    unfolding stop_outcome_def
    by (auto intro!: coroutine_keeps execute_keeps release await_preserving_keeps assms
        split: option.split prod.split)
  have "I s \<Longrightarrow> I (snd (create_task (Stop_after_closes w ws) ctx s))" for w ws s
    by (rule task_created) simp_all
  then have "keeps I (stop_finish ctx plan pv ex e)" for ex e
    unfolding stop_finish_def
    by (auto intro!: coroutine_keeps release split: option.split)
  then show ?thesis
    unfolding client_owned_stop_def by (auto intro!: keeps_bindE outcome split: prod.split)
qed

lemma client_stop_keeps:
  assumes "env_keeps I env"
  shows "keeps I (client_stop env cc ctx l)"
  unfolding client_stop_def
  by (auto intro!: coroutine_keeps owner_loop_keeps plan_keeps owned_stop_keeps keeps_awaitE assms
      split: option.split)

lemma owner_job_keeps:
  assumes "env_keeps I env"
  shows "keeps I (client_owner_job env cc job ctx)"
proof -
  have forget: "keeps I (modifyE (forget_stop_waiter w))" for w
    by (rule own_keeps) (simp add: forget_stop_waiter_def)
  have work: "keeps I (case t of None \<Rightarrow> ret () | Some t \<Rightarrow> await_task_preserving env ctx1 t)" for t ctx1
    by (auto intro: keeps_ret await_preserving_keeps assms split: option.split)
  show ?thesis
    unfolding client_owner_job_def complete_after_deferred_stop_events_def
      complete_after_deferred_closes_def with_inline_delivery_context_def
    by (cases job)
      (auto intro!: complete_stop_waiter_keeps forget coroutine_keeps work emit_lifecycle_keeps
        await_all_keeps supervise_keeps keeps_awaitE stable_wait_for_handler_context_keeps [OF stable]
        stable_stop_keeps [OF stable] assms)
qed

lemma client_run_job_keeps:
  assumes "env_keeps I env"
  shows "keeps I (client_run_job env cc t job ctx)"
  unfolding client_run_job_def
  by (intro run_job_keeps on_connection_closed_keeps owner_job_keeps assms)

lemma session_keeps:
  assumes "env_keeps I env" "keeps I body"
  shows "keeps I (client_session env cc ctx l body)"
  unfolding client_session_def
  by (intro coroutine_keeps client_start_keeps client_stop_keeps assms)

end

section \<open>The lifecycle of a client\<close>

definition client_inv :: "string \<Rightarrow> client \<Rightarrow> bool" where
  "client_inv rid s \<longleftrightarrow>
     cl_running s = (cl_lifecycle_state s = STARTING \<or> cl_lifecycle_state s = RUNNING) \<and>
     chain STOPPED (map (transition_event rid) (cl_transitions s)) (cl_lifecycle_state s)"

interpretation lifecycle: client_invariant "client_inv rid" for rid
proof
  fix s t
  assume "client_inv rid s" "legal (cl_lifecycle_state s) t"
  then show "client_inv rid (client_moved t s)"
    by (auto simp: client_inv_def transition_event_def intro: chain_append)
qed (simp add: client_inv_def)

text \<open>
  What can happen to a client: its public operations are called from any task, in any order,
  its connections are used, and the tasks that were created run.
\<close>

inductive client_step :: "client environment \<Rightarrow> client_config \<Rightarrow> client \<Rightarrow> client \<Rightarrow> bool"
  for env cc where
  started: "client_start env cc ctx l s = Some (r, s') \<Longrightarrow> client_step env cc s s'"
| stopped: "client_stop env cc ctx l s = Some (r, s') \<Longrightarrow> client_step env cc s s'"
| waited: "client_wait_until_connected env cc l timeout poll s = Some (v, s') \<Longrightarrow> client_step env cc s s'"
| sent: "conn_send env c data s = Some (r, s') \<Longrightarrow> client_step env cc s s'"
| closed: "conn_close env (cc_disp cc) ctx c s = Some (r, s') \<Longrightarrow> client_step env cc s s'"
| ran: "t_jobs s t = Some (job, ctx) \<Longrightarrow> client_run_job env cc t job ctx s = Some (r, s') \<Longrightarrow>
    client_step env cc s s'"

inductive client_runs :: "client environment \<Rightarrow> client_config \<Rightarrow> client \<Rightarrow> client \<Rightarrow> bool"
  for env cc s where
  refl: "client_runs env cc s s"
| step: "client_runs env cc s s1 \<Longrightarrow> client_step env cc s1 s2 \<Longrightarrow> client_runs env cc s s2"

lemma client_step_inv:
  assumes "client_step env cc s s'" "env_keeps (client_inv rid) env" "client_inv rid s"
  shows "client_inv rid s'"
  using assms(1)
proof cases
  case (started ctx l r)
  then show ?thesis using keepsD [OF lifecycle.client_start_keeps [OF assms(2)] assms(3)] by blast
next
  case (stopped ctx l r)
  then show ?thesis using keepsD [OF lifecycle.client_stop_keeps [OF assms(2)] assms(3)] by blast
next
  case (waited l timeout poll v)
  then show ?thesis using keepsD [OF lifecycle.wait_keeps(2) [OF assms(2)] assms(3)] by blast
next
  case (sent c data r)
  then show ?thesis using keepsD [OF lifecycle.conn_send_keeps [OF assms(2)] assms(3)] by blast
next
  case (closed ctx c r)
  then show ?thesis using keepsD [OF lifecycle.conn_close_keeps [OF assms(2)] assms(3)] by blast
next
  case (ran t job ctx r)
  then show ?thesis using keepsD [OF lifecycle.client_run_job_keeps [OF assms(2)] assms(3)] by blast
qed

lemma client_runs_inv:
  assumes "client_runs env cc s s'" "env_keeps (client_inv rid) env" "client_inv rid s"
  shows "client_inv rid s'"
  using assms(1) by induction (use assms in \<open>auto intro: client_step_inv\<close>)

lemma client_init_inv:
  assumes "client_init settings on_event provider draw nc = Inr (cc, s)"
  shows "client_inv rid s" "cl_transitions s = []" "cl_lifecycle_state s = STOPPED"
  using assms
  by (auto simp: client_init_def bindR_Inr Let_def client_inv_def transport.defs split: prod.splits)

text \<open>
  C25: The lifecycle of a TCP client is legal and balanced over every history of calls, tasks and
  interleavings: the transitions it applies start at STOPPED and are legal one by one, STOPPED is
  reached at most once per start, STOPPING and RUNNING are entered at most once per start, and the
  \<open>_running\<close> flag the supervisor loops on is true exactly in STARTING and RUNNING.
\<close>
theorem client_lifecycle_balanced:
  assumes "client_init settings on_event provider draw nc = Inr (cc, s0)"
    and "env_keeps (client_inv (cc_component_id cc)) env"
    and "client_runs env cc s0 s"
  shows "(let es = map (transition_event (cc_component_id cc)) (cl_transitions s)
          in chain STOPPED es (cl_lifecycle_state s) \<and>
             times_entered STARTING es =
               times_entered STOPPED es + (if cl_lifecycle_state s = STOPPED then 0 else 1) \<and>
             times_entered STOPPING es \<le> times_entered STARTING es \<and>
             times_entered RUNNING es \<le> times_entered STARTING es) \<and>
         cl_running s = (cl_lifecycle_state s = STARTING \<or> cl_lifecycle_state s = RUNNING)"
proof -
  have inv: "client_inv (cc_component_id cc) s"
    by (rule client_runs_inv [OF assms(3,2) client_init_inv(1) [OF assms(1)]])
  then have c: "chain STOPPED (map (transition_event (cc_component_id cc)) (cl_transitions s))
      (cl_lifecycle_state s)"
    by (simp add: client_inv_def)
  show ?thesis
    using inv chain_balance [OF c] chain_stopping [OF c] chain_running [OF c]
    by (simp add: client_inv_def Let_def split: if_splits)
qed

lemma sample_start:
  "\<exists>s'. client_start quiet sample_cc (plain_ctx None) (Some 0) sample_client = Some (Inr (), s') \<and>
     cl_lifecycle_state s' = RUNNING"
proof -
  have emit: "wp False (emit quiet (cc_disp sample_cc) (plain_ctx None) e) Q E s"
    if "\<And>s'. cl_lifecycle_state s' = cl_lifecycle_state s \<Longrightarrow> Q () s'" for e Q E and s :: client
  proof (rule wp_emit_inline [OF sample_cc_inline quiet_env(3)])
    fix a :: unit and s' :: client
    assume "disp.more s' = disp.more s"
    then show "Q a s'" using that [OF transport_more_own(3)] by (cases a) simp
  qed
  have launch: "disp_start (cc_disp sample_cc) s = s" for s :: client
    by (simp add: disp_start_def sample_cc_inline)
  have "wp False (client_start quiet sample_cc (plain_ctx None) (Some 0))
      (\<lambda>_ s'. cl_lifecycle_state s' = RUNNING) (\<lambda>_ _. False) sample_client"
    unfolding client_start_def client_assert_owner_loop_def or_rollback_def start_supervisor_def
      client_emit_lifecycle_event_def emit_lifecycle_event_def
    by (simp add: wp_simps assert_running_on_owner_loop_def emit_and_wait_inline sample_cc_inline launch)
      (rule emit, simp add: wp_simps create_task_def Let_def, rule emit, simp)
  then show ?thesis by (auto dest!: wp_valueD)
qed

theorem client_lifecycle_balanced_witness:
  "\<exists>s. client_runs quiet sample_cc sample_client s \<and> cl_lifecycle_state s = RUNNING \<and> cl_running s \<and>
     (let es = map (transition_event (cc_component_id sample_cc)) (cl_transitions s)
      in times_entered STARTING es = times_entered STOPPED es + 1)"
proof -
  obtain s where run: "client_start quiet sample_cc (plain_ctx None) (Some 0) sample_client = Some (Inr (), s)"
    and s: "cl_lifecycle_state s = RUNNING"
    using sample_start by blast
  have runs: "client_runs quiet sample_cc sample_client s"
    using client_runs.refl client_step.started [OF run] by (rule client_runs.step)
  show ?thesis
    using client_lifecycle_balanced [OF sample_client_init quiet_env(1) runs] runs s by (auto simp: Let_def)
qed

end
