(* ===== verification/Client_Stop.thy ===== *)
theory Client_Stop
  imports Client_Safety
begin

text \<open>
  What an owned stop of the client achieves.  While \<open>_stop_waiter\<close> is set the other tasks leave
  the lifecycle alone and only release resources (\<open>respects_stop\<close>); then the stop reaches
  STOPPED with everything released and every waiting caller woken, also when its steps fail.
\<close>

section \<open>The rely condition\<close>

definition only_releases :: "'b option \<Rightarrow> 'b option \<Rightarrow> bool" where
  "only_releases x y \<longleftrightarrow> y = x \<or> y = None"

definition stop_rely :: "client \<Rightarrow> client \<Rightarrow> bool" where
  "stop_rely s s' \<longleftrightarrow> cl_stop_waiter s' = cl_stop_waiter s \<and>
     cl_lifecycle_state s' = cl_lifecycle_state s \<and> cl_transitions s' = cl_transitions s \<and>
     length (d_futures s) \<le> length (d_futures s') \<and>
     only_releases (cl_supervisor_task s) (cl_supervisor_task s') \<and>
     only_releases (cl_heartbeat_sender s) (cl_heartbeat_sender s') \<and>
     only_releases (cl_connection s) (cl_connection s') \<and>
     only_releases (cl_starting_connection s) (cl_starting_connection s')"

definition respects_stop :: "client environment \<Rightarrow> bool" where
  "respects_stop env \<longleftrightarrow> (\<forall>p s. cl_stop_waiter s \<noteq> None \<longrightarrow> stop_rely s (snd (env p s)))"

text \<open>
  A stop in progress: its waiter, the lifecycle so far, and what may still be held of the
  heartbeat sender, the connection and the starting connection.
\<close>

definition winding ::
    "nat \<Rightarrow> component_lifecycle_state \<Rightarrow> (component_lifecycle_state \<times> component_lifecycle_state) list \<Rightarrow>
     nat option \<Rightarrow> nat option \<Rightarrow> nat option \<Rightarrow> client \<Rightarrow> bool" where
  "winding w st trs H C S s \<longleftrightarrow> cl_stop_waiter s = Some w \<and> w < length (d_futures s) \<and>
     cl_lifecycle_state s = st \<and> cl_transitions s = trs \<and> cl_supervisor_task s = None \<and>
     only_releases H (cl_heartbeat_sender s) \<and> only_releases C (cl_connection s) \<and>
     only_releases S (cl_starting_connection s)"

lemma only_releases_simps [simp]: "only_releases x x" "only_releases x None"
  "only_releases None y = (y = None)"
  by (auto simp: only_releases_def)

lemma only_releases_trans: "only_releases x y \<Longrightarrow> only_releases y z \<Longrightarrow> only_releases x z"
  by (auto simp: only_releases_def)

lemma winding_env: "respects_stop env \<Longrightarrow> env_keeps (winding w st trs H C S) env"
  unfolding respects_stop_def env_keeps_def
proof (intro allI impI)
  fix p s
  assume rely: "\<forall>p s. cl_stop_waiter s \<noteq> None \<longrightarrow> stop_rely s (snd (env p s))"
    and s: "winding w st trs H C S s"
  then have "stop_rely s (snd (env p s))" by (simp add: winding_def)
  then show "winding w st trs H C S (snd (env p s))"
    using s unfolding winding_def stop_rely_def by (auto intro: only_releases_trans)
qed

lemma client_own_all:
  fixes s s' :: client
  assumes "transport.more s' = transport.more s"
  shows "cl_stop_waiter s' = cl_stop_waiter s" "cl_supervisor_task s' = cl_supervisor_task s"
    "cl_heartbeat_sender s' = cl_heartbeat_sender s" "cl_connection s' = cl_connection s"
    "cl_starting_connection s' = cl_starting_connection s"
  using assms by (cases s; cases s'; simp)+

interpretation winding: owner_invariant "winding w st trs H C S" for w st trs H C S
proof
  fix s s' :: client
  assume "winding w st trs H C S s" and more: "transport.more s' = transport.more s"
    and "length (d_futures s) \<le> length (d_futures s')"
  then show "winding w st trs H C S s'"
    using client_own [OF more] client_own_all [OF more] by (simp add: winding_def)
qed

section \<open>The steps\<close>

text \<open>
  The assumptions of a run: \<open>t\<close> accepts runs that never return; otherwise the dispatcher is
  INLINE and no wait on a task is interrupted.
\<close>

definition stop_env :: "bool \<Rightarrow> client environment \<Rightarrow> client_config \<Rightarrow> task_ctx \<Rightarrow> bool" where
  "stop_env t env cc ctx \<longleftrightarrow> respects_stop env \<and> env_caught env \<and>
     (t \<or> dc_dispatch_mode (cc_disp cc) = INLINE \<and> uninterrupted ctx env)"

lemma stop_envD:
  assumes "stop_env t env cc ctx"
  shows "env_keeps (winding w st trs H C S) env" "env_caught env"
    "t \<or> dc_dispatch_mode (cc_disp cc) = INLINE" "t \<or> uninterrupted ctx env"
  using assms winding_env by (auto simp: stop_env_def)

lemma wp_stop_emit:
  assumes "stop_env t env cc ctx" "winding w st trs H C S s"
    and "\<And>s'. winding w st trs H C S s' \<Longrightarrow> Q () s'"
    and "\<And>e s'. is_caught e \<Longrightarrow> winding w st trs H C S s' \<Longrightarrow> E e s'"
  shows "wp t (client_emit_lifecycle_event env cc ctx event) Q E s"
proof (cases event)
  case None
  then show ?thesis
    using assms by (simp add: client_emit_lifecycle_event_def emit_lifecycle_event_def wp_simps)
next
  case (Some e)
  note d = stop_envD [OF assms(1)]
  show ?thesis
    unfolding client_emit_lifecycle_event_def emit_lifecycle_event_def Some option.case
    by (rule wp_emit [OF winding.stable d(1,2,3) assms(2)]) (use assms in auto)
qed

lemma wp_stop_supervisor:
  assumes "stop_env t env cc ctx" "winding w st trs H C S s"
    and "\<And>fe' s'. winding w st trs H C S s' \<Longrightarrow> Q fe' s'"
  shows "wp t (await_or_cancel_supervisor env ctx plan fe) Q E s"
proof -
  note d = stop_envD [OF assms(1)]
  have cancel: "winding w st trs H C S (s\<lparr>d_cancelling := X\<rparr>)" for X
    using assms(2) by (simp add: winding_def)
  have wait: "wp t (await_task_preserving env ctx u)
      (\<lambda>_ s'. winding w st trs H C S s' \<and> cl_supervisor_task s' = None)
      (\<lambda>e s'. is_caught e \<and> winding w st trs H C S s' \<and> cl_supervisor_task s' = None) s'"
    if "winding w st trs H C S s'" for u s'
    by (rule wp_by_parts [OF winding.await_preserving_keeps(1) [OF d(1)] await_task_caught [OF d(2)] _ that])
      (use d(4) await_task_returns in \<open>auto simp: winding_def\<close>)
  show ?thesis
    unfolding await_or_cancel_supervisor_def cancel_task_def
    by (auto simp: wp_simps assms cancel intro!: wp_mono [OF wait] split: option.split)
qed

lemma wp_stop_heartbeat:
  assumes "stop_env t env cc ctx" "winding w st trs H C S s"
    and "\<And>s'. winding w st trs None C S s' \<Longrightarrow> Q () s'"
    and "\<And>e s'. is_caught e \<Longrightarrow> winding w st trs None C S s' \<Longrightarrow> E e s'"
  shows "wp t (client_stop_heartbeat_sender env) Q E s"
proof -
  note d = stop_envD [OF assms(1)]
  have "winding w st trs None C S (s\<lparr>cl_heartbeat_sender := None\<rparr>)"
    using assms(2) by (simp add: winding_def)
  then show ?thesis
    unfolding client_stop_heartbeat_sender_def stop_heartbeat_sender_def
    by (auto simp: wp_simps assms intro!: wp_awaitE_frame [OF d(1,2)] split: option.split)
qed

lemma wp_stop_close_all:
  assumes "stop_env t env cc ctx" "winding w st trs H C S s"
    and "\<And>a s'. winding w st trs H C S s' \<Longrightarrow> Q a s'"
    and "\<And>e s'. is_caught e \<Longrightarrow> winding w st trs H C S s' \<Longrightarrow> E e s'"
  shows "wp t (close_all env cc ctx cs ws) Q E s"
  using assms(2)
proof (induction cs arbitrary: ws s)
  case Nil
  then show ?case using assms by (simp add: wp_simps)
next
  case (Cons c cs)
  note d = stop_envD [OF assms(1)]
  show ?case
    unfolding close_all.simps wp_seqE
  proof (rule wp_by_parts [OF winding.conn_close_keeps [OF d(1)] conn_close_caught [OF d(2)]
        disjI2 [OF conn_close_returns] Cons.prems])
    fix s'
    assume "winding w st trs H C S s'"
    then have "winding w st trs H C S (snd (deferred_waiter_of (cc_disp cc) ctx c s'))"
      by (rule winding.deferred_waiter_keeps)
    then show "wp t (bindE (stateE (deferred_waiter_of (cc_disp cc) ctx c))
        (\<lambda>waiter. close_all env cc ctx cs (append_opt ws waiter))) Q E s'"
      by (auto simp: wp_simps Cons.IH split: prod.split)
  qed (rule assms(4))
qed

lemma wp_stop_close:
  assumes "stop_env t env cc ctx" "winding w st trs H C S s"
    and "\<And>a s'. winding w st trs H None None s' \<Longrightarrow> Q a s'"
    and "\<And>e s'. is_caught e \<Longrightarrow> winding w st trs H None None s' \<Longrightarrow> E e s'"
  shows "wp t (close_current_connection env cc ctx) Q E s"
proof -
  have start: "winding w st trs H (cl_connection s) None (s\<lparr>cl_starting_connection := None\<rparr>)"
    using assms(2) by (simp add: winding_def)
  have released: "winding w st trs H None None (notify_status_changed
      ((if cl_connection s' = cl_connection s \<or> cl_connection s' = cl_starting_connection s
        then s'\<lparr>cl_connection := None\<rparr> else s')\<lparr>cl_connection_closed_event := True\<rparr>))"
    if "winding w st trs H (cl_connection s) None s'" for s'
    using that by (auto simp: winding_def notify_status_changed_def only_releases_def)
  show ?thesis
    unfolding close_current_connection_def wp_bindE wp_getsE wp_seqE wp_modifyE wp_finallyE
    by (rule wp_stop_close_all [OF assms(1) start]) (auto dest!: released intro: assms(3,4))
qed

lemma wp_stop_teardown:
  assumes "stop_env t env cc ctx" "winding w st trs H C S s"
    and "\<And>a s'. winding w st trs None None None s' \<Longrightarrow> Q a s'"
  shows "wp t (teardown_client_stop_resources env cc ctx plan fe) Q E s"
proof -
  have cancel: "winding w st trs None None None (s'\<lparr>d_cancelling := X\<rparr>)"
    if "winding w st trs None None None s'" for s' X
    using that by (simp add: winding_def)
  show ?thesis
    unfolding teardown_client_stop_resources_def cancel_task_def
    by (auto simp: wp_simps assms cancel intro!: wp_stop_heartbeat [OF assms(1,2)] wp_stop_close [OF assms(1)]
        split: option.split)
qed

lemma wp_stop_finish_dispatcher:
  assumes "stop_env t env cc ctx" "winding w st trs H C S s" "\<not> defers_terminal_events pv"
    and "\<And>a s'. fst a = ex \<Longrightarrow> winding w st trs H C S s' \<Longrightarrow> Q a s'"
  shows "wp t (finish_stop_with_dispatcher env cc ctx plan pv ex stopped fe) Q E s"
proof -
  note d = stop_envD [OF assms(1)]
  note stop = wp_disp_stop [OF winding.stable d(1) [of w st trs H C S] d(2)]
  show ?thesis
    unfolding finish_stop_with_dispatcher_def
    by (auto simp: wp_simps assms intro!: wp_stop_emit [OF assms(1,2)] stop)
qed

lemma wp_stop_execute:
  assumes "stop_env t env cc ctx" "winding w STOPPING trs H C S s" "\<not> defers_terminal_events pv"
    and "pl_should_stop_dispatcher plan"
    and "\<And>a s'. \<not> ex_stop_waiter_completion_deferred (fst a) \<Longrightarrow>
      \<not> ex_raise_cancel_after_stop_waiter (fst a) \<Longrightarrow>
      winding w STOPPED (trs @ [(STOPPING, STOPPED)]) None None None s' \<Longrightarrow> Q a s'"
  shows "wp t (execute_owned_stop env cc ctx plan pv) Q E s"
proof -
  have moved: "winding w STOPPED (trs @ [(STOPPING, STOPPED)]) None None None (client_moved STOPPED s')"
    if "winding w STOPPING trs None None None s'" for s'
    using that
    by (auto simp: winding_def client_on_lifecycle_state_applied_def client_set_state_def
        notify_status_changed_def)
  have last: "wp t (finish_stop_with_dispatcher env cc ctx plan pv
      (new_execution\<lparr>ex_deferred_close_waiters := ws\<rparr>) (Some e) fe) Q E (client_moved STOPPED s')"
    if "winding w STOPPING trs None None None s'" for ws e fe s'
    by (rule wp_stop_finish_dispatcher [OF assms(1) moved [OF that] assms(3)])
      (auto simp: new_execution_def intro: assms(5))
  have finish: "wp t (bindE (bindE (getsE cl_lifecycle_state) (\<lambda>state.
        if state = STOPPING then apply_lifecycle_state cc STOPPED else ret None))
      (\<lambda>stopped_event. finish_stop_with_dispatcher env cc ctx plan pv
        (new_execution\<lparr>ex_deferred_close_waiters := ws\<rparr>) stopped_event fe)) Q E s'"
    if s': "winding w STOPPING trs None None None s'" for ws fe s'
  proof -
    have "cl_lifecycle_state s' = STOPPING" using s' by (simp add: winding_def)
    then show ?thesis using last [OF s'] by (simp add: wp_simps)
  qed
  show ?thesis
    unfolding execute_owned_stop_def
    by (auto simp: wp_bindE wp_keep_first wp_ret assms(3,4) Let_def
        intro!: wp_stop_emit [OF assms(1,2)] wp_stop_supervisor [OF assms(1)]
          wp_stop_teardown [OF assms(1)] finish [unfolded wp_bindE])
qed

text \<open>What a finished stop leaves.\<close>

definition all_stopped ::
    "nat \<Rightarrow> (component_lifecycle_state \<times> component_lifecycle_state) list \<Rightarrow> client \<Rightarrow> bool" where
  "all_stopped w trs s \<longleftrightarrow> cl_lifecycle_state s = STOPPED \<and> cl_transitions s = trs \<and>
     cl_supervisor_task s = None \<and> cl_heartbeat_sender s = None \<and> cl_connection s = None \<and>
     cl_starting_connection s = None \<and> cl_stop_waiter s = None \<and> future_done w s"

lemma settled_winding:
  "winding w st trs None None None s \<Longrightarrow> winding w st trs None None None (settle_future w r s) \<and>
     future_done w (settle_future w r s)"
  by (auto simp: winding_def settle_future_def future_done_def)

lemma released_winding:
  "winding w STOPPED trs None None None s \<Longrightarrow> future_done w s \<Longrightarrow>
     all_stopped w trs (forget_stop_waiter (Some w) s)"
  by (auto simp: winding_def all_stopped_def forget_stop_waiter_def future_done_def)

lemma wp_owned_stop:
  assumes "stop_env t env cc ctx" "winding w STOPPING trs H C S s" "\<not> defers_terminal_events pv"
    and "pl_should_stop_dispatcher plan" "pl_stop_waiter plan = Some w"
  shows "wp t (client_owned_stop env cc ctx plan pv)
    (\<lambda>_. all_stopped w (trs @ [(STOPPING, STOPPED)])) (\<lambda>_. all_stopped w (trs @ [(STOPPING, STOPPED)])) s"
proof -
  let ?W = "winding w STOPPED (trs @ [(STOPPING, STOPPED)]) None None None"
  have inl: "\<not> pv_active_inline_handler pv"
    using assms(3) by (simp add: defers_terminal_events_def)
  have release: "all_stopped w (trs @ [(STOPPING, STOPPED)]) (forget_stop_waiter (Some w) (settle_future w r s'))"
    if "?W s'" for r s'
    using settled_winding [OF that, of r] released_winding by blast
  have settled: "all_stopped w (trs @ [(STOPPING, STOPPED)]) (forget_stop_waiter (Some w) s')"
    if "?W s'" "future_done w s'" for s'
    using released_winding [OF that] .
  have finish: "wp t (stop_finish ctx plan pv ex e)
      (\<lambda>_. all_stopped w (trs @ [(STOPPING, STOPPED)])) (\<lambda>_. all_stopped w (trs @ [(STOPPING, STOPPED)])) s'"
    if "?W s'" "\<not> ex_stop_waiter_completion_deferred ex" for ex e s'
    using that release settled assms(3,5)
    by (auto simp: stop_finish_def stop_release_def settle_opt_def wp_simps split: option.split)
  show ?thesis
    unfolding client_owned_stop_def stop_outcome_def
    by (auto simp: wp_simps inl assms(5) intro!: wp_stop_execute [OF assms(1-4)] finish
        split: option.split)
qed

text \<open>What is left of a stop of a client that is STARTING or RUNNING once it is planned.\<close>

lemma wp_client_stop_planned:
  assumes "cl_lifecycle_state s = STARTING \<or> cl_lifecycle_state s = RUNNING"
    and "cl_stop_waiter s = None" "cl_owner_loop s = None \<or> cl_owner_loop s = Some l"
    and "\<And>plan s2. pl_should_stop_dispatcher plan \<Longrightarrow> pl_stop_waiter plan = Some (length (d_futures s)) \<Longrightarrow>
      winding (length (d_futures s)) STOPPING (cl_transitions s @ [(cl_lifecycle_state s, STOPPING)])
        (cl_heartbeat_sender s) (cl_connection s) (cl_starting_connection s) s2 \<Longrightarrow>
      wp t (client_owned_stop env cc ctx plan (capture_stop_provenance (cc_disp cc) ctx s)) Q E s2"
  shows "wp t (client_stop env cc ctx (Some l)) Q E s"
proof -
  let ?w = "length (d_futures s)"
  define s1 where "s1 = s\<lparr>cl_owner_loop := Some l\<rparr>"
  define s2 where "s2 = (client_moved STOPPING (snd (own_stop ctx s1)))\<lparr>cl_supervisor_task := None\<rparr>"
  define event where "event = Some (client_event cc (cl_lifecycle_state s) STOPPING)"
  define plan where "plan = fst (detach_supervisor (cc_disp cc) ctx event (fst (own_stop ctx s1))
      (client_moved STOPPING (snd (own_stop ctx s1))))"
  have owner: "wp t (client_assert_owner_loop (Some l)) (\<lambda>_ s'. s' = s1) (\<lambda>_ _. False) s"
    using assms(3)
    by (auto simp: client_assert_owner_loop_def assert_running_on_owner_loop_def wp_simps s1_def)
  have legal: "legal (cl_lifecycle_state s) STOPPING" "cl_lifecycle_state s \<noteq> STOPPING"
    "cl_lifecycle_state s \<noteq> STOPPED"
    using assms(1) by auto
  have planned: "wp t (plan_stop cc ctx) (\<lambda>p s'. p = plan \<and> s' = s2) (\<lambda>_ _. False) s1"
    using assms(2) legal
    by (simp add: plan_stop_def wp_simps is_fully_stopped_def own_stop_def create_future_def s1_def
        s2_def plan_def event_def detach_supervisor_def Let_def)
  have plan: "pl_should_stop_dispatcher plan" "pl_stop_waiter plan = Some ?w" "pl_owns_stop plan"
    by (simp_all add: plan_def detach_supervisor_def own_stop_def create_future_def s1_def Let_def)
  have start: "winding ?w STOPPING (cl_transitions s @ [(cl_lifecycle_state s, STOPPING)])
      (cl_heartbeat_sender s) (cl_connection s) (cl_starting_connection s) s2"
    by (simp add: winding_def s2_def own_stop_def create_future_def s1_def
        client_on_lifecycle_state_applied_def client_set_state_def notify_status_changed_def)
  have "capture_stop_provenance (cc_disp cc) ctx s2 = capture_stop_provenance (cc_disp cc) ctx s"
    by (cases "tc_task ctx"; simp add: s2_def own_stop_def create_future_def s1_def
        client_on_lifecycle_state_applied_def client_set_state_def notify_status_changed_def
        capture_stop_provenance_def current_stop_is_handler_originated_def
        current_task_is_dispatching_handler_def current_task_has_handler_origin_context_def
        current_task_inherits_handler_origin_context_def has_active_handler_context_def
        current_task_would_deliver_inline_def current_task_is_worker_def has_background_worker_def)
  then have run: "wp t (client_owned_stop env cc ctx plan (capture_stop_provenance (cc_disp cc) ctx s2)) Q E s2"
    using assms(4) [OF plan(1,2) start] by simp
  show ?thesis
    unfolding client_stop_def wp_seqE wp_bindE
    by (rule wp_mono [OF owner])
      (auto simp: wp_simps waits_for_owner_def plan intro!: wp_mono [OF planned] run)
qed

text \<open>
  C11: A stop from outside the handlers always converges.  Whatever fails on the way (the handler,
  the supervisor, the heartbeat sender, the close of the connection, the dispatcher), when the
  call ends, normally or with an exception, the client is STOPPED, went through STOPPING and
  STOPPED exactly once each, holds no supervisor, heartbeat sender or connection, and the waiter
  that overlapping callers of \<open>stop\<close> share is settled and forgotten.  With INLINE delivery and no
  interrupted wait (\<open>t = False\<close>) the call does end.
\<close>
theorem client_stop_converges:
  assumes "stop_env t env cc ctx"
    and "cl_lifecycle_state s = STARTING \<or> cl_lifecycle_state s = RUNNING"
    and "cl_stop_waiter s = None"
    and "\<not> defers_terminal_events (capture_stop_provenance (cc_disp cc) ctx s)"
    and "cl_owner_loop s = None \<or> cl_owner_loop s = Some l"
  shows "wp t (client_stop env cc ctx (Some l))
    (\<lambda>_. all_stopped (length (d_futures s))
       (cl_transitions s @ [(cl_lifecycle_state s, STOPPING), (STOPPING, STOPPED)]))
    (\<lambda>_. all_stopped (length (d_futures s))
       (cl_transitions s @ [(cl_lifecycle_state s, STOPPING), (STOPPING, STOPPED)])) s"
proof (rule wp_client_stop_planned [OF assms(2,3,5)])
  fix plan :: stop_plan and s2
  assume "pl_should_stop_dispatcher plan" "pl_stop_waiter plan = Some (length (d_futures s))"
    and "winding (length (d_futures s)) STOPPING (cl_transitions s @ [(cl_lifecycle_state s, STOPPING)])
      (cl_heartbeat_sender s) (cl_connection s) (cl_starting_connection s) s2"
  then show "wp t (client_owned_stop env cc ctx plan (capture_stop_provenance (cc_disp cc) ctx s))
    (\<lambda>_. all_stopped (length (d_futures s))
       (cl_transitions s @ [(cl_lifecycle_state s, STOPPING), (STOPPING, STOPPED)]))
    (\<lambda>_. all_stopped (length (d_futures s))
       (cl_transitions s @ [(cl_lifecycle_state s, STOPPING), (STOPPING, STOPPED)])) s2"
    using wp_owned_stop [OF assms(1) _ assms(4)] by fastforce
qed

lemma quiet_respects_stop [simp]: "respects_stop quiet"
  by (simp add: respects_stop_def stop_rely_def quiet_def)

theorem client_stop_converges_witness:
  "\<exists>r s'. client_stop quiet sample_cc (plain_ctx None) (Some 0) (sample_client\<lparr>cl_lifecycle_state := RUNNING\<rparr>) =
     Some (r, s') \<and> all_stopped 0 [(RUNNING, STOPPING), (STOPPING, STOPPED)] s'"
proof -
  have "wp False (client_stop quiet sample_cc (plain_ctx None) (Some 0)) (\<lambda>_. all_stopped 0
      [(RUNNING, STOPPING), (STOPPING, STOPPED)]) (\<lambda>_. all_stopped 0 [(RUNNING, STOPPING), (STOPPING, STOPPED)])
      (sample_client\<lparr>cl_lifecycle_state := RUNNING\<rparr>)"
    using client_stop_converges [where t = False and env = quiet and cc = sample_cc
        and ctx = "plain_ctx None" and l = 0 and s = "sample_client\<lparr>cl_lifecycle_state := RUNNING\<rparr>"]
    by (simp add: stop_env_def sample_cc_inline capture_stop_provenance_def defers_terminal_events_def
        current_stop_is_handler_originated_def current_task_is_dispatching_handler_def
        current_task_has_handler_origin_context_def current_task_inherits_handler_origin_context_def
        plain_ctx_def has_active_handler_context_def)
  then show ?thesis
    by (auto simp: wp_def split: option.splits sum.splits)
qed

end
