(* ===== verification/Client_Deferred_Stop.thy ===== *)
theory Client_Deferred_Stop
  imports Client_Stop
begin

text \<open>
  A stop of the client that one of its handlers requests.  It cannot wait for its own handler, so
  it detaches everything, applies STOPPED and leaves the events and the dispatcher to a task,
  which waits for the handler and then settles the waiter of the stop.
\<close>

section \<open>The call\<close>

text \<open>What a handed over stop leaves: the task that is to complete it.\<close>

definition client_handed_over ::
    "nat \<Rightarrow> (component_lifecycle_state \<times> component_lifecycle_state) list \<Rightarrow> client \<Rightarrow> bool" where
  "client_handed_over w trs s \<longleftrightarrow> winding w STOPPED trs None None None s \<and>
     (\<exists>n stopping stopped waiters supervisor ctx.
        t_jobs s n = Some (Stop_completion (Some w) stopping stopped waiters supervisor True, ctx))"

lemma create_completion:
  assumes "winding w STOPPED trs None None None s"
  shows "client_handed_over w trs (snd (create_task (Stop_completion (Some w) a b c d True) ctx s))"
proof -
  have "winding w STOPPED trs None None None (snd (create_task (Stop_completion (Some w) a b c d True) ctx s))"
    by (rule winding.own [OF assms]) simp_all
  then show ?thesis
    unfolding client_handed_over_def create_task_def Let_def by auto
qed

lemma wp_handler_finish:
  assumes "stop_env t env cc ctx" "winding w STOPPED trs None None None s"
    and "defers_terminal_events pv" "\<not> pv_active_inline_handler pv" "pl_stop_waiter plan = Some w"
    and "\<not> ex_raise_cancel_after_stop_waiter ex" "\<not> ex_stop_waiter_completion_deferred ex"
    and "\<And>ex' s'. \<not> ex_raise_cancel_after_stop_waiter ex' \<Longrightarrow> ex_stop_waiter_completion_deferred ex' \<Longrightarrow>
      client_handed_over w trs s' \<Longrightarrow> Q (ex', None) s'"
    and "\<And>e s'. winding w STOPPED trs None None None s' \<Longrightarrow> Q (ex, Some e) s'"
  shows "wp t (finish_stop_with_dispatcher env cc ctx plan pv ex stopped earlier) Q E s"
proof -
  note d = stop_envD [OF assms(1)]
  have schedule: "wp t (bindE (schedule_deferred_stop_events ctx plan ex stopped True) (\<lambda>ex2. ret (ex2, None))) Q E s'"
    if "winding w STOPPED trs None None None s'" for s'
    using create_completion [OF that] assms(5,6)
    by (auto simp: schedule_deferred_stop_events_def wp_simps split_beta intro!: assms(8))
  show ?thesis
    unfolding finish_stop_with_dispatcher_def
    using assms(3,4)
    by (auto simp: wp_bindE wp_keep_first wp_ret Let_def assms(2,9)
        intro!: wp_stop_from_handler [OF winding.stable d(1) [of w STOPPED trs None None None] d(2) assms(2)]
          schedule [unfolded wp_bindE])
qed

lemma wp_handler_execute:
  assumes "stop_env t env cc ctx" "winding w STOPPING trs H C S s" "defers_terminal_events pv"
    and "\<not> pv_active_inline_handler pv" "pl_should_stop_dispatcher plan" "pl_stop_waiter plan = Some w"
    and "\<And>ex s'. \<not> ex_raise_cancel_after_stop_waiter ex \<Longrightarrow> ex_stop_waiter_completion_deferred ex \<Longrightarrow>
      client_handed_over w (trs @ [(STOPPING, STOPPED)]) s' \<Longrightarrow> Q (ex, None) s'"
    and "\<And>ex e s'. \<not> ex_stop_waiter_completion_deferred ex \<Longrightarrow>
      winding w STOPPED (trs @ [(STOPPING, STOPPED)]) None None None s' \<Longrightarrow> Q (ex, Some e) s'"
  shows "wp t (execute_owned_stop env cc ctx plan pv) Q E s"
proof -
  have finish: "wp t (bindE (bindE (getsE cl_lifecycle_state) (\<lambda>state.
        if state = STOPPING then apply_lifecycle_state cc STOPPED else ret None))
      (\<lambda>stopped_event. finish_stop_with_dispatcher env cc ctx plan pv
        (new_execution\<lparr>ex_deferred_close_waiters := ws\<rparr>) stopped_event fe)) Q E s'"
    if s': "winding w STOPPING trs None None None s'" for ws fe s'
  proof -
    have state: "cl_lifecycle_state s' = STOPPING" using s' by (simp add: winding_def)
    have moved: "winding w STOPPED (trs @ [(STOPPING, STOPPED)]) None None None (client_moved STOPPED s')"
      using s' by (auto simp: winding_def client_on_lifecycle_state_applied_def client_set_state_def
          notify_status_changed_def)
    have "wp t (finish_stop_with_dispatcher env cc ctx plan pv
        (new_execution\<lparr>ex_deferred_close_waiters := ws\<rparr>) e fe) Q E (client_moved STOPPED s')" for e
      by (rule wp_handler_finish [OF assms(1) moved assms(3,4,6)])
        (auto simp: new_execution_def intro: assms(7,8))
    then show ?thesis using state by (simp add: wp_simps)
  qed
  show ?thesis
    unfolding execute_owned_stop_def
    by (auto simp: wp_bindE wp_keep_first wp_ret assms(3,5) Let_def
        intro!: wp_stop_supervisor [OF assms(1,2)] wp_stop_teardown [OF assms(1)] finish [unfolded wp_bindE])
qed

text \<open>
  C12: A stop that a handler of the client requests is never lost.  When the call returns, the
  client is STOPPED, holds no supervisor, heartbeat sender or connection, and the task that is to
  complete the stop exists; when it raises, the stop is over: the waiter of its callers is settled
  and forgotten.  With INLINE delivery and no interrupted wait the call does end.
\<close>

theorem client_stop_from_handler_hands_over:
  assumes "stop_env t env cc ctx"
    and "cl_lifecycle_state s = STARTING \<or> cl_lifecycle_state s = RUNNING"
    and "cl_stop_waiter s = None"
    and "current_stop_is_handler_originated (cc_disp cc) ctx s"
    and "cl_owner_loop s = None \<or> cl_owner_loop s = Some l"
  shows "wp t (client_stop env cc ctx (Some l))
    (\<lambda>_. client_handed_over (length (d_futures s))
       (cl_transitions s @ [(cl_lifecycle_state s, STOPPING), (STOPPING, STOPPED)]))
    (\<lambda>_. all_stopped (length (d_futures s))
       (cl_transitions s @ [(cl_lifecycle_state s, STOPPING), (STOPPING, STOPPED)])) s"
proof (rule wp_client_stop_planned [OF assms(2,3,5)])
  let ?w = "length (d_futures s)" and ?pv = "capture_stop_provenance (cc_disp cc) ctx s"
    and ?trs = "cl_transitions s @ [(cl_lifecycle_state s, STOPPING)]"
    and ?T = "cl_transitions s @ [(cl_lifecycle_state s, STOPPING), (STOPPING, STOPPED)]"
  have pv: "defers_terminal_events ?pv" "\<not> pv_active_inline_handler ?pv"
    using assms(4) by (simp_all add: capture_stop_provenance_def defers_terminal_events_def Let_def)
  fix plan :: stop_plan and s2
  assume plan: "pl_should_stop_dispatcher plan" "pl_stop_waiter plan = Some ?w"
    and start: "winding ?w STOPPING ?trs (cl_heartbeat_sender s) (cl_connection s) (cl_starting_connection s) s2"
  have failed: "wp t (stop_finish ctx plan ?pv ex (Some e)) Q (\<lambda>_. all_stopped ?w ?T) s'"
    if "winding ?w STOPPED ?T None None None s'"
      "\<not> ex_stop_waiter_completion_deferred ex" for ex e s' Q
    using that(2) settled_winding [OF that(1), of "Inl e"] released_winding
    by (auto simp: stop_finish_def stop_release_def settle_opt_def wp_simps plan)
  have deferred: "wp t (stop_finish ctx plan ?pv ex None) (\<lambda>_. client_handed_over ?w ?T) E s'"
    if "client_handed_over ?w ?T s'" "ex_stop_waiter_completion_deferred ex" for ex s' E
    using that by (auto simp: stop_finish_def stop_release_def wp_simps split: option.split)
  show "wp t (client_owned_stop env cc ctx plan ?pv) (\<lambda>_. client_handed_over ?w ?T) (\<lambda>_. all_stopped ?w ?T) s2"
    unfolding client_owned_stop_def stop_outcome_def
    by (auto simp: wp_simps pv plan intro!: wp_handler_execute [OF assms(1) start pv plan]
        failed deferred split: option.split)
qed

theorem client_stop_from_handler_hands_over_witness:
  "\<exists>r s'. client_stop quiet sample_cc ((plain_ctx (Some 3))\<lparr>tc_handler_dispatch := {(dc_id (cc_disp sample_cc), 3)}\<rparr>)
       (Some 0) (sample_client\<lparr>cl_lifecycle_state := RUNNING\<rparr>) = Some (r, s') \<and>
     (case r of
        Inl _ \<Rightarrow> all_stopped 0 [(RUNNING, STOPPING), (STOPPING, STOPPED)] s'
      | Inr _ \<Rightarrow> client_handed_over 0 [(RUNNING, STOPPING), (STOPPING, STOPPED)] s')"
proof -
  let ?ctx = "(plain_ctx (Some 3))\<lparr>tc_handler_dispatch := {(dc_id (cc_disp sample_cc), 3)}\<rparr>"
  have "wp False (client_stop quiet sample_cc ?ctx (Some 0))
      (\<lambda>_. client_handed_over 0 [(RUNNING, STOPPING), (STOPPING, STOPPED)])
      (\<lambda>_. all_stopped 0 [(RUNNING, STOPPING), (STOPPING, STOPPED)])
      (sample_client\<lparr>cl_lifecycle_state := RUNNING\<rparr>)"
    using client_stop_from_handler_hands_over [where t = False and env = quiet and cc = sample_cc
        and ctx = ?ctx and l = 0 and s = "sample_client\<lparr>cl_lifecycle_state := RUNNING\<rparr>"]
    by (simp add: stop_env_def sample_cc_inline current_stop_is_handler_originated_def
        current_task_is_dispatching_handler_def plain_ctx_def)
  then show ?thesis by (auto simp: wp_def split: option.splits sum.splits)
qed

section \<open>The task\<close>

lemma wp_client_completion:
  assumes "wp t work (\<lambda>_. winding w STOPPED trs None None None)
      (\<lambda>e s'. is_caught e \<and> winding w STOPPED trs None None None s') s"
  shows "wp t (complete_stop_waiter (Some w) (modifyE (forget_stop_waiter (Some w))) work)
      (\<lambda>_. all_stopped w trs) (\<lambda>_ _. False) s"
  unfolding complete_stop_waiter_def wp_finallyE wp_tryE wp_seqE
  by (rule wp_mono [OF assms])
    (auto simp: settle_opt_def wp_simps intro!: released_winding dest: settled_winding)

text \<open>
  C13: The task that completes a handed over stop of the client does so.  Once no handler is active
  it publishes the two lifecycle events, waits for the deferred close events and the supervisor,
  and stops the dispatcher; whatever of this fails or is cancelled, it settles and forgets the
  waiter of the stop, leaves the client STOPPED with nothing held, and raises nothing.  It returns
  if its wait for the handlers does (and, with \<open>t = False\<close>, delivery is INLINE and no wait on a
  task is interrupted).  The task that a stop leaves for deferred close events does the same.
\<close>

theorem deferred_client_stop_completes:
  assumes "stop_env t env cc ctx" and "winding w STOPPED trs None None None s"
    and "t \<or> wait_for_handler_context env None s \<noteq> None"
  shows "wp t (complete_after_deferred_stop_events env cc ctx (Some w) stopping stopped waiters supervisor b)
      (\<lambda>_. all_stopped w trs) (\<lambda>_ _. False) s \<and>
    wp t (complete_after_deferred_closes env w waiters) (\<lambda>_. all_stopped w trs) (\<lambda>_ _. False) s"
proof
  let ?W = "winding w STOPPED trs None None None" and ?E = "\<lambda>e s'. is_caught e \<and> winding w STOPPED trs None None None s'"
  note d = stop_envD [OF assms(1)]
  let ?ctx = "ctx\<lparr>tc_inline_dispatcher := insert (dc_id (cc_disp cc)) (tc_inline_dispatcher ctx)\<rparr>"
  have await: "wp t (awaitE env p) Q ?E s'" if "?W s'" "\<And>s'. ?W s' \<Longrightarrow> Q () s'" for p Q s'
    by (rule wp_awaitE_frame [OF d(1,2) that(1)]) (use that(2) in auto)
  have all: "wp t (await_all env ws) Q ?E s'" if "?W s'" "\<And>s'. ?W s' \<Longrightarrow> Q () s'" for ws Q s'
    using that by (auto simp: await_all_def wp_simps intro!: await)
  have task: "wp t (await_task_preserving env ?ctx u) Q ?E s'" if "?W s'" "\<And>s'. ?W s' \<Longrightarrow> Q () s'" for u Q s'
  proof (rule wp_by_parts [OF winding.await_preserving_keeps(1) [OF d(1)] await_task_caught [OF d(2)] _ that(1)])
    have "t \<or> uninterrupted ?ctx env"
      using d(4) by (simp add: uninterrupted_def is_task_being_cancelled_def)
    then show "t \<or> returns (await_task_preserving env ?ctx u)" using await_task_returns by blast
  qed (use that(2) in auto)
  have rest: "wp t (seqE (with_inline_delivery_context (cc_disp cc) ctx (\<lambda>ctx1.
      seqE (client_emit_lifecycle_event env cc ctx1 stopping)
        (seqE (await_all env waiters)
          (seqE (case supervisor of None \<Rightarrow> ret () | Some u \<Rightarrow> await_task_preserving env ctx1 u)
            (client_emit_lifecycle_event env cc ctx1 stopped)))))
      (whenE b (disp_stop env (cc_disp cc) ctx))) (\<lambda>_. ?W) ?E s'" if "?W s'" for s'
  proof -
    have ctx1: "stop_env t env cc ?ctx"
      using assms(1) by (simp add: stop_env_def uninterrupted_def is_task_being_cancelled_def)
    show ?thesis
      unfolding with_inline_delivery_context_def wp_seqE
      by (cases supervisor)
        (auto simp: wp_simps intro!: wp_stop_emit [OF ctx1] that all task
          wp_disp_stop [OF winding.stable d(1) [of w STOPPED trs None None None] d(2)])
  qed
  have "wp True (wait_for_handler_context env None) (\<lambda>_. ?W) ?E s"
    by (rule wp_by_parts [OF stable_wait_for_handler_context_keeps [OF winding.stable d(1)]
          raises_wait_for_handler_context [where Q = is_caught] _ assms(2)])
      (use d(2) in \<open>auto simp: env_caught_def\<close>)
  then have wait: "wp t (wait_for_handler_context env None) (\<lambda>_. ?W) ?E s"
    using assms(3) by (cases t) (auto intro: wp_total)
  show "wp t (complete_after_deferred_stop_events env cc ctx (Some w) stopping stopped waiters supervisor b)
      (\<lambda>_. all_stopped w trs) (\<lambda>_ _. False) s"
    unfolding complete_after_deferred_stop_events_def
    by (rule wp_client_completion, subst wp_seqE, rule wp_mono [OF wait]) (auto intro: rest)
  show "wp t (complete_after_deferred_closes env w waiters) (\<lambda>_. all_stopped w trs) (\<lambda>_ _. False) s"
    unfolding complete_after_deferred_closes_def
    by (rule wp_client_completion) (rule await [OF assms(2)])
qed

theorem deferred_client_stop_completes_witness:
  "\<exists>s'. complete_after_deferred_stop_events quiet sample_cc (plain_ctx None) (Some 0) None None [0] (Some 1) True
       (sample_client\<lparr>cl_stop_waiter := Some 0, d_futures := [Pending]\<rparr>) = Some (Inr (), s') \<and>
     all_stopped 0 [] s'"
proof -
  let ?s = "sample_client\<lparr>cl_stop_waiter := Some 0, d_futures := [Pending]\<rparr>"
  have "winding 0 STOPPED [] None None None ?s" by (simp add: winding_def)
  moreover have "wait_for_handler_context quiet None ?s \<noteq> None"
    by (subst wait_for_handler_context.simps) (simp add: has_active_handler_context_def)
  ultimately have "wp False (complete_after_deferred_stop_events quiet sample_cc (plain_ctx None) (Some 0)
      None None [0] (Some 1) True) (\<lambda>_. all_stopped 0 []) (\<lambda>_ _. False) ?s"
    using deferred_client_stop_completes [where t = False and env = quiet and cc = sample_cc
        and ctx = "plain_ctx None" and w = 0 and trs = "[]" and s = ?s and stopping = None and stopped = None
        and waiters = "[0]" and supervisor = "Some 1" and b = True]
    by (simp add: stop_env_def sample_cc_inline)
  then show ?thesis by (auto dest!: wp_valueD)
qed

end
