(* ===== verification/Client_Behaviour.thy ===== *)
theory Client_Behaviour
  imports Client_Stop
begin

text \<open>
  What a user of the client observes: the events and delays of failing connect attempts, the
  end of supervision under FAIL_FAST, and the answer of \<open>wait_until_connected\<close>.
\<close>

section \<open>Refused connections\<close>

text \<open>
  The network refuses every connect with \<open>error\<close>; while the supervisor sleeps nothing else
  happens and the delay elapses.
\<close>

definition refuses :: "client environment \<Rightarrow> exn \<Rightarrow> bool" where
  "refuses env error \<longleftrightarrow>
     (\<forall>s. env A_open_connection s = (Some error, s)) \<and>
     (\<forall>d s. env (A_status_changed d) s = (Some (Exn TimeoutError ''''), s))"

text \<open>What the supervisor is told: a timeout of the configured kind becomes ConnectionError.\<close>

definition connect_error :: "client_config \<Rightarrow> exn \<Rightarrow> exn" where
  "connect_error cc error =
     (if cs_connect_timeout_seconds (cc_settings cc) \<noteq> PNone \<and> exn_class error = TimeoutError
      then Exn ConnectionError ''TCP connect timed out.'' else error)"

text \<open>A running client without a connection; with INLINE delivery there is no worker.\<close>

definition unconnected :: "client \<Rightarrow> bool" where
  "unconnected s \<longleftrightarrow> cl_running s \<and> cl_lifecycle_state s = RUNNING \<and> cl_heartbeat_sender s = None \<and>
     cl_connection s = None \<and> cl_starting_connection s = None \<and> d_worker_task s = None"

definition failure_events ::
    "client_config \<Rightarrow> exn \<Rightarrow> nat \<Rightarrow> rat option \<Rightarrow> network_event list" where
  "failure_events cc error attempt announced =
     (if resolve_error_policy cc = IGNORE then [] else [NetworkErrorEvent (cc_component_id cc) error]) @
     [ReconnectAttemptFailedEvent (cc_component_id cc) (int attempt) error announced]"

definition retry_events :: "client_config \<Rightarrow> exn \<Rightarrow> nat \<Rightarrow> rat \<Rightarrow> network_event list" where
  "retry_events cc error attempt delay =
     [ReconnectAttemptStartedEvent (cc_component_id cc) (int attempt)] @
     failure_events cc error attempt (Some delay) @
     [ReconnectScheduledEvent (cc_component_id cc) (int attempt + 1) delay]"

fun retry_log :: "client_config \<Rightarrow> exn \<Rightarrow> nat \<Rightarrow> rat list \<Rightarrow> network_event list" where
  "retry_log cc error attempt [] = []"
| "retry_log cc error attempt (d # ds) =
     retry_events cc error attempt d @ retry_log cc error (Suc attempt) ds"

text \<open>
  All that the following proofs use of a state: the fields of an unconnected client, its
  attempts, delays and drawn numbers, and the log of delivered events.
\<close>

definition snapshot ::
    "nat \<Rightarrow> reconnect_backoff \<Rightarrow> nat \<Rightarrow> nat option \<Rightarrow> network_event list \<Rightarrow> client \<Rightarrow> bool" where
  "snapshot n rb k sw evs s \<longleftrightarrow> unconnected s \<and> cl_attempt_counter s = n \<and> cl_backoff s = rb \<and>
     cl_draws s = k \<and> cl_stop_waiter s = sw \<and> d_delivered s = evs"

lemma wp_emit_snapshot:
  assumes "dc_dispatch_mode (cc_disp cc) = INLINE" "handler_returns env" "snapshot n rb k sw evs s"
    and "\<And>s'. snapshot n rb k sw (evs @ [event]) s' \<Longrightarrow> Q () s'"
  shows "wp t (emit env (cc_disp cc) ctx event) Q E s"
proof (rule wp_emit_inline [OF assms(1,2)])
  fix a :: unit and s' :: client
  assume d: "d_delivered s' = d_delivered s @ [event]" "d_worker_task s' = d_worker_task s"
    and more: "disp.more s' = disp.more s"
  have "snapshot n rb k sw (evs @ [event]) s'"
    using assms(3) d by (simp add: snapshot_def unconnected_def transport_more_own [OF more])
  then show "Q a s'" using assms(4) by (cases a) simp
qed

lemma snapshot_quiet:
  assumes "snapshot n rb k sw evs s"
  shows "cl_running s" "cl_lifecycle_state s = RUNNING" "cl_heartbeat_sender s = None"
    "cl_connection s = None" "cl_starting_connection s = None" "cl_attempt_counter s = n"
    "cl_backoff s = rb" "cl_draws s = k" "cl_stop_waiter s = sw" "d_delivered s = evs"
    "snapshot n rb k sw evs (s\<lparr>cl_status_changed := False\<rparr>)"
    "snapshot n rb k sw evs (s\<lparr>cl_last_connect_error := e\<rparr>)"
    "snapshot n rb k sw evs (s\<lparr>cl_heartbeat_sender := None\<rparr>)"
    "snapshot n rb k sw evs (s\<lparr>cl_connection := None\<rparr>)"
    "snapshot n rb k sw evs (s\<lparr>cl_starting_connection := None\<rparr>)"
    "snapshot n rb k sw evs (s\<lparr>cl_connection_closed_event := b\<rparr>)"
    "snapshot n rb k sw evs (notify_status_changed s)"
    "snapshot (Suc n) rb k sw evs (begin_attempt s)"
    "snapshot n rb' (Suc k) sw evs (s\<lparr>cl_backoff := rb', cl_draws := Suc (cl_draws s)\<rparr>)"
  using assms
  by (simp_all add: snapshot_def unconnected_def notify_status_changed_def begin_attempt_def)

lemma wp_teardown_snapshot:
  assumes "snapshot n rb k sw evs s" "\<And>s'. snapshot n rb k sw evs s' \<Longrightarrow> Q () s'"
  shows "wp t (teardown_after_failure env cc ctx) Q E s"
    and "wp t (shutdown_active_resources env cc ctx) Q E s"
proof -
  have targets: "close_targets s' = []" if "snapshot n rb k sw evs s'" for s'
    using that by (simp add: close_targets_def snapshot_def unconnected_def Let_def)
  have close: "wp t (close_current_connection env cc ctx) (\<lambda>_. Q ()) E s'"
    if "snapshot n rb k sw evs s'" for s'
    using targets [OF that] that
    by (simp add: close_current_connection_def wp_simps)
      (auto intro!: assms(2) snapshot_quiet)
  show "wp t (teardown_after_failure env cc ctx) Q E s" "wp t (shutdown_active_resources env cc ctx) Q E s"
    unfolding teardown_after_failure_def shutdown_active_resources_def client_stop_heartbeat_sender_def
      stop_heartbeat_sender_def
    using snapshot_quiet [OF assms(1)]
    by (simp_all add: wp_simps close wp_ret_fun)
qed

lemma wp_refused_attempt:
  assumes "dc_dispatch_mode (cc_disp cc) = INLINE" "handler_returns env" "refuses env error"
    and "snapshot n rb k sw evs s"
    and "\<And>s'. snapshot (Suc n) rb k sw
        (evs @ [ReconnectAttemptStartedEvent (cc_component_id cc) (int (Suc n))]) s' \<Longrightarrow>
      E (connect_error cc error) s'"
  shows "wp t (run_connect_cycle env cc ctx) Q E s"
proof -
  have refused: "wp t (client_connect_once env cc ctx) Q' E s'"
    if "E (connect_error cc error) s'" for Q' s'
    using that assms(3)
    by (auto simp: client_connect_once_def connect_once_def open_connection_def wp_simps wp_awaitE
        refuses_def connect_error_def split: if_splits)
  show ?thesis
    unfolding run_connect_cycle_def start_connect_attempt_def
    using snapshot_quiet [OF snapshot_quiet(18) [OF assms(4)]]
    by (auto simp: wp_simps snapshot_quiet(1,2) intro!: refused
        wp_emit_snapshot [OF assms(1,2) snapshot_quiet(18) [OF assms(4)]] assms(5))
qed

lemma wp_failure_snapshot:
  assumes "dc_dispatch_mode (cc_disp cc) = INLINE" "handler_returns env" "snapshot n rb k sw evs s"
    and "\<And>s'. snapshot n rb k sw (evs @ failure_events cc error n announced) s' \<Longrightarrow> Q () s'"
  shows "wp t (emit_failure_events env cc ctx error (resolve_error_policy cc) announced) Q E s"
proof -
  note emit = wp_emit_snapshot [OF assms(1,2)]
  have last: "wp t (bindE (getsE cl_attempt_counter) (\<lambda>attempt. emit env (cc_disp cc) ctx
      (ReconnectAttemptFailedEvent (cc_component_id cc) (int attempt) error announced))) Q E s'"
    if "snapshot n rb k sw evs' s'"
      "evs @ failure_events cc error n announced =
       evs' @ [ReconnectAttemptFailedEvent (cc_component_id cc) (int n) error announced]" for evs' s'
    unfolding wp_bindE wp_getsE snapshot_quiet(6) [OF that(1)]
    by (rule emit [OF that(1)]) (use assms(4) that(2) in simp)
  show ?thesis
  proof (cases "resolve_error_policy cc = IGNORE")
    case True
    then show ?thesis
      unfolding emit_failure_events_def
      by (simp add: wp_seqE wp_ret last [OF assms(3)] failure_events_def)
  next
    case False
    then show ?thesis
      unfolding emit_failure_events_def
      by (simp add: wp_seqE) (rule emit [OF assms(3)], rule last, assumption, simp add: failure_events_def)
  qed
qed

lemma outcome_scheduled:
  assumes "reconnect_enabled cc" "snapshot n rb k sw evs s"
  obtains s' where "determine_failure_outcome cc error s =
      (\<lparr>fo_policy = resolve_error_policy cc,
        fo_reconnect = reconnect_scheduled (fst (next_delay (cc_draw cc k) rb))\<rparr>, s')"
    "snapshot n (snd (next_delay (cc_draw cc k) rb)) (Suc k) sw evs s'"
proof -
  have "snapshot n rb k sw evs (snd (capture_failure_state cc error s))"
    using snapshot_quiet(17) [OF snapshot_quiet(12) [OF assms(2)]]
    by (simp add: capture_failure_state_def)
  then show ?thesis
    using assms(1) snapshot_quiet [of n rb k sw evs "snd (capture_failure_state cc error s)"]
    by (intro that)
      (simp_all add: determine_failure_outcome_def plan_reconnect_def capture_failure_state_def
        case_prod_beta)
qed

lemma outcome_disabled:
  assumes "\<not> reconnect_enabled cc" "snapshot n rb k sw evs s"
  obtains s' where "determine_failure_outcome cc error s =
      (\<lparr>fo_policy = resolve_error_policy cc, fo_reconnect = reconnect_disabled\<rparr>, s')"
    "snapshot n rb k sw evs s'"
  using assms(1) snapshot_quiet(17) [OF snapshot_quiet(12) [OF assms(2)]]
  by (intro that)
    (simp_all add: determine_failure_outcome_def plan_reconnect_def capture_failure_state_def)

lemma scheduled_simps [simp]:
  "rp_should_reconnect (reconnect_scheduled d)" "rp_delay_seconds (reconnect_scheduled d) = Some d"
  "\<not> rp_should_reconnect reconnect_disabled" "rp_delay_seconds reconnect_disabled = None"
  by (simp_all add: reconnect_scheduled_def reconnect_disabled_def)

lemma may_snapshot: "reconnect_enabled cc \<Longrightarrow> snapshot n rb k sw evs s \<Longrightarrow> may_reconnect cc s"
  by (simp add: may_reconnect_def snapshot_quiet(1))

text \<open>One pass of the supervisor's loop under RETRY or IGNORE.\<close>

lemma wp_retry_pass:
  assumes env: "dc_dispatch_mode (cc_disp cc) = INLINE" "handler_returns env" "refuses env error"
    and error: "is_Exception (connect_error cc error)"
    and policy: "reconnect_enabled cc" "resolve_error_policy cc \<noteq> FAIL_FAST"
    and s: "snapshot n rb k sw evs s"
    and post: "\<And>s'. snapshot (Suc n) (snd (next_delay (cc_draw cc k) rb)) (Suc k) sw
        (evs @ retry_events cc (connect_error cc error) (Suc n) (fst (next_delay (cc_draw cc k) rb))) s' \<Longrightarrow>
      Q (Again ()) s'"
  shows "wp t (supervise_pass env cc ctx u) Q E s"
proof -
  let ?e = "connect_error cc error" and ?d = "fst (next_delay (cc_draw cc k) rb)"
    and ?rb = "snd (next_delay (cc_draw cc k) rb)"
    and ?started = "evs @ [ReconnectAttemptStartedEvent (cc_component_id cc) (int (Suc n))]"
  let ?Q = "\<lambda>b. Q (if b then Again () else Leave ())"
  have wait: "wp t (wait_for_reconnect_delay_or_stop env cc ?d) ?Q E s'"
    if s': "snapshot (Suc n) ?rb (Suc k) sw (evs @ retry_events cc ?e (Suc n) ?d) s'" for s'
  proof -
    note quiet = snapshot_quiet(11) [OF s']
    have timer: "env (A_status_changed ?d) u = (Some (Exn TimeoutError ''''), u)" for u
      using env(3) by (simp add: refuses_def)
    show ?thesis
      unfolding wait_for_reconnect_delay_or_stop_def
      by (simp add: wp_simps wp_awaitE timer may_snapshot [OF policy(1) quiet] post [OF quiet])
  qed
  have again: "wp t (bindE (getsE (may_reconnect cc)) (\<lambda>may. if \<not> may then ret False
      else wait_for_reconnect_delay_or_stop env cc ?d)) ?Q E s'"
    if s': "snapshot (Suc n) ?rb (Suc k) sw (evs @ retry_events cc ?e (Suc n) ?d) s'" for s'
    unfolding wp_bindE wp_getsE using may_snapshot [OF policy(1) s'] wait [OF s'] by simp
  have sleep: "wp t (sleep_until_next_reconnect env cc ctx (reconnect_scheduled ?d)) ?Q E s'"
    if s': "snapshot (Suc n) ?rb (Suc k) sw (?started @ failure_events cc ?e (Suc n) (Some ?d)) s'" for s'
    unfolding sleep_until_next_reconnect_def emit_reconnect_scheduled_def
    by (simp add: wp_bindE wp_getsE wp_seqE wp_if may_snapshot [OF policy(1) s'] snapshot_quiet(6) [OF s'])
      (rule wp_emit_snapshot [OF env(1,2) s'], rule again,
       simp add: retry_events_def)
  have failed: "wp t (handle_connect_cycle_failure env cc ctx ?e) ?Q E s'"
    if s': "snapshot (Suc n) rb k sw ?started s'" for s'
  proof -
    obtain s1 where o: "determine_failure_outcome cc ?e s' =
        (\<lparr>fo_policy = resolve_error_policy cc, fo_reconnect = reconnect_scheduled ?d\<rparr>, s1)"
      and s1: "snapshot (Suc n) ?rb (Suc k) sw ?started s1"
      using outcome_scheduled [OF policy(1) s'] .
    have rest: "wp t (bindE (getsE (should_stop_after_failure cc (resolve_error_policy cc)))
        (\<lambda>stop. if stop then ret False
                 else sleep_until_next_reconnect env cc ctx (reconnect_scheduled ?d))) ?Q E s2"
      if s2: "snapshot (Suc n) ?rb (Suc k) sw (?started @ failure_events cc ?e (Suc n) (Some ?d)) s2" for s2
      using policy snapshot_quiet(1) [OF s2] sleep [OF s2]
      by (simp add: wp_bindE wp_getsE should_stop_after_failure_def)
    have torn: "wp t (seqE (teardown_after_failure env cc ctx)
        (bindE (getsE (should_stop_after_failure cc (resolve_error_policy cc)))
          (\<lambda>stop. if stop then ret False
                   else sleep_until_next_reconnect env cc ctx (reconnect_scheduled ?d)))) ?Q E s2"
      if s2: "snapshot (Suc n) ?rb (Suc k) sw (?started @ failure_events cc ?e (Suc n) (Some ?d)) s2" for s2
      unfolding wp_seqE by (rule wp_teardown_snapshot(1) [OF s2], rule rest)
    show ?thesis
      unfolding handle_connect_cycle_failure_def
      by (subst wp_bindE, subst wp_stateE, simp only: o prod.case failure_outcome.simps scheduled_simps,
          subst wp_seqE, rule wp_failure_snapshot [OF env(1,2) s1], rule torn)
  qed
  have ordinary: "\<not> is_cancelled ?e" using error is_cancelled_not_Exception by blast
  show ?thesis
    unfolding supervise_pass_def
    using snapshot_quiet(1) [OF s] error ordinary
    by (simp add: wp_simps) (rule wp_refused_attempt [OF env s], simp add: wp_ret_fun failed)
qed

section \<open>Retrying\<close>

text \<open>The first \<open>k\<close> passes of the supervisor's loop; False when the loop was left before.\<close>

fun supervise_passes ::
    "client environment \<Rightarrow> client_config \<Rightarrow> task_ctx \<Rightarrow> nat \<Rightarrow> (client, bool) prog" where
  "supervise_passes env cc ctx 0 = ret True"
| "supervise_passes env cc ctx (Suc k) =
     bindE (supervise_pass env cc ctx ()) (\<lambda>turn. case turn of
       Leave _ \<Rightarrow> ret False | Again _ \<Rightarrow> supervise_passes env cc ctx k)"

lemma supervise_passes_loop:
  "supervise_passes env cc ctx k s = Some (Inr True, s') \<Longrightarrow>
     loopE (supervise_pass env cc ctx) () s = loopE (supervise_pass env cc ctx) () s'"
proof (induction k arbitrary: s)
  case 0
  then show ?case by (simp add: ret_def)
next
  case (Suc k)
  then show ?case
    by (subst loopE_step)
      (auto simp: bindE_def ret_def split: option.splits sum.splits turn.splits)
qed

lemma wp_retry_passes:
  assumes "dc_dispatch_mode (cc_disp cc) = INLINE" "handler_returns env" "refuses env error"
    and "is_Exception (connect_error cc error)"
    and "reconnect_enabled cc" "resolve_error_policy cc \<noteq> FAIL_FAST"
    and "snapshot n rb m sw evs s"
  shows "wp False (supervise_passes env cc ctx k) (\<lambda>b s'. b \<and> unconnected s' \<and>
      cl_attempt_counter s' = n + k \<and>
      d_delivered s' = evs @ retry_log cc (connect_error cc error) (Suc n)
        (delays (map (cc_draw cc) [m..<m + k]) rb)) (\<lambda>_ _. False) s"
  using assms(7)
proof (induction k arbitrary: n rb m evs s)
  case 0
  then show ?case by (simp add: wp_ret snapshot_def)
next
  case (Suc k)
  let ?d = "fst (next_delay (cc_draw cc m) rb)" and ?rb = "snd (next_delay (cc_draw cc m) rb)"
  have range: "[m..<m + Suc k] = m # [Suc m..<Suc m + k]"
    by (simp add: upt_rec [of m])
  have log: "evs @ retry_log cc e (Suc n) (delays (map (cc_draw cc) [m..<m + Suc k]) rb) =
      (evs @ retry_events cc e (Suc n) ?d) @
      retry_log cc e (Suc (Suc n)) (delays (map (cc_draw cc) [Suc m..<Suc m + k]) ?rb)" for e
    unfolding range by (simp add: case_prod_beta Let_def del: upt_Suc)
  have count: "n + Suc k = Suc n + k" by simp
  show ?case
    unfolding supervise_passes.simps wp_bindE log count
    by (rule wp_retry_pass [OF assms(1-6) Suc.prems], unfold turn.case, rule Suc.IH)
qed


text \<open>The sample client, running and refused, without and with reconnect.\<close>

definition refusing :: "client environment" where
  "refusing p s = (case p of
     A_open_connection \<Rightarrow> (Some (Exn OSError ''refused''), s)
   | A_status_changed _ \<Rightarrow> (Some (Exn TimeoutError []), s)
   | _ \<Rightarrow> (None, s))"

definition running_sample :: client where
  "running_sample = sample_client\<lparr>cl_lifecycle_state := RUNNING, cl_running := True\<rparr>"

definition retrying_cc :: client_config where
  "retrying_cc = sample_cc\<lparr>cc_settings := sample_client_settings
     \<lparr>cs_reconnect := default_reconnect\<lparr>rs_enabled := PBool True\<rparr>\<rparr>\<rparr>"

lemma refusing_env: "handler_returns refusing" "refuses refusing (Exn OSError ''refused'')"
  by (simp_all add: refusing_def handler_returns_def refuses_def)

lemma running_sample_simps [simp]:
  "unconnected running_sample" "cl_attempt_counter running_sample = 0" "cl_draws running_sample = 0"
  "cl_backoff running_sample = \<lparr>rb_settings = default_reconnect, rb_current_delay = 1\<rparr>"
  "d_delivered running_sample = []" "cl_stop_waiter running_sample = None"
  by (simp_all add: running_sample_def unconnected_def)

lemma sample_errors [simp]:
  "connect_error sample_cc (Exn OSError m) = Exn OSError m"
  "connect_error retrying_cc (Exn OSError m) = Exn OSError m"
  by (simp_all add: connect_error_def)


section \<open>Failing fast\<close>

definition terminal_events :: "client_config \<Rightarrow> network_event list" where
  "terminal_events cc = [client_event cc RUNNING STOPPING, client_event cc STOPPING STOPPED]"

text \<open>The failed cycle under FAIL_FAST, whose announced delay is computed before the decision.\<close>

definition announced_delay :: "client_config \<Rightarrow> nat \<Rightarrow> reconnect_backoff \<Rightarrow> rat option" where
  "announced_delay cc k rb =
     (if reconnect_enabled cc then Some (fst (next_delay (cc_draw cc k) rb)) else None)"

lemma wp_fail_fast_pass:
  assumes env: "dc_dispatch_mode (cc_disp cc) = INLINE" "handler_returns env" "refuses env error"
    and error: "is_Exception (connect_error cc error)"
    and policy: "resolve_error_policy cc = FAIL_FAST"
    and s: "snapshot n rb k sw evs s"
    and post: "\<And>rb' k' s'. snapshot (Suc n) rb' k' sw
        (evs @ ReconnectAttemptStartedEvent (cc_component_id cc) (int (Suc n)) #
          failure_events cc (connect_error cc error) (Suc n) (announced_delay cc k rb)) s' \<Longrightarrow>
      Q (Leave ()) s'"
  shows "wp t (supervise_pass env cc ctx u) Q E s"
proof -
  let ?e = "connect_error cc error" and ?Q = "\<lambda>b. Q (if b then Again () else Leave ())"
    and ?started = "evs @ [ReconnectAttemptStartedEvent (cc_component_id cc) (int (Suc n))]"
  have rest: "wp t (seqE (teardown_after_failure env cc ctx)
      (bindE (getsE (should_stop_after_failure cc (resolve_error_policy cc)))
        (\<lambda>stop. if stop then ret False else sleep_until_next_reconnect env cc ctx plan))) ?Q E s2"
    if s2: "snapshot (Suc n) rb' k' sw (?started @ failure_events cc ?e (Suc n) (announced_delay cc k rb)) s2"
    for rb' k' plan s2
    unfolding wp_seqE
    by (rule wp_teardown_snapshot(1) [OF s2])
      (simp add: wp_bindE wp_getsE should_stop_after_failure_def policy wp_ret post)
  have failed: "wp t (handle_connect_cycle_failure env cc ctx ?e) ?Q E s'"
    if s': "snapshot (Suc n) rb k sw ?started s'" for s'
  proof -
    obtain plan rb' k' s1 where o: "determine_failure_outcome cc ?e s' =
        (\<lparr>fo_policy = resolve_error_policy cc, fo_reconnect = plan\<rparr>, s1)"
      and plan: "rp_delay_seconds plan = announced_delay cc k rb"
      and s1: "snapshot (Suc n) rb' k' sw ?started s1"
    proof (cases "reconnect_enabled cc")
      case True
      show ?thesis
        by (rule outcome_scheduled [OF True s', of ?e], rule that)
          (assumption, simp only: announced_delay_def True scheduled_simps if_True, assumption)
    next
      case False
      show ?thesis
        by (rule outcome_disabled [OF False s', of ?e], rule that)
          (assumption, simp only: announced_delay_def False scheduled_simps if_False, assumption)
    qed
    show ?thesis
      unfolding handle_connect_cycle_failure_def
      by (subst wp_bindE, subst wp_stateE, simp only: o prod.case failure_outcome.simps plan,
          subst wp_seqE, rule wp_failure_snapshot [OF env(1,2) s1], rule rest)
  qed
  have ordinary: "\<not> is_cancelled ?e" using error is_cancelled_not_Exception by blast
  show ?thesis
    unfolding supervise_pass_def
    using snapshot_quiet(1) [OF s] error ordinary
    by (simp add: wp_simps) (rule wp_refused_attempt [OF env s], simp add: wp_ret_fun failed)
qed

text \<open>The way out, when no stop is in progress and the dispatcher has no worker.\<close>

lemma wp_emit_order:
  assumes "dc_dispatch_mode (cc_disp cc) = INLINE" "handler_returns env"
    and "\<And>s'. d_delivered s' = d_delivered s @ events \<Longrightarrow> disp.more s' = disp.more s \<Longrightarrow>
      d_worker_task s' = d_worker_task s \<Longrightarrow> Q () s'"
  shows "wp t (emit_in_order env cc ctx events) Q E s"
  using assms(3)
proof (induction events arbitrary: s)
  case Nil
  then show ?case by (simp add: wp_ret)
next
  case (Cons event events)
  have more: "disp.more s2 = disp.more s" if "disp.more s2 = disp.more s1" "disp.more s1 = disp.more s"
    for s1 s2 :: client
    using that by (rule trans)
  show ?case
    unfolding emit_in_order.simps wp_seqE client_emit_lifecycle_event_def emit_lifecycle_event_def option.case
    by (rule wp_emit_inline [OF assms(1,2)], rule Cons.IH, rule Cons.prems) (simp, erule more, assumption, simp)
qed

lemma wp_finalize_snapshot:
  assumes env: "dc_dispatch_mode (cc_disp cc) = INLINE" "handler_returns env"
    and s: "snapshot n rb k None evs s"
    and post: "\<And>s'. cl_lifecycle_state s' = STOPPED \<Longrightarrow> \<not> cl_running s' \<Longrightarrow>
      cl_connection s' = None \<Longrightarrow> cl_heartbeat_sender s' = None \<Longrightarrow> cl_attempt_counter s' = n \<Longrightarrow>
      d_delivered s' = evs @ terminal_events cc \<Longrightarrow> Q () s'"
  shows "wp t (finalize_supervision env cc ctx) Q E s"
proof -
  have terminal: "wp t (publish_terminal_lifecycle_transitions env cc ctx)
      (\<lambda>_. wp t (supervision_stop_dispatcher env cc ctx) Q E)
      (\<lambda>e. wp t (supervision_stop_dispatcher env cc ctx) (\<lambda>_. E e) E) s1"
    if s1: "snapshot n rb k None evs s1" for s1
  proof -
    define s2 where "s2 = client_moved STOPPED (client_moved STOPPING s1)"
    have own: "cl_lifecycle_state s2 = STOPPED" "\<not> cl_running s2" "cl_connection s2 = None"
      "cl_heartbeat_sender s2 = None" "cl_attempt_counter s2 = n" "cl_stop_waiter s2 = None"
      "d_delivered s2 = evs" "d_worker_task s2 = None"
      using s1
      by (simp_all add: s2_def snapshot_def unconnected_def client_on_lifecycle_state_applied_def
          client_set_state_def notify_status_changed_def)
    have stopping: "apply_stopping_transition_if_active cl_lifecycle_state (apply_lifecycle_state cc) s1 =
        Some (Inr (Some (client_event cc RUNNING STOPPING)), client_moved STOPPING s1)"
      using snapshot_quiet(2) [OF s1] cl.stopping_if_active [of "client_publisher cc" s1]
      by (simp add: apply_lifecycle_state_def [abs_def])
    have stopped: "apply_stopped_transition_if_stopping cl_lifecycle_state (apply_lifecycle_state cc)
        (client_moved STOPPING s1) = Some (Inr (Some (client_event cc STOPPING STOPPED)), s2)"
      using cl.stopped_if_stopping [of "client_publisher cc" "client_moved STOPPING s1"]
      by (simp add: apply_lifecycle_state_def [abs_def] s2_def)
    have collect: "collect_terminal_lifecycle_events cc s1 = Some (Inr (terminal_events cc), s2)"
      unfolding collect_terminal_lifecycle_events_def
      by (simp add: bindE_def stopping stopped ret_def terminal_events_def append_opt_def)
    have stop: "wp t (supervision_stop_dispatcher env cc ctx) Q E s'"
      if d: "d_delivered s' = d_delivered s2 @ terminal_events cc" "disp.more s' = disp.more s2"
        "d_worker_task s' = d_worker_task s2" for s'
      using own d transport_more_own [OF d(2)]
      by (simp add: supervision_stop_dispatcher_def disp_stop_def wp_simps post)
    show ?thesis
      unfolding publish_terminal_lifecycle_transitions_def wp_bindE
      by (simp add: wp_def [of _ "collect_terminal_lifecycle_events cc"] collect)
        (rule wp_emit_order [OF env], rule stop)
  qed
  show ?thesis
    unfolding finalize_supervision_def wp_finallyE wp_seqE
    by (rule wp_teardown_snapshot(2) [OF s])
      (simp add: wp_bindE wp_getsE snapshot_quiet(9) terminal)
qed

text \<open>
  Under FAIL_FAST the first refused connection ends the client: the supervisor makes one
  attempt, publishes its start, the error and the failure, then STOPPING and STOPPED, in this
  order and nothing else, and leaves the client STOPPED without a connection.  The failure event
  announces the backoff delay whenever reconnect is enabled, though no attempt follows.
\<close>
theorem supervise_fail_fast:
  assumes "dc_dispatch_mode (cc_disp cc) = INLINE" "handler_returns env" "refuses env error"
    and "is_Exception (connect_error cc error)"
    and "resolve_error_policy cc = FAIL_FAST"
    and "unconnected s" "cl_stop_waiter s = None"
  shows "\<exists>s'. supervise env cc ctx s = Some (Inr (), s') \<and>
    cl_lifecycle_state s' = STOPPED \<and> \<not> cl_running s' \<and> cl_connection s' = None \<and>
    cl_attempt_counter s' = Suc (cl_attempt_counter s) \<and>
    d_delivered s' = d_delivered s @
      [ReconnectAttemptStartedEvent (cc_component_id cc) (int (Suc (cl_attempt_counter s))),
       NetworkErrorEvent (cc_component_id cc) (connect_error cc error),
       ReconnectAttemptFailedEvent (cc_component_id cc) (int (Suc (cl_attempt_counter s)))
         (connect_error cc error)
         (if reconnect_enabled cc
          then Some (fst (next_delay (cc_draw cc (cl_draws s)) (cl_backoff s))) else None)] @
      terminal_events cc"
proof -
  let ?n = "cl_attempt_counter s" and ?e = "connect_error cc error"
  have s: "snapshot ?n (cl_backoff s) (cl_draws s) None (d_delivered s) s"
    using assms(6,7) by (simp add: snapshot_def)
  have "wp False (supervise env cc ctx) (\<lambda>_ s'. cl_lifecycle_state s' = STOPPED \<and> \<not> cl_running s' \<and>
      cl_connection s' = None \<and> cl_attempt_counter s' = Suc ?n \<and>
      d_delivered s' = (d_delivered s @ ReconnectAttemptStartedEvent (cc_component_id cc) (int (Suc ?n)) #
        failure_events cc ?e (Suc ?n) (announced_delay cc (cl_draws s) (cl_backoff s))) @
        terminal_events cc) (\<lambda>_ _. False) s"
    unfolding supervise_def wp_finallyE
    by (rule wp_loopE_step, rule wp_fail_fast_pass [OF assms(1-5) s], unfold turn.case,
        rule wp_finalize_snapshot [OF assms(1,2)], assumption) simp
  then show ?thesis
    using assms(5) by (auto simp: failure_events_def announced_delay_def dest!: wp_valueD)
qed

theorem supervise_fail_fast_witness:
  "\<exists>s'. supervise refusing sample_cc (plain_ctx None) running_sample = Some (Inr (), s') \<and>
    cl_lifecycle_state s' = STOPPED \<and> cl_attempt_counter s' = 1 \<and>
    d_delivered s' = [ReconnectAttemptStartedEvent (cc_component_id sample_cc) 1,
      NetworkErrorEvent (cc_component_id sample_cc) (Exn OSError ''refused''),
      ReconnectAttemptFailedEvent (cc_component_id sample_cc) 1 (Exn OSError ''refused'') None] @
      terminal_events sample_cc"
proof -
  have cc: "resolve_error_policy sample_cc = FAIL_FAST" "\<not> reconnect_enabled sample_cc"
    by (simp_all add: sample_cc_def resolve_error_policy_def sample_client_settings_def
        default_tcp_client_def default_reconnect_def)
  have ordinary: "is_Exception (Exn OSError ''refused'')" by (simp add: is_Exception_def)
  show ?thesis
    using supervise_fail_fast [where env = refusing and cc = sample_cc and ctx = "plain_ctx None"
        and s = running_sample and error = "Exn OSError ''refused''"] refusing_env sample_cc_inline
      cc ordinary
    by auto
qed

section \<open>Waiting for a connection\<close>

text \<open>
  The answer of \<open>wait_until_connected\<close> is right at the moment it is given: the connection it
  returns is the client's current one and CONNECTED; the two errors it raises itself mean that
  a started client is STOPPED, or that the last attempt failed and no reconnect will follow;
  any other exception was raised at its await.
\<close>
theorem wait_until_connected_answers:
  assumes "wait_until_client_connected env cc poll s = Some (r, s')"
  shows "case r of
      Inr c \<Rightarrow> current_connection s' = Some c \<and> cn_state (t_conns s' c) = CONNECTED
    | Inl e \<Rightarrow>
        (exn_class e = ConnectionError \<and> cl_lifecycle_state s' = STOPPED \<and> cl_has_started s') \<or>
        (exn_class e = ConnectionError \<and> cl_last_connect_error s' \<noteq> None \<and>
           (\<not> reconnect_enabled cc \<or> cl_lifecycle_state s' = STOPPED)) \<or>
        (\<exists>s0. env (A_status_changed poll) s0 = (Some e, s'))"
proof -
  let ?Q = "\<lambda>c s'. current_connection s' = Some c \<and> cn_state (t_conns s' c) = CONNECTED"
    and ?E = "\<lambda>e s'. (exn_class e = ConnectionError \<and> cl_lifecycle_state s' = STOPPED \<and> cl_has_started s') \<or>
        (exn_class e = ConnectionError \<and> cl_last_connect_error s' \<noteq> None \<and>
           (\<not> reconnect_enabled cc \<or> cl_lifecycle_state s' = STOPPED)) \<or>
        (\<exists>s0. env (A_status_changed poll) s0 = (Some e, s'))"
  have "wp True (wait_until_client_connected env cc poll) ?Q ?E s"
    unfolding wait_until_client_connected_def
  proof (rule loopE_wp [where J = "\<lambda>_ _. True"])
    fix u s
    show "wp True (client_wait_pass env cc poll u)
        (\<lambda>t s'. case t of Again _ \<Rightarrow> True | Leave c \<Rightarrow> ?Q c s') ?E s"
      unfolding client_wait_pass_def
      by (auto simp: wp_simps wp_awaitE is_connected_def split: option.split prod.split)
  qed simp
  from wp_SomeD [OF this assms] show ?thesis by (cases r) auto
qed

theorem wait_until_connected_answers_witness:
  "cl_lifecycle_state (sample_client\<lparr>cl_has_started := True\<rparr>) = STOPPED \<and>
   (case fst (the (wait_until_client_connected quiet sample_cc 1 (sample_client\<lparr>cl_has_started := True\<rparr>))) of
      Inr _ \<Rightarrow> False | Inl e \<Rightarrow> exn_class e = ConnectionError)"
proof -
  let ?s = "sample_client\<lparr>cl_has_started := True\<rparr>"
  have run: "wait_until_client_connected quiet sample_cc 1 ?s =
      Some (Inl (Exn ConnectionError ''TCP client is stopped.''), ?s)"
    by (simp add: wait_until_client_connected_def loopE_step client_wait_pass_def prog_defs
        current_connection_def)
  from wait_until_connected_answers [OF this] show ?thesis by (auto simp: run quiet_def)
qed

end
