(* ===== verification/Server_State.thy ===== *)
theory Server_State
  imports Transport_Base "HOL-Library.AList"
begin

text \<open>
  Models the state of \<^verbatim>\<open>asyncio_tcp_server.py\<close> and what every part of the server uses: its
  state lock, lifecycle and status updates, the tables of connections and heartbeat senders,
  and \<open>asyncio.gather\<close> over the coroutines the server starts.
\<close>

section \<open>State\<close>

record server_config =
  sc_settings :: tcp_server_settings
  sc_provider :: "attribute option"
  sc_disp :: disp_config
  sc_component_id :: string

text \<open>
  One result of \<open>getaddrinfo\<close>: what creating a socket for it raises, and the first error of
  configuring, binding and listening.
\<close>

record listen_candidate =
  ld_create_error :: "exn option"
  ld_setup_error :: "exn option"

text \<open>
  The coroutines the server runs as tasks of their own; \<open>Call_send c data timed k\<close> is the
  \<open>_send_one\<close> of a broadcast with semaphore \<open>k\<close>.
\<close>

datatype server_call =
    Call_close nat
  | Call_heartbeat_stop nat
  | Call_send nat pyval bool nat
  | Call_dispatcher_stop

text \<open>
  The server's fields.  The two dicts are association lists, in insertion order.  A listening
  socket and the asyncio server on it have the same number; \<open>sv_sockets\<close> are the ones that are
  open.  \<open>sv_addrinfo\<close> is what the resolver answers next; \<open>sv_locked\<close> is \<open>_state_lock\<close>;
  \<open>sv_calls\<close> says what an \<open>Owner_call\<close> task runs, \<open>sv_send_errors\<close> what a \<open>_send_one\<close> returned;
  \<open>sv_semaphores\<close> are the free slots of the broadcasts' semaphores; \<open>sv_closed_writers\<close> are the
  rejected writers that were closed; \<open>sv_transitions\<close> records the applied transitions.
\<close>

record server = transport +
  sv_server :: "nat option"
  sv_has_started :: bool
  sv_status_changed :: bool
  sv_status_version :: nat
  sv_lifecycle_state :: component_lifecycle_state
  sv_connections :: "(string \<times> nat) list"
  sv_heartbeat_senders :: "(string \<times> nat) list"
  sv_connection_sequence :: nat
  sv_locked :: bool
  sv_stop_waiter :: "nat option"
  sv_owner_loop :: "nat option"
  sv_next_connection :: nat
  sv_next_sender :: nat
  sv_next_socket :: nat
  sv_sockets :: "nat set"
  sv_addrinfo :: "exn + listen_candidate list"
  sv_calls :: "nat \<rightharpoonup> server_call"
  sv_send_errors :: "nat \<Rightarrow> exn option"
  sv_next_semaphore :: nat
  sv_semaphores :: "nat \<Rightarrow> nat"
  sv_closed_writers :: "nat set"
  sv_timer_expired :: bool
  sv_transitions :: "(component_lifecycle_state \<times> component_lifecycle_state) list"

text \<open>
  \<open>__init__\<close>, with the entries of the empty table of connections and what the resolver will
  answer, which are arbitrary.
\<close>

definition server_init ::
    "tcp_server_settings \<Rightarrow> attribute \<Rightarrow> attribute option \<Rightarrow> connection \<Rightarrow>
     (exn + listen_candidate list) \<Rightarrow> exn + (server_config \<times> server)" where
  "server_init settings on_event provider no_connection addrinfo =
     bindR (tcp_server_validate settings) (\<lambda>_.
     bindR (validate_heartbeat_provider (ss_heartbeat settings) provider) (\<lambda>_.
     let component_id = tcp_server_component_id (str_value (ss_host settings)) (int_value (ss_port settings))
     in bindR (disp_init on_event (delivery_config 0 (ss_event_delivery settings) component_id) None (Some 0))
       (\<lambda>(cfg, d). Inr
          (\<lparr>sc_settings = settings, sc_provider = provider, sc_disp = cfg, sc_component_id = component_id\<rparr>,
           transport.extend
             (disp.extend d (transport.fields (\<lambda>_. no_connection) Map.empty (\<lambda>_. Pending) (\<lambda>_. False) {} []))
                \<lparr>sv_server = None, sv_has_started = False, sv_status_changed = False,
                 sv_status_version = 0, sv_lifecycle_state = STOPPED, sv_connections = [],
                 sv_heartbeat_senders = [], sv_connection_sequence = 0, sv_locked = False,
                 sv_stop_waiter = None, sv_owner_loop = None, sv_next_connection = 0,
                 sv_next_sender = 0, sv_next_socket = 0, sv_sockets = {}, sv_addrinfo = addrinfo,
                 sv_calls = Map.empty, sv_send_errors = (\<lambda>_. None), sv_next_semaphore = 0,
                 sv_semaphores = (\<lambda>_. 0), sv_closed_writers = {}, sv_timer_expired = False,
                 sv_transitions = []\<rparr>))))"

section \<open>The state lock\<close>

text \<open>
  \<open>async with self._state_lock\<close>.  A free lock is taken without suspending; the queue of the
  waiters is the environment's.
\<close>

definition lock_pass :: "server environment \<Rightarrow> unit \<Rightarrow> (server, (unit, unit) turn) prog" where
  "lock_pass env _ =
     bindE (getsE sv_locked) (\<lambda>locked.
       if locked then seqE (awaitE env A_lock) (ret (Again ()))
       else seqE (modifyE (\<lambda>s. s\<lparr>sv_locked := True\<rparr>)) (ret (Leave ())))"

definition with_state_lock :: "server environment \<Rightarrow> (server, 'a) prog \<Rightarrow> (server, 'a) prog" where
  "with_state_lock env body =
     seqE (loopE (lock_pass env) ()) (finallyE body (modifyE (\<lambda>s. s\<lparr>sv_locked := False\<rparr>)))"

section \<open>Status and lifecycle\<close>

definition server_notify_status_changed :: "server \<Rightarrow> server" where
  "server_notify_status_changed s =
     s\<lparr>sv_status_version := Suc (sv_status_version s), sv_status_changed := True\<rparr>"

definition server_set_state :: "component_lifecycle_state \<Rightarrow> server \<Rightarrow> server" where
  "server_set_state target s =
     s\<lparr>sv_lifecycle_state := target,
       sv_transitions := sv_transitions s @ [(sv_lifecycle_state s, target)]\<rparr>"

definition server_publisher :: "server_config \<Rightarrow> lifecycle_publisher" where
  "server_publisher sc =
     \<lparr>lp_component_name = sc_component_id sc, lp_resource_id = sc_component_id sc,
      lp_role = TCP_SERVER_ROLE\<rparr>"

definition server_apply_lifecycle_state ::
    "server_config \<Rightarrow> component_lifecycle_state \<Rightarrow> (server, network_event option) prog" where
  "server_apply_lifecycle_state sc next_state =
     publisher_apply (server_publisher sc) sv_lifecycle_state server_set_state
       (\<lambda>_. server_notify_status_changed) next_state"

definition server_emit_lifecycle_event ::
    "server environment \<Rightarrow> server_config \<Rightarrow> task_ctx \<Rightarrow> network_event option \<Rightarrow> (server, unit) prog" where
  "server_emit_lifecycle_event env sc ctx event =
     emit_lifecycle_event (emit env (sc_disp sc) ctx) event"

definition server_set_lifecycle_state ::
    "server environment \<Rightarrow> server_config \<Rightarrow> task_ctx \<Rightarrow> component_lifecycle_state \<Rightarrow> (server, unit) prog" where
  "server_set_lifecycle_state env sc ctx next_state =
     bindE (server_apply_lifecycle_state sc next_state) (server_emit_lifecycle_event env sc ctx)"

definition server_assert_owner_loop :: "nat option \<Rightarrow> (server, unit) prog" where
  "server_assert_owner_loop running_loop =
     bindE (getsE sv_owner_loop) (\<lambda>owner_loop.
       bindE (liftR (assert_running_on_owner_loop ''AsyncioTcpServer'' running_loop owner_loop))
         (\<lambda>loop. modifyE (\<lambda>s. s\<lparr>sv_owner_loop := Some loop\<rparr>)))"

text \<open>The \<open>connections\<close> property: the values of the dict.\<close>

definition server_connections :: "server \<Rightarrow> nat list" where
  "server_connections s = map snd (sv_connections s)"

section \<open>Tasks of the server\<close>

text \<open>
  \<open>asyncio.gather\<close>: a task per coroutine, then the wait for all of them.  The children run in a
  copy of the caller's context; their outcomes are in the task table.
\<close>

definition create_call :: "server_call \<Rightarrow> task_ctx \<Rightarrow> server \<Rightarrow> nat \<times> server" where
  "create_call call ctx s =
     (case create_task Owner_call ctx s of (t, s1) \<Rightarrow> (t, s1\<lparr>sv_calls := (sv_calls s1)(t \<mapsto> call)\<rparr>))"

fun create_calls :: "task_ctx \<Rightarrow> server_call list \<Rightarrow> server \<Rightarrow> nat list \<times> server" where
  "create_calls ctx [] s = ([], s)"
| "create_calls ctx (call # calls) s =
     (case create_call call ctx s of (t, s1) \<Rightarrow>
        case create_calls ctx calls s1 of (ts, s2) \<Rightarrow> (t # ts, s2))"

definition gather_calls ::
    "server environment \<Rightarrow> task_ctx \<Rightarrow> server_call list \<Rightarrow> (server, nat list) prog" where
  "gather_calls env ctx calls =
     bindE (stateE (create_calls ctx calls)) (\<lambda>ts. seqE (awaitE env (A_gather ts)) (ret ts))"

definition task_error :: "server \<Rightarrow> nat \<Rightarrow> exn option" where
  "task_error s t = (case t_task_state s t of Done (Inl e) \<Rightarrow> Some e | _ \<Rightarrow> None)"

text \<open>\<open>asyncio.wait_for\<close>: a cancellation that its timer caused becomes TimeoutError.\<close>

definition server_wait_for :: "(server, 'a) prog \<Rightarrow> (server, 'a) prog" where
  "server_wait_for m =
     tryE m (\<lambda>e. bindE (getsE sv_timer_expired) (\<lambda>expired.
       if is_cancelled e \<and> expired then raiseE (Exn TimeoutError []) else raiseE e))"

text \<open>\<open>report_teardown_errors\<close> on the results of a gather, None for a step that succeeded.\<close>

fun report_teardown_errors ::
    "server environment \<Rightarrow> server_config \<Rightarrow> task_ctx \<Rightarrow> exn option list \<Rightarrow> (server, unit) prog" where
  "report_teardown_errors env sc ctx [] = ret ()"
| "report_teardown_errors env sc ctx (None # results) = report_teardown_errors env sc ctx results"
| "report_teardown_errors env sc ctx (Some error # results) =
     seqE (if is_Exception error
           then suppress_Exception (emit env (sc_disp sc) ctx (NetworkErrorEvent (sc_component_id sc) error))
           else ret ())
       (report_teardown_errors env sc ctx results)"

section \<open>The publisher's host\<close>

interpretation sv: lifecycle_host sv_lifecycle_state server_set_state "\<lambda>_. server_notify_status_changed"
  by unfold_locales (simp_all add: server_set_state_def server_notify_status_changed_def)

abbreviation server_moved :: "component_lifecycle_state \<Rightarrow> server \<Rightarrow> server" where
  "server_moved t s \<equiv> server_notify_status_changed (server_set_state t s)"

abbreviation server_event ::
    "server_config \<Rightarrow> component_lifecycle_state \<Rightarrow> component_lifecycle_state \<Rightarrow> network_event" where
  "server_event sc p t \<equiv> ComponentLifecycleChangedEvent (sc_component_id sc) p t"

lemma server_publisher_id [simp]: "lp_resource_id (server_publisher sc) = sc_component_id sc"
  by (simp add: server_publisher_def)

lemma wp_server_apply [wp_simps]:
  "wp t (server_apply_lifecycle_state sc target) Q E s =
     (if sv_lifecycle_state s = target then Q None s
      else if legal (sv_lifecycle_state s) target
      then Q (Some (server_event sc (sv_lifecycle_state s) target)) (server_moved target s)
      else E (Exn RuntimeError (lp_component_name (server_publisher sc))) s)"
  unfolding wp_def server_apply_lifecycle_state_def
  using sv.apply_same [of s target] sv.apply_legal [of s target] sv.apply_illegal [of s target] by auto

lemma notify_simps [simp]:
  "sv_lifecycle_state (server_notify_status_changed s) = sv_lifecycle_state s"
  "sv_transitions (server_notify_status_changed s) = sv_transitions s"
  "sv_server (server_notify_status_changed s) = sv_server s"
  "sv_connections (server_notify_status_changed s) = sv_connections s"
  "sv_heartbeat_senders (server_notify_status_changed s) = sv_heartbeat_senders s"
  "sv_connection_sequence (server_notify_status_changed s) = sv_connection_sequence s"
  "sv_stop_waiter (server_notify_status_changed s) = sv_stop_waiter s"
  "sv_locked (server_notify_status_changed s) = sv_locked s"
  "sv_sockets (server_notify_status_changed s) = sv_sockets s"
  "sv_next_socket (server_notify_status_changed s) = sv_next_socket s"
  "sv_addrinfo (server_notify_status_changed s) = sv_addrinfo s"
  "transport.truncate (server_notify_status_changed s) = transport.truncate s"
  by (simp_all add: server_notify_status_changed_def transport.defs)

lemma set_state_simps [simp]:
  "sv_lifecycle_state (server_set_state t s) = t"
  "sv_transitions (server_set_state t s) = sv_transitions s @ [(sv_lifecycle_state s, t)]"
  "sv_server (server_set_state t s) = sv_server s"
  "sv_connections (server_set_state t s) = sv_connections s"
  "sv_heartbeat_senders (server_set_state t s) = sv_heartbeat_senders s"
  "sv_connection_sequence (server_set_state t s) = sv_connection_sequence s"
  "sv_stop_waiter (server_set_state t s) = sv_stop_waiter s"
  "sv_locked (server_set_state t s) = sv_locked s"
  "sv_sockets (server_set_state t s) = sv_sockets s"
  "sv_next_socket (server_set_state t s) = sv_next_socket s"
  "sv_addrinfo (server_set_state t s) = sv_addrinfo s"
  "transport.truncate (server_set_state t s) = transport.truncate s"
  by (simp_all add: server_set_state_def transport.defs)

lemma wp_await_quiet [simp]: "wp t (awaitE quiet p) Q E s = Q () s"
  by (simp add: wp_def awaitE_def quiet_def)

lemma wp_modify_fun: "wp t (modifyE f) Q E = (\<lambda>s. Q () (f s))"
  by (simp add: fun_eq_iff wp_simps)

text \<open>A free lock is transparent to a body that leaves it alone.\<close>

lemma wp_with_state_lock:
  assumes "\<not> sv_locked s"
    and "wp t body (\<lambda>a s'. Q a (s'\<lparr>sv_locked := False\<rparr>)) (\<lambda>e s'. E e (s'\<lparr>sv_locked := False\<rparr>))
      (s\<lparr>sv_locked := True\<rparr>)"
  shows "wp t (with_state_lock env body) Q E s"
  unfolding with_state_lock_def wp_seqE
  by (rule wp_loopE_step) (use assms in \<open>simp add: lock_pass_def wp_simps wp_modify_fun\<close>)

section \<open>A server for examples\<close>

definition sample_server_settings :: tcp_server_settings where
  "sample_server_settings = (default_tcp_server (PStr ''h'') (PInt 1) (PInt 2))
     \<lparr>ss_event_delivery := default_event_delivery\<lparr>ed_dispatch_mode := PEnum (EDispatch INLINE)\<rparr>\<rparr>"

definition sample_sc :: server_config where
  "sample_sc = \<lparr>sc_settings = sample_server_settings, sc_provider = None,
     sc_disp = (delivery_config 0 (ss_event_delivery sample_server_settings) (tcp_server_component_id ''h'' 1))
       \<lparr>dc_stop_policy_enabled := True, dc_stop_component_callback := Some 0\<rparr>,
     sc_component_id = tcp_server_component_id ''h'' 1\<rparr>"

definition sample_addrinfo :: "exn + listen_candidate list" where
  "sample_addrinfo = Inr [\<lparr>ld_create_error = None, ld_setup_error = None\<rparr>]"

definition sample_server :: server where
  "sample_server = transport.extend
     (disp.extend empty_disp
        (transport.fields (\<lambda>_. sample_connection) Map.empty (\<lambda>_. Pending) (\<lambda>_. False) {} []))
     \<lparr>sv_server = None, sv_has_started = False, sv_status_changed = False,
      sv_status_version = 0, sv_lifecycle_state = STOPPED, sv_connections = [],
      sv_heartbeat_senders = [], sv_connection_sequence = 0, sv_locked = False,
      sv_stop_waiter = None, sv_owner_loop = None, sv_next_connection = 0,
      sv_next_sender = 0, sv_next_socket = 0, sv_sockets = {}, sv_addrinfo = sample_addrinfo,
      sv_calls = Map.empty, sv_send_errors = (\<lambda>_. None), sv_next_semaphore = 0,
      sv_semaphores = (\<lambda>_. 0), sv_closed_writers = {}, sv_timer_expired = False,
      sv_transitions = []\<rparr>"

lemma sample_server_valid: "tcp_server_validate sample_server_settings = Inr ()"
  by code_simp

lemma sample_server_init:
  "server_init sample_server_settings (IsCallable True False) None sample_connection sample_addrinfo =
     Inr (sample_sc, sample_server)"
  using sample_server_valid
  by (simp add: server_init_def sample_sc_def sample_server_def sample_server_settings_def
      default_tcp_server_def default_heartbeat_def validate_heartbeat_provider_def disp_init_def
      validate_async_event_handler_def async_callable_def delivery_config_def
      stop_policy_stop_component_def stop_policy_validate_def empty_disp_def default_event_delivery_def
      Let_def)

lemma sample_sc_inline: "dc_dispatch_mode (sc_disp sample_sc) = INLINE"
  by (simp add: sample_sc_def delivery_config_def sample_server_settings_def)

lemma sample_server_simps [simp]:
  "sv_lifecycle_state sample_server = STOPPED" "sv_owner_loop sample_server = None"
  "sv_transitions sample_server = []" "sv_stop_waiter sample_server = None"
  "sv_server sample_server = None" "sv_locked sample_server = False"
  "sv_connections sample_server = []" "sv_heartbeat_senders sample_server = []"
  "sv_sockets sample_server = {}" "sv_next_socket sample_server = 0"
  "sv_addrinfo sample_server = sample_addrinfo" "sv_connection_sequence sample_server = 0"
  "d_worker_task sample_server = None" "d_delivered sample_server = []"
  "d_origin_tokens sample_server = {}" "d_futures sample_server = []"
  by (simp_all add: sample_server_def transport.defs disp.defs empty_disp_def)

end
