(* ===== verification/Server_Clients.thy ===== *)
theory Server_Clients
  imports Server_State
begin

text \<open>
  Models what the TCP server does with its clients (\<^verbatim>\<open>_tcp_server_helpers.py\<close> and the methods
  of \<^verbatim>\<open>asyncio_tcp_server.py\<close> that call it): accepting and rejecting sockets, one heartbeat
  sender per connection, broadcasting, the close callback, and \<open>wait_until_running\<close>.
\<close>

section \<open>Heartbeat senders\<close>

text \<open>\<open>start_server_heartbeat_if_needed\<close>: the registration under the lock, and the whole.\<close>

definition register_sender :: "nat \<Rightarrow> nat \<Rightarrow> server \<Rightarrow> bool \<times> server" where
  "register_sender c sender s =
     (if sv_lifecycle_state s = RUNNING \<and> the_id c s \<in> fst ` set (sv_connections s)
      then (True, s\<lparr>sv_heartbeat_senders := AList.update (the_id c s) sender (sv_heartbeat_senders s)\<rparr>)
      else (False, s))"

definition drop_sender :: "nat \<Rightarrow> server \<Rightarrow> server" where
  "drop_sender c s = s\<lparr>sv_heartbeat_senders := AList.delete (the_id c s) (sv_heartbeat_senders s)\<rparr>"

definition new_sender :: "server \<Rightarrow> nat \<times> server" where
  "new_sender s = (sv_next_sender s, s\<lparr>sv_next_sender := Suc (sv_next_sender s)\<rparr>)"

definition start_server_heartbeat_if_needed ::
    "server environment \<Rightarrow> server_config \<Rightarrow> nat \<Rightarrow> (server, unit) prog" where
  "start_server_heartbeat_if_needed env sc c =
     (let settings = ss_heartbeat (sc_settings sc)
      in bindE (liftR (validate_heartbeat_provider settings (sc_provider sc))) (\<lambda>_.
           if \<not> truthy (hs_enabled settings) then ret ()
           else if sc_provider sc = None
           then raiseE (Exn RuntimeError ''Heartbeat is enabled but no heartbeat_provider was supplied.'')
           else bindE (getsE (the_id c)) (\<lambda>rid.
             bindE (liftR (heartbeat_init rid settings)) (\<lambda>_.
             bindE (stateE new_sender) (\<lambda>sender.
             bindE (with_state_lock env (stateE (register_sender c sender))) (\<lambda>should_start.
               if \<not> should_start then ret ()
               else tryE (awaitE env (A_heartbeat_start sender))
                 (\<lambda>e. if is_Exception e
                       then seqE (with_state_lock env (modifyE (drop_sender c))) (raiseE e)
                       else raiseE e)))))))"

text \<open>\<open>stop_server_heartbeat_senders\<close>.\<close>

definition stop_server_heartbeat_senders ::
    "server environment \<Rightarrow> server_config \<Rightarrow> task_ctx \<Rightarrow> nat list \<Rightarrow> (server, unit) prog" where
  "stop_server_heartbeat_senders env sc ctx senders =
     (if senders = [] then ret ()
      else bindE (gather_calls env ctx (map Call_heartbeat_stop senders)) (\<lambda>ts.
             bindE (getsE (\<lambda>s. map (task_error s) ts)) (report_teardown_errors env sc ctx)))"

section \<open>Accepting\<close>

definition extract_remote_peer_address :: "peer_info \<Rightarrow> string option \<times> int option" where
  "extract_remote_peer_address peer_info =
     (case peer_info of
        NotTuple \<Rightarrow> (None, None)
      | PTuple items \<Rightarrow>
          if \<not> length items \<ge> 2 then (None, None)
          else (Some (str_item (items ! 0)), int_item (items ! 1)))"

definition server_next_connection_id :: "peer_info \<Rightarrow> server \<Rightarrow> string \<times> server" where
  "server_next_connection_id peer s =
     (let n = Suc (sv_connection_sequence s)
      in (tcp_server_connection_id peer (int n), s\<lparr>sv_connection_sequence := n\<rparr>))"

definition idle_timeout_of :: "server_config \<Rightarrow> rat option" where
  "idle_timeout_of sc =
     (case ss_connection_idle_timeout_seconds (sc_settings sc) of PNone \<Rightarrow> None | v \<Rightarrow> Some (num_of v))"

definition max_connections :: "server_config \<Rightarrow> int" where
  "max_connections sc = int_value (ss_max_connections (sc_settings sc))"

definition add_connection :: "string \<Rightarrow> connection \<Rightarrow> server \<Rightarrow> nat \<times> server" where
  "add_connection cid cn s =
     (let c = sv_next_connection s
      in (c, (conn_update c (\<lambda>_. cn) s)\<lparr>sv_next_connection := Suc c,
               sv_connections := AList.update cid c (sv_connections s)\<rparr>))"

text \<open>
  The locked part of \<open>handle_accepted_client\<close>: the connection, or the event of a rejection for
  which there is one.
\<close>

definition admit ::
    "server_config \<Rightarrow> peer_info \<Rightarrow> peer_info \<Rightarrow> (server, nat option \<times> network_event option) prog" where
  "admit sc peername sockname =
     bindE (stateE (server_next_connection_id peername)) (\<lambda>cid.
     bindE (getsE (\<lambda>s. s)) (\<lambda>s.
       if sv_lifecycle_state s \<noteq> RUNNING then ret (None, None)
       else if int (length (sv_connections s)) \<ge> max_connections sc
       then ret (None, Some (ConnectionRejectedEvent (sc_component_id sc) cid ''max_connections_reached''
              (fst (extract_remote_peer_address peername)) (snd (extract_remote_peer_address peername))))
       else bindE (liftR (connection_init cid SERVER sockname peername
               (int_value (ss_receive_buffer_size (sc_settings sc))) (idle_timeout_of sc)
               (ss_connection_send_timeout_seconds (sc_settings sc)))) (\<lambda>cn.
            bindE (stateE (add_connection cid cn)) (\<lambda>c. ret (Some c, None)))))"

text \<open>\<open>handle_accepted_client\<close> for the writer numbered \<open>w\<close> with its two addresses.\<close>

definition reject_writer ::
    "server environment \<Rightarrow> server_config \<Rightarrow> task_ctx \<Rightarrow> nat \<Rightarrow> network_event option \<Rightarrow> (server, unit) prog" where
  "reject_writer env sc ctx w rejection_event =
     seqE (case rejection_event of
             None \<Rightarrow> ret ()
           | Some event \<Rightarrow> suppress_Exception (emit env (sc_disp sc) ctx event))
       (seqE (modifyE (\<lambda>s. s\<lparr>sv_closed_writers := insert w (sv_closed_writers s)\<rparr>))
         (suppress_Exception (awaitE env (A_accepted_closed w))))"

definition abandon_connection ::
    "server environment \<Rightarrow> server_config \<Rightarrow> task_ctx \<Rightarrow> nat \<Rightarrow> exn \<Rightarrow> (server, unit) prog" where
  "abandon_connection env sc ctx c error =
     seqE (if is_Exception error
           then suppress_Exception (emit env (sc_disp sc) ctx (NetworkErrorEvent (sc_component_id sc) error))
           else ret ())
       (seqE (suppress_Exception (conn_close env (sc_disp sc) ctx c))
         (if is_cancelled error then raiseE error else ret ()))"

definition handle_client ::
    "server environment \<Rightarrow> server_config \<Rightarrow> task_ctx \<Rightarrow> nat \<Rightarrow> peer_info \<Rightarrow> peer_info \<Rightarrow> (server, unit) prog" where
  "handle_client env sc ctx w peername sockname =
     bindE (with_state_lock env (admit sc peername sockname)) (\<lambda>(connection, rejection_event).
       case connection of
         None \<Rightarrow> reject_writer env sc ctx w rejection_event
       | Some c \<Rightarrow>
           tryE (seqE (conn_start env (sc_disp sc) ctx None c) (start_server_heartbeat_if_needed env sc c))
             (\<lambda>e. if is_caught e then abandon_connection env sc ctx c e else raiseE e))"

text \<open>\<open>_on_connection_closed\<close>, the callback every connection of the server is given.\<close>

definition forget_connection :: "nat \<Rightarrow> server \<Rightarrow> nat option \<times> server" where
  "forget_connection c s =
     (map_of (sv_heartbeat_senders s) (the_id c s),
      s\<lparr>sv_heartbeat_senders := AList.delete (the_id c s) (sv_heartbeat_senders s),
        sv_connections := AList.delete (the_id c s) (sv_connections s)\<rparr>)"

definition server_on_connection_closed :: "server environment \<Rightarrow> nat \<Rightarrow> (server, unit) prog" where
  "server_on_connection_closed env c =
     bindE (with_state_lock env (stateE (forget_connection c))) (\<lambda>sender. case sender of
       None \<Rightarrow> ret ()
     | Some n \<Rightarrow> awaitE env (A_heartbeat_stop n))"

section \<open>Broadcast\<close>

definition semaphore_pass :: "server environment \<Rightarrow> nat \<Rightarrow> unit \<Rightarrow> (server, (unit, unit) turn) prog" where
  "semaphore_pass env k _ =
     bindE (getsE (\<lambda>s. sv_semaphores s k)) (\<lambda>free.
       if free = 0 then seqE (awaitE env (A_semaphore k)) (ret (Again ()))
       else seqE (modifyE (\<lambda>s. s\<lparr>sv_semaphores := (sv_semaphores s)(k := free - 1)\<rparr>)) (ret (Leave ())))"

definition release_semaphore :: "nat \<Rightarrow> server \<Rightarrow> server" where
  "release_semaphore k s = s\<lparr>sv_semaphores := (sv_semaphores s)(k := Suc (sv_semaphores s k))\<rparr>"

definition send_one ::
    "server environment \<Rightarrow> nat \<Rightarrow> pyval \<Rightarrow> bool \<Rightarrow> nat \<Rightarrow> (server, exn option) prog" where
  "send_one env c data timed k =
     seqE (loopE (semaphore_pass env k) ())
       (finallyE
         (tryE (seqE (if timed then server_wait_for (conn_send env c data) else conn_send env c data) (ret None))
            (\<lambda>e. if is_Exception e then ret (Some e) else raiseE e))
         (modifyE (release_semaphore k)))"

definition new_semaphore :: "nat \<Rightarrow> server \<Rightarrow> nat \<times> server" where
  "new_semaphore limit s =
     (sv_next_semaphore s,
      s\<lparr>sv_next_semaphore := Suc (sv_next_semaphore s),
        sv_semaphores := (sv_semaphores s)(sv_next_semaphore s := limit)\<rparr>)"

text \<open>The errors of the failed sends are published; the failed connections are returned.\<close>

fun report_failed_sends ::
    "server environment \<Rightarrow> server_config \<Rightarrow> task_ctx \<Rightarrow> (nat \<times> exn option) list \<Rightarrow> (server, nat list) prog" where
  "report_failed_sends env sc ctx [] = ret []"
| "report_failed_sends env sc ctx ((c, None) # results) = report_failed_sends env sc ctx results"
| "report_failed_sends env sc ctx ((c, Some error) # results) =
     seqE (suppress_Exception (emit env (sc_disp sc) ctx (NetworkErrorEvent (sc_component_id sc) error)))
       (bindE (report_failed_sends env sc ctx results) (\<lambda>failed. ret (c # failed)))"

definition broadcast_to_connections ::
    "server environment \<Rightarrow> server_config \<Rightarrow> task_ctx \<Rightarrow> nat list \<Rightarrow> pyval \<Rightarrow> (server, unit) prog" where
  "broadcast_to_connections env sc ctx connections data =
     bindE (getsE (\<lambda>s. filter (\<lambda>c. is_connected (t_conns s c)) connections)) (\<lambda>live.
       if live = [] then ret ()
       else
         let limit = nat (int_value (ss_broadcast_concurrency_limit (sc_settings sc)));
             timed = (ss_broadcast_send_timeout_seconds (sc_settings sc) \<noteq> PNone)
         in bindE (stateE (new_semaphore limit)) (\<lambda>k.
            bindE (gather_calls env ctx (map (\<lambda>c. Call_send c data timed k) live)) (\<lambda>ts.
            bindE (getsE (\<lambda>s. zip live (map (sv_send_errors s) ts))) (\<lambda>results.
            bindE (report_failed_sends env sc ctx results) (\<lambda>failed.
              if failed = [] then ret ()
              else bindE (gather_calls env ctx (map Call_close failed)) (\<lambda>ts.
                bindE (getsE (\<lambda>s. map (task_error s) ts)) (report_teardown_errors env sc ctx)))))))"

definition server_broadcast ::
    "server environment \<Rightarrow> server_config \<Rightarrow> task_ctx \<Rightarrow> nat option \<Rightarrow> pyval \<Rightarrow> (server, unit) prog" where
  "server_broadcast env sc ctx running_loop data =
     seqE (server_assert_owner_loop running_loop)
       (bindE (getsE server_connections) (\<lambda>connections.
          broadcast_to_connections env sc ctx connections data))"

section \<open>Waiting for the listener\<close>

definition server_wait_pass ::
    "server environment \<Rightarrow> rat \<Rightarrow> unit \<Rightarrow> (server, (unit, unit) turn) prog" where
  "server_wait_pass env poll_interval_seconds _ =
     bindE (getsE (\<lambda>s. s)) (\<lambda>s.
       if sv_lifecycle_state s = RUNNING then ret (Leave ())
       else if sv_lifecycle_state s = STOPPED \<and> sv_has_started s
       then raiseE (Exn ConnectionError ''TCP server is stopped.'')
       else
         seqE (modifyE (\<lambda>s. s\<lparr>sv_status_changed := False\<rparr>))
           (bindE (getsE sv_status_version) (\<lambda>version.
              if version \<noteq> sv_status_version s then ret (Again ())
              else seqE
                (tryE (awaitE env (A_status_changed poll_interval_seconds))
                   (\<lambda>e. if exn_class e = TimeoutError then ret () else raiseE e))
                (ret (Again ())))))"

definition wait_until_server_running :: "server environment \<Rightarrow> rat \<Rightarrow> (server, unit) prog" where
  "wait_until_server_running env poll_interval_seconds = loopE (server_wait_pass env poll_interval_seconds) ()"

definition server_wait_until_running ::
    "server environment \<Rightarrow> nat option \<Rightarrow> rat option \<Rightarrow> rat \<Rightarrow> (server, unit) prog" where
  "server_wait_until_running env running_loop timeout_seconds poll_interval_seconds =
     seqE (server_assert_owner_loop running_loop)
       (if poll_interval_seconds \<le> 0
        then raiseE (Exn ValueError ''poll_interval_seconds must be > 0.'')
        else case timeout_seconds of
          None \<Rightarrow> wait_until_server_running env poll_interval_seconds
        | Some _ \<Rightarrow> server_wait_for (wait_until_server_running env poll_interval_seconds))"

end
