(* ===== verification/Server.thy ===== *)
theory Server
  imports Server_Clients
begin

text \<open>
  Models the lifecycle operations of \<^verbatim>\<open>asyncio_tcp_server.py\<close>: the listening socket, \<open>start\<close>
  with its rollbacks, and \<open>stop\<close> with the plan and execution state of
  \<^verbatim>\<open>_tcp_server_stop_state.py\<close>.
\<close>

section \<open>The listening socket\<close>

definition open_socket :: "server \<Rightarrow> nat \<times> server" where
  "open_socket s =
     (sv_next_socket s,
      s\<lparr>sv_next_socket := Suc (sv_next_socket s), sv_sockets := insert (sv_next_socket s) (sv_sockets s)\<rparr>)"

text \<open>\<open>close()\<close> of a listening socket, or of the asyncio server on it.\<close>

definition close_socket :: "nat \<Rightarrow> server \<Rightarrow> server" where
  "close_socket k s = s\<lparr>sv_sockets := sv_sockets s - {k}\<rparr>"

fun try_candidates :: "exn option \<Rightarrow> listen_candidate list \<Rightarrow> (server, nat) prog" where
  "try_candidates last_error [] =
     (case last_error of
        Some e \<Rightarrow> raiseE e
      | None \<Rightarrow> raiseE (Exn OSError ''Could not create listening socket.''))"
| "try_candidates last_error (candidate # cands) =
     (case ld_create_error candidate of
        Some e \<Rightarrow> raiseE e
      | None \<Rightarrow> bindE (stateE open_socket) (\<lambda>k.
          case ld_setup_error candidate of
            None \<Rightarrow> ret k
          | Some e \<Rightarrow>
              if is_OSError e
              then seqE (modifyE (close_socket k)) (try_candidates (Some e) cands)
              else raiseE e))"

definition create_listening_socket :: "(server, nat) prog" where
  "create_listening_socket =
     bindE (getsE sv_addrinfo) (\<lambda>addrinfo. bindE (liftR addrinfo) (try_candidates None))"

section \<open>Start\<close>

text \<open>
  The first locked section: None when the server is starting or running already, else the
  STARTING event.
\<close>

definition begin_start :: "server_config \<Rightarrow> (server, network_event option option) prog" where
  "begin_start sc =
     bindE (getsE sv_lifecycle_state) (\<lambda>state.
       if state = STARTING \<or> state = RUNNING then ret None
       else seqE (modifyE (\<lambda>s. disp_start (sc_disp sc) (s\<lparr>sv_has_started := True\<rparr>)))
         (bindE (server_apply_lifecycle_state sc STARTING) (\<lambda>event.
            seqE (modifyE server_notify_status_changed) (ret (Some event)))))"

text \<open>\<open>_rollback_failed_startup\<close>.\<close>

fun close_servers :: "server environment \<Rightarrow> nat option list \<Rightarrow> (server, unit) prog" where
  "close_servers env [] = ret ()"
| "close_servers env (None # servers) = close_servers env servers"
| "close_servers env (Some k # servers) =
     seqE (modifyE (close_socket k))
       (seqE (suppress_Exception (awaitE env (A_server_closed k))) (close_servers env servers))"

definition detach_listener :: "server_config \<Rightarrow> (server, nat option) prog" where
  "detach_listener sc =
     bindE (getsE sv_server) (\<lambda>owned_server.
       seqE (modifyE (\<lambda>s. s\<lparr>sv_server := None\<rparr>))
      (bindE (getsE sv_lifecycle_state) (\<lambda>state.
       seqE (if state = RUNNING then
               bindE (server_apply_lifecycle_state sc STOPPING) (\<lambda>_.
                 bindE (server_apply_lifecycle_state sc STOPPED) (\<lambda>_. ret ()))
             else if state = STARTING then bindE (server_apply_lifecycle_state sc STOPPED) (\<lambda>_. ret ())
             else ret ())
      (seqE (modifyE server_notify_status_changed) (ret owned_server)))))"

definition server_rollback_failed_startup ::
    "server environment \<Rightarrow> server_config \<Rightarrow> task_ctx \<Rightarrow> nat option \<Rightarrow> (server, unit) prog" where
  "server_rollback_failed_startup env sc ctx server =
     bindE (with_state_lock env (detach_listener sc)) (\<lambda>owned_server.
       seqE (close_servers env [server, owned_server])
         (suppress_all (disp_stop env (sc_disp sc) ctx)))"

definition server_or_rollback ::
    "server environment \<Rightarrow> server_config \<Rightarrow> task_ctx \<Rightarrow> nat option \<Rightarrow> (server, unit) prog \<Rightarrow> (server, unit) prog" where
  "server_or_rollback env sc ctx server publish =
     tryE publish
       (\<lambda>e. if is_caught e then seqE (server_rollback_failed_startup env sc ctx server) (raiseE e)
             else raiseE e)"

definition stop_dispatcher_during_startup_rollback ::
    "server environment \<Rightarrow> task_ctx \<Rightarrow> (server, unit) prog" where
  "stop_dispatcher_during_startup_rollback env ctx =
     bindE (stateE (create_call Call_dispatcher_stop ctx)) (\<lambda>t.
       tryE (awaitE env (A_task t))
         (\<lambda>e. if is_cancelled e then seqE (suppress_all (awaitE env (A_task t))) (raiseE e)
               else raiseE e))"

text \<open>What \<open>start\<close> does when it could not listen, before it re-raises.\<close>

definition listening_failed ::
    "server environment \<Rightarrow> server_config \<Rightarrow> task_ctx \<Rightarrow> (server, unit) prog" where
  "listening_failed env sc ctx =
     bindE (with_state_lock env
              (seqE (modifyE (\<lambda>s. s\<lparr>sv_server := None\<rparr>)) (server_apply_lifecycle_state sc STOPPED)))
       (\<lambda>event. finallyE (server_emit_lifecycle_event env sc ctx event)
          (seqE (stop_dispatcher_during_startup_rollback env ctx) (modifyE server_notify_status_changed)))"

definition start_listening ::
    "server environment \<Rightarrow> server_config \<Rightarrow> task_ctx \<Rightarrow> (server, nat) prog" where
  "start_listening env sc ctx =
     tryE
       (bindE create_listening_socket (\<lambda>k.
          tryE (seqE (awaitE env A_start_server) (ret k))
            (\<lambda>e. if is_caught e then seqE (modifyE (close_socket k)) (raiseE e) else raiseE e)))
       (\<lambda>e. if is_caught e then seqE (listening_failed env sc ctx) (raiseE e) else raiseE e)"

text \<open>
  The third locked section: the RUNNING event, or None when a stop came in between and the new
  server is closed again, with the lock held.
\<close>

definition enter_running ::
    "server environment \<Rightarrow> server_config \<Rightarrow> nat \<Rightarrow> (server, network_event option option) prog" where
  "enter_running env sc k =
     bindE (getsE sv_lifecycle_state) (\<lambda>state.
       if state \<noteq> STARTING
       then seqE (modifyE (close_socket k)) (seqE (awaitE env (A_server_closed k)) (ret None))
       else seqE (modifyE (\<lambda>s. s\<lparr>sv_server := Some k\<rparr>))
         (bindE (server_apply_lifecycle_state sc RUNNING) (\<lambda>event.
            seqE (modifyE server_notify_status_changed) (ret (Some event)))))"

text \<open>\<open>start\<close> from the publication of STARTING on.\<close>

definition startup_stopped :: "server \<Rightarrow> nat option option" where
  "startup_stopped s = (if sv_lifecycle_state s \<noteq> STARTING then Some (sv_stop_waiter s) else None)"

definition listen_and_run ::
    "server environment \<Rightarrow> server_config \<Rightarrow> task_ctx \<Rightarrow> (server, unit) prog" where
  "listen_and_run env sc ctx =
     bindE (start_listening env sc ctx) (\<lambda>k.
     bindE (with_state_lock env (enter_running env sc k)) (\<lambda>running. case running of
       None \<Rightarrow> ret ()
     | Some event \<Rightarrow>
         server_or_rollback env sc ctx (Some k) (server_emit_lifecycle_event env sc ctx event)))"

definition publish_starting ::
    "server environment \<Rightarrow> server_config \<Rightarrow> task_ctx \<Rightarrow> network_event option \<Rightarrow> (server, unit) prog" where
  "publish_starting env sc ctx starting_event =
     server_or_rollback env sc ctx None
       (case starting_event of
          None \<Rightarrow> ret ()
        | Some event \<Rightarrow> emit_and_wait env (sc_disp sc) ctx event False)"

definition server_start ::
    "server environment \<Rightarrow> server_config \<Rightarrow> task_ctx \<Rightarrow> nat option \<Rightarrow> (server, unit) prog" where
  "server_start env sc ctx running_loop =
     seqE (server_assert_owner_loop running_loop)
       (bindE (with_state_lock env (begin_start sc)) (\<lambda>started. case started of
          None \<Rightarrow> ret ()
        | Some starting_event \<Rightarrow>
            seqE (publish_starting env sc ctx starting_event)
              (bindE (with_state_lock env (getsE startup_stopped)) (\<lambda>stopped. case stopped of
                 Some stop_waiter \<Rightarrow>
                   (case stop_waiter of None \<Rightarrow> ret () | Some w \<Rightarrow> awaitE env (A_future w))
               | None \<Rightarrow> listen_and_run env sc ctx))))"

section \<open>Stop plans\<close>

record server_stop_plan =
  sp_stop_waiter :: "nat option"
  sp_owns_stop :: bool
  sp_server :: "nat option"
  sp_stopping_event :: "network_event option"
  sp_should_transition_to_stopped :: bool
  sp_heartbeat_senders :: "nat list"
  sp_connections :: "nat list"

definition empty_server_plan :: server_stop_plan where
  "empty_server_plan =
     \<lparr>sp_stop_waiter = None, sp_owns_stop = False, sp_server = None, sp_stopping_event = None,
      sp_should_transition_to_stopped = False, sp_heartbeat_senders = [], sp_connections = []\<rparr>"

definition server_waits_for_owner :: "server_stop_plan \<Rightarrow> bool" where
  "server_waits_for_owner plan = (sp_stop_waiter plan \<noteq> None \<and> \<not> sp_owns_stop plan)"

record server_stop_provenance =
  so_handler_originated :: bool
  so_active_inline_handler :: bool

definition server_defers_terminal_events :: "server_stop_provenance \<Rightarrow> bool" where
  "server_defers_terminal_events pv = (so_handler_originated pv \<or> so_active_inline_handler pv)"

record server_stop_execution =
  sx_deferred_close_waiters :: "nat list"
  sx_stop_waiter_completion_deferred :: bool
  sx_dispatcher_stopped_from_handler_origin :: bool
  sx_raise_cancel_after_stop_waiter :: bool

definition new_server_execution :: server_stop_execution where
  "new_server_execution =
     \<lparr>sx_deferred_close_waiters = [], sx_stop_waiter_completion_deferred = False,
      sx_dispatcher_stopped_from_handler_origin = False, sx_raise_cancel_after_stop_waiter = False\<rparr>"

definition server_stop_is_handler_originated :: "disp_config \<Rightarrow> task_ctx \<Rightarrow> server \<Rightarrow> bool" where
  "server_stop_is_handler_originated cfg ctx s =
     (current_task_is_dispatching_handler cfg ctx s None \<or>
      current_task_has_handler_origin_context cfg ctx s None \<or>
      current_task_inherits_handler_origin_context cfg ctx s None)"

definition server_capture_stop_provenance ::
    "disp_config \<Rightarrow> task_ctx \<Rightarrow> server \<Rightarrow> server_stop_provenance" where
  "server_capture_stop_provenance cfg ctx s =
     (let handler_originated = server_stop_is_handler_originated cfg ctx s
      in \<lparr>so_handler_originated = handler_originated,
          so_active_inline_handler =
            (\<not> handler_originated \<and> has_active_handler_context s None \<and>
             current_task_would_deliver_inline cfg ctx s)\<rparr>)"

definition own_server_stop :: "server \<Rightarrow> server_stop_plan \<times> server" where
  "own_server_stop s =
     (case create_future s of (w, s1) \<Rightarrow>
        (empty_server_plan\<lparr>sp_stop_waiter := Some w, sp_owns_stop := True, sp_server := sv_server s1\<rparr>,
         s1\<lparr>sv_stop_waiter := Some w, sv_server := None\<rparr>))"

definition detach_clients ::
    "network_event option \<Rightarrow> server_stop_plan \<Rightarrow> server \<Rightarrow> server_stop_plan \<times> server" where
  "detach_clients stopping_event plan s =
     (plan\<lparr>sp_stopping_event := stopping_event,
           sp_should_transition_to_stopped := (stopping_event \<noteq> None),
           sp_heartbeat_senders := map snd (sv_heartbeat_senders s),
           sp_connections := map snd (sv_connections s)\<rparr>,
      s\<lparr>sv_heartbeat_senders := [], sv_connections := []\<rparr>)"

definition server_plan_locked :: "server_config \<Rightarrow> (server, server_stop_plan) prog" where
  "server_plan_locked sc =
     bindE (getsE sv_stop_waiter) (\<lambda>stop_waiter.
       if stop_waiter \<noteq> None then ret (empty_server_plan\<lparr>sp_stop_waiter := stop_waiter\<rparr>)
       else bindE (stateE own_server_stop) (\<lambda>plan.
         bindE (apply_stopping_transition_if_active sv_lifecycle_state (server_apply_lifecycle_state sc))
           (\<lambda>stopping_event. stateE (detach_clients stopping_event plan))))"

definition server_plan_stop :: "server environment \<Rightarrow> server_config \<Rightarrow> (server, server_stop_plan) prog" where
  "server_plan_stop env sc = with_state_lock env (server_plan_locked sc)"

section \<open>The tasks of a deferred stop\<close>

definition server_forget_stop_waiter :: "nat option \<Rightarrow> server \<Rightarrow> server" where
  "server_forget_stop_waiter stop_waiter s =
     (if sv_stop_waiter s = stop_waiter then s\<lparr>sv_stop_waiter := None\<rparr> else s)"

definition server_release :: "server environment \<Rightarrow> nat option \<Rightarrow> (server, unit) prog" where
  "server_release env stop_waiter =
     with_state_lock env (modifyE (server_forget_stop_waiter stop_waiter))"

definition server_complete_after_deferred_stop_events ::
    "server environment \<Rightarrow> server_config \<Rightarrow> task_ctx \<Rightarrow> nat option \<Rightarrow> network_event option \<Rightarrow>
     network_event option \<Rightarrow> nat list \<Rightarrow> (server, unit) prog" where
  "server_complete_after_deferred_stop_events env sc ctx stop_waiter stopping_event stopped_event
     deferred_close_waiters =
     complete_stop_waiter stop_waiter (server_release env stop_waiter)
       (seqE (wait_for_handler_context env None)
         (seqE
           (with_inline_delivery_context (sc_disp sc) ctx (\<lambda>ctx1.
              seqE (server_emit_lifecycle_event env sc ctx1 stopping_event)
                (seqE (await_all env deferred_close_waiters)
                  (server_emit_lifecycle_event env sc ctx1 stopped_event))))
           (disp_stop env (sc_disp sc) ctx)))"

definition server_complete_after_deferred_closes ::
    "server environment \<Rightarrow> nat \<Rightarrow> nat list \<Rightarrow> (server, unit) prog" where
  "server_complete_after_deferred_closes env stop_waiter deferred_close_waiters =
     complete_stop_waiter (Some stop_waiter) (server_release env (Some stop_waiter))
       (awaitE env (A_futures deferred_close_waiters))"

section \<open>The owned stop\<close>

definition server_schedule_deferred_stop_events ::
    "task_ctx \<Rightarrow> server_stop_plan \<Rightarrow> server_stop_execution \<Rightarrow> network_event option \<Rightarrow>
     (server, server_stop_execution) prog" where
  "server_schedule_deferred_stop_events ctx plan ex stopped_event =
     bindE
       (stateE (create_task
          (Stop_completion (sp_stop_waiter plan) (sp_stopping_event plan) stopped_event
             (sx_deferred_close_waiters ex) None True) ctx))
       (\<lambda>_. ret (ex\<lparr>sx_stop_waiter_completion_deferred := True\<rparr>))"

definition server_stop_from_handler_origin ::
    "server environment \<Rightarrow> server_config \<Rightarrow> task_ctx \<Rightarrow> server_stop_execution \<Rightarrow> exn option \<Rightarrow>
     (server, server_stop_execution \<times> exn option) prog" where
  "server_stop_from_handler_origin env sc ctx ex earlier =
     tryE
       (seqE (stop_from_handler_origin env (sc_disp sc) ctx)
         (ret (ex\<lparr>sx_dispatcher_stopped_from_handler_origin := True\<rparr>, earlier)))
       (\<lambda>e. if is_caught e then ret (ex, case earlier of None \<Rightarrow> Some e | Some e0 \<Rightarrow> Some e0) else raiseE e)"

fun pending_deferred_close_waiters :: "disp_config \<Rightarrow> task_ctx \<Rightarrow> nat list \<Rightarrow> server \<Rightarrow> nat list \<times> server" where
  "pending_deferred_close_waiters cfg ctx [] s = ([], s)"
| "pending_deferred_close_waiters cfg ctx (c # cs) s =
     (case deferred_waiter_of cfg ctx c s of (waiter, s1) \<Rightarrow>
        case pending_deferred_close_waiters cfg ctx cs s1 of (waiters, s2) \<Rightarrow>
          (append_opt [] waiter @ waiters, s2))"

text \<open>
  \<open>_close_stop_plan_connections\<close>: the waiters it stored and the exception it ended with; the
  waiters are stored before the errors are reported.
\<close>

definition close_stop_plan_connections ::
    "server environment \<Rightarrow> server_config \<Rightarrow> task_ctx \<Rightarrow> server_stop_plan \<Rightarrow> server_stop_provenance \<Rightarrow>
     (server, nat list \<times> exn option) prog" where
  "close_stop_plan_connections env sc ctx plan pv =
     (let gather = (\<lambda>ctx. gather_calls env ctx (map Call_close (sp_connections plan)))
      in bindE
           (tryE
             (bindE (if server_defers_terminal_events pv
                     then with_inline_delivery_context (sc_disp sc) ctx gather else gather ctx)
               (\<lambda>ts. ret (Inr ts)))
             (\<lambda>e. if is_caught e then ret (Inl e) else raiseE e))
           (\<lambda>closed. case closed of
              Inl e \<Rightarrow> ret ([], Some e)
            | Inr ts \<Rightarrow>
                bindE (getsE (\<lambda>s. map (task_error s) ts)) (\<lambda>results.
                bindE (stateE (pending_deferred_close_waiters (sc_disp sc) ctx (sp_connections plan)))
                  (\<lambda>waiters.
                     tryE (seqE (report_teardown_errors env sc ctx results) (ret (waiters, None)))
                       (\<lambda>e. if is_caught e then ret (waiters, Some e) else raiseE e)))))"

definition first_of :: "exn option \<Rightarrow> exn option \<Rightarrow> exn option" where
  "first_of earlier e = (case earlier of None \<Rightarrow> e | Some _ \<Rightarrow> earlier)"

definition teardown_server_stop_resources ::
    "server environment \<Rightarrow> server_config \<Rightarrow> task_ctx \<Rightarrow> server_stop_plan \<Rightarrow> server_stop_provenance \<Rightarrow>
     server_stop_execution \<Rightarrow> exn option \<Rightarrow> (server, server_stop_execution \<times> exn option) prog" where
  "teardown_server_stop_resources env sc ctx plan pv ex earlier =
     seqE (case sp_server plan of None \<Rightarrow> ret () | Some k \<Rightarrow> modifyE (close_socket k))
    (bindE (keep_first earlier (stop_server_heartbeat_senders env sc ctx (sp_heartbeat_senders plan))) (\<lambda>earlier.
     bindE (if sp_connections plan = [] then ret (ex, earlier)
            else bindE (close_stop_plan_connections env sc ctx plan pv) (\<lambda>(waiters, e).
              ret (ex\<lparr>sx_deferred_close_waiters := waiters\<rparr>, first_of earlier e)))
       (\<lambda>(ex, earlier).
          bindE (keep_first earlier
                   (case sp_server plan of None \<Rightarrow> ret () | Some k \<Rightarrow> awaitE env (A_server_closed k)))
            (\<lambda>earlier. ret (ex, earlier)))))"

definition server_finish_stop_with_dispatcher ::
    "server environment \<Rightarrow> server_config \<Rightarrow> task_ctx \<Rightarrow> server_stop_plan \<Rightarrow> server_stop_provenance \<Rightarrow>
     server_stop_execution \<Rightarrow> network_event option \<Rightarrow> exn option \<Rightarrow>
     (server, server_stop_execution \<times> exn option) prog" where
  "server_finish_stop_with_dispatcher env sc ctx plan pv ex stopped_event earlier =
     (if server_defers_terminal_events pv then
        let cancel_later = (so_active_inline_handler pv \<and>
              (case earlier of None \<Rightarrow> False | Some e \<Rightarrow> is_cancelled e));
            ex1 = (if cancel_later then ex\<lparr>sx_raise_cancel_after_stop_waiter := True\<rparr> else ex);
            earlier1 = (if cancel_later then None else earlier)
        in if earlier1 = None
           then bindE (server_schedule_deferred_stop_events ctx plan ex1 stopped_event)
                  (\<lambda>ex2. ret (ex2, None))
           else ret (ex1, earlier1)
      else
        bindE (if earlier = None
               then keep_first None (server_emit_lifecycle_event env sc ctx stopped_event)
               else ret earlier)
          (\<lambda>earlier.
             bindE (keep_first earlier (disp_stop env (sc_disp sc) ctx))
               (\<lambda>earlier. ret (ex, earlier))))"

definition server_execute_owned_stop ::
    "server environment \<Rightarrow> server_config \<Rightarrow> task_ctx \<Rightarrow> server_stop_plan \<Rightarrow> server_stop_provenance \<Rightarrow>
     (server, server_stop_execution \<times> exn option) prog" where
  "server_execute_owned_stop env sc ctx plan pv =
     bindE (if server_defers_terminal_events pv
            then server_stop_from_handler_origin env sc ctx new_server_execution None
            else bindE (keep_first None (server_emit_lifecycle_event env sc ctx (sp_stopping_event plan)))
                   (\<lambda>earlier. ret (new_server_execution, earlier))) (\<lambda>(ex, earlier).
     bindE (teardown_server_stop_resources env sc ctx plan pv ex earlier) (\<lambda>(ex, earlier).
       if sp_should_transition_to_stopped plan then
         bindE (with_state_lock env
                 (apply_stopped_transition_if_stopping sv_lifecycle_state (server_apply_lifecycle_state sc)))
           (\<lambda>stopped_event.
              server_finish_stop_with_dispatcher env sc ctx plan pv ex stopped_event earlier)
       else if server_defers_terminal_events pv \<and> earlier = None then
         bindE (if \<not> sx_dispatcher_stopped_from_handler_origin ex
                then server_stop_from_handler_origin env sc ctx ex earlier else ret (ex, earlier))
           (\<lambda>(ex, earlier).
              if earlier = None
              then bindE (server_schedule_deferred_stop_events ctx plan ex None) (\<lambda>ex1. ret (ex1, None))
              else ret (ex, earlier))
       else ret (ex, earlier)))"

definition server_stop_release ::
    "server environment \<Rightarrow> server_stop_plan \<Rightarrow> server_stop_execution \<Rightarrow> (server, unit) prog" where
  "server_stop_release env plan ex =
     whenE (\<not> sx_stop_waiter_completion_deferred ex) (server_release env (sp_stop_waiter plan))"

text \<open>
  \<open>stop\<close> from the owned plan on: the \<open>try\<close> block with the exception it ends with, then the
  \<open>except\<close> and \<open>else\<close>, with \<open>finally\<close> around both.
\<close>

definition server_stop_outcome ::
    "server environment \<Rightarrow> server_config \<Rightarrow> task_ctx \<Rightarrow> server_stop_plan \<Rightarrow> server_stop_provenance \<Rightarrow>
     (server, server_stop_execution \<times> exn option) prog" where
  "server_stop_outcome env sc ctx plan pv =
     bindE (tryE (server_execute_owned_stop env sc ctx plan pv)
              (\<lambda>e. if is_caught e then ret (new_server_execution, Some e)
                    else seqE (server_stop_release env plan new_server_execution) (raiseE e)))
       (\<lambda>(ex, earlier). case earlier of
          Some e \<Rightarrow> ret (ex, Some e)
        | None \<Rightarrow>
            tryE
              (bindE (getsE (\<lambda>s. s)) (\<lambda>s.
                 seqE (case sp_stop_waiter plan of
                         None \<Rightarrow> ret ()
                       | Some w \<Rightarrow> whenE (so_active_inline_handler pv \<and> \<not> future_done w s)
                           (await_future_preserving env ctx w))
                   (if sx_raise_cancel_after_stop_waiter ex then ret (ex, Some cancelled)
                    else seqE (modifyE server_notify_status_changed) (ret (ex, None)))))
              (\<lambda>e. if is_caught e then ret (ex, Some e)
                    else seqE (server_stop_release env plan ex) (raiseE e)))"

definition server_stop_finish ::
    "server environment \<Rightarrow> task_ctx \<Rightarrow> server_stop_plan \<Rightarrow> server_stop_provenance \<Rightarrow> server_stop_execution \<Rightarrow>
     exn option \<Rightarrow> (server, unit) prog" where
  "server_stop_finish env ctx plan pv ex outcome =
     (case outcome of
        Some e \<Rightarrow>
          seqE (settle_opt (sp_stop_waiter plan) (Inl e)) (seqE (server_stop_release env plan ex) (raiseE e))
      | None \<Rightarrow>
          bindE (getsE (\<lambda>s. case sp_stop_waiter plan of None \<Rightarrow> None
                            | Some w \<Rightarrow> if future_done w s then None else Some w)) (\<lambda>open_waiter.
            case open_waiter of
              None \<Rightarrow> server_stop_release env plan ex
            | Some w \<Rightarrow>
                if sx_stop_waiter_completion_deferred ex then server_stop_release env plan ex
                else if server_defers_terminal_events pv \<and> sx_deferred_close_waiters ex \<noteq> [] then
                  bindE (stateE (create_task (Stop_after_closes w (sx_deferred_close_waiters ex)) ctx))
                    (\<lambda>_. server_stop_release env plan (ex\<lparr>sx_stop_waiter_completion_deferred := True\<rparr>))
                else seqE (settle_opt (Some w) (Inr ())) (server_stop_release env plan ex)))"

definition server_owned_stop ::
    "server environment \<Rightarrow> server_config \<Rightarrow> task_ctx \<Rightarrow> server_stop_plan \<Rightarrow> server_stop_provenance \<Rightarrow>
     (server, unit) prog" where
  "server_owned_stop env sc ctx plan pv =
     bindE (server_stop_outcome env sc ctx plan pv)
       (\<lambda>(ex, outcome). server_stop_finish env ctx plan pv ex outcome)"

definition server_stop ::
    "server environment \<Rightarrow> server_config \<Rightarrow> task_ctx \<Rightarrow> nat option \<Rightarrow> (server, unit) prog" where
  "server_stop env sc ctx running_loop =
     seqE (server_assert_owner_loop running_loop)
       (bindE (server_plan_stop env sc) (\<lambda>plan.
        bindE (getsE (server_capture_stop_provenance (sc_disp sc) ctx)) (\<lambda>pv.
          if server_waits_for_owner plan then
            (case sp_stop_waiter plan of
               None \<Rightarrow> ret ()
             | Some w \<Rightarrow> whenE (\<not> so_handler_originated pv) (awaitE env (A_future w)))
          else if \<not> sp_owns_stop plan then ret ()
          else server_owned_stop env sc ctx plan pv)))"

text \<open>\<open>async with server\<close>.\<close>

definition server_session ::
    "server environment \<Rightarrow> server_config \<Rightarrow> task_ctx \<Rightarrow> nat option \<Rightarrow> (server, unit) prog \<Rightarrow>
     (server, unit) prog" where
  "server_session env sc ctx running_loop body =
     seqE (server_start env sc ctx running_loop) (finallyE body (server_stop env sc ctx running_loop))"

section \<open>Running the tasks\<close>

text \<open>What the event loop runs for task \<open>t\<close> of the server.\<close>

definition server_call_body ::
    "server environment \<Rightarrow> server_config \<Rightarrow> task_ctx \<Rightarrow> nat \<Rightarrow> server_call \<Rightarrow> (server, unit) prog" where
  "server_call_body env sc ctx t call =
     (case call of
        Call_close c \<Rightarrow> conn_close env (sc_disp sc) ctx c
      | Call_heartbeat_stop n \<Rightarrow> awaitE env (A_heartbeat_stop n)
      | Call_send c data timed k \<Rightarrow>
          bindE (send_one env c data timed k) (\<lambda>error.
            modifyE (\<lambda>s. s\<lparr>sv_send_errors := (sv_send_errors s)(t := error)\<rparr>))
      | Call_dispatcher_stop \<Rightarrow> disp_stop env (sc_disp sc) ctx)"

definition server_owner_job ::
    "server environment \<Rightarrow> server_config \<Rightarrow> nat \<Rightarrow> job \<Rightarrow> task_ctx \<Rightarrow> (server, unit) prog" where
  "server_owner_job env sc t job ctx =
     (case job of
        Owner_call \<Rightarrow> bindE (getsE (\<lambda>s. sv_calls s t)) (\<lambda>call. case call of
          None \<Rightarrow> ret () | Some call \<Rightarrow> server_call_body env sc ctx t call)
      | Stop_completion w stopping stopped waiters _ _ \<Rightarrow>
          server_complete_after_deferred_stop_events env sc ctx w stopping stopped waiters
      | Stop_after_closes w waiters \<Rightarrow> server_complete_after_deferred_closes env w waiters
      | _ \<Rightarrow> ret ())"

definition server_run_job ::
    "server environment \<Rightarrow> server_config \<Rightarrow> nat \<Rightarrow> job \<Rightarrow> task_ctx \<Rightarrow> (server, unit) prog" where
  "server_run_job env sc t job ctx =
     run_job env (sc_disp sc) (Some (server_on_connection_closed env)) (server_owner_job env sc t) t job ctx"

end
