(* ===== verification/Server_Safety.thy ===== *)
theory Server_Safety
  imports Server
begin

text \<open>
  What the operations of the server keep of its lifecycle and of its two tables, whatever the
  network, the handlers and the other tasks do, and the runs of the server as a transition
  system.
\<close>

section \<open>The interface\<close>

text \<open>
  The updates the server makes of its lifecycle, its table of connections, its table of
  heartbeat senders and its connection counter.
\<close>

locale server_invariant =
  fixes sc :: server_config and I :: "server \<Rightarrow> bool"
  assumes depends: "I s \<Longrightarrow> sv_lifecycle_state s' = sv_lifecycle_state s \<Longrightarrow>
      sv_transitions s' = sv_transitions s \<Longrightarrow> sv_connections s' = sv_connections s \<Longrightarrow>
      sv_heartbeat_senders s' = sv_heartbeat_senders s \<Longrightarrow>
      sv_connection_sequence s' = sv_connection_sequence s \<Longrightarrow> I s'"
    and moved: "I s \<Longrightarrow> legal (sv_lifecycle_state s) t \<Longrightarrow> I (server_moved t s)"
    and numbered: "I s \<Longrightarrow> I (s\<lparr>sv_connection_sequence := Suc (sv_connection_sequence s)\<rparr>)"
    and admitted: "I s \<Longrightarrow> sv_lifecycle_state s = RUNNING \<Longrightarrow>
      int (length (sv_connections s)) < max_connections sc \<Longrightarrow>
      I (s\<lparr>sv_connection_sequence := Suc (sv_connection_sequence s),
           sv_connections := AList.update
             (tcp_server_connection_id peer (int (Suc (sv_connection_sequence s)))) c (sv_connections s)\<rparr>)"
    and forgotten: "I s \<Longrightarrow> I (s\<lparr>sv_heartbeat_senders := AList.delete k (sv_heartbeat_senders s),
           sv_connections := AList.delete k (sv_connections s)\<rparr>)"
    and registered: "I s \<Longrightarrow> sv_lifecycle_state s = RUNNING \<Longrightarrow> k \<in> fst ` set (sv_connections s) \<Longrightarrow>
      I (s\<lparr>sv_heartbeat_senders := AList.update k n (sv_heartbeat_senders s)\<rparr>)"
    and dropped: "I s \<Longrightarrow> I (s\<lparr>sv_heartbeat_senders := AList.delete k (sv_heartbeat_senders s)\<rparr>)"
    and detached: "I s \<Longrightarrow> I (s\<lparr>sv_heartbeat_senders := [], sv_connections := []\<rparr>)"

lemma server_own:
  fixes s s' :: server
  assumes "transport.more s' = transport.more s"
  shows "sv_lifecycle_state s' = sv_lifecycle_state s" "sv_transitions s' = sv_transitions s"
    "sv_connections s' = sv_connections s" "sv_heartbeat_senders s' = sv_heartbeat_senders s"
    "sv_connection_sequence s' = sv_connection_sequence s" "sv_stop_waiter s' = sv_stop_waiter s"
    "sv_server s' = sv_server s" "sv_locked s' = sv_locked s" "sv_sockets s' = sv_sockets s"
    "sv_next_socket s' = sv_next_socket s"
  using assms by (cases s; cases s'; simp)+

sublocale server_invariant \<subseteq> owner_invariant I
  by unfold_locales (erule depends, (rule server_own, assumption)+)

section \<open>Every operation keeps such an invariant\<close>

context server_invariant
begin

lemma own_keeps:
  "(\<And>s. sv_lifecycle_state (f s) = sv_lifecycle_state s \<and> sv_transitions (f s) = sv_transitions s \<and>
      sv_connections (f s) = sv_connections s \<and> sv_heartbeat_senders (f s) = sv_heartbeat_senders s \<and>
      sv_connection_sequence (f s) = sv_connection_sequence s) \<Longrightarrow> keeps I (modifyE f)"
  by (rule keeps_modifyE) (erule depends, auto)

lemma own_stateE_keeps:
  "(\<And>s. sv_lifecycle_state (snd (f s)) = sv_lifecycle_state s \<and>
      sv_transitions (snd (f s)) = sv_transitions s \<and> sv_connections (snd (f s)) = sv_connections s \<and>
      sv_heartbeat_senders (snd (f s)) = sv_heartbeat_senders s \<and>
      sv_connection_sequence (snd (f s)) = sv_connection_sequence s) \<Longrightarrow> keeps I (stateE f)"
  by (rule stateE_keeps) (erule depends, auto)

lemma lock_keeps:
  assumes "env_keeps I env" "keeps I body"
  shows "keeps I (with_state_lock env body)"
  unfolding with_state_lock_def lock_pass_def
  by (intro keeps_seqE keeps_loopE keeps_finallyE keeps_bindE keeps_getsE keeps_if keeps_awaitE keeps_ret
      own_keeps assms) simp_all

lemma apply_keeps: "keeps I (server_apply_lifecycle_state sc t)"
proof (rule keepsI)
  fix s r s'
  assume "I s" "server_apply_lifecycle_state sc t s = Some (r, s')"
  then show "I s'"
    unfolding server_apply_lifecycle_state_def
    using moved [of s t] by (cases rule: sv.apply_cases [of s t "server_publisher sc"]) auto
qed

lemma guarded_keeps:
  "keeps I (apply_stopping_transition_if_active sv_lifecycle_state (server_apply_lifecycle_state sc))"
  "keeps I (apply_stopped_transition_if_stopping sv_lifecycle_state (server_apply_lifecycle_state sc))"
  unfolding apply_stopping_transition_if_active_def apply_stopped_transition_if_stopping_def keeps_def
  by (auto simp: ret_def split: if_splits option.splits
      dest!: keepsD [OF keeps_bindE [OF apply_keeps], rotated -1] intro: keeps_ret keeps_raiseE
      split: option.split)

lemma emit_keeps: "env_keeps I env \<Longrightarrow> keeps I (emit env cfg ctx event)"
  by (rule stable_emit_keeps [OF stable _ refl])

lemma emit_lifecycle_keeps: "env_keeps I env \<Longrightarrow> keeps I (server_emit_lifecycle_event env sc ctx event)"
  unfolding server_emit_lifecycle_event_def emit_lifecycle_event_def
  by (auto intro: keeps_ret emit_keeps split: option.split)

lemma owner_loop_keeps: "keeps I (server_assert_owner_loop l)"
  unfolding server_assert_owner_loop_def by (intro coroutine_keeps own_keeps keeps_liftR) simp

lemma create_call_own [simp]:
  "sv_lifecycle_state (snd (create_call call ctx s)) = sv_lifecycle_state s"
  "sv_transitions (snd (create_call call ctx s)) = sv_transitions s"
  "sv_connections (snd (create_call call ctx s)) = sv_connections s"
  "sv_heartbeat_senders (snd (create_call call ctx s)) = sv_heartbeat_senders s"
  "sv_connection_sequence (snd (create_call call ctx s)) = sv_connection_sequence s"
  by (simp_all add: create_call_def create_task_def Let_def)

lemma create_calls_own:
  "sv_lifecycle_state (snd (create_calls ctx calls s)) = sv_lifecycle_state s \<and>
   sv_transitions (snd (create_calls ctx calls s)) = sv_transitions s \<and>
   sv_connections (snd (create_calls ctx calls s)) = sv_connections s \<and>
   sv_heartbeat_senders (snd (create_calls ctx calls s)) = sv_heartbeat_senders s \<and>
   sv_connection_sequence (snd (create_calls ctx calls s)) = sv_connection_sequence s"
proof (induction calls arbitrary: s)
  case (Cons call calls)
  then show ?case
    using create_call_own [of call ctx s] by (cases "create_call call ctx s") (simp add: case_prod_beta)
qed simp

lemma gather_keeps: "env_keeps I env \<Longrightarrow> keeps I (gather_calls env ctx calls)"
  unfolding gather_calls_def
  by (intro keeps_bindE keeps_seqE own_stateE_keeps keeps_awaitE keeps_ret) (rule create_calls_own)

lemma report_keeps: "env_keeps I env \<Longrightarrow> keeps I (report_teardown_errors env sc ctx results)"
  by (induction results rule: report_teardown_errors.induct)
    (auto intro!: keeps_ret keeps_seqE keeps_suppress_Exception emit_keeps)

lemma wait_for_keeps: "keeps I m \<Longrightarrow> keeps I (server_wait_for m)"
  unfolding server_wait_for_def by (intro coroutine_keeps)

subsection \<open>Clients\<close>

lemma register_keeps: "I s \<Longrightarrow> I (snd (register_sender c n s))"
  using registered by (auto simp: register_sender_def)

lemma start_heartbeat_keeps:
  assumes "env_keeps I env"
  shows "keeps I (start_server_heartbeat_if_needed env sc c)"
  unfolding start_server_heartbeat_if_needed_def Let_def
  by (intro keeps_bindE keeps_seqE keeps_if keeps_liftR keeps_ret keeps_raiseE keeps_getsE keeps_awaitE
      keeps_tryE stateE_keeps own_stateE_keeps lock_keeps keeps_modifyE register_keeps assms)
    (auto simp: new_sender_def drop_sender_def intro: dropped)

lemma stop_heartbeats_keeps:
  "env_keeps I env \<Longrightarrow> keeps I (stop_server_heartbeat_senders env sc ctx senders)"
  unfolding stop_server_heartbeat_senders_def
  by (intro coroutine_keeps gather_keeps report_keeps)

lemma admit_keeps: "keeps I (admit sc peername sockname)"
proof (rule keepsI)
  fix s s' :: server and r
  let ?s1 = "s\<lparr>sv_connection_sequence := Suc (sv_connection_sequence s)\<rparr>"
  assume I: "I s" and run: "admit sc peername sockname s = Some (r, s')"
  have n: "I ?s1" by (rule numbered [OF I])
  show "I s'"
  proof (cases "sv_lifecycle_state s = RUNNING \<and> int (length (sv_connections s)) < max_connections sc")
    case False
    then have "s' = ?s1"
      using run by (auto simp: admit_def prog_defs stateE_def server_next_connection_id_def Let_def
          split: if_splits)
    then show ?thesis using n by simp
  next
    case True
    then have st: "sv_lifecycle_state s = RUNNING" "int (length (sv_connections s)) < max_connections sc"
      by simp_all
    show ?thesis
      using run st n
      by (auto simp: admit_def prog_defs stateE_def liftR_def server_next_connection_id_def Let_def
          add_connection_def conn_update_def split: sum.splits
          intro: depends [OF admitted [OF I st]])
  qed
qed

lemma handle_client_keeps:
  assumes "env_keeps I env"
  shows "keeps I (handle_client env sc ctx w peername sockname)"
proof -
  have reject: "keeps I (reject_writer env sc ctx w e)" for e
    unfolding reject_writer_def
    by (cases e)
      (auto intro!: keeps_seqE keeps_suppress_Exception keeps_ret emit_keeps own_keeps keeps_awaitE assms)
  have abandon: "keeps I (abandon_connection env sc ctx c e)" for c e
    unfolding abandon_connection_def
    by (intro coroutine_keeps keeps_suppress_Exception emit_keeps conn_close_keeps assms)
  have start: "keeps I (conn_start env cfg ctx None c)" for cfg c
    by (rule conn_start_keeps [OF assms]) simp
  show ?thesis
    unfolding handle_client_def
    by (intro keeps_bindE lock_keeps admit_keeps assms)
      (auto intro!: coroutine_keeps reject abandon start start_heartbeat_keeps assms
        split: prod.split option.split)
qed

lemma forget_keeps: "I s \<Longrightarrow> I (snd (forget_connection c s))"
  by (simp add: forget_connection_def forgotten)

lemma on_closed_keeps:
  assumes "env_keeps I env"
  shows "keeps I (server_on_connection_closed env c)"
  unfolding server_on_connection_closed_def
  by (intro keeps_bindE lock_keeps stateE_keeps forget_keeps assms)
    (auto intro: keeps_ret keeps_awaitE assms split: option.split)

lemma send_one_keeps:
  assumes "env_keeps I env"
  shows "keeps I (send_one env c data timed k)"
  unfolding send_one_def semaphore_pass_def
  by (intro keeps_seqE keeps_loopE keeps_finallyE keeps_tryE keeps_bindE keeps_getsE keeps_if keeps_ret
      keeps_raiseE keeps_awaitE own_keeps wait_for_keeps conn_send_keeps assms)
    (simp_all add: release_semaphore_def)

lemma broadcast_keeps:
  assumes "env_keeps I env"
  shows "keeps I (server_broadcast env sc ctx l data)"
proof -
  have failed: "keeps I (report_failed_sends env sc ctx results)" for results
  proof (induction results)
    case (Cons x results)
    then show ?case
      by (cases x; cases "snd x")
        (auto intro!: keeps_ret keeps_seqE keeps_bindE keeps_suppress_Exception emit_keeps assms)
  qed (simp add: keeps_ret)
  show ?thesis
    unfolding server_broadcast_def broadcast_to_connections_def Let_def
    by (intro coroutine_keeps owner_loop_keeps gather_keeps failed report_keeps own_stateE_keeps assms)
      (auto simp: new_semaphore_def intro: depends)
qed

lemma server_wait_keeps:
  assumes "env_keeps I env"
  shows "keeps I (server_wait_until_running env l timeout poll)"
proof -
  have "keeps I (server_wait_pass env poll u)" for u
    unfolding server_wait_pass_def
    by (intro keeps_bindE keeps_getsE keeps_if keeps_seqE keeps_tryE keeps_ret keeps_raiseE keeps_awaitE
        own_keeps assms) simp_all
  then have "keeps I (wait_until_server_running env poll)"
    unfolding wait_until_server_running_def by (rule keeps_loopE)
  then show ?thesis
    unfolding server_wait_until_running_def
    by (auto intro!: coroutine_keeps owner_loop_keeps wait_for_keeps split: option.split)
qed

subsection \<open>Start and stop\<close>

lemma disp_start_keeps: "I s \<Longrightarrow> I (disp_start cfg s)"
  by (erule depends) (simp_all add: disp_start_def)

lemma close_servers_keeps: "env_keeps I env \<Longrightarrow> keeps I (close_servers env servers)"
  by (induction servers rule: close_servers.induct)
    (auto intro!: keeps_ret keeps_seqE keeps_suppress_Exception keeps_awaitE own_keeps simp: close_socket_def)

lemma detach_keeps: "keeps I (detach_listener sc)"
  unfolding detach_listener_def
  by (intro keeps_bindE keeps_seqE keeps_if keeps_getsE keeps_ret own_keeps apply_keeps) simp_all

lemma rollback_keeps:
  assumes "env_keeps I env"
  shows "keeps I (server_rollback_failed_startup env sc ctx k)"
    "keeps I m \<Longrightarrow> keeps I (server_or_rollback env sc ctx k m)"
proof -
  show r: "keeps I (server_rollback_failed_startup env sc ctx k)" for k
    unfolding server_rollback_failed_startup_def
    by (intro coroutine_keeps lock_keeps detach_keeps close_servers_keeps
        stable_stop_keeps [OF stable assms] assms)
  show "keeps I m \<Longrightarrow> keeps I (server_or_rollback env sc ctx k m)"
    unfolding server_or_rollback_def by (intro coroutine_keeps r)
qed

lemma listening_keeps:
  assumes "env_keeps I env"
  shows "keeps I (start_listening env sc ctx)"
proof -
  have opened: "keeps I (stateE open_socket)"
    by (rule own_stateE_keeps) (simp add: open_socket_def)
  have closed: "keeps I (modifyE (close_socket k))" for k
    by (rule own_keeps) (simp add: close_socket_def)
  have candidates: "keeps I (try_candidates e cs)" for e cs
    by (induction e cs rule: try_candidates.induct)
      (auto intro!: keeps_bindE keeps_seqE keeps_ret keeps_raiseE opened closed split: option.split)
  have called: "keeps I (stateE (create_call call ctx))" for call
    by (rule own_stateE_keeps) simp
  show ?thesis
    unfolding start_listening_def create_listening_socket_def listening_failed_def
      stop_dispatcher_during_startup_rollback_def
    by (intro keeps_tryE keeps_bindE keeps_seqE keeps_finallyE keeps_if keeps_suppress_all keeps_getsE
        keeps_ret keeps_raiseE keeps_liftR keeps_awaitE candidates closed lock_keeps apply_keeps called
        emit_lifecycle_keeps own_keeps assms) simp_all
qed

lemma listen_and_run_keeps:
  assumes "env_keeps I env"
  shows "keeps I (listen_and_run env sc ctx)"
proof -
  have enter: "keeps I (enter_running env sc k)" for k
    unfolding enter_running_def
    by (intro keeps_bindE keeps_seqE keeps_if keeps_getsE keeps_ret keeps_awaitE apply_keeps own_keeps assms)
      (simp_all add: close_socket_def)
  show ?thesis
    unfolding listen_and_run_def
    by (intro keeps_bindE listening_keeps lock_keeps enter assms)
      (auto intro!: keeps_ret rollback_keeps emit_lifecycle_keeps assms split: option.split)
qed

lemma server_start_keeps:
  assumes "env_keeps I env"
  shows "keeps I (server_start env sc ctx l)"
proof -
  have launch: "keeps I (modifyE (\<lambda>s. disp_start (sc_disp sc) (s\<lparr>sv_has_started := True\<rparr>)))"
    by (intro keeps_modifyE disp_start_keeps) (auto elim: depends)
  have begin_keeps: "keeps I (begin_start sc)"
    unfolding begin_start_def
    by (intro keeps_bindE keeps_seqE keeps_if keeps_getsE keeps_ret launch apply_keeps own_keeps) simp
  have publish: "keeps I (publish_starting env sc ctx e)" for e
    unfolding publish_starting_def
    by (cases e) (auto intro!: rollback_keeps keeps_ret stable_emit_and_wait_keeps [OF stable assms] assms)
  show ?thesis
    unfolding server_start_def
    by (intro keeps_seqE keeps_bindE owner_loop_keeps lock_keeps begin_keeps assms)
      (auto intro!: keeps_seqE keeps_bindE keeps_getsE keeps_ret keeps_awaitE publish listen_and_run_keeps
        lock_keeps assms split: option.split)
qed

lemma plan_keeps:
  assumes "env_keeps I env"
  shows "keeps I (server_plan_stop env sc)"
proof -
  have own: "keeps I (stateE own_server_stop)"
    by (rule own_stateE_keeps) (simp add: own_server_stop_def create_future_def)
  have detach: "keeps I (stateE (detach_clients e plan))" for e plan
    by (rule stateE_keeps) (simp add: detach_clients_def detached)
  show ?thesis
    unfolding server_plan_stop_def server_plan_locked_def
    by (intro lock_keeps keeps_bindE keeps_getsE keeps_if keeps_ret own detach guarded_keeps assms)
qed

lemma release_keeps: "env_keeps I env \<Longrightarrow> keeps I (server_release env w)"
  unfolding server_release_def
  by (intro lock_keeps own_keeps) (simp_all add: server_forget_stop_waiter_def)

lemma waiters_keeps: "I s \<Longrightarrow> I (snd (pending_deferred_close_waiters cfg ctx cs s))"
proof (induction cs arbitrary: s)
  case (Cons c cs)
  then show ?case
    using deferred_waiter_keeps [OF Cons.prems, of cfg ctx c] by (simp add: case_prod_beta)
qed simp

lemma close_connections_keeps:
  assumes "env_keeps I env"
  shows "keeps I (close_stop_plan_connections env sc ctx plan pv)"
  unfolding close_stop_plan_connections_def Let_def with_inline_delivery_context_def
  by (auto intro!: keeps_bindE keeps_tryE keeps_if keeps_seqE keeps_ret keeps_raiseE keeps_getsE
      stateE_keeps gather_keeps report_keeps waiters_keeps assms split: sum.split)

lemma teardown_keeps:
  assumes "env_keeps I env"
  shows "keeps I (teardown_server_stop_resources env sc ctx plan pv ex e)"
proof -
  have close: "keeps I (case k of None \<Rightarrow> ret () | Some k \<Rightarrow> modifyE (close_socket k))" for k
    by (auto intro: keeps_ret own_keeps simp: close_socket_def split: option.split)
  have closed: "keeps I (case k of None \<Rightarrow> ret () | Some k \<Rightarrow> awaitE env (A_server_closed k))" for k
    by (auto intro: keeps_ret keeps_awaitE assms split: option.split)
  show ?thesis
    unfolding teardown_server_stop_resources_def
    by (auto intro!: keeps_seqE keeps_bindE keeps_if keeps_ret keeps_keep_first close closed
        stop_heartbeats_keeps close_connections_keeps assms split: prod.split)
qed

lemma schedule_keeps: "keeps I (server_schedule_deferred_stop_events ctx plan ex e)"
  unfolding server_schedule_deferred_stop_events_def
  by (intro coroutine_keeps task_created) simp_all

lemma from_handler_keeps:
  assumes "env_keeps I env"
  shows "keeps I (server_stop_from_handler_origin env sc ctx ex e)"
  unfolding server_stop_from_handler_origin_def
  by (intro coroutine_keeps stable_stop_from_handler_keeps [OF stable assms])

lemma execute_keeps:
  assumes "env_keeps I env"
  shows "keeps I (server_execute_owned_stop env sc ctx plan pv)"
proof -
  have finish: "keeps I (server_finish_stop_with_dispatcher env sc ctx plan pv ex e fe)" for ex e fe
    unfolding server_finish_stop_with_dispatcher_def Let_def
    by (intro coroutine_keeps keeps_keep_first schedule_keeps emit_lifecycle_keeps
        stable_stop_keeps [OF stable assms] assms)
  show ?thesis
    unfolding server_execute_owned_stop_def
    by (auto intro!: keeps_bindE keeps_if keeps_ret keeps_keep_first from_handler_keeps
        emit_lifecycle_keeps teardown_keeps lock_keeps guarded_keeps finish schedule_keeps assms
        split: prod.split)
qed

lemma owned_stop_keeps:
  assumes "env_keeps I env"
  shows "keeps I (server_owned_stop env sc ctx plan pv)"
proof -
  have release: "keeps I (server_stop_release env plan ex)" for ex
    unfolding server_stop_release_def by (intro keeps_whenE release_keeps assms)
  have notify: "keeps I (modifyE server_notify_status_changed)"
    by (rule own_keeps) simp
  have outcome: "keeps I (server_stop_outcome env sc ctx plan pv)"
    unfolding server_stop_outcome_def
    by (auto intro!: coroutine_keeps notify execute_keeps release await_preserving_keeps assms
        split: option.split prod.split)
  have "I s \<Longrightarrow> I (snd (create_task (Stop_after_closes w ws) ctx s))" for w ws s
    by (rule task_created) simp_all
  then have "keeps I (server_stop_finish env ctx plan pv ex e)" for ex e
    unfolding server_stop_finish_def
    by (auto intro!: coroutine_keeps release split: option.split)
  then show ?thesis
    unfolding server_owned_stop_def by (auto intro!: keeps_bindE outcome split: prod.split)
qed

lemma server_stop_keeps:
  assumes "env_keeps I env"
  shows "keeps I (server_stop env sc ctx l)"
  unfolding server_stop_def
  by (auto intro!: coroutine_keeps owner_loop_keeps plan_keeps owned_stop_keeps keeps_awaitE assms
      split: option.split)

lemma session_keeps:
  assumes "env_keeps I env" "keeps I body"
  shows "keeps I (server_session env sc ctx l body)"
  unfolding server_session_def
  by (intro coroutine_keeps server_start_keeps server_stop_keeps assms)

lemma owner_job_keeps:
  assumes "env_keeps I env"
  shows "keeps I (server_owner_job env sc t job ctx)"
proof -
  have body: "keeps I (server_call_body env sc ctx t call)" for call
    unfolding server_call_body_def
    by (cases call)
      (auto intro!: keeps_bindE conn_close_keeps keeps_awaitE send_one_keeps own_keeps
        stable_stop_keeps [OF stable assms] assms)
  have call: "keeps I (bindE (getsE (\<lambda>s. sv_calls s t)) (\<lambda>call. case call of
      None \<Rightarrow> ret () | Some call \<Rightarrow> server_call_body env sc ctx t call))"
    by (intro keeps_bindE keeps_getsE) (auto intro: keeps_ret body split: option.split)
  show ?thesis
    unfolding server_owner_job_def server_complete_after_deferred_stop_events_def
      server_complete_after_deferred_closes_def with_inline_delivery_context_def
    by (cases job)
      (auto intro!: call complete_stop_waiter_keeps release_keeps coroutine_keeps emit_lifecycle_keeps
        await_all_keeps keeps_awaitE stable_wait_for_handler_context_keeps [OF stable]
        stable_stop_keeps [OF stable] assms)
qed

lemma server_run_job_keeps:
  assumes "env_keeps I env"
  shows "keeps I (server_run_job env sc t job ctx)"
  unfolding server_run_job_def
  by (intro run_job_keeps on_closed_keeps owner_job_keeps assms)

end

section \<open>The invariant of a server\<close>

text \<open>
  The lifecycle is legal; the tables have no duplicate keys; a heartbeat sender belongs to a
  tracked connection; there are at most \<open>max_connections\<close> connections, and their identifiers
  carry numbers that were drawn from the connection counter.
\<close>

definition issued :: "nat \<Rightarrow> string \<Rightarrow> bool" where
  "issued n k \<longleftrightarrow> (\<exists>peer m. 0 < m \<and> m \<le> n \<and> k = tcp_server_connection_id peer (int m))"

definition server_inv :: "server_config \<Rightarrow> server \<Rightarrow> bool" where
  "server_inv sc s \<longleftrightarrow>
     chain STOPPED (map (transition_event (sc_component_id sc)) (sv_transitions s)) (sv_lifecycle_state s) \<and>
     distinct (map fst (sv_connections s)) \<and> distinct (map fst (sv_heartbeat_senders s)) \<and>
     set (map fst (sv_heartbeat_senders s)) \<subseteq> set (map fst (sv_connections s)) \<and>
     int (length (sv_connections s)) \<le> max_connections sc \<and>
     (\<forall>k \<in> set (map fst (sv_connections s)). issued (sv_connection_sequence s) k)"

lemma issued_fresh: "issued n k \<Longrightarrow> k \<noteq> tcp_server_connection_id peer (int (Suc n))"
  unfolding issued_def using server_connection_id_sequence by fastforce

lemma issued_mono: "issued n k \<Longrightarrow> issued (Suc n) k"
  unfolding issued_def using le_SucI by blast

lemma issued_new: "issued (Suc n) (tcp_server_connection_id peer (int (Suc n)))"
  unfolding issued_def by blast

lemma length_map_fst: "length al = length (map fst al)"
  by simp

interpretation tables: server_invariant sc "server_inv sc" for sc
proof
  fix s s' :: server
  assume "server_inv sc s" "sv_lifecycle_state s' = sv_lifecycle_state s"
    "sv_transitions s' = sv_transitions s" "sv_connections s' = sv_connections s"
    "sv_heartbeat_senders s' = sv_heartbeat_senders s" "sv_connection_sequence s' = sv_connection_sequence s"
  then show "server_inv sc s'" by (simp add: server_inv_def)
next
  fix s :: server and t
  assume "server_inv sc s" "legal (sv_lifecycle_state s) t"
  then show "server_inv sc (server_moved t s)"
    by (auto simp: server_inv_def transition_event_def intro: chain_append)
next
  fix s :: server
  assume "server_inv sc s"
  then show "server_inv sc (s\<lparr>sv_connection_sequence := Suc (sv_connection_sequence s)\<rparr>)"
    by (auto simp: server_inv_def intro: issued_mono)
next
  fix s :: server and peer c
  let ?k = "tcp_server_connection_id peer (int (Suc (sv_connection_sequence s)))"
  assume inv: "server_inv sc s" and "int (length (sv_connections s)) < max_connections sc"
  have fresh: "?k \<notin> set (map fst (sv_connections s))"
    using inv issued_fresh unfolding server_inv_def by blast
  then have "map fst (AList.update ?k c (sv_connections s)) = map fst (sv_connections s) @ [?k]"
    by (simp add: update_keys)
  moreover from this have "length (AList.update ?k c (sv_connections s)) = Suc (length (sv_connections s))"
    by (metis length_map length_append_singleton)
  ultimately show "server_inv sc (s\<lparr>sv_connection_sequence := Suc (sv_connection_sequence s),
      sv_connections := AList.update ?k c (sv_connections s)\<rparr>)"
    using inv fresh \<open>int (length (sv_connections s)) < max_connections sc\<close> issued_new issued_mono
    by (auto simp: server_inv_def simp del: set_map)
next
  fix s :: server and k
  assume inv: "server_inv sc s"
  have "int (length (AList.delete k (sv_connections s))) \<le> max_connections sc"
    using inv length_delete_le [of k "sv_connections s"] unfolding server_inv_def by linarith
  then show "server_inv sc (s\<lparr>sv_heartbeat_senders := AList.delete k (sv_heartbeat_senders s),
      sv_connections := AList.delete k (sv_connections s)\<rparr>)"
    using inv by (auto simp: server_inv_def delete_keys distinct_removeAll simp del: set_map)
next
  fix s :: server and k n
  assume "server_inv sc s" "k \<in> fst ` set (sv_connections s)"
  then show "server_inv sc (s\<lparr>sv_heartbeat_senders := AList.update k n (sv_heartbeat_senders s)\<rparr>)"
    by (auto simp: server_inv_def distinct_update dom_update)
next
  fix s :: server and k
  assume "server_inv sc s"
  then show "server_inv sc (s\<lparr>sv_heartbeat_senders := AList.delete k (sv_heartbeat_senders s)\<rparr>)"
    by (auto simp: server_inv_def delete_keys distinct_removeAll simp del: set_map)
next
  fix s :: server
  assume "server_inv sc s"
  then show "server_inv sc (s\<lparr>sv_heartbeat_senders := [], sv_connections := []\<rparr>)"
    by (auto simp: server_inv_def)
qed

section \<open>Runs of a server\<close>

text \<open>
  What can happen to a server: its public operations are called from any task, in any order,
  clients are accepted, its connections are used, and the tasks that were created run.
\<close>

inductive server_step :: "server environment \<Rightarrow> server_config \<Rightarrow> server \<Rightarrow> server \<Rightarrow> bool"
  for env sc where
  started: "server_start env sc ctx l s = Some (r, s') \<Longrightarrow> server_step env sc s s'"
| stopped: "server_stop env sc ctx l s = Some (r, s') \<Longrightarrow> server_step env sc s s'"
| waited: "server_wait_until_running env l timeout poll s = Some (r, s') \<Longrightarrow> server_step env sc s s'"
| broadcasted: "server_broadcast env sc ctx l data s = Some (r, s') \<Longrightarrow> server_step env sc s s'"
| accepted: "handle_client env sc ctx w peername sockname s = Some (r, s') \<Longrightarrow> server_step env sc s s'"
| sent: "conn_send env c data s = Some (r, s') \<Longrightarrow> server_step env sc s s'"
| closed: "conn_close env (sc_disp sc) ctx c s = Some (r, s') \<Longrightarrow> server_step env sc s s'"
| ran: "t_jobs s t = Some (job, ctx) \<Longrightarrow> server_run_job env sc t job ctx s = Some (r, s') \<Longrightarrow>
    server_step env sc s s'"

inductive server_runs :: "server environment \<Rightarrow> server_config \<Rightarrow> server \<Rightarrow> server \<Rightarrow> bool"
  for env sc s where
  refl: "server_runs env sc s s"
| step: "server_runs env sc s s1 \<Longrightarrow> server_step env sc s1 s2 \<Longrightarrow> server_runs env sc s s2"

lemma server_step_inv:
  assumes "server_step env sc s s'" "env_keeps (server_inv sc) env" "server_inv sc s"
  shows "server_inv sc s'"
  using assms(1)
proof cases
  case (started ctx l r)
  then show ?thesis using keepsD [OF tables.server_start_keeps [OF assms(2)] assms(3)] by blast
next
  case (stopped ctx l r)
  then show ?thesis using keepsD [OF tables.server_stop_keeps [OF assms(2)] assms(3)] by blast
next
  case (waited l timeout poll r)
  then show ?thesis using keepsD [OF tables.server_wait_keeps [OF assms(2)] assms(3)] by blast
next
  case (broadcasted ctx l data r)
  then show ?thesis using keepsD [OF tables.broadcast_keeps [OF assms(2)] assms(3)] by blast
next
  case (accepted ctx w peername sockname r)
  then show ?thesis using keepsD [OF tables.handle_client_keeps [OF assms(2)] assms(3)] by blast
next
  case (sent c data r)
  then show ?thesis using keepsD [OF tables.conn_send_keeps [OF assms(2)] assms(3)] by blast
next
  case (closed ctx c r)
  then show ?thesis using keepsD [OF tables.conn_close_keeps [OF assms(2)] assms(3)] by blast
next
  case (ran t job ctx r)
  then show ?thesis using keepsD [OF tables.server_run_job_keeps [OF assms(2)] assms(3)] by blast
qed

lemma server_runs_inv:
  assumes "server_runs env sc s s'" "env_keeps (server_inv sc) env" "server_inv sc s"
  shows "server_inv sc s'"
  using assms(1) by induction (use assms in \<open>auto intro: server_step_inv\<close>)

lemma positive_int_value: "positive_int v \<Longrightarrow> 0 < int_value v"
  by (cases v) (auto simp: positive_int_def)

lemma server_init_inv:
  assumes "server_init settings on_event provider nc addrinfo = Inr (sc, s)"
  shows "server_inv sc s" "sv_transitions s = []" "sv_lifecycle_state s = STOPPED"
proof -
  have "positive_int (ss_max_connections settings)"
    using assms by (auto simp: server_init_def bindR_Inr tcp_server_checks wf_tcp_server_def)
  then have "0 \<le> int_value (ss_max_connections settings)"
    using positive_int_value [of "ss_max_connections settings"] by linarith
  then show "server_inv sc s" "sv_transitions s = []" "sv_lifecycle_state s = STOPPED"
    using assms
    by (auto simp: server_init_def bindR_Inr Let_def server_inv_def max_connections_def transport.defs
        split: prod.splits)
qed

text \<open>
  C23: Over every history of calls, accepted clients, tasks and interleavings a TCP server keeps its
  tables: it tracks at most \<open>max_connections\<close> connections, never two under one identifier, each
  under an identifier it issued; every heartbeat sender it holds belongs to a tracked
  connection; and its lifecycle transitions are legal one by one and balanced.
\<close>
theorem server_tables_consistent:
  assumes "server_init settings on_event provider nc addrinfo = Inr (sc, s0)"
    and "env_keeps (server_inv sc) env"
    and "server_runs env sc s0 s"
  shows "int (length (sv_connections s)) \<le> max_connections sc \<and>
    distinct (map fst (sv_connections s)) \<and>
    (\<forall>k \<in> set (map fst (sv_connections s)). issued (sv_connection_sequence s) k) \<and>
    distinct (map fst (sv_heartbeat_senders s)) \<and>
    set (map fst (sv_heartbeat_senders s)) \<subseteq> set (map fst (sv_connections s)) \<and>
    (let es = map (transition_event (sc_component_id sc)) (sv_transitions s)
     in chain STOPPED es (sv_lifecycle_state s) \<and>
        times_entered STARTING es =
          times_entered STOPPED es + (if sv_lifecycle_state s = STOPPED then 0 else 1))"
proof -
  have inv: "server_inv sc s"
    by (rule server_runs_inv [OF assms(3,2) server_init_inv(1) [OF assms(1)]])
  then have c: "chain STOPPED (map (transition_event (sc_component_id sc)) (sv_transitions s))
      (sv_lifecycle_state s)"
    by (simp add: server_inv_def)
  show ?thesis
    using inv chain_balance [OF c] by (simp add: server_inv_def Let_def split: if_splits)
qed

lemma server_more_own:
  fixes s s' :: server
  assumes "disp.more s' = disp.more s"
  shows "sv_lifecycle_state s' = sv_lifecycle_state s" "sv_addrinfo s' = sv_addrinfo s"
    "sv_locked s' = sv_locked s" "sv_sockets s' = sv_sockets s" "sv_next_socket s' = sv_next_socket s"
    "sv_server s' = sv_server s" "sv_connections s' = sv_connections s"
    "sv_stop_waiter s' = sv_stop_waiter s"
  using assms by (cases s; cases s'; simp)+

lemma sample_server_start:
  "\<exists>s'. server_start quiet sample_sc (plain_ctx None) (Some 0) sample_server = Some (Inr (), s') \<and>
     sv_lifecycle_state s' = RUNNING \<and> sv_server s' = Some 0 \<and> sv_sockets s' = {0}"
proof -
  let ?P = "\<lambda>s'. sv_lifecycle_state s' = RUNNING \<and> sv_server s' = Some 0 \<and> sv_sockets s' = {0}"
  have emit: "wp False (emit quiet (sc_disp sample_sc) (plain_ctx None) e) Q E s"
    if "\<And>s'. sv_lifecycle_state s' = sv_lifecycle_state s \<Longrightarrow> sv_addrinfo s' = sv_addrinfo s \<Longrightarrow>
      sv_locked s' = sv_locked s \<Longrightarrow> sv_sockets s' = sv_sockets s \<Longrightarrow>
      sv_next_socket s' = sv_next_socket s \<Longrightarrow> sv_server s' = sv_server s \<Longrightarrow> Q () s'"
    for e Q E and s :: server
  proof (rule wp_emit_inline [OF sample_sc_inline quiet_env(3)])
    fix a :: unit and s' :: server
    assume more: "disp.more s' = disp.more s"
    show "Q a s'" using that [OF server_more_own(1-6) [OF more]] by simp
  qed
  have launch: "disp_start (sc_disp sample_sc) s = s" for s :: server
    by (simp add: disp_start_def sample_sc_inline)
  have run: "wp False (listen_and_run quiet sample_sc (plain_ctx None)) (\<lambda>_. ?P) (\<lambda>_ _. False) s"
    if "sv_lifecycle_state s = STARTING" "sv_addrinfo s = sample_addrinfo" "\<not> sv_locked s"
      "sv_sockets s = {}" "sv_next_socket s = 0" for s
    unfolding listen_and_run_def start_listening_def create_listening_socket_def
      server_or_rollback_def server_emit_lifecycle_event_def emit_lifecycle_event_def
    using that
    by (auto simp: wp_simps sample_addrinfo_def open_socket_def enter_running_def
        server_notify_status_changed_def server_set_state_def
        intro!: wp_with_state_lock emit)
  have "wp False (server_start quiet sample_sc (plain_ctx None) (Some 0)) (\<lambda>_. ?P) (\<lambda>_ _. False) sample_server"
    unfolding server_start_def server_assert_owner_loop_def publish_starting_def server_or_rollback_def
    by (auto simp: wp_simps assert_running_on_owner_loop_def emit_and_wait_inline sample_sc_inline launch
        begin_start_def startup_stopped_def intro!: wp_with_state_lock emit run)
  then show ?thesis by (auto dest!: wp_valueD)
qed

theorem server_tables_consistent_witness:
  "\<exists>s. server_runs quiet sample_sc sample_server s \<and> sv_lifecycle_state s = RUNNING \<and>
     int (length (sv_connections s)) \<le> 2 \<and>
     (let es = map (transition_event (sc_component_id sample_sc)) (sv_transitions s)
      in times_entered STARTING es = times_entered STOPPED es + 1)"
proof -
  obtain s where run: "server_start quiet sample_sc (plain_ctx None) (Some 0) sample_server = Some (Inr (), s)"
    and s: "sv_lifecycle_state s = RUNNING"
    using sample_server_start by blast
  have runs: "server_runs quiet sample_sc sample_server s"
    using server_runs.refl server_step.started [OF run] by (rule server_runs.step)
  have "max_connections sample_sc = 2"
    by (simp add: max_connections_def sample_sc_def sample_server_settings_def default_tcp_server_def)
  then show ?thesis
    using server_tables_consistent [OF sample_server_init quiet_env(1) runs] runs s by (auto simp: Let_def)
qed

end
