(* ===== verification/Server_Stop.thy ===== *)
theory Server_Stop
  imports Server_Safety
begin

text \<open>
  What an owned stop of the server achieves.  While \<open>_stop_waiter\<close> is set the other tasks leave
  the lifecycle alone and neither install a listener nor track a connection
  (\<open>respects_server_stop\<close>), and no task holds the state lock across an await; then the stop
  reaches STOPPED with everything released, also when its steps fail.
\<close>

section \<open>The rely condition\<close>

definition server_stop_rely :: "server \<Rightarrow> server \<Rightarrow> bool" where
  "server_stop_rely s s' \<longleftrightarrow> sv_stop_waiter s' = sv_stop_waiter s \<and>
     sv_lifecycle_state s' = sv_lifecycle_state s \<and> sv_transitions s' = sv_transitions s \<and>
     sv_locked s' = sv_locked s \<and> length (d_futures s) \<le> length (d_futures s') \<and>
     (sv_server s = None \<longrightarrow> sv_server s' = None) \<and>
     (sv_connections s = [] \<longrightarrow> sv_connections s' = []) \<and>
     (sv_heartbeat_senders s = [] \<longrightarrow> sv_heartbeat_senders s' = []) \<and>
     (\<forall>k. k \<in> sv_sockets s' \<longrightarrow> k < sv_next_socket s \<longrightarrow> k \<in> sv_sockets s) \<and>
     sv_next_socket s \<le> sv_next_socket s'"

definition respects_server_stop :: "server environment \<Rightarrow> bool" where
  "respects_server_stop env \<longleftrightarrow> (\<forall>p s. sv_stop_waiter s \<noteq> None \<longrightarrow> server_stop_rely s (snd (env p s)))"

text \<open>
  A stop in progress: its waiter, the lifecycle so far, the tables that stay empty, and the
  listening sockets \<open>K\<close> that it detached and, with \<open>c\<close>, has closed.
\<close>

definition server_winding ::
    "nat \<Rightarrow> component_lifecycle_state \<Rightarrow> (component_lifecycle_state \<times> component_lifecycle_state) list \<Rightarrow>
     nat set \<Rightarrow> bool \<Rightarrow> server \<Rightarrow> bool" where
  "server_winding w st trs K c s \<longleftrightarrow> sv_stop_waiter s = Some w \<and> w < length (d_futures s) \<and>
     sv_lifecycle_state s = st \<and> sv_transitions s = trs \<and> \<not> sv_locked s \<and> sv_server s = None \<and>
     sv_connections s = [] \<and> sv_heartbeat_senders s = [] \<and>
     (\<forall>k \<in> K. k < sv_next_socket s \<and> (c \<longrightarrow> k \<notin> sv_sockets s))"

lemma server_winding_env:
  "respects_server_stop env \<Longrightarrow> env_keeps (server_winding w st trs K c) env"
  unfolding respects_server_stop_def env_keeps_def
proof (intro allI impI)
  fix p s
  assume rely: "\<forall>p s. sv_stop_waiter s \<noteq> None \<longrightarrow> server_stop_rely s (snd (env p s))"
    and s: "server_winding w st trs K c s"
  then have "server_stop_rely s (snd (env p s))" by (simp add: server_winding_def)
  then show "server_winding w st trs K c (snd (env p s))"
    using s unfolding server_winding_def server_stop_rely_def by (auto dest: less_le_trans)
qed

interpretation server_winding: owner_invariant "server_winding w st trs K c" for w st trs K c
proof
  fix s s' :: server
  assume "server_winding w st trs K c s" and more: "transport.more s' = transport.more s"
    and "length (d_futures s) \<le> length (d_futures s')"
  then show "server_winding w st trs K c s'"
    using server_own [OF more] by (simp add: server_winding_def)
qed

section \<open>The steps\<close>

definition server_stop_env :: "bool \<Rightarrow> server environment \<Rightarrow> server_config \<Rightarrow> bool" where
  "server_stop_env t env sc \<longleftrightarrow> respects_server_stop env \<and> env_caught env \<and>
     (t \<or> dc_dispatch_mode (sc_disp sc) = INLINE)"

lemma server_stop_envD:
  assumes "server_stop_env t env sc"
  shows "env_keeps (server_winding w st trs K c) env" "env_caught env"
    "t \<or> dc_dispatch_mode (sc_disp sc) = INLINE"
  using assms server_winding_env by (auto simp: server_stop_env_def)

lemma wp_sstop_emit_now:
  assumes "server_stop_env t env sc" "server_winding w st trs K c s"
    and "\<And>s'. server_winding w st trs K c s' \<Longrightarrow> Q () s'"
    and "\<And>e s'. is_caught e \<Longrightarrow> server_winding w st trs K c s' \<Longrightarrow> E e s'"
  shows "wp t (emit env (sc_disp sc) ctx event) Q E s"
  by (rule wp_emit [OF server_winding.stable server_stop_envD(1) [OF assms(1)]
        server_stop_envD(2,3) [OF assms(1)] assms(2)]) (use assms in auto)

lemma wp_sstop_emit:
  assumes "server_stop_env t env sc" "server_winding w st trs K c s"
    and "\<And>s'. server_winding w st trs K c s' \<Longrightarrow> Q () s'"
    and "\<And>e s'. is_caught e \<Longrightarrow> server_winding w st trs K c s' \<Longrightarrow> E e s'"
  shows "wp t (server_emit_lifecycle_event env sc ctx event) Q E s"
  unfolding server_emit_lifecycle_event_def emit_lifecycle_event_def
  by (cases event)
    (auto simp: wp_simps assms(2) intro!: wp_sstop_emit_now [OF assms(1,2)] assms(3,4))

lemma wp_sstop_await:
  assumes "server_stop_env t env sc" "server_winding w st trs K c s"
    and "\<And>s'. server_winding w st trs K c s' \<Longrightarrow> Q () s'"
    and "\<And>e s'. is_caught e \<Longrightarrow> server_winding w st trs K c s' \<Longrightarrow> E e s'"
  shows "wp t (awaitE env p) Q E s"
  by (rule wp_awaitE_frame [OF server_stop_envD(1) [OF assms(1)] server_stop_envD(2) [OF assms(1)] assms(2)])
    (use assms in auto)

lemma wp_sstop_report:
  assumes "server_stop_env t env sc" "server_winding w st trs K c s"
    and "\<And>s'. server_winding w st trs K c s' \<Longrightarrow> Q () s'"
    and "\<And>e s'. is_caught e \<Longrightarrow> server_winding w st trs K c s' \<Longrightarrow> E e s'"
  shows "wp t (report_teardown_errors env sc ctx results) Q E s"
  using assms(2)
proof (induction results arbitrary: s)
  case Nil
  then show ?case using assms by (simp add: wp_simps)
next
  case (Cons r results)
  show ?case
  proof (cases r)
    case None
    then show ?thesis using Cons by simp
  next
    case (Some e)
    show ?thesis
      unfolding Some report_teardown_errors.simps wp_seqE
    proof (cases "is_Exception e")
      case True
      then show "wp t (if is_Exception e then suppress_Exception
            (emit env (sc_disp sc) ctx (NetworkErrorEvent (sc_component_id sc) e)) else ret ())
          (\<lambda>_. wp t (report_teardown_errors env sc ctx results) Q E) E s"
        by (auto simp: suppress_Exception_def wp_simps Cons.IH assms(4)
            intro!: wp_sstop_emit_now [OF assms(1) Cons.prems])
    next
      case False
      then show "wp t (if is_Exception e then suppress_Exception
            (emit env (sc_disp sc) ctx (NetworkErrorEvent (sc_component_id sc) e)) else ret ())
          (\<lambda>_. wp t (report_teardown_errors env sc ctx results) Q E) E s"
        using Cons by (simp add: wp_simps)
    qed
  qed
qed

lemma create_call_more:
  "sv_stop_waiter (snd (create_call call ctx s)) = sv_stop_waiter s"
  "sv_server (snd (create_call call ctx s)) = sv_server s"
  "sv_locked (snd (create_call call ctx s)) = sv_locked s"
  "sv_sockets (snd (create_call call ctx s)) = sv_sockets s"
  "sv_next_socket (snd (create_call call ctx s)) = sv_next_socket s"
  "d_futures (snd (create_call call ctx s)) = d_futures s"
  by (simp_all add: create_call_def create_task_def Let_def)

lemma create_call_winding:
  "server_winding w st trs K c s \<Longrightarrow> server_winding w st trs K c (snd (create_call call ctx s))"
  by (simp add: server_winding_def create_call_more tables.create_call_own)

lemma create_calls_winding:
  "server_winding w st trs K c s \<Longrightarrow> server_winding w st trs K c (snd (create_calls ctx calls s))"
proof (induction calls arbitrary: s)
  case (Cons call calls)
  then show ?case using create_call_winding by (simp add: case_prod_beta)
qed simp

lemma wp_sstop_gather:
  assumes "server_stop_env t env sc" "server_winding w st trs K c s"
    and "\<And>ts s'. server_winding w st trs K c s' \<Longrightarrow> Q ts s'"
    and "\<And>e s'. is_caught e \<Longrightarrow> server_winding w st trs K c s' \<Longrightarrow> E e s'"
  shows "wp t (gather_calls env ctx calls) Q E s"
proof -
  obtain ts s1 where c: "create_calls ctx calls s = (ts, s1)" by force
  have "server_winding w st trs K c s1"
    using create_calls_winding [OF assms(2), of ctx calls] by (simp add: c)
  then show ?thesis
    unfolding gather_calls_def
    by (auto simp: wp_simps c assms intro!: wp_sstop_await [OF assms(1)])
qed

lemma wp_sstop_heartbeats:
  assumes "server_stop_env t env sc" "server_winding w st trs K c s"
    and "\<And>s'. server_winding w st trs K c s' \<Longrightarrow> Q () s'"
    and "\<And>e s'. is_caught e \<Longrightarrow> server_winding w st trs K c s' \<Longrightarrow> E e s'"
  shows "wp t (stop_server_heartbeat_senders env sc ctx senders) Q E s"
  unfolding stop_server_heartbeat_senders_def
  by (auto simp: wp_simps assms intro!: wp_sstop_gather [OF assms(1,2)] wp_sstop_report [OF assms(1)])

lemma waiters_winding:
  "server_winding w st trs K c s \<Longrightarrow>
     server_winding w st trs K c (snd (pending_deferred_close_waiters cfg ctx cs s))"
proof (induction cs arbitrary: s)
  case (Cons c cs)
  then show ?case
    using server_winding.deferred_waiter_keeps [OF Cons.prems, of cfg ctx c] by (simp add: case_prod_beta)
qed simp

lemma wp_sstop_close:
  assumes "server_stop_env t env sc" "server_winding w st trs K c s"
    and "\<And>a s'. server_winding w st trs K c s' \<Longrightarrow> Q a s'"
  shows "wp t (close_stop_plan_connections env sc ctx plan pv) Q E s"
proof -
  have waiters: "server_winding w st trs K c s2"
    if "server_winding w st trs K c s1" "pending_deferred_close_waiters cfg ctx cs s1 = (ws, s2)"
    for s1 s2 cfg cs ws
    using waiters_winding [OF that(1), of cfg ctx cs] that(2) by simp
  show ?thesis
    unfolding close_stop_plan_connections_def with_inline_delivery_context_def Let_def
    by (auto simp: wp_simps assms intro!: wp_sstop_gather [OF assms(1,2)] wp_sstop_report [OF assms(1)]
        split: prod.split dest: waiters)
qed

lemma wp_sstop_teardown:
  assumes "server_stop_env t env sc" "server_winding w st trs (set_option (sp_server plan)) False s"
    and "\<not> sx_stop_waiter_completion_deferred ex" "\<not> sx_raise_cancel_after_stop_waiter ex"
    and "\<And>a s'. \<not> sx_stop_waiter_completion_deferred (fst a) \<Longrightarrow>
      \<not> sx_raise_cancel_after_stop_waiter (fst a) \<Longrightarrow>
      server_winding w st trs (set_option (sp_server plan)) True s' \<Longrightarrow> Q a s'"
  shows "wp t (teardown_server_stop_resources env sc ctx plan pv ex fe) Q E s"
proof -
  let ?W = "server_winding w st trs (set_option (sp_server plan)) True"
  have closed: "?W (close_socket k s)" if "sp_server plan = Some k" for k
    using assms(2) that by (simp add: server_winding_def close_socket_def)
  have none: "?W s" if "sp_server plan = None"
    using assms(2) that by (simp add: server_winding_def)
  have last: "wp t (case sp_server plan of None \<Rightarrow> ret () | Some k \<Rightarrow> awaitE env (A_server_closed k))
      (\<lambda>_. wp t (ret (ex, x)) Q E)
      (\<lambda>e s'. (is_caught e \<longrightarrow> Q (ex, y e) s') \<and> (\<not> is_caught e \<longrightarrow> E e s')) s'"
    if "?W s'" "\<not> sx_stop_waiter_completion_deferred ex" "\<not> sx_raise_cancel_after_stop_waiter ex"
    for ex x y s'
    using that
    by (auto simp: wp_simps intro!: wp_sstop_await [OF assms(1) that(1)] assms(5) split: option.split)
  have rest: "wp t (bindE (keep_first fe (stop_server_heartbeat_senders env sc ctx (sp_heartbeat_senders plan)))
      (\<lambda>earlier. bindE (if sp_connections plan = [] then ret (ex, earlier)
            else bindE (close_stop_plan_connections env sc ctx plan pv) (\<lambda>(waiters, e).
              ret (ex\<lparr>sx_deferred_close_waiters := waiters\<rparr>, first_of earlier e)))
       (\<lambda>(ex, earlier). bindE (keep_first earlier (case sp_server plan of None \<Rightarrow> ret ()
            | Some k \<Rightarrow> awaitE env (A_server_closed k))) (\<lambda>earlier. ret (ex, earlier))))) Q E s'"
    if "?W s'" for s'
    unfolding wp_bindE wp_keep_first
    by (rule wp_sstop_heartbeats [OF assms(1) that])
      (auto simp: wp_simps assms(3,4) intro!: wp_sstop_close [OF assms(1)] last)
  show ?thesis
    unfolding teardown_server_stop_resources_def wp_seqE
    by (cases "sp_server plan") (use closed none rest in \<open>simp_all add: wp_simps\<close>)
qed

lemma wp_sstop_finish:
  assumes "server_stop_env t env sc" "server_winding w st trs K c s" "\<not> server_defers_terminal_events pv"
    and "\<And>a s'. fst a = ex \<Longrightarrow> server_winding w st trs K c s' \<Longrightarrow> Q a s'"
  shows "wp t (server_finish_stop_with_dispatcher env sc ctx plan pv ex stopped fe) Q E s"
proof -
  note d = server_stop_envD [OF assms(1)]
  note stop = wp_disp_stop [OF server_winding.stable d(1) [of w st trs K c] d(2)]
  show ?thesis
    unfolding server_finish_stop_with_dispatcher_def
    by (auto simp: wp_simps assms intro!: wp_sstop_emit [OF assms(1,2)] stop)
qed

lemma winding_stopped:
  "server_winding w STOPPING trs K c s \<Longrightarrow>
     server_winding w STOPPED (trs @ [(STOPPING, STOPPED)]) K c (server_moved STOPPED s)"
  by (auto simp: server_winding_def server_set_state_def server_notify_status_changed_def)

lemma wp_sstop_transition:
  assumes "server_winding w STOPPING trs K True s"
    and "\<And>e s'. server_winding w STOPPED (trs @ [(STOPPING, STOPPED)]) K True s' \<Longrightarrow> Q e s'"
  shows "wp t (with_state_lock env
    (apply_stopped_transition_if_stopping sv_lifecycle_state (server_apply_lifecycle_state sc))) Q E s"
proof -
  have moved: "server_winding w STOPPED (trs @ [(STOPPING, STOPPED)]) K True
      ((server_moved STOPPED (s\<lparr>sv_locked := True\<rparr>))\<lparr>sv_locked := False\<rparr>)"
    using winding_stopped [OF assms(1)]
    by (simp add: server_winding_def server_set_state_def server_notify_status_changed_def)
  have applied: "wp t (apply_stopped_transition_if_stopping sv_lifecycle_state (server_apply_lifecycle_state sc))
      Q' E' u = Q' (Some (server_event sc STOPPING STOPPED)) (server_moved STOPPED u)"
    if "sv_lifecycle_state u = STOPPING" for Q' E' u
    using that unfolding apply_stopped_transition_if_stopping_def wp_def
    by (simp add: wp_def [symmetric] wp_simps bindE_def server_apply_lifecycle_state_def
        sv.apply_legal ret_def)
  show ?thesis
    by (rule wp_with_state_lock)
      (use assms(1) moved in \<open>auto simp: server_winding_def [of w STOPPING] applied intro!: assms(2)\<close>)
qed

lemma wp_sstop_execute:
  assumes "server_stop_env t env sc" "server_winding w STOPPING trs (set_option (sp_server plan)) False s"
    and "\<not> server_defers_terminal_events pv" "sp_should_transition_to_stopped plan"
    and "\<And>a s'. \<not> sx_stop_waiter_completion_deferred (fst a) \<Longrightarrow>
      \<not> sx_raise_cancel_after_stop_waiter (fst a) \<Longrightarrow>
      server_winding w STOPPED (trs @ [(STOPPING, STOPPED)]) (set_option (sp_server plan)) True s' \<Longrightarrow> Q a s'"
  shows "wp t (server_execute_owned_stop env sc ctx plan pv) Q E s"
proof -
  have new: "\<not> sx_stop_waiter_completion_deferred new_server_execution"
    "\<not> sx_raise_cancel_after_stop_waiter new_server_execution"
    by (simp_all add: new_server_execution_def)
  have finish: "wp t (server_finish_stop_with_dispatcher env sc ctx plan pv ex e fe) Q E s'"
    if "server_winding w STOPPED (trs @ [(STOPPING, STOPPED)]) (set_option (sp_server plan)) True s'"
      "\<not> sx_stop_waiter_completion_deferred ex" "\<not> sx_raise_cancel_after_stop_waiter ex" for ex e fe s'
    using that(2,3) by (auto intro!: wp_sstop_finish [OF assms(1) that(1) assms(3)] assms(5))
  show ?thesis
    unfolding server_execute_owned_stop_def
    by (auto simp: wp_bindE wp_keep_first wp_ret wp_ret_fun assms(3,4) new
        intro!: wp_sstop_emit [OF assms(1,2)] wp_sstop_teardown [OF assms(1)]
          wp_sstop_transition finish)
qed

text \<open>What a finished stop leaves.\<close>

definition server_all_stopped ::
    "nat \<Rightarrow> (component_lifecycle_state \<times> component_lifecycle_state) list \<Rightarrow> nat set \<Rightarrow> server \<Rightarrow> bool" where
  "server_all_stopped w trs K s \<longleftrightarrow> sv_lifecycle_state s = STOPPED \<and> sv_transitions s = trs \<and>
     sv_server s = None \<and> sv_connections s = [] \<and> sv_heartbeat_senders s = [] \<and>
     K \<inter> sv_sockets s = {} \<and> sv_stop_waiter s = None \<and> future_done w s \<and> \<not> sv_locked s"

lemma settled_server_winding:
  "server_winding w st trs K c s \<Longrightarrow> server_winding w st trs K c (settle_future w r s) \<and>
     future_done w (settle_future w r s)"
  by (auto simp: server_winding_def settle_future_def future_done_def)

lemma wp_server_release:
  assumes "server_winding w STOPPED trs K True s" "future_done w s"
    and "\<And>s'. server_all_stopped w trs K s' \<Longrightarrow> Q () s'"
  shows "wp t (server_release env (Some w)) Q E s"
proof -
  have "server_all_stopped w trs K
      ((server_forget_stop_waiter (Some w) (s\<lparr>sv_locked := True\<rparr>))\<lparr>sv_locked := False\<rparr>)"
    using assms(1,2)
    by (auto simp: server_winding_def server_all_stopped_def server_forget_stop_waiter_def future_done_def)
  then show ?thesis
    unfolding server_release_def
    by (intro wp_with_state_lock) (use assms(1,3) in \<open>simp_all add: server_winding_def wp_simps\<close>)
qed

lemma wp_server_owned_stop:
  assumes "server_stop_env t env sc" "server_winding w STOPPING trs (set_option (sp_server plan)) False s"
    and "\<not> server_defers_terminal_events pv" "sp_should_transition_to_stopped plan"
    and "sp_stop_waiter plan = Some w"
  shows "wp t (server_owned_stop env sc ctx plan pv)
    (\<lambda>_. server_all_stopped w (trs @ [(STOPPING, STOPPED)]) (set_option (sp_server plan)))
    (\<lambda>_. server_all_stopped w (trs @ [(STOPPING, STOPPED)]) (set_option (sp_server plan))) s"
proof -
  let ?W = "server_winding w STOPPED (trs @ [(STOPPING, STOPPED)]) (set_option (sp_server plan)) True"
  let ?A = "server_all_stopped w (trs @ [(STOPPING, STOPPED)]) (set_option (sp_server plan))"
  have inl: "\<not> so_active_inline_handler pv"
    using assms(3) by (simp add: server_defers_terminal_events_def)
  have settled: "?W (settle_future w r s')" "future_done w (settle_future w r s')" if "?W s'" for r s'
    using settled_server_winding [OF that] by blast+
  have notified: "?W (server_notify_status_changed s')" if "?W s'" for s'
    using that by (simp add: server_winding_def server_notify_status_changed_def)
  have finish: "wp t (server_stop_finish env ctx plan pv ex e) (\<lambda>_. ?A) (\<lambda>_. ?A) s'"
    if "?W s'" "\<not> sx_stop_waiter_completion_deferred ex" for ex e s'
    using that settled assms(3,5)
    by (auto simp: server_stop_finish_def server_stop_release_def settle_opt_def wp_simps
        intro!: wp_server_release split: option.split)
  show ?thesis
    unfolding server_owned_stop_def server_stop_outcome_def
    by (auto simp: wp_simps inl assms(5) intro!: wp_sstop_execute [OF assms(1-4)] finish notified
        split: option.split)
qed

text \<open>What is left of a stop of a server that is STARTING or RUNNING once it is planned.\<close>

lemma wp_server_stop_planned:
  assumes "sv_lifecycle_state s = STARTING \<or> sv_lifecycle_state s = RUNNING"
    and "sv_stop_waiter s = None" "\<not> sv_locked s"
    and "sv_owner_loop s = None \<or> sv_owner_loop s = Some l"
    and "\<forall>k \<in> set_option (sv_server s). k < sv_next_socket s"
    and "\<And>(plan :: server_stop_plan) s2. sp_should_transition_to_stopped plan \<Longrightarrow>
      sp_stop_waiter plan = Some (length (d_futures s)) \<Longrightarrow> sp_server plan = sv_server s \<Longrightarrow>
      server_winding (length (d_futures s)) STOPPING (sv_transitions s @ [(sv_lifecycle_state s, STOPPING)])
        (set_option (sp_server plan)) False s2 \<Longrightarrow>
      wp t (server_owned_stop env sc ctx plan (server_capture_stop_provenance (sc_disp sc) ctx s)) Q E s2"
  shows "wp t (server_stop env sc ctx (Some l)) Q E s"
proof -
  let ?w = "length (d_futures s)"
  let ?e = "Some (server_event sc (sv_lifecycle_state s) STOPPING)"
  define s1 where "s1 = s\<lparr>sv_owner_loop := Some l\<rparr>"
  define s2 where "s2 = (server_moved STOPPING (snd (own_server_stop (s1\<lparr>sv_locked := True\<rparr>))))
      \<lparr>sv_heartbeat_senders := [], sv_connections := [], sv_locked := False\<rparr>"
  define plan where "plan = fst (detach_clients ?e (fst (own_server_stop (s1\<lparr>sv_locked := True\<rparr>)))
      (server_moved STOPPING (snd (own_server_stop (s1\<lparr>sv_locked := True\<rparr>)))))"
  have owner: "wp t (server_assert_owner_loop (Some l)) (\<lambda>_ s'. s' = s1) (\<lambda>_ _. False) s"
    using assms(4)
    by (auto simp: server_assert_owner_loop_def assert_running_on_owner_loop_def wp_simps s1_def)
  have moved: "wp t (apply_stopping_transition_if_active sv_lifecycle_state (server_apply_lifecycle_state sc))
      Q' E' u = Q' (Some (server_event sc (sv_lifecycle_state u) STOPPING)) (server_moved STOPPING u)"
    if "sv_lifecycle_state u = STARTING \<or> sv_lifecycle_state u = RUNNING" for Q' E' u
    using that unfolding apply_stopping_transition_if_active_def wp_def
    by (auto simp: wp_def [symmetric] wp_simps bindE_def server_apply_lifecycle_state_def
        sv.apply_legal ret_def)
  have planned: "wp t (server_plan_stop env sc) (\<lambda>p s'. p = plan \<and> s' = s2) (\<lambda>_ _. False) s1"
    unfolding server_plan_stop_def
    by (rule wp_with_state_lock)
      (use assms(1,2,3) in \<open>simp_all add: server_plan_locked_def wp_simps own_server_stop_def
        create_future_def moved s1_def s2_def plan_def detach_clients_def\<close>)
  have plan: "sp_should_transition_to_stopped plan" "sp_stop_waiter plan = Some ?w" "sp_owns_stop plan"
    "sp_server plan = sv_server s"
    by (simp_all add: plan_def detach_clients_def own_server_stop_def create_future_def s1_def)
  have start: "server_winding ?w STOPPING (sv_transitions s @ [(sv_lifecycle_state s, STOPPING)])
      (set_option (sp_server plan)) False s2"
    using assms(5) plan(4)
    by (simp add: server_winding_def s2_def own_server_stop_def create_future_def s1_def
        server_set_state_def server_notify_status_changed_def)
  have "server_capture_stop_provenance (sc_disp sc) ctx s2 = server_capture_stop_provenance (sc_disp sc) ctx s"
    by (cases "tc_task ctx"; simp add: s2_def own_server_stop_def create_future_def s1_def
        server_set_state_def server_notify_status_changed_def
        server_capture_stop_provenance_def server_stop_is_handler_originated_def
        current_task_is_dispatching_handler_def current_task_has_handler_origin_context_def
        current_task_inherits_handler_origin_context_def has_active_handler_context_def
        current_task_would_deliver_inline_def current_task_is_worker_def has_background_worker_def)
  then have run: "wp t (server_owned_stop env sc ctx plan (server_capture_stop_provenance (sc_disp sc) ctx s2)) Q E s2"
    using assms(6) [OF plan(1,2,4) start] by simp
  show ?thesis
    unfolding server_stop_def wp_seqE wp_bindE
    by (rule wp_mono [OF owner])
      (auto simp: wp_simps server_waits_for_owner_def plan intro!: wp_mono [OF planned] run)
qed


lemma quiet_respects_server_stop [simp]: "respects_server_stop quiet"
  by (simp add: respects_server_stop_def server_stop_rely_def quiet_def)

abbreviation sample_running_server :: server where
  "sample_running_server \<equiv> sample_server\<lparr>sv_server := Some 0, sv_lifecycle_state := RUNNING,
     sv_next_socket := 1, sv_sockets := {0}\<rparr>"


end
