(* ===== verification/Server_Deferred_Stop.thy ===== *)
theory Server_Deferred_Stop
  imports Server_Stop
begin

text \<open>
  A stop of the server that one of its handlers requests: the call detaches the clients and the
  listener and applies STOPPED, a task publishes the events once no handler is active, stops the
  dispatcher and settles the waiter of the stop.
\<close>

section \<open>The call\<close>

definition server_handed_over ::
    "nat \<Rightarrow> (component_lifecycle_state \<times> component_lifecycle_state) list \<Rightarrow> nat set \<Rightarrow> server \<Rightarrow> bool" where
  "server_handed_over w trs K s \<longleftrightarrow> server_winding w STOPPED trs K True s \<and>
     (\<exists>n stopping stopped waiters ctx.
        t_jobs s n = Some (Stop_completion (Some w) stopping stopped waiters None True, ctx))"

lemma create_server_completion:
  assumes "server_winding w STOPPED trs K True s"
  shows "server_handed_over w trs K (snd (create_task (Stop_completion (Some w) a b c None True) ctx s))"
proof -
  have "server_winding w STOPPED trs K True (snd (create_task (Stop_completion (Some w) a b c None True) ctx s))"
    by (rule server_winding.own [OF assms]) simp_all
  then show ?thesis
    unfolding server_handed_over_def create_task_def Let_def by auto
qed

lemma wp_server_handler_finish:
  assumes "server_winding w STOPPED trs K True s"
    and "server_defers_terminal_events pv" "\<not> so_active_inline_handler pv" "sp_stop_waiter plan = Some w"
    and "\<not> sx_raise_cancel_after_stop_waiter ex" "\<not> sx_stop_waiter_completion_deferred ex"
    and "\<And>ex' s'. \<not> sx_raise_cancel_after_stop_waiter ex' \<Longrightarrow> sx_stop_waiter_completion_deferred ex' \<Longrightarrow>
      server_handed_over w trs K s' \<Longrightarrow> Q (ex', None) s'"
    and "\<And>e s'. server_winding w STOPPED trs K True s' \<Longrightarrow> Q (ex, Some e) s'"
  shows "wp t (server_finish_stop_with_dispatcher env sc ctx plan pv ex stopped earlier) Q E s"
  using assms(2-6) create_server_completion [OF assms(1)]
  by (auto simp: server_finish_stop_with_dispatcher_def server_schedule_deferred_stop_events_def
      wp_simps split_beta assms(1) split: option.split intro!: assms(7,8))

lemma wp_server_handler_origin:
  assumes "server_stop_env t env sc" "server_winding w st trs K c s"
    and "\<And>ex' e s'. sx_raise_cancel_after_stop_waiter ex' = sx_raise_cancel_after_stop_waiter ex \<Longrightarrow>
      sx_stop_waiter_completion_deferred ex' = sx_stop_waiter_completion_deferred ex \<Longrightarrow>
      server_winding w st trs K c s' \<Longrightarrow> Q (ex', e) s'"
  shows "wp t (server_stop_from_handler_origin env sc ctx ex earlier) Q E s"
proof -
  note d = server_stop_envD [OF assms(1)]
  show ?thesis
    unfolding server_stop_from_handler_origin_def wp_tryE wp_seqE
    by (rule wp_stop_from_handler [OF server_winding.stable d(1) [of w st trs K c] d(2) assms(2)])
      (auto simp: wp_simps intro!: assms(3))
qed

lemma wp_server_handler_execute:
  assumes "server_stop_env t env sc" "server_winding w STOPPING trs (set_option (sp_server plan)) False s"
    and "server_defers_terminal_events pv" "\<not> so_active_inline_handler pv"
    and "sp_should_transition_to_stopped plan" "sp_stop_waiter plan = Some w"
    and "\<And>ex s'. \<not> sx_raise_cancel_after_stop_waiter ex \<Longrightarrow> sx_stop_waiter_completion_deferred ex \<Longrightarrow>
      server_handed_over w (trs @ [(STOPPING, STOPPED)]) (set_option (sp_server plan)) s' \<Longrightarrow> Q (ex, None) s'"
    and "\<And>ex e s'. \<not> sx_stop_waiter_completion_deferred ex \<Longrightarrow>
      server_winding w STOPPED (trs @ [(STOPPING, STOPPED)]) (set_option (sp_server plan)) True s' \<Longrightarrow>
      Q (ex, Some e) s'"
  shows "wp t (server_execute_owned_stop env sc ctx plan pv) Q E s"
proof -
  have finish: "wp t (server_finish_stop_with_dispatcher env sc ctx plan pv ex e fe) Q E s'"
    if "server_winding w STOPPED (trs @ [(STOPPING, STOPPED)]) (set_option (sp_server plan)) True s'"
      "\<not> sx_stop_waiter_completion_deferred ex" "\<not> sx_raise_cancel_after_stop_waiter ex" for ex e fe s'
    by (rule wp_server_handler_finish [OF that(1) assms(3,4,6) that(3,2)])
      (fact assms(7), rule assms(8) [OF that(2)])
  show ?thesis
    unfolding server_execute_owned_stop_def
    by (auto simp: wp_bindE assms(3,5) new_server_execution_def
        intro!: wp_server_handler_origin [OF assms(1,2)] wp_sstop_teardown [OF assms(1)]
          wp_sstop_transition finish)
qed

text \<open>
  C15: A stop that a handler of the server requests is never lost.  When the call returns, the
  server is STOPPED, tracks no connection and no heartbeat sender, its listening socket is closed
  and the task that is to complete the stop exists; when it raises, the stop is over: the waiter
  of its callers is settled and forgotten.  With INLINE delivery (\<open>t = False\<close>) the call does end.
\<close>

theorem server_stop_from_handler_hands_over:
  assumes "server_stop_env t env sc"
    and "sv_lifecycle_state s = STARTING \<or> sv_lifecycle_state s = RUNNING"
    and "sv_stop_waiter s = None" "\<not> sv_locked s"
    and "server_stop_is_handler_originated (sc_disp sc) ctx s"
    and "sv_owner_loop s = None \<or> sv_owner_loop s = Some l"
    and "\<forall>k \<in> set_option (sv_server s). k < sv_next_socket s"
  shows "wp t (server_stop env sc ctx (Some l))
    (\<lambda>_. server_handed_over (length (d_futures s))
       (sv_transitions s @ [(sv_lifecycle_state s, STOPPING), (STOPPING, STOPPED)]) (set_option (sv_server s)))
    (\<lambda>_. server_all_stopped (length (d_futures s))
       (sv_transitions s @ [(sv_lifecycle_state s, STOPPING), (STOPPING, STOPPED)]) (set_option (sv_server s))) s"
proof (rule wp_server_stop_planned [OF assms(2,3,4,6,7)])
  let ?w = "length (d_futures s)" and ?pv = "server_capture_stop_provenance (sc_disp sc) ctx s"
    and ?K = "set_option (sv_server s)"
    and ?T = "sv_transitions s @ [(sv_lifecycle_state s, STOPPING), (STOPPING, STOPPED)]"
  have pv: "server_defers_terminal_events ?pv" "\<not> so_active_inline_handler ?pv"
    using assms(5)
    by (simp_all add: server_capture_stop_provenance_def server_defers_terminal_events_def Let_def)
  fix plan :: server_stop_plan and s2
  assume plan: "sp_should_transition_to_stopped plan" "sp_stop_waiter plan = Some ?w" "sp_server plan = sv_server s"
    and start: "server_winding ?w STOPPING (sv_transitions s @ [(sv_lifecycle_state s, STOPPING)])
      (set_option (sp_server plan)) False s2"
  have failed: "wp t (server_stop_finish env ctx plan ?pv ex (Some e)) Q (\<lambda>_. server_all_stopped ?w ?T ?K) s'"
    if "server_winding ?w STOPPED ?T ?K True s'" "\<not> sx_stop_waiter_completion_deferred ex" for ex e s' Q
    using that(2) settled_server_winding [OF that(1), of "Inl e"]
    by (auto simp: server_stop_finish_def server_stop_release_def settle_opt_def wp_simps plan
        intro!: wp_server_release)
  have notified: "server_handed_over ?w ?T ?K (server_notify_status_changed s')"
    if "server_handed_over ?w ?T ?K s'" for s'
    using that by (simp add: server_handed_over_def server_winding_def server_notify_status_changed_def)
  have deferred: "wp t (server_stop_finish env ctx plan ?pv ex None) (\<lambda>_. server_handed_over ?w ?T ?K) E s'"
    if "server_handed_over ?w ?T ?K s'" "sx_stop_waiter_completion_deferred ex" for ex s' E
    using that by (auto simp: server_stop_finish_def server_stop_release_def wp_simps split: option.split)
  show "wp t (server_owned_stop env sc ctx plan ?pv)
      (\<lambda>_. server_handed_over ?w ?T ?K) (\<lambda>_. server_all_stopped ?w ?T ?K) s2"
    unfolding server_owned_stop_def server_stop_outcome_def
    by (auto simp: wp_simps pv plan
        intro!: wp_server_handler_execute [OF assms(1) start pv plan(1,2)] failed deferred notified
        split: option.split)
qed

theorem server_stop_from_handler_hands_over_witness:
  "\<exists>r s'. server_stop quiet sample_sc ((plain_ctx (Some 3))\<lparr>tc_handler_dispatch := {(dc_id (sc_disp sample_sc), 3)}\<rparr>)
       (Some 0) sample_running_server = Some (r, s') \<and>
     (case r of
        Inl _ \<Rightarrow> server_all_stopped 0 [(RUNNING, STOPPING), (STOPPING, STOPPED)] {0} s'
      | Inr _ \<Rightarrow> server_handed_over 0 [(RUNNING, STOPPING), (STOPPING, STOPPED)] {0} s')"
proof -
  let ?ctx = "(plain_ctx (Some 3))\<lparr>tc_handler_dispatch := {(dc_id (sc_disp sample_sc), 3)}\<rparr>"
  have "wp False (server_stop quiet sample_sc ?ctx (Some 0))
      (\<lambda>_. server_handed_over 0 [(RUNNING, STOPPING), (STOPPING, STOPPED)] {0})
      (\<lambda>_. server_all_stopped 0 [(RUNNING, STOPPING), (STOPPING, STOPPED)] {0}) sample_running_server"
    using server_stop_from_handler_hands_over [where t = False and env = quiet and sc = sample_sc
        and ctx = ?ctx and l = 0 and s = sample_running_server]
    by (simp add: server_stop_env_def sample_sc_inline server_stop_is_handler_originated_def
        current_task_is_dispatching_handler_def plain_ctx_def)
  then show ?thesis by (auto simp: wp_def split: option.splits sum.splits)
qed

section \<open>The task\<close>

lemma wp_server_completion:
  assumes "wp t work (\<lambda>_. server_winding w STOPPED trs K True)
      (\<lambda>e s'. is_caught e \<and> server_winding w STOPPED trs K True s') s"
  shows "wp t (complete_stop_waiter (Some w) (server_release env (Some w)) work)
      (\<lambda>_. server_all_stopped w trs K) (\<lambda>_ _. False) s"
  unfolding complete_stop_waiter_def wp_finallyE wp_tryE wp_seqE
  by (rule wp_mono [OF assms])
    (auto simp: settle_opt_def wp_simps intro!: wp_server_release dest: settled_server_winding)

text \<open>
  C16: The task that completes a handed over stop of the server does so: whatever fails or is
  cancelled of publishing the lifecycle events, waiting for the deferred close events and stopping
  the dispatcher, it settles and forgets the waiter of the stop, leaves the server STOPPED with
  nothing held and its state lock free, and raises nothing.  It returns if its wait for the active
  handlers does (and, with \<open>t = False\<close>, delivery is INLINE).  The task that a stop leaves for
  deferred close events does the same.
\<close>

theorem deferred_server_stop_completes:
  assumes "server_stop_env t env sc" and "server_winding w STOPPED trs K True s"
    and "t \<or> wait_for_handler_context env None s \<noteq> None"
  shows "wp t (server_complete_after_deferred_stop_events env sc ctx (Some w) stopping stopped waiters)
      (\<lambda>_. server_all_stopped w trs K) (\<lambda>_ _. False) s \<and>
    wp t (server_complete_after_deferred_closes env w waiters) (\<lambda>_. server_all_stopped w trs K) (\<lambda>_ _. False) s"
proof
  let ?W = "server_winding w STOPPED trs K True"
    and ?E = "\<lambda>e s'. is_caught e \<and> server_winding w STOPPED trs K True s'"
  note d = server_stop_envD [OF assms(1)]
  have await: "wp t (awaitE env p) Q ?E s'" if "?W s'" "\<And>s'. ?W s' \<Longrightarrow> Q () s'" for p Q s'
    by (rule wp_sstop_await [OF assms(1) that(1)]) (use that(2) in auto)
  have all: "wp t (await_all env ws) Q ?E s'" if "?W s'" "\<And>s'. ?W s' \<Longrightarrow> Q () s'" for ws Q s'
    using that by (auto simp: await_all_def wp_simps intro!: await)
  have rest: "wp t (seqE (with_inline_delivery_context (sc_disp sc) ctx (\<lambda>ctx1.
      seqE (server_emit_lifecycle_event env sc ctx1 stopping)
        (seqE (await_all env waiters) (server_emit_lifecycle_event env sc ctx1 stopped))))
      (disp_stop env (sc_disp sc) ctx)) (\<lambda>_. ?W) ?E s'" if "?W s'" for s'
    unfolding with_inline_delivery_context_def wp_seqE
    by (auto intro!: wp_sstop_emit [OF assms(1)] that all
        wp_disp_stop [OF server_winding.stable d(1) [of w STOPPED trs K True] d(2)])
  have "wp True (wait_for_handler_context env None) (\<lambda>_. ?W) ?E s"
    by (rule wp_by_parts [OF stable_wait_for_handler_context_keeps [OF server_winding.stable d(1)]
          raises_wait_for_handler_context [where Q = is_caught] _ assms(2)])
      (use d(2) in \<open>auto simp: env_caught_def\<close>)
  then have wait: "wp t (wait_for_handler_context env None) (\<lambda>_. ?W) ?E s"
    using assms(3) by (cases t) (auto intro: wp_total)
  show "wp t (server_complete_after_deferred_stop_events env sc ctx (Some w) stopping stopped waiters)
      (\<lambda>_. server_all_stopped w trs K) (\<lambda>_ _. False) s"
    unfolding server_complete_after_deferred_stop_events_def
    by (rule wp_server_completion, subst wp_seqE, rule wp_mono [OF wait]) (auto intro: rest)
  show "wp t (server_complete_after_deferred_closes env w waiters)
      (\<lambda>_. server_all_stopped w trs K) (\<lambda>_ _. False) s"
    unfolding server_complete_after_deferred_closes_def
    by (rule wp_server_completion) (rule await [OF assms(2)])
qed

theorem deferred_server_stop_completes_witness:
  "\<exists>s'. server_complete_after_deferred_stop_events quiet sample_sc (plain_ctx None) (Some 0) None None [0]
       (sample_server\<lparr>sv_stop_waiter := Some 0, d_futures := [Pending]\<rparr>) = Some (Inr (), s') \<and>
     server_all_stopped 0 [] {} s'"
proof -
  let ?s = "sample_server\<lparr>sv_stop_waiter := Some 0, d_futures := [Pending]\<rparr>"
  have "server_winding 0 STOPPED [] {} True ?s" by (simp add: server_winding_def)
  moreover have "wait_for_handler_context quiet None ?s \<noteq> None"
    by (subst wait_for_handler_context.simps) (simp add: has_active_handler_context_def)
  ultimately have "wp False (server_complete_after_deferred_stop_events quiet sample_sc (plain_ctx None) (Some 0)
      None None [0]) (\<lambda>_. server_all_stopped 0 [] {}) (\<lambda>_ _. False) ?s"
    using deferred_server_stop_completes [where t = False and env = quiet and sc = sample_sc
        and ctx = "plain_ctx None" and w = 0 and trs = "[]" and K = "{}" and s = ?s and stopping = None
        and stopped = None and waiters = "[0]"]
    by (simp add: server_stop_env_def sample_sc_inline)
  then show ?thesis by (auto dest!: wp_valueD)
qed

end
