(* ===== verification/Server_Start.thy ===== *)
theory Server_Start
  imports Server_Safety
begin

text \<open>
  What \<open>start\<close> of the server achieves when no other task stops or starts the server meanwhile
  (\<open>leaves_start\<close>): it is all or nothing, whatever handlers, sockets and cancellations do.
\<close>

section \<open>The rely condition\<close>

text \<open>The failures of the socket module are exceptions that \<open>start\<close> handles.\<close>

definition setup_ok :: "server \<Rightarrow> bool" where
  "setup_ok s \<longleftrightarrow> (case sv_addrinfo s of
     Inl e \<Rightarrow> is_caught e
   | Inr cands \<Rightarrow> (\<forall>c \<in> set cands.
       (\<forall>e. ld_create_error c = Some e \<longrightarrow> is_caught e) \<and> (\<forall>e. ld_setup_error c = Some e \<longrightarrow> is_OSError e)))"

definition leaves_start :: "server environment \<Rightarrow> bool" where
  "leaves_start env \<longleftrightarrow> (\<forall>p s. let s' = snd (env p s) in
     sv_lifecycle_state s' = sv_lifecycle_state s \<and> sv_server s' = sv_server s \<and>
     sv_locked s' = sv_locked s \<and> sv_sockets s' = sv_sockets s \<and> sv_addrinfo s' = sv_addrinfo s)"

text \<open>The lifecycle, the listener, and the open listening sockets, which include \<open>L\<close> and are among \<open>K\<close>.\<close>

definition startup ::
    "bool \<Rightarrow> component_lifecycle_state \<Rightarrow> nat option \<Rightarrow> nat set \<Rightarrow> nat set \<Rightarrow> server \<Rightarrow> bool" where
  "startup locked st listener L K s \<longleftrightarrow> sv_locked s = locked \<and> sv_lifecycle_state s = st \<and>
     sv_server s = listener \<and> L \<subseteq> sv_sockets s \<and> sv_sockets s \<subseteq> K \<and> setup_ok s"

lemma startup_env: "leaves_start env \<Longrightarrow> env_keeps (startup locked st listener L K) env"
  by (simp add: leaves_start_def env_keeps_def startup_def setup_ok_def Let_def)

lemma server_addrinfo_own:
  fixes s s' :: server
  shows "transport.more s' = transport.more s \<Longrightarrow> sv_addrinfo s' = sv_addrinfo s"
  by (cases s; cases s'; simp)

interpretation startup: owner_invariant "startup locked st listener L K" for locked st listener L K
proof
  fix s s' :: server
  assume "startup locked st listener L K s" and more: "transport.more s' = transport.more s"
  then show "startup locked st listener L K s'"
    using server_own [OF more] server_addrinfo_own [OF more] by (simp add: startup_def setup_ok_def)
qed

definition start_env :: "server environment \<Rightarrow> server_config \<Rightarrow> bool" where
  "start_env env sc \<longleftrightarrow> leaves_start env \<and> env_caught env \<and> dc_dispatch_mode (sc_disp sc) = INLINE"

section \<open>The steps\<close>

lemma wp_startup_emit_now:
  assumes "start_env env sc" "startup locked st listener L K s"
    and "\<And>s'. startup locked st listener L K s' \<Longrightarrow> Q () s'"
    and "\<And>e s'. is_caught e \<Longrightarrow> startup locked st listener L K s' \<Longrightarrow> E e s'"
  shows "wp t (emit env (sc_disp sc) ctx event) Q E s"
  by (rule wp_emit [OF startup.stable startup_env _ _ assms(2)])
    (use assms in \<open>auto simp: start_env_def\<close>)

lemma wp_startup_emit:
  assumes "start_env env sc" "startup locked st listener L K s"
    and "\<And>s'. startup locked st listener L K s' \<Longrightarrow> Q () s'"
    and "\<And>e s'. is_caught e \<Longrightarrow> startup locked st listener L K s' \<Longrightarrow> E e s'"
  shows "wp t (server_emit_lifecycle_event env sc ctx event) Q E s"
  unfolding server_emit_lifecycle_event_def emit_lifecycle_event_def
  by (cases event)
    (auto simp: wp_simps assms(2) intro!: wp_startup_emit_now [OF assms(1,2)] assms(3,4))

lemma wp_startup_await:
  assumes "start_env env sc" "startup locked st listener L K s"
    and "\<And>s'. startup locked st listener L K s' \<Longrightarrow> Q () s'"
    and "\<And>e s'. is_caught e \<Longrightarrow> startup locked st listener L K s' \<Longrightarrow> E e s'"
  shows "wp t (awaitE env p) Q E s"
  by (rule wp_awaitE_frame [OF startup_env _ assms(2)]) (use assms in \<open>auto simp: start_env_def\<close>)

lemma wp_startup_disp_stop:
  assumes "start_env env sc" "startup locked st listener L K s"
    and "\<And>s'. startup locked st listener L K s' \<Longrightarrow> Q () s'"
    and "\<And>e s'. is_caught e \<Longrightarrow> startup locked st listener L K s' \<Longrightarrow> E e s'"
  shows "wp t (disp_stop env (sc_disp sc) ctx) Q E s"
  by (rule wp_disp_stop [OF startup.stable startup_env _ assms(2)]) (use assms in \<open>auto simp: start_env_def\<close>)

text \<open>A locked section over the fields of \<open>startup\<close>.\<close>

lemma startup_lock:
  "startup False st listener L K s \<Longrightarrow> startup True st listener L K (s\<lparr>sv_locked := True\<rparr>)"
  "startup True st listener L K s \<Longrightarrow> startup False st listener L K (s\<lparr>sv_locked := False\<rparr>)"
  by (simp_all add: startup_def setup_ok_def)

lemma wp_startup_locked:
  assumes "startup False st listener L K s"
    and "\<And>s'. startup True st listener L K s' \<Longrightarrow>
      wp t body (\<lambda>a s'. Q a (s'\<lparr>sv_locked := False\<rparr>)) (\<lambda>e s'. E e (s'\<lparr>sv_locked := False\<rparr>)) s'"
  shows "wp t (with_state_lock env body) Q E s"
  by (rule wp_with_state_lock) (use assms startup_lock in \<open>auto simp: startup_def\<close>)

section \<open>The listening socket\<close>

lemma wp_startup_candidates:
  assumes "startup locked STARTING None {} K s"
    and "\<forall>c \<in> set cands. (\<forall>e. ld_create_error c = Some e \<longrightarrow> is_caught e) \<and>
      (\<forall>e. ld_setup_error c = Some e \<longrightarrow> is_OSError e)"
    and "case last_error of None \<Rightarrow> True | Some e \<Rightarrow> is_caught e"
    and "\<And>k s'. startup locked STARTING None {k} (insert k K) s' \<Longrightarrow> Q k s'"
    and "\<And>e s'. is_caught e \<Longrightarrow> startup locked STARTING None {} K s' \<Longrightarrow> E e s'"
  shows "wp t (try_candidates last_error cands) Q E s"
  using assms(1-3)
proof (induction cands arbitrary: last_error s)
  case Nil
  then show ?case
    by (cases last_error) (auto simp: wp_simps is_caught_def is_Exception_def intro!: assms(5))
next
  case (Cons c cands)
  let ?s = "snd (open_socket s)" and ?k = "sv_next_socket s"
  have opened: "startup locked STARTING None {?k} (insert ?k K) ?s"
    "startup locked STARTING None {} K (close_socket ?k ?s)"
    using Cons.prems(1) by (auto simp: startup_def open_socket_def close_socket_def setup_ok_def)
  have os: "is_OSError e \<Longrightarrow> is_caught e" for e
    using is_OSError_Exception by (simp add: is_caught_def)
  show ?case
    using Cons.prems Cons.IH [OF opened(2)] opened(1) os
    by (auto simp: wp_simps open_socket_def intro!: assms(4,5) split: option.split)
qed

lemma startup_closed:
  "startup locked st listener L (insert k K) s \<Longrightarrow> startup locked st listener {} K (close_socket k s)"
  by (auto simp: startup_def close_socket_def setup_ok_def)

lemma wp_stop_during_rollback:
  assumes "start_env env sc" "startup locked st listener L K s"
    and "\<And>s'. startup locked st listener L K s' \<Longrightarrow> Q () s'"
    and "\<And>e s'. is_caught e \<Longrightarrow> startup locked st listener L K s' \<Longrightarrow> E e s'"
  shows "wp t (stop_dispatcher_during_startup_rollback env ctx) Q E s"
proof -
  obtain n s1 where c: "create_call Call_dispatcher_stop ctx s = (n, s1)" by force
  then have "startup locked st listener L K s1"
    using assms(2) by (auto simp: create_call_def create_task_def Let_def startup_def setup_ok_def)
  then show ?thesis
    unfolding stop_dispatcher_during_startup_rollback_def
    by (auto simp: wp_simps c is_cancelled_def intro!: wp_startup_await [OF assms(1)] assms(3,4))
qed

lemma wp_listening_failed:
  assumes "start_env env sc" "startup False STARTING None {} K s"
    and "\<And>s'. startup False STOPPED None {} K s' \<Longrightarrow> Q () s'"
    and "\<And>e s'. is_caught e \<Longrightarrow> startup False STOPPED None {} K s' \<Longrightarrow> E e s'"
  shows "wp t (listening_failed env sc ctx) Q E s"
proof -
  let ?S = "startup False STOPPED None {} K"
  have moved: "?S (server_moved STOPPED (s'\<lparr>sv_server := None\<rparr>)\<lparr>sv_locked := False\<rparr>)"
    if "startup True STARTING None {} K s'" for s'
    using that by (simp add: startup_def setup_ok_def)
  have notified: "?S (server_notify_status_changed s')" if "?S s'" for s'
    using that by (simp add: startup_def setup_ok_def)
  have rest: "wp t (stop_dispatcher_during_startup_rollback env ctx)
      (\<lambda>_. wp t (modifyE server_notify_status_changed) R E) E s'"
    if "?S s'" "\<And>s''. ?S s'' \<Longrightarrow> R () s''" for R s'
    using that by (intro wp_stop_during_rollback [OF assms(1) that(1)]) (auto simp: wp_simps intro: notified assms(4))
  show ?thesis
    unfolding listening_failed_def wp_bindE
    by (rule wp_startup_locked [OF assms(2)])
      (auto simp: wp_simps startup_def [of True] intro!: wp_startup_emit [OF assms(1) moved] rest assms(3,4))
qed

lemma wp_start_listening:
  assumes "start_env env sc" "startup False STARTING None {} K s"
    and "\<And>k s'. startup False STARTING None {k} (insert k K) s' \<Longrightarrow> Q k s'"
    and "\<And>e s'. is_caught e \<Longrightarrow> startup False STOPPED None {} K s' \<Longrightarrow> E e s'"
  shows "wp t (start_listening env sc ctx) Q E s"
proof -
  have failed: "wp t (listening_failed env sc ctx) (\<lambda>_. wp t (raiseE e) Q E) E s'"
    if "startup False STARTING None {} K s'" "is_caught e" for e s'
    by (rule wp_listening_failed [OF assms(1) that(1)]) (auto simp: wp_simps intro: assms(4) that(2))
  have listen: "wp t (awaitE env A_start_server) Q' E' s'"
    if "startup False STARTING None {k} (insert k K) s'"
      "\<And>s'. startup False STARTING None {k} (insert k K) s' \<Longrightarrow> Q' () s'"
      "\<And>e s'. is_caught e \<Longrightarrow> startup False STARTING None {} K (close_socket k s') \<Longrightarrow> E' e s'" for k s' Q' E'
    by (rule wp_startup_await [OF assms(1) that(1)]) (auto intro: that(2,3) startup_closed)
  have candidates_ok: "case sv_addrinfo s of Inl e \<Rightarrow> is_caught e | Inr cands \<Rightarrow> (\<forall>c \<in> set cands.
      (\<forall>e. ld_create_error c = Some e \<longrightarrow> is_caught e) \<and> (\<forall>e. ld_setup_error c = Some e \<longrightarrow> is_OSError e))"
    using assms(2) by (simp add: startup_def setup_ok_def)
  show ?thesis
    unfolding start_listening_def create_listening_socket_def
    using candidates_ok
    by (auto simp: wp_simps intro!: failed assms(2,3) wp_startup_candidates [OF assms(2)] listen
        split: sum.split)
qed

section \<open>Rollback and start\<close>

text \<open>The rollback of a start in the state STARTING, or RUNNING with its listener \<open>k\<close>.\<close>

lemma wp_rollback:
  assumes "start_env env sc" "startup False st listener {} (K \<union> set_option listener) s"
    and "st = STARTING \<and> listener = None \<or> st = RUNNING"
    and "\<And>s'. startup False STOPPED None {} K s' \<Longrightarrow> Q () s'"
    and "\<And>e s'. is_caught e \<Longrightarrow> startup False STOPPED None {} K s' \<Longrightarrow> E e s'"
  shows "wp t (server_rollback_failed_startup env sc ctx listener) Q E s"
proof -
  let ?S = "startup False STOPPED None {} K"
  have off: "wp t (suppress_all (disp_stop env (sc_disp sc) ctx)) Q E s'" if "?S s'" for s'
    by (auto simp: wp_simps intro!: wp_startup_disp_stop [OF assms(1) that] assms(4))
  have wait: "wp t (awaitE env p) Q' E s'"
    if "?S s'" "\<And>s''. ?S s'' \<Longrightarrow> Q' () s''" for p Q' s'
    by (rule wp_startup_await [OF assms(1) that(1)]) (auto intro: that(2) assms(5))
  have closes: "wp t (close_servers env [listener, listener])
      (\<lambda>_. wp t (suppress_all (disp_stop env (sc_disp sc) ctx)) Q E) E s'"
    if "startup False STOPPED None {} (K \<union> set_option listener) s'" for s'
  proof (cases listener)
    case None
    then show ?thesis using that by (simp add: wp_ret off)
  next
    case (Some k)
    have one: "wp t (suppress_Exception (awaitE env p)) Q' E s'"
      if "?S s'" "\<And>s''. ?S s'' \<Longrightarrow> Q' () s''" for p Q' s'
      unfolding wp_suppress_Exception
      by (rule wp_startup_await [OF assms(1) that(1)]) (auto intro: that(2) assms(5))
    have again: "?S (close_socket k s'')" if "?S s''" for s''
      using that by (auto simp: startup_def close_socket_def setup_ok_def)
    have "?S (close_socket k s')" using that startup_closed Some by auto
    then show ?thesis
      unfolding Some close_servers.simps
      by (auto simp: wp_seqE wp_modifyE wp_ret intro!: one again off)
  qed
  show ?thesis
    unfolding server_rollback_failed_startup_def wp_bindE
  proof (rule wp_startup_locked [OF assms(2)])
    fix s1
    assume s1: "startup True st listener {} (K \<union> set_option listener) s1"
    define s2 where "s2 = server_notify_status_changed ((if st = RUNNING then server_moved STOPPED \<circ> server_moved STOPPING
        else server_moved STOPPED) (s1\<lparr>sv_server := None\<rparr>))"
    have "startup False STOPPED None {} (K \<union> set_option listener) (s2\<lparr>sv_locked := False\<rparr>)"
      using s1 by (auto simp: s2_def startup_def setup_ok_def)
    note closes [OF this]
    then show "wp t (detach_listener sc)
        (\<lambda>a s'. wp t (seqE (close_servers env [listener, a]) (suppress_all (disp_stop env (sc_disp sc) ctx))) Q E
           (s'\<lparr>sv_locked := False\<rparr>)) (\<lambda>e s'. E e (s'\<lparr>sv_locked := False\<rparr>)) s1"
      using s1 assms(3) by (auto simp: detach_listener_def wp_simps startup_def s2_def)
  qed
qed

text \<open>How a start ends, over the listening sockets \<open>K\<close> open before.\<close>

definition started_on :: "nat set \<Rightarrow> 'a \<Rightarrow> server \<Rightarrow> bool" where
  "started_on K _ s \<longleftrightarrow> (\<exists>k. startup False RUNNING (Some k) {k} (insert k K) s)"

definition not_started :: "nat set \<Rightarrow> exn \<Rightarrow> server \<Rightarrow> bool" where
  "not_started K _ s \<longleftrightarrow> startup False STOPPED None {} K s"

lemma wp_rollback_raise:
  assumes "start_env env sc" "startup False st l {} (K \<union> set_option l) s"
    and "st = STARTING \<and> l = None \<or> st = RUNNING"
  shows "wp False (server_rollback_failed_startup env sc ctx l) (\<lambda>_. wp False (raiseE e) Q (not_started K))
    (not_started K) s"
  by (rule wp_rollback [OF assms]) (simp_all add: wp_simps not_started_def)

lemma wp_listen_and_run:
  assumes "start_env env sc" "startup False STARTING None {} K s"
  shows "wp False (listen_and_run env sc ctx) (started_on K) (not_started K) s"
  unfolding listen_and_run_def wp_bindE
proof (rule wp_start_listening [OF assms])
  fix k s1
  let ?R = "startup False RUNNING (Some k) {k} (insert k K)"
  assume s1: "startup False STARTING None {k} (insert k K) s1"
  have entered: "?R (server_notify_status_changed (server_moved RUNNING (s2\<lparr>sv_server := Some k\<rparr>))\<lparr>sv_locked := False\<rparr>)"
    if "startup True STARTING None {k} (insert k K) s2" for s2
    using that by (simp add: startup_def setup_ok_def)
  have weaken: "startup False RUNNING (Some k) {} (K \<union> set_option (Some k)) s2" if "?R s2" for s2
    using that by (simp add: startup_def)
  have publish: "wp False (server_or_rollback env sc ctx (Some k) (server_emit_lifecycle_event env sc ctx ev))
      (started_on K) (not_started K) s2"
    if "?R s2" for ev s2
    unfolding server_or_rollback_def
    by (auto simp: wp_simps started_on_def
        intro!: wp_startup_emit [OF assms(1) that] wp_rollback_raise [OF assms(1) weaken])
  show "wp False (with_state_lock env (enter_running env sc k)) (\<lambda>running. wp False (case running of
      None \<Rightarrow> ret () | Some event \<Rightarrow>
        server_or_rollback env sc ctx (Some k) (server_emit_lifecycle_event env sc ctx event))
      (started_on K) (not_started K)) (not_started K) s1"
  proof (rule wp_startup_locked [OF s1])
    fix s2
    assume s2: "startup True STARTING None {k} (insert k K) s2"
    then have "sv_lifecycle_state s2 = STARTING" by (simp add: startup_def)
    then show "wp False (enter_running env sc k) (\<lambda>running s'. wp False (case running of
        None \<Rightarrow> ret () | Some event \<Rightarrow>
          server_or_rollback env sc ctx (Some k) (server_emit_lifecycle_event env sc ctx event))
        (started_on K) (not_started K) (s'\<lparr>sv_locked := False\<rparr>))
        (\<lambda>e s'. not_started K e (s'\<lparr>sv_locked := False\<rparr>)) s2"
      using publish [OF entered [OF s2]] by (simp add: enter_running_def wp_simps)
  qed
qed (simp add: not_started_def)

text \<open>From the publication of STARTING on.\<close>

lemma wp_start_published:
  assumes "start_env env sc" "startup False STARTING None {} K s"
  shows "wp False (seqE (publish_starting env sc ctx ev)
      (bindE (with_state_lock env (getsE startup_stopped)) (\<lambda>stopped. case stopped of
         Some stop_waiter \<Rightarrow> (case stop_waiter of None \<Rightarrow> ret () | Some w \<Rightarrow> awaitE env (A_future w))
       | None \<Rightarrow> listen_and_run env sc ctx))) (started_on K) (not_started K) s"
proof -
  let ?S = "startup False STARTING None {} K"
  have inline: "dc_dispatch_mode (sc_disp sc) = INLINE" using assms(1) by (simp add: start_env_def)
  have continue: "wp False (with_state_lock env (getsE startup_stopped)) (\<lambda>stopped. wp False (case stopped of
      Some stop_waiter \<Rightarrow> (case stop_waiter of None \<Rightarrow> ret () | Some w \<Rightarrow> awaitE env (A_future w))
    | None \<Rightarrow> listen_and_run env sc ctx) (started_on K) (not_started K)) (not_started K) s'"
    if "?S s'" for s'
  proof (rule wp_startup_locked [OF that])
    fix s2
    assume s2: "startup True STARTING None {} K s2"
    then have "startup_stopped s2 = None" by (simp add: startup_stopped_def startup_def)
    then show "wp False (getsE startup_stopped) (\<lambda>stopped s'. wp False (case stopped of
        Some stop_waiter \<Rightarrow> (case stop_waiter of None \<Rightarrow> ret () | Some w \<Rightarrow> awaitE env (A_future w))
      | None \<Rightarrow> listen_and_run env sc ctx) (started_on K) (not_started K) (s'\<lparr>sv_locked := False\<rparr>))
        (\<lambda>e s'. not_started K e (s'\<lparr>sv_locked := False\<rparr>)) s2"
      using wp_listen_and_run [OF assms(1) startup_lock(2) [OF s2]] by (simp add: wp_getsE)
  qed
  have publish: "wp False (publish_starting env sc ctx ev) (\<lambda>_. ?S) (not_started K) s"
    unfolding publish_starting_def server_or_rollback_def emit_and_wait_inline [OF inline]
    by (cases ev) (use assms(2) in \<open>auto simp: wp_simps intro!: wp_startup_emit_now [OF assms]
       wp_rollback_raise [OF assms(1)]\<close>)
  show ?thesis
    unfolding wp_seqE wp_bindE by (rule wp_mono [OF publish]) (auto intro: continue)
qed



end
