(* ===== verification/Receiver_State.thy ===== *)
theory Receiver_State
  imports Transport_Base
begin

text \<open>
  Models the state of the datagram receivers: \<^verbatim>\<open>_datagram_receiver_state.py\<close>, the constructors of
  \<^verbatim>\<open>asyncio_udp_receiver.py\<close>, \<^verbatim>\<open>asyncio_multicast_receiver.py\<close> and
  \<^verbatim>\<open>_asyncio_datagram_receiver_base.py\<close>, and what the base class uses throughout: lifecycle
  updates, the provenance of a stop and the stop snapshot.
\<close>

section \<open>State\<close>

datatype receiver_settings =
    Udp_settings udp_receiver_settings
  | Multicast_settings multicast_receiver_settings

text \<open>\<open>rc_has_sock_recvfrom\<close>: whether the event loop offers \<open>sock_recvfrom\<close>.\<close>

record receiver_config =
  rc_settings :: receiver_settings
  rc_connection_id :: string
  rc_role :: lifecycle_role
  rc_class :: string
  rc_disp :: disp_config
  rc_has_sock_recvfrom :: bool

text \<open>
  What the socket module answers next: the error of creating a socket; the first error of
  configuring and binding it (and of joining the group); its own address; the error of leaving
  the group; the platform.
\<close>

record socket_setup =
  su_create_error :: "exn option"
  su_setup_error :: "exn option"
  su_sockname :: "exn + (string \<times> int)"
  su_drop_error :: "exn option"
  su_is_win32 :: bool
  su_has_exclusive :: bool
  su_has_reuseport :: bool

record stop_snapshot =
  ds_stop_dispatcher :: bool
  ds_should_transition_to_stopped :: bool
  ds_should_emit_closed_event :: bool
  ds_previous_connection_state :: connection_state
  ds_task :: "nat option"
  ds_sock :: "nat option"
  ds_cancel_task :: bool
  ds_stopping_event :: "network_event option"
  ds_stop_waiter :: "nat option"
  ds_owns_stop :: bool

definition empty_snapshot :: stop_snapshot where
  "empty_snapshot =
     \<lparr>ds_stop_dispatcher = False, ds_should_transition_to_stopped = False,
      ds_should_emit_closed_event = False, ds_previous_connection_state = CREATED, ds_task = None,
      ds_sock = None, ds_cancel_task = True, ds_stopping_event = None, ds_stop_waiter = None,
      ds_owns_stop = False\<rparr>"

definition snapshot_waits_for_owner :: "stop_snapshot \<Rightarrow> bool" where
  "snapshot_waits_for_owner snapshot = (ds_stop_waiter snapshot \<noteq> None \<and> \<not> ds_owns_stop snapshot)"

definition is_noop :: "stop_snapshot \<Rightarrow> bool" where
  "is_noop snapshot =
     (ds_stopping_event snapshot = None \<and> \<not> ds_should_transition_to_stopped snapshot \<and>
      \<not> ds_should_emit_closed_event snapshot \<and> ds_task snapshot = None \<and> ds_sock snapshot = None)"

text \<open>The coroutines that the receiver starts as tasks, with what they close over.\<close>

datatype receiver_call =
    Call_receive int
  | Call_publish_after_handler
  | Call_publish_after_open
  | Call_after_close nat nat
  | Call_after_close_and_stop "nat option" stop_snapshot nat
  | Call_stop_events "nat option" stop_snapshot

text \<open>
  The fields of the receiver and its runtime state.  Sockets are numbered; \<open>dg_sockets\<close> are the
  open ones, \<open>dg_options\<close> the options set on the last one, \<open>dg_memberships\<close> the ones that joined
  the group.  \<open>dg_datagram\<close> is what the last \<open>recvfrom\<close> returned, \<open>dg_calls\<close> says what an
  \<open>Owner_call\<close> task runs, \<open>dg_transitions\<close> records the applied transitions.
\<close>

record receiver = transport +
  dg_running :: bool
  dg_sock :: "nat option"
  dg_task :: "nat option"
  dg_lifecycle_state :: component_lifecycle_state
  dg_connection_state :: connection_state
  dg_metadata :: "connection_metadata option"
  dg_recv_fallback_warning_emitted :: bool
  dg_stop_waiter :: "nat option"
  dg_stop_owner_task :: "nat option"
  dg_opening_event_task :: "nat option"
  dg_deferred_close_event :: "network_event option"
  dg_deferred_close_event_waiter :: "nat option"
  dg_deferred_close_publish_task :: "nat option"
  dg_owner_loop :: "nat option"
  dg_calls :: "nat \<rightharpoonup> receiver_call"
  dg_next_socket :: nat
  dg_sockets :: "nat set"
  dg_options :: "socket_option list"
  dg_memberships :: "nat set"
  dg_setup :: socket_setup
  dg_datagram :: "nat list \<times> peer_info"
  dg_transitions :: "(component_lifecycle_state \<times> component_lifecycle_state) list"

text \<open>
  The constructor of the base class, over what the socket module will answer and the entries of
  the unused table of connections, which are arbitrary.
\<close>

definition receiver_base_init :: "disp \<Rightarrow> connection \<Rightarrow> socket_setup \<Rightarrow> receiver" where
  "receiver_base_init d no_connection setup =
     transport.extend
       (disp.extend d (transport.fields (\<lambda>_. no_connection) Map.empty (\<lambda>_. Pending) (\<lambda>_. False) {} []))
       \<lparr>dg_running = False, dg_sock = None, dg_task = None, dg_lifecycle_state = STOPPED,
        dg_connection_state = CREATED, dg_metadata = None, dg_recv_fallback_warning_emitted = False,
        dg_stop_waiter = None, dg_stop_owner_task = None, dg_opening_event_task = None,
        dg_deferred_close_event = None, dg_deferred_close_event_waiter = None,
        dg_deferred_close_publish_task = None, dg_owner_loop = None, dg_calls = Map.empty,
        dg_next_socket = 0, dg_sockets = {}, dg_options = [], dg_memberships = {}, dg_setup = setup,
        dg_datagram = ([], NotTuple), dg_transitions = []\<rparr>"

definition udp_receiver_init ::
    "udp_receiver_settings \<Rightarrow> attribute \<Rightarrow> bool \<Rightarrow> connection \<Rightarrow> socket_setup \<Rightarrow>
     exn + (receiver_config \<times> receiver)" where
  "udp_receiver_init settings on_event has_sock_recvfrom no_connection setup =
     bindR (udp_receiver_validate settings) (\<lambda>_.
     let connection_id = udp_receiver_component_id (str_value (ur_host settings)) (int_value (ur_port settings))
     in bindR (disp_init on_event (delivery_config 0 (ur_event_delivery settings) connection_id) None (Some 0))
       (\<lambda>(cfg, d). Inr
          (\<lparr>rc_settings = Udp_settings settings, rc_connection_id = connection_id,
            rc_role = UDP_RECEIVER_ROLE, rc_class = ''AsyncioUdpReceiver'', rc_disp = cfg,
            rc_has_sock_recvfrom = has_sock_recvfrom\<rparr>,
           receiver_base_init d no_connection setup)))"

definition multicast_receiver_init ::
    "multicast_receiver_settings \<Rightarrow> attribute \<Rightarrow> bool \<Rightarrow> connection \<Rightarrow> socket_setup \<Rightarrow>
     exn + (receiver_config \<times> receiver)" where
  "multicast_receiver_init settings on_event has_sock_recvfrom no_connection setup =
     bindR (multicast_receiver_validate settings) (\<lambda>_.
     let connection_id =
           multicast_receiver_component_id (str_value (ms_group_ip settings)) (int_value (ms_port settings))
     in bindR (disp_init on_event (delivery_config 0 (ms_event_delivery settings) connection_id) None (Some 0))
       (\<lambda>(cfg, d). Inr
          (\<lparr>rc_settings = Multicast_settings settings, rc_connection_id = connection_id,
            rc_role = MULTICAST_RECEIVER_ROLE, rc_class = ''AsyncioMulticastReceiver'', rc_disp = cfg,
            rc_has_sock_recvfrom = has_sock_recvfrom\<rparr>,
           receiver_base_init d no_connection setup)))"

definition receive_buffer_size :: "receiver_config \<Rightarrow> int" where
  "receive_buffer_size rc =
     (case rc_settings rc of
        Udp_settings settings \<Rightarrow> int_value (ur_receive_buffer_size settings)
      | Multicast_settings settings \<Rightarrow> int_value (ms_receive_buffer_size settings))"

section \<open>Lifecycle\<close>

definition receiver_assert_owner_loop :: "receiver_config \<Rightarrow> nat option \<Rightarrow> (receiver, unit) prog" where
  "receiver_assert_owner_loop rc running_loop =
     bindE (getsE dg_owner_loop) (\<lambda>owner_loop.
       bindE (liftR (assert_running_on_owner_loop (rc_class rc) running_loop owner_loop))
         (\<lambda>loop. modifyE (\<lambda>s. s\<lparr>dg_owner_loop := Some loop\<rparr>)))"

definition receiver_set_state :: "component_lifecycle_state \<Rightarrow> receiver \<Rightarrow> receiver" where
  "receiver_set_state target s =
     s\<lparr>dg_lifecycle_state := target,
       dg_transitions := dg_transitions s @ [(dg_lifecycle_state s, target)]\<rparr>"

definition receiver_publisher :: "receiver_config \<Rightarrow> lifecycle_publisher" where
  "receiver_publisher rc =
     \<lparr>lp_component_name = rc_connection_id rc, lp_resource_id = rc_connection_id rc, lp_role = rc_role rc\<rparr>"

definition receiver_apply_lifecycle_state ::
    "receiver_config \<Rightarrow> component_lifecycle_state \<Rightarrow> (receiver, network_event option) prog" where
  "receiver_apply_lifecycle_state rc next_state =
     publisher_apply (receiver_publisher rc) dg_lifecycle_state receiver_set_state (\<lambda>_ s. s) next_state"

definition receiver_emit_lifecycle_event ::
    "receiver environment \<Rightarrow> receiver_config \<Rightarrow> task_ctx \<Rightarrow> network_event option \<Rightarrow> (receiver, unit) prog" where
  "receiver_emit_lifecycle_event env rc ctx event = emit_lifecycle_event (emit env (rc_disp rc) ctx) event"

definition receiver_set_lifecycle_state ::
    "receiver environment \<Rightarrow> receiver_config \<Rightarrow> task_ctx \<Rightarrow> component_lifecycle_state \<Rightarrow> (receiver, unit) prog" where
  "receiver_set_lifecycle_state env rc ctx next_state =
     bindE (receiver_apply_lifecycle_state rc next_state) (receiver_emit_lifecycle_event env rc ctx)"

section \<open>Tasks\<close>

definition create_receiver_call :: "receiver_call \<Rightarrow> task_ctx \<Rightarrow> receiver \<Rightarrow> nat \<times> receiver" where
  "create_receiver_call call ctx s =
     (case create_task Owner_call ctx s of (t, s1) \<Rightarrow> (t, s1\<lparr>dg_calls := (dg_calls s1)(t \<mapsto> call)\<rparr>))"

section \<open>Where a stop comes from\<close>

record receiver_provenance =
  dp_handler_originated :: bool
  dp_inherited_handler_origin :: bool
  dp_active_inline_handler :: bool

definition has_handler_provenance :: "receiver_provenance \<Rightarrow> bool" where
  "has_handler_provenance pv = (dp_handler_originated pv \<or> dp_inherited_handler_origin pv)"

definition receiver_defers_terminal_events :: "receiver_provenance \<Rightarrow> bool" where
  "receiver_defers_terminal_events pv = (has_handler_provenance pv \<or> dp_active_inline_handler pv)"

definition receiver_capture_stop_provenance ::
    "disp_config \<Rightarrow> task_ctx \<Rightarrow> receiver \<Rightarrow> receiver_provenance" where
  "receiver_capture_stop_provenance cfg ctx s =
     (let handler_originated = (current_task_is_dispatching_handler cfg ctx s None \<or>
            current_task_has_handler_origin_context cfg ctx s None);
          inherited_handler_origin = current_task_inherits_handler_origin_context cfg ctx s None
      in \<lparr>dp_handler_originated = handler_originated,
          dp_inherited_handler_origin = inherited_handler_origin,
          dp_active_inline_handler =
            (\<not> handler_originated \<and> \<not> inherited_handler_origin \<and> has_active_handler_context s None \<and>
             current_task_would_deliver_inline cfg ctx s)\<rparr>)"

section \<open>The stop snapshot\<close>

definition is_fully_stopped_receiver :: "receiver \<Rightarrow> bool" where
  "is_fully_stopped_receiver s =
     (\<not> dg_running s \<and> dg_sock s = None \<and> dg_lifecycle_state s = STOPPED)"

text \<open>Taking ownership, and the detachment of task and socket.\<close>

definition own_receiver_stop :: "task_ctx \<Rightarrow> receiver \<Rightarrow> nat \<times> receiver" where
  "own_receiver_stop ctx s =
     (case create_future s of (w, s1) \<Rightarrow>
        (w, s1\<lparr>dg_stop_waiter := Some w, dg_stop_owner_task := tc_task ctx\<rparr>))"

definition detach_receiver ::
    "component_lifecycle_state \<Rightarrow> nat \<Rightarrow> network_event option \<Rightarrow> stop_snapshot \<Rightarrow> receiver \<Rightarrow>
     stop_snapshot \<times> receiver" where
  "detach_receiver pre_transition_lifecycle_state w stopping_event snapshot s =
     (snapshot\<lparr>ds_stop_waiter := Some w, ds_owns_stop := True, ds_stopping_event := stopping_event,
        ds_should_transition_to_stopped := (pre_transition_lifecycle_state \<noteq> STOPPED),
        ds_task := dg_task s, ds_sock := dg_sock s,
        ds_should_emit_closed_event := (pre_transition_lifecycle_state \<noteq> STARTING),
        ds_stop_dispatcher := True\<rparr>,
      s\<lparr>dg_running := False, dg_task := None, dg_sock := None, dg_connection_state := CLOSED\<rparr>)"

definition plan_stop_snapshot :: "receiver_config \<Rightarrow> task_ctx \<Rightarrow> (receiver, stop_snapshot) prog" where
  "plan_stop_snapshot rc ctx =
     bindE (getsE (\<lambda>s. s)) (\<lambda>s.
       let snapshot = empty_snapshot\<lparr>ds_previous_connection_state := dg_connection_state s\<rparr>;
           state = dg_lifecycle_state s
       in if dg_stop_waiter s \<noteq> None then
            if tc_task ctx = dg_stop_owner_task s then ret snapshot
            else ret (snapshot\<lparr>ds_stop_waiter := dg_stop_waiter s\<rparr>)
          else if is_fully_stopped_receiver s then ret (snapshot\<lparr>ds_stop_dispatcher := True\<rparr>)
          else bindE (stateE (own_receiver_stop ctx)) (\<lambda>w.
            bindE (if state \<noteq> STOPPED then receiver_apply_lifecycle_state rc STOPPING else ret None)
              (\<lambda>stopping_event. stateE (detach_receiver state w stopping_event snapshot))))"

definition clear_stop_waiter_if_current :: "nat option \<Rightarrow> receiver \<Rightarrow> receiver" where
  "clear_stop_waiter_if_current stop_waiter s =
     (if dg_stop_waiter s = stop_waiter then s\<lparr>dg_stop_waiter := None, dg_stop_owner_task := None\<rparr> else s)"

section \<open>The publisher's host\<close>

interpretation dg: lifecycle_host dg_lifecycle_state receiver_set_state "\<lambda>_ s. s"
  by unfold_locales (simp_all add: receiver_set_state_def)

abbreviation receiver_event ::
    "receiver_config \<Rightarrow> component_lifecycle_state \<Rightarrow> component_lifecycle_state \<Rightarrow> network_event" where
  "receiver_event rc p t \<equiv> ComponentLifecycleChangedEvent (rc_connection_id rc) p t"

lemma receiver_publisher_id [simp]: "lp_resource_id (receiver_publisher rc) = rc_connection_id rc"
  by (simp add: receiver_publisher_def)

lemma wp_receiver_apply [wp_simps]:
  "wp t (receiver_apply_lifecycle_state rc next_state) Q E s =
     (if dg_lifecycle_state s = next_state then Q None s
      else if legal (dg_lifecycle_state s) next_state
      then Q (Some (receiver_event rc (dg_lifecycle_state s) next_state)) (receiver_set_state next_state s)
      else E (Exn RuntimeError (lp_component_name (receiver_publisher rc))) s)"
  unfolding receiver_apply_lifecycle_state_def
  by (cases rule: dg.apply_cases [of s next_state "receiver_publisher rc"])
    (auto simp: wp_def legal_irrefl)

section \<open>A receiver for examples\<close>

definition sample_udp_settings :: udp_receiver_settings where
  "sample_udp_settings = \<lparr>ur_host = PStr ''h'', ur_port = PInt 1, ur_receive_buffer_size = PInt 64,
     ur_enable_broadcast = PBool False,
     ur_event_delivery = default_event_delivery\<lparr>ed_dispatch_mode := PEnum (EDispatch INLINE)\<rparr>\<rparr>"

definition sample_rc :: receiver_config where
  "sample_rc = \<lparr>rc_settings = Udp_settings sample_udp_settings,
     rc_connection_id = udp_receiver_component_id ''h'' 1, rc_role = UDP_RECEIVER_ROLE,
     rc_class = ''AsyncioUdpReceiver'',
     rc_disp = (delivery_config 0 (ur_event_delivery sample_udp_settings) (udp_receiver_component_id ''h'' 1))
       \<lparr>dc_stop_policy_enabled := True, dc_stop_component_callback := Some 0\<rparr>,
     rc_has_sock_recvfrom = True\<rparr>"

definition sample_setup :: socket_setup where
  "sample_setup = \<lparr>su_create_error = None, su_setup_error = None, su_sockname = Inr (''h'', 1),
     su_drop_error = None, su_is_win32 = False, su_has_exclusive = False, su_has_reuseport = True\<rparr>"

definition sample_receiver :: receiver where
  "sample_receiver = receiver_base_init empty_disp sample_connection sample_setup"

lemma sample_udp_valid: "udp_receiver_validate sample_udp_settings = Inr ()"
  by code_simp

lemma sample_receiver_init:
  "udp_receiver_init sample_udp_settings (IsCallable True False) True sample_connection sample_setup =
     Inr (sample_rc, sample_receiver)"
  using sample_udp_valid
  by (simp add: udp_receiver_init_def sample_rc_def sample_receiver_def sample_udp_settings_def
      disp_init_def validate_async_event_handler_def async_callable_def delivery_config_def
      stop_policy_stop_component_def stop_policy_validate_def empty_disp_def default_event_delivery_def
      Let_def)

lemma sample_rc_inline: "dc_dispatch_mode (rc_disp sample_rc) = INLINE"
  by (simp add: sample_rc_def delivery_config_def sample_udp_settings_def)

lemma sample_receiver_simps [simp]:
  "dg_lifecycle_state sample_receiver = STOPPED" "dg_owner_loop sample_receiver = None"
  "dg_transitions sample_receiver = []" "dg_stop_waiter sample_receiver = None"
  "dg_sock sample_receiver = None" "dg_task sample_receiver = None" "dg_running sample_receiver = False"
  "dg_sockets sample_receiver = {}" "dg_next_socket sample_receiver = 0"
  "dg_setup sample_receiver = sample_setup" "dg_opening_event_task sample_receiver = None"
  "d_worker_task sample_receiver = None" "d_delivered sample_receiver = []"
  "d_origin_tokens sample_receiver = {}" "d_futures sample_receiver = []"
  "t_task_bool sample_receiver = (\<lambda>_. False)" "dg_deferred_close_event sample_receiver = None"
  by (simp_all add: sample_receiver_def receiver_base_init_def empty_disp_def transport.defs disp.defs)

end
