(* ===== verification/Receiver.thy ===== *)
theory Receiver
  imports Receiver_State
begin

text \<open>
  Models the operations of \<^verbatim>\<open>_asyncio_datagram_receiver_base.py\<close> and of the two receivers on it:
  the deferral of the close event, the stop paths, the receive loop, startup with its
  rollbacks, and the sockets of the UDP and the multicast receiver.
\<close>

section \<open>Sockets\<close>

definition open_datagram_socket :: "receiver \<Rightarrow> nat \<times> receiver" where
  "open_datagram_socket s =
     (dg_next_socket s,
      s\<lparr>dg_next_socket := Suc (dg_next_socket s), dg_sockets := insert (dg_next_socket s) (dg_sockets s),
        dg_options := []\<rparr>)"

definition close_datagram_socket :: "nat \<Rightarrow> receiver \<Rightarrow> receiver" where
  "close_datagram_socket k s = s\<lparr>dg_sockets := dg_sockets s - {k}\<rparr>"

text \<open>
  \<open>_cleanup_socket\<close>: nothing for UDP; the multicast receiver leaves the group, and an OSError of
  that is suppressed.
\<close>

definition cleanup_socket :: "receiver_config \<Rightarrow> nat \<Rightarrow> (receiver, unit) prog" where
  "cleanup_socket rc k =
     (case rc_settings rc of
        Udp_settings _ \<Rightarrow> ret ()
      | Multicast_settings _ \<Rightarrow>
          bindE (getsE (\<lambda>s. su_drop_error (dg_setup s))) (\<lambda>drop_error. case drop_error of
            None \<Rightarrow> modifyE (\<lambda>s. s\<lparr>dg_memberships := dg_memberships s - {k}\<rparr>)
          | Some e \<Rightarrow> if is_OSError e then ret () else raiseE e))"

section \<open>Deferral of the close event\<close>

definition ensure_receiver_close_waiter :: "receiver \<Rightarrow> receiver" where
  "ensure_receiver_close_waiter s =
     (if (case dg_deferred_close_event_waiter s of None \<Rightarrow> True | Some w \<Rightarrow> future_done w s)
      then (case create_future s of (f, s1) \<Rightarrow> s1\<lparr>dg_deferred_close_event_waiter := Some f\<rparr>)
      else s)"

definition ensure_receiver_close_publisher :: "task_ctx \<Rightarrow> receiver \<Rightarrow> receiver" where
  "ensure_receiver_close_publisher ctx s =
     (if absent_or_done (dg_deferred_close_publish_task s) s
      then (case create_receiver_call Call_publish_after_handler ctx s of (t, s1) \<Rightarrow>
              s1\<lparr>dg_deferred_close_publish_task := Some t\<rparr>)
      else s)"

text \<open>\<open>_defer_close_event_until_current_handler_unwinds\<close>, which never suspends.\<close>

definition defer_receiver_close ::
    "disp_config \<Rightarrow> task_ctx \<Rightarrow> network_event \<Rightarrow> receiver \<Rightarrow> (bool \<times> nat option) \<times> receiver" where
  "defer_receiver_close cfg ctx closed_event s =
     (let opening_event_in_flight = (dg_opening_event_task s \<noteq> None);
          inherited_handler_origin = current_task_inherits_handler_origin_context cfg ctx s None;
          handler_origin_in_flight = (current_task_is_dispatching_handler cfg ctx s None \<or>
            current_task_has_handler_origin_context cfg ctx s None);
          active_inline_handler_in_flight =
            (has_active_handler_context s None \<and> current_task_would_deliver_inline cfg ctx s)
      in if \<not> opening_event_in_flight \<and> \<not> handler_origin_in_flight \<and> \<not> inherited_handler_origin \<and>
            \<not> active_inline_handler_in_flight
         then ((False, None), s)
         else
           let s1 = ensure_receiver_close_waiter (s\<lparr>dg_deferred_close_event := Some closed_event\<rparr>);
               s2 = (if \<not> opening_event_in_flight \<and> (handler_origin_in_flight \<or>
                       inherited_handler_origin \<or> active_inline_handler_in_flight)
                     then ensure_receiver_close_publisher ctx s1 else s1)
           in if handler_origin_in_flight \<or> inherited_handler_origin then ((True, None), s2)
              else ((True, dg_deferred_close_event_waiter s2), s2))"

text \<open>\<open>_publish_deferred_close_after_opened_event\<close>.\<close>

definition publish_receiver_deferred_close ::
    "receiver environment \<Rightarrow> receiver_config \<Rightarrow> task_ctx \<Rightarrow> (receiver, bool) prog" where
  "publish_receiver_deferred_close env rc ctx =
     bindE (getsE (\<lambda>s. s)) (\<lambda>s. case dg_deferred_close_event s of
       None \<Rightarrow> ret False
     | Some closed_event \<Rightarrow>
         let deferred_waiter = dg_deferred_close_event_waiter s
         in seqE (modifyE (\<lambda>s. s\<lparr>dg_deferred_close_event := None\<rparr>))
              (seqE
                (finallyE
                  (seqE
                    (tryE
                      (with_inline_delivery_context (rc_disp rc) ctx
                         (\<lambda>ctx1. emit env (rc_disp rc) ctx1 closed_event))
                      (\<lambda>e. if is_caught e then seqE (settle_opt deferred_waiter (Inl e)) (raiseE e)
                            else raiseE e))
                    (settle_opt deferred_waiter (Inr ())))
                  (modifyE (\<lambda>s. if dg_deferred_close_event_waiter s = deferred_waiter
                                then s\<lparr>dg_deferred_close_event_waiter := None\<rparr> else s)))
                (ret True)))"

text \<open>\<open>_publish_deferred_close_after_handler_origin_expires\<close>.\<close>

definition publish_receiver_close_after_handler ::
    "receiver environment \<Rightarrow> receiver_config \<Rightarrow> task_ctx \<Rightarrow> (receiver, unit) prog" where
  "publish_receiver_close_after_handler env rc ctx =
     finallyE
       (tryE
         (seqE (wait_for_handler_context env None)
           (bindE (publish_receiver_deferred_close env rc ctx) (\<lambda>_. ret ())))
         (\<lambda>e. if is_caught e
               then bindE (getsE dg_deferred_close_event_waiter) (\<lambda>w. settle_opt w (Inl e))
               else raiseE e))
       (modifyE (\<lambda>s. if dg_deferred_close_publish_task s = tc_task ctx
                     then s\<lparr>dg_deferred_close_publish_task := None\<rparr> else s))"

text \<open>
  \<open>_publish_deferred_close_after_opened_event_preserving_cancellation\<close>; its loop is the one of
  the connection.
\<close>

definition publish_receiver_close_preserving ::
    "receiver environment \<Rightarrow> task_ctx \<Rightarrow> (receiver, bool) prog" where
  "publish_receiver_close_preserving env ctx s =
     (case create_receiver_call Call_publish_after_open ctx s of (t, s1) \<Rightarrow>
        case publish_wait_loop env t False s1 of
          None \<Rightarrow> None
        | Some (r, caller_cancelled, s2) \<Rightarrow>
            bindE
              (finallyE (\<lambda>s. Some (r, s))
                 (bindE (getsE (task_done t)) (\<lambda>finished.
                    if caller_cancelled \<and> \<not> finished then awaitE env (A_task t) else ret ())))
              (\<lambda>_. if caller_cancelled then raiseE cancelled
                   else getsE (\<lambda>s. t_task_bool s t)) s2)"

section \<open>Publication of the stop events\<close>

definition publish_stopping_transition ::
    "receiver environment \<Rightarrow> receiver_config \<Rightarrow> task_ctx \<Rightarrow> stop_snapshot \<Rightarrow> (receiver, unit) prog" where
  "publish_stopping_transition env rc ctx snapshot =
     (if is_noop snapshot then ret ()
      else receiver_emit_lifecycle_event env rc ctx (ds_stopping_event snapshot))"

definition publish_closed_event_if_needed ::
    "receiver environment \<Rightarrow> receiver_config \<Rightarrow> task_ctx \<Rightarrow> stop_snapshot \<Rightarrow> (receiver, bool \<times> nat option) prog" where
  "publish_closed_event_if_needed env rc ctx snapshot =
     (if \<not> ds_should_emit_closed_event snapshot then ret (False, None)
      else bindE (getsE (\<lambda>s. ConnectionClosedEvent (rc_connection_id rc)
                    (ds_previous_connection_state snapshot) (dg_metadata s))) (\<lambda>closed_event.
        bindE (stateE (defer_receiver_close (rc_disp rc) ctx closed_event)) (\<lambda>(deferred, deferred_waiter).
          if deferred then ret (True, deferred_waiter)
          else seqE (emit env (rc_disp rc) ctx closed_event) (ret (False, None)))))"

definition publish_stopped_transition_if_needed ::
    "receiver environment \<Rightarrow> receiver_config \<Rightarrow> task_ctx \<Rightarrow> stop_snapshot \<Rightarrow> bool \<Rightarrow> (receiver, unit) prog" where
  "publish_stopped_transition_if_needed env rc ctx snapshot emit_event =
     (if \<not> ds_should_transition_to_stopped snapshot then ret ()
      else bindE (receiver_apply_lifecycle_state rc STOPPED) (\<lambda>stopped_event.
             if emit_event then receiver_emit_lifecycle_event env rc ctx stopped_event else ret ()))"

section \<open>Teardown\<close>

text \<open>\<open>_teardown_stop_resources\<close>: the receive task, then the socket, then the task's cancellation.\<close>

definition teardown_receive_task ::
    "receiver environment \<Rightarrow> task_ctx \<Rightarrow> stop_snapshot \<Rightarrow> (receiver, exn option) prog" where
  "teardown_receive_task env ctx snapshot =
     (case ds_task snapshot of
        None \<Rightarrow> ret None
      | Some t \<Rightarrow>
          if ds_cancel_task snapshot \<and> ds_task snapshot \<noteq> tc_task ctx
          then seqE (cancel_task t)
                 (tryE (seqE (await_task_preserving env ctx t) (ret None))
                   (\<lambda>e. if is_cancelled e then ret (Some e) else raiseE e))
          else ret None)"

definition teardown_stop_resources ::
    "receiver environment \<Rightarrow> receiver_config \<Rightarrow> task_ctx \<Rightarrow> stop_snapshot \<Rightarrow> (receiver, unit) prog" where
  "teardown_stop_resources env rc ctx snapshot =
     bindE (teardown_receive_task env ctx snapshot) (\<lambda>task_error.
       seqE (case ds_sock snapshot of
               None \<Rightarrow> ret ()
             | Some k \<Rightarrow> seqE (cleanup_socket rc k) (modifyE (close_datagram_socket k)))
         (raise_if task_error))"

definition teardown_datagram_stop_resources ::
    "receiver environment \<Rightarrow> receiver_config \<Rightarrow> task_ctx \<Rightarrow> stop_snapshot \<Rightarrow> exn option \<Rightarrow>
     (receiver, exn option) prog" where
  "teardown_datagram_stop_resources env rc ctx snapshot earlier =
     keep_first earlier (teardown_stop_resources env rc ctx snapshot)"

section \<open>The tasks of a deferred stop\<close>

text \<open>\<open>await self._event_dispatcher.stop()\<close> when the snapshot asks for it.\<close>

definition stop_receiver_dispatcher ::
    "receiver environment \<Rightarrow> receiver_config \<Rightarrow> task_ctx \<Rightarrow> stop_snapshot \<Rightarrow> exn option \<Rightarrow>
     (receiver, exn option) prog" where
  "stop_receiver_dispatcher env rc ctx snapshot earlier =
     (if ds_stop_dispatcher snapshot then keep_first earlier (disp_stop env (rc_disp rc) ctx)
      else ret earlier)"

definition complete_after_deferred_close ::
    "receiver environment \<Rightarrow> nat \<Rightarrow> nat \<Rightarrow> (receiver, unit) prog" where
  "complete_after_deferred_close env stop_waiter deferred_close_waiter =
     complete_stop_waiter (Some stop_waiter) (modifyE (clear_stop_waiter_if_current (Some stop_waiter)))
       (awaitE env (A_future deferred_close_waiter))"

definition complete_after_deferred_close_and_stop ::
    "receiver environment \<Rightarrow> receiver_config \<Rightarrow> task_ctx \<Rightarrow> nat option \<Rightarrow> stop_snapshot \<Rightarrow> nat \<Rightarrow>
     (receiver, unit) prog" where
  "complete_after_deferred_close_and_stop env rc ctx stop_waiter snapshot deferred_close_waiter =
     complete_stop_waiter stop_waiter (modifyE (clear_stop_waiter_if_current stop_waiter))
       (bindE (keep_first None (awaitE env (A_future deferred_close_waiter))) (\<lambda>earlier.
        bindE (keep_first earlier
                 (publish_stopped_transition_if_needed env rc ctx snapshot (earlier = None))) (\<lambda>earlier.
        bindE (stop_receiver_dispatcher env rc ctx snapshot earlier) raise_if)))"

definition deferred_receiver_events ::
    "receiver environment \<Rightarrow> receiver_config \<Rightarrow> stop_snapshot \<Rightarrow> task_ctx \<Rightarrow> (receiver, exn option) prog" where
  "deferred_receiver_events env rc snapshot ctx =
     bindE (keep_first None (publish_stopping_transition env rc ctx snapshot)) (\<lambda>earlier.
     bindE (if earlier = None
            then keep_first None
                   (bindE (publish_closed_event_if_needed env rc ctx snapshot) (\<lambda>(_, deferred_close_waiter).
                      case deferred_close_waiter of None \<Rightarrow> ret () | Some f \<Rightarrow> awaitE env (A_future f)))
            else ret earlier) (\<lambda>earlier.
     keep_first earlier (publish_stopped_transition_if_needed env rc ctx snapshot (earlier = None))))"

definition receiver_complete_after_deferred_stop_events ::
    "receiver environment \<Rightarrow> receiver_config \<Rightarrow> task_ctx \<Rightarrow> nat option \<Rightarrow> stop_snapshot \<Rightarrow>
     (receiver, unit) prog" where
  "receiver_complete_after_deferred_stop_events env rc ctx stop_waiter snapshot =
     complete_stop_waiter stop_waiter (modifyE (clear_stop_waiter_if_current stop_waiter))
       (seqE (wait_for_handler_context env None)
         (bindE (with_inline_delivery_context (rc_disp rc) ctx (deferred_receiver_events env rc snapshot))
           (\<lambda>earlier. bindE (stop_receiver_dispatcher env rc ctx snapshot earlier) raise_if)))"

section \<open>The stop paths\<close>

record receiver_execution =
  dx_deferred_close_waiter :: "nat option"
  dx_stop_waiter_completion_deferred :: bool

definition new_receiver_execution :: receiver_execution where
  "new_receiver_execution =
     \<lparr>dx_deferred_close_waiter = None, dx_stop_waiter_completion_deferred = False\<rparr>"

text \<open>
  \<open>_publish_stop_closed_event\<close>: \<open>Inr\<close> what it returns as the first error, \<open>Inl\<close> the cancellation
  it raises after it left the rest of the stop to a task.
\<close>

definition publish_stop_closed_event ::
    "receiver environment \<Rightarrow> receiver_config \<Rightarrow> task_ctx \<Rightarrow> stop_snapshot \<Rightarrow> nat option \<Rightarrow> receiver_execution \<Rightarrow>
     (receiver, receiver_execution \<times> (exn + exn option)) prog" where
  "publish_stop_closed_event env rc ctx snapshot stop_waiter ex =
     bindE
       (tryE (bindE (publish_closed_event_if_needed env rc ctx snapshot) (\<lambda>(_, waiter). ret (Inr waiter)))
          (\<lambda>e. if is_caught e then ret (Inl e) else raiseE e))
       (\<lambda>published. case published of
          Inl e \<Rightarrow> ret (ex, Inr (Some e))
        | Inr None \<Rightarrow> ret (ex\<lparr>dx_deferred_close_waiter := None\<rparr>, Inr None)
        | Inr (Some f) \<Rightarrow>
            let ex1 = ex\<lparr>dx_deferred_close_waiter := Some f\<rparr>
            in tryE (seqE (awaitE env (A_future f)) (ret (ex1, Inr None)))
                 (\<lambda>e. if is_cancelled e
                       then bindE
                         (stateE (create_receiver_call (Call_after_close_and_stop stop_waiter snapshot f) ctx))
                         (\<lambda>_. ret (ex1\<lparr>dx_stop_waiter_completion_deferred := True\<rparr>, Inl e))
                       else if is_Exception e then ret (ex1, Inr (Some e))
                       else raiseE e))"

text \<open>
  \<open>_finish_stop_with_dispatcher\<close>: an exception of the STOPPED publication leaves it at once, with
  the dispatcher not stopped.
\<close>

definition receiver_finish_stop_with_dispatcher ::
    "receiver environment \<Rightarrow> receiver_config \<Rightarrow> task_ctx \<Rightarrow> stop_snapshot \<Rightarrow> exn option \<Rightarrow>
     (receiver, exn option) prog" where
  "receiver_finish_stop_with_dispatcher env rc ctx snapshot earlier =
     seqE (publish_stopped_transition_if_needed env rc ctx snapshot (earlier = None))
       (stop_receiver_dispatcher env rc ctx snapshot earlier)"

text \<open>The ordinary path, with the exception it ends with.\<close>

definition run_ordinary_stop_path ::
    "receiver environment \<Rightarrow> receiver_config \<Rightarrow> task_ctx \<Rightarrow> stop_snapshot \<Rightarrow> nat option \<Rightarrow>
     (receiver, receiver_execution \<times> exn option) prog" where
  "run_ordinary_stop_path env rc ctx snapshot stop_waiter =
     bindE (keep_first None (publish_stopping_transition env rc ctx snapshot)) (\<lambda>earlier.
     bindE (teardown_datagram_stop_resources env rc ctx snapshot earlier) (\<lambda>earlier.
     bindE (if earlier = None
            then publish_stop_closed_event env rc ctx snapshot stop_waiter new_receiver_execution
            else ret (new_receiver_execution, Inr earlier)) (\<lambda>(ex, published).
       case published of
         Inl e \<Rightarrow> ret (ex, Some e)
       | Inr earlier \<Rightarrow>
           tryE (bindE (receiver_finish_stop_with_dispatcher env rc ctx snapshot earlier)
                   (\<lambda>earlier. ret (ex, earlier)))
             (\<lambda>e. if is_caught e then ret (ex, Some e) else raiseE e))))"

text \<open>The deferred path; it does not reach STOPPED itself.\<close>

definition run_deferred_stop_path ::
    "receiver environment \<Rightarrow> receiver_config \<Rightarrow> task_ctx \<Rightarrow> stop_snapshot \<Rightarrow> receiver_provenance \<Rightarrow>
     nat option \<Rightarrow> (receiver, receiver_execution \<times> exn option) prog" where
  "run_deferred_stop_path env rc ctx snapshot pv stop_waiter =
     (let snapshot1 = (if dp_active_inline_handler pv then snapshot\<lparr>ds_cancel_task := False\<rparr> else snapshot)
      in bindE (teardown_datagram_stop_resources env rc ctx snapshot1 None) (\<lambda>earlier.
         bindE (if earlier = None then keep_first None (stop_from_handler_origin env (rc_disp rc) ctx)
                else ret earlier) (\<lambda>earlier.
           if earlier = None
           then bindE (stateE (create_receiver_call (Call_stop_events stop_waiter snapshot1) ctx))
                  (\<lambda>_. ret (new_receiver_execution\<lparr>dx_stop_waiter_completion_deferred := True\<rparr>, None))
           else ret (new_receiver_execution, earlier))))"

definition execute_stop_path ::
    "receiver environment \<Rightarrow> receiver_config \<Rightarrow> task_ctx \<Rightarrow> stop_snapshot \<Rightarrow> receiver_provenance \<Rightarrow>
     nat option \<Rightarrow> (receiver, receiver_execution \<times> exn option) prog" where
  "execute_stop_path env rc ctx snapshot pv stop_waiter =
     (if receiver_defers_terminal_events pv then
        bindE (run_deferred_stop_path env rc ctx snapshot pv stop_waiter) (\<lambda>(ex, outcome).
          case (outcome, stop_waiter) of
            (None, Some w) \<Rightarrow>
              if dp_active_inline_handler pv
              then tryE (seqE (awaitE env (A_future w)) (ret (ex, None)))
                     (\<lambda>e. if is_caught e then ret (ex, Some e) else raiseE e)
              else ret (ex, None)
          | _ \<Rightarrow> ret (ex, outcome))
      else run_ordinary_stop_path env rc ctx snapshot stop_waiter)"

section \<open>Stop\<close>

definition fail_stop_waiter_if_needed ::
    "nat option \<Rightarrow> receiver_execution \<Rightarrow> exn \<Rightarrow> (receiver, unit) prog" where
  "fail_stop_waiter_if_needed stop_waiter ex error =
     (if dx_stop_waiter_completion_deferred ex then ret () else settle_opt stop_waiter (Inl error))"

definition complete_after_owned_stop ::
    "task_ctx \<Rightarrow> nat option \<Rightarrow> receiver_provenance \<Rightarrow> receiver_execution \<Rightarrow> (receiver, receiver_execution) prog" where
  "complete_after_owned_stop ctx stop_waiter pv ex =
     bindE (getsE (\<lambda>s. case stop_waiter of None \<Rightarrow> None
                       | Some w \<Rightarrow> if future_done w s then None else Some w)) (\<lambda>open_waiter.
       case open_waiter of
         None \<Rightarrow> ret ex
       | Some w \<Rightarrow>
           if dx_stop_waiter_completion_deferred ex then ret ex
           else case dx_deferred_close_waiter ex of
             Some f \<Rightarrow>
               if dp_handler_originated pv
               then bindE (stateE (create_receiver_call (Call_after_close w f) ctx))
                      (\<lambda>_. ret (ex\<lparr>dx_stop_waiter_completion_deferred := True\<rparr>))
               else seqE (settle_opt (Some w) (Inr ())) (ret ex)
           | None \<Rightarrow> seqE (settle_opt (Some w) (Inr ())) (ret ex))"

definition release_receiver_stop :: "nat option \<Rightarrow> receiver_execution \<Rightarrow> (receiver, unit) prog" where
  "release_receiver_stop stop_waiter ex =
     whenE (stop_waiter \<noteq> None \<and> \<not> dx_stop_waiter_completion_deferred ex)
       (modifyE (clear_stop_waiter_if_current stop_waiter))"

definition owned_receiver_stop ::
    "receiver environment \<Rightarrow> receiver_config \<Rightarrow> task_ctx \<Rightarrow> stop_snapshot \<Rightarrow> receiver_provenance \<Rightarrow>
     nat option \<Rightarrow> (receiver, unit) prog" where
  "owned_receiver_stop env rc ctx snapshot pv stop_waiter =
     bindE
       (tryE (execute_stop_path env rc ctx snapshot pv stop_waiter)
         (\<lambda>e. if is_caught e then ret (new_receiver_execution, Some e)
               else seqE (release_receiver_stop stop_waiter new_receiver_execution) (raiseE e)))
       (\<lambda>(ex, outcome). case outcome of
          Some e \<Rightarrow>
            seqE (fail_stop_waiter_if_needed stop_waiter ex e)
              (seqE (release_receiver_stop stop_waiter ex) (raiseE e))
        | None \<Rightarrow>
            bindE (complete_after_owned_stop ctx stop_waiter pv ex) (release_receiver_stop stop_waiter))"

definition stop_datagram_receiver ::
    "receiver environment \<Rightarrow> receiver_config \<Rightarrow> task_ctx \<Rightarrow> (receiver, unit) prog" where
  "stop_datagram_receiver env rc ctx =
     bindE (plan_stop_snapshot rc ctx) (\<lambda>snapshot.
     bindE (getsE (receiver_capture_stop_provenance (rc_disp rc) ctx)) (\<lambda>pv.
       if snapshot_waits_for_owner snapshot then
         (case ds_stop_waiter snapshot of
            None \<Rightarrow> ret ()
          | Some w \<Rightarrow> whenE (\<not> has_handler_provenance pv) (awaitE env (A_future w)))
       else owned_receiver_stop env rc ctx snapshot pv
              (if ds_owns_stop snapshot then ds_stop_waiter snapshot else None)))"

definition receiver_stop ::
    "receiver environment \<Rightarrow> receiver_config \<Rightarrow> task_ctx \<Rightarrow> nat option \<Rightarrow> (receiver, unit) prog" where
  "receiver_stop env rc ctx running_loop =
     seqE (receiver_assert_owner_loop rc running_loop) (stop_datagram_receiver env rc ctx)"

section \<open>Receiving\<close>

definition recv_initial_delay :: rat where
  "recv_initial_delay = 1 / 2000"

definition recv_max_delay :: rat where
  "recv_max_delay = 1 / 50"

text \<open>\<open>_recv_nonblocking\<close>; what it returns is in \<open>dg_datagram\<close>.\<close>

definition recvfrom_poll :: "receiver environment \<Rightarrow> rat \<Rightarrow> (receiver, (rat, unit) turn) prog" where
  "recvfrom_poll env backoff_delay =
     tryE (seqE (awaitE env A_recvfrom) (ret (Leave ())))
       (\<lambda>e. if is_would_block e
             then seqE (awaitE env (A_sleep backoff_delay))
                    (ret (Again (min recv_max_delay (backoff_delay * 2))))
             else raiseE e)"

definition recv_nonblocking :: "receiver environment \<Rightarrow> receiver_config \<Rightarrow> (receiver, unit) prog" where
  "recv_nonblocking env rc =
     (if rc_has_sock_recvfrom rc then awaitE env A_recv
      else seqE (modifyE (\<lambda>s. s\<lparr>dg_recv_fallback_warning_emitted := True\<rparr>))
             (loopE (recvfrom_poll env) recv_initial_delay))"

definition sender_address :: "peer_info \<Rightarrow> exn + (string option \<times> int option)" where
  "sender_address sender =
     (case sender of
        NotTuple \<Rightarrow> Inr (None, None)
      | PTuple items \<Rightarrow>
          if \<not> length items \<ge> 2 then Inr (None, None)
          else case int_item (items ! 1) of
            Some port \<Rightarrow> Inr (Some (str_item (items ! 0)), Some port)
          | None \<Rightarrow> Inl (Exn (case items ! 1 of IStr _ \<Rightarrow> ValueError | _ \<Rightarrow> TypeError) ''int''))"

definition receive_turn ::
    "receiver environment \<Rightarrow> receiver_config \<Rightarrow> task_ctx \<Rightarrow> unit \<Rightarrow> (receiver, (unit, unit) turn) prog" where
  "receive_turn env rc ctx _ =
     bindE (getsE dg_running) (\<lambda>running.
       if \<not> running then ret (Leave ())
       else seqE (recv_nonblocking env rc)
         (bindE (getsE dg_datagram) (\<lambda>(data, sender).
          bindE (liftR (sender_address sender)) (\<lambda>(remote_host, remote_port).
            seqE (emit env (rc_disp rc) ctx
                    (BytesReceivedEvent (rc_connection_id rc) data remote_host remote_port))
              (ret (Again ()))))))"

definition receive_datagrams ::
    "receiver environment \<Rightarrow> receiver_config \<Rightarrow> task_ctx \<Rightarrow> (receiver, unit) prog" where
  "receive_datagrams env rc ctx =
     bindE (getsE dg_sock) (\<lambda>sock.
       if sock = None then ret ()
       else finallyE
         (tryE (loopE (receive_turn env rc ctx) ())
           (\<lambda>e. if is_cancelled e then raiseE e
                 else if is_Exception e
                 then emit env (rc_disp rc) ctx (NetworkErrorEvent (rc_connection_id rc) e)
                 else raiseE e))
         (bindE (getsE dg_running) (\<lambda>running. whenE running (stop_datagram_receiver env rc ctx))))"

section \<open>Startup\<close>

text \<open>\<open>_rollback_failed_starting_publication\<close> and the fields that a rollback resets.\<close>

definition reset_receiver :: "receiver \<Rightarrow> receiver" where
  "reset_receiver s =
     s\<lparr>dg_sock := None, dg_running := False, dg_task := None, dg_metadata := None,
       dg_connection_state := CREATED\<rparr>"

definition rollback_failed_starting_publication ::
    "receiver environment \<Rightarrow> receiver_config \<Rightarrow> task_ctx \<Rightarrow> (receiver, unit) prog" where
  "rollback_failed_starting_publication env rc ctx =
     seqE
       (bindE (getsE dg_lifecycle_state) (\<lambda>state.
          whenE (state = STARTING)
            (seqE (modifyE reset_receiver) (bindE (receiver_apply_lifecycle_state rc STOPPED) (\<lambda>_. ret ())))))
       (suppress_all (disp_stop env (rc_disp rc) ctx))"

definition begin_startup ::
    "receiver environment \<Rightarrow> receiver_config \<Rightarrow> task_ctx \<Rightarrow> (receiver, bool) prog" where
  "begin_startup env rc ctx =
     bindE (getsE dg_lifecycle_state) (\<lambda>state.
       if state = STARTING \<or> state = RUNNING then ret False
       else seqE (modifyE (disp_start (rc_disp rc)))
         (bindE (receiver_apply_lifecycle_state rc STARTING) (\<lambda>starting_event.
            seqE
              (tryE
                (case starting_event of
                   None \<Rightarrow> ret ()
                 | Some event \<Rightarrow> emit_and_wait env (rc_disp rc) ctx event False)
                (\<lambda>e. if is_caught e
                      then seqE (rollback_failed_starting_publication env rc ctx) (raiseE e)
                      else raiseE e))
              (bindE (getsE (\<lambda>s. s)) (\<lambda>s.
                 if dg_lifecycle_state s = STARTING then ret True
                 else seqE (case dg_stop_waiter s of None \<Rightarrow> ret () | Some w \<Rightarrow> awaitE env (A_future w))
                        (ret False))))))"

definition fail_startup ::
    "receiver environment \<Rightarrow> receiver_config \<Rightarrow> task_ctx \<Rightarrow> (receiver, unit) prog" where
  "fail_startup env rc ctx =
     seqE (modifyE reset_receiver)
       (bindE (receiver_apply_lifecycle_state rc STOPPED) (\<lambda>stopped_event.
          finallyE (receiver_emit_lifecycle_event env rc ctx stopped_event)
            (disp_stop env (rc_disp rc) ctx)))"

definition attach_socket :: "nat \<Rightarrow> connection_metadata \<Rightarrow> receiver \<Rightarrow> receiver" where
  "attach_socket k metadata s =
     s\<lparr>dg_sock := Some k, dg_running := True, dg_metadata := Some metadata,
       dg_connection_state := CONNECTED\<rparr>"

definition still_running :: "nat \<Rightarrow> receiver \<Rightarrow> bool" where
  "still_running k s =
     (\<not> (dg_sock s \<noteq> Some k \<or> \<not> dg_running s \<or> dg_lifecycle_state s \<noteq> RUNNING))"

definition forget_opening :: "task_ctx \<Rightarrow> receiver \<Rightarrow> receiver" where
  "forget_opening ctx s =
     (if dg_opening_event_task s = tc_task ctx then s\<lparr>dg_opening_event_task := None\<rparr> else s)"

definition publish_opened ::
    "receiver environment \<Rightarrow> receiver_config \<Rightarrow> task_ctx \<Rightarrow> connection_metadata \<Rightarrow> (receiver, unit) prog" where
  "publish_opened env rc ctx metadata =
     seqE (modifyE (\<lambda>s. s\<lparr>dg_opening_event_task := tc_task ctx\<rparr>))
       (seqE
         (tryE (emit_and_wait env (rc_disp rc) ctx
                  (ConnectionOpenedEvent (cm_connection_id metadata) metadata) False)
           (\<lambda>e. if is_caught e
                 then seqE (suppress_all (bindE (publish_receiver_close_preserving env ctx) (\<lambda>_. ret ())))
                   (seqE (modifyE (forget_opening ctx))
                     (seqE (suppress_all (stop_datagram_receiver env rc ctx)) (raiseE e)))
                 else raiseE e))
         (modifyE (forget_opening ctx)))"

definition start_receiving ::
    "receiver_config \<Rightarrow> task_ctx \<Rightarrow> nat \<Rightarrow> (receiver, unit) prog" where
  "start_receiving rc ctx k =
     bindE (getsE (still_running k)) (\<lambda>running.
       if \<not> running then ret ()
       else bindE (stateE (create_receiver_call (Call_receive (receive_buffer_size rc)) ctx))
              (\<lambda>t. modifyE (\<lambda>s. s\<lparr>dg_task := Some t\<rparr>)))"

definition publish_running ::
    "receiver environment \<Rightarrow> receiver_config \<Rightarrow> task_ctx \<Rightarrow> nat \<Rightarrow> connection_metadata \<Rightarrow>
     network_event option \<Rightarrow> (receiver, unit) prog" where
  "publish_running env rc ctx k metadata running_event =
     seqE (receiver_emit_lifecycle_event env rc ctx running_event)
       (bindE (getsE (still_running k)) (\<lambda>running.
          if \<not> running then ret ()
          else seqE (publish_opened env rc ctx metadata)
            (bindE (publish_receiver_close_preserving env ctx) (\<lambda>published.
               if published then ret () else start_receiving rc ctx k))))"

definition complete_startup ::
    "receiver environment \<Rightarrow> receiver_config \<Rightarrow> task_ctx \<Rightarrow> nat \<Rightarrow> connection_metadata \<Rightarrow> (receiver, unit) prog" where
  "complete_startup env rc ctx k metadata =
     seqE (modifyE (attach_socket k metadata))
       (bindE (receiver_apply_lifecycle_state rc RUNNING) (\<lambda>running_event.
          tryE (publish_running env rc ctx k metadata running_event)
            (\<lambda>e. if is_caught e
                  then seqE (suppress_all (stop_datagram_receiver env rc ctx)) (raiseE e)
                  else raiseE e)))"

section \<open>The two receivers\<close>

text \<open>The options each receiver sets before it binds.\<close>

definition receiver_options :: "receiver_config \<Rightarrow> socket_setup \<Rightarrow> socket_option list" where
  "receiver_options rc setup =
     (case rc_settings rc of
        Udp_settings settings \<Rightarrow>
          configure_listener_bind_socket (su_is_win32 setup) (su_has_exclusive setup) False @
          (if truthy (ur_enable_broadcast settings) then [SO_BROADCAST] else [])
      | Multicast_settings _ \<Rightarrow>
          configure_listener_bind_socket (su_is_win32 setup) (su_has_exclusive setup) True @
          (if su_has_reuseport setup then [SO_REUSEPORT] else []))"

definition receiver_metadata :: "receiver_config \<Rightarrow> socket_setup \<Rightarrow> exn + connection_metadata" where
  "receiver_metadata rc setup =
     (case rc_settings rc of
        Udp_settings _ \<Rightarrow>
          bindR (su_sockname setup) (\<lambda>(local_host, local_port). Inr
            \<lparr>cm_connection_id = rc_connection_id rc, cm_role = UDP_RECEIVER,
             cm_local_host = Some local_host, cm_local_port = Some local_port,
             cm_remote_host = None, cm_remote_port = None\<rparr>)
      | Multicast_settings settings \<Rightarrow> Inr
            \<lparr>cm_connection_id = rc_connection_id rc, cm_role = MULTICAST_RECEIVER,
             cm_local_host = Some (str_value (ms_bind_ip settings)),
             cm_local_port = Some (int_value (ms_port settings)),
             cm_remote_host = Some (str_value (ms_group_ip settings)),
             cm_remote_port = Some (int_value (ms_port settings))\<rparr>)"

text \<open>The socket of a receiver; what fails after its creation closes it.\<close>

definition configure_socket :: "receiver_config \<Rightarrow> nat \<Rightarrow> (receiver, connection_metadata) prog" where
  "configure_socket rc k =
     bindE (getsE dg_setup) (\<lambda>setup. case su_setup_error setup of
       Some e \<Rightarrow> raiseE e
     | None \<Rightarrow>
         seqE (modifyE (\<lambda>s. s\<lparr>dg_options := receiver_options rc setup,
                  dg_memberships := (case rc_settings rc of
                      Udp_settings _ \<Rightarrow> dg_memberships s
                    | Multicast_settings _ \<Rightarrow> insert k (dg_memberships s))\<rparr>))
           (liftR (receiver_metadata rc setup)))"

definition create_datagram_socket :: "receiver_config \<Rightarrow> (receiver, nat \<times> connection_metadata) prog" where
  "create_datagram_socket rc =
     bindE (getsE (\<lambda>s. su_create_error (dg_setup s))) (\<lambda>create_error. case create_error of
       Some e \<Rightarrow> raiseE e
     | None \<Rightarrow>
         bindE (stateE open_datagram_socket) (\<lambda>k.
           tryE (bindE (configure_socket rc k) (\<lambda>metadata. ret (k, metadata)))
             (\<lambda>e. if is_Exception e then seqE (modifyE (close_datagram_socket k)) (raiseE e)
                   else raiseE e)))"

definition receiver_start ::
    "receiver environment \<Rightarrow> receiver_config \<Rightarrow> task_ctx \<Rightarrow> nat option \<Rightarrow> (receiver, unit) prog" where
  "receiver_start env rc ctx running_loop =
     seqE (receiver_assert_owner_loop rc running_loop)
       (bindE (begin_startup env rc ctx) (\<lambda>proceed.
          if \<not> proceed then ret ()
          else bindE
            (tryE (create_datagram_socket rc)
              (\<lambda>e. if is_Exception e then seqE (fail_startup env rc ctx) (raiseE e) else raiseE e))
            (\<lambda>(k, metadata). complete_startup env rc ctx k metadata)))"

text \<open>\<open>async with receiver\<close>.\<close>

definition receiver_session ::
    "receiver environment \<Rightarrow> receiver_config \<Rightarrow> task_ctx \<Rightarrow> nat option \<Rightarrow> (receiver, unit) prog \<Rightarrow>
     (receiver, unit) prog" where
  "receiver_session env rc ctx running_loop body =
     seqE (receiver_start env rc ctx running_loop) (finallyE body (receiver_stop env rc ctx running_loop))"

section \<open>Running the tasks\<close>

definition receiver_call_body ::
    "receiver environment \<Rightarrow> receiver_config \<Rightarrow> task_ctx \<Rightarrow> nat \<Rightarrow> receiver_call \<Rightarrow> (receiver, unit) prog" where
  "receiver_call_body env rc ctx t call =
     (case call of
        Call_receive _ \<Rightarrow> receive_datagrams env rc ctx
      | Call_publish_after_handler \<Rightarrow> publish_receiver_close_after_handler env rc ctx
      | Call_publish_after_open \<Rightarrow>
          bindE (publish_receiver_deferred_close env rc ctx) (\<lambda>b.
            modifyE (\<lambda>s. s\<lparr>t_task_bool := (t_task_bool s)(t := b)\<rparr>))
      | Call_after_close w f \<Rightarrow> complete_after_deferred_close env w f
      | Call_after_close_and_stop w snapshot f \<Rightarrow>
          complete_after_deferred_close_and_stop env rc ctx w snapshot f
      | Call_stop_events w snapshot \<Rightarrow>
          receiver_complete_after_deferred_stop_events env rc ctx w snapshot)"

definition receiver_owner_job ::
    "receiver environment \<Rightarrow> receiver_config \<Rightarrow> nat \<Rightarrow> job \<Rightarrow> task_ctx \<Rightarrow> (receiver, unit) prog" where
  "receiver_owner_job env rc t job ctx =
     (case job of
        Owner_call \<Rightarrow> bindE (getsE (\<lambda>s. dg_calls s t)) (\<lambda>call. case call of
          None \<Rightarrow> ret () | Some call \<Rightarrow> receiver_call_body env rc ctx t call)
      | _ \<Rightarrow> ret ())"

definition receiver_run_job ::
    "receiver environment \<Rightarrow> receiver_config \<Rightarrow> nat \<Rightarrow> job \<Rightarrow> task_ctx \<Rightarrow> (receiver, unit) prog" where
  "receiver_run_job env rc t job ctx =
     run_coroutine t (receiver_owner_job env rc t job ctx)"

end
