(* ===== verification/Receiver_Safety.thy ===== *)
theory Receiver_Safety
  imports Receiver
begin

text \<open>
  What the operations of the datagram receivers keep of the lifecycle and of the fields that go
  with it (running flag, socket, receive task, connection state), whatever the network, the
  handlers and the other tasks do, and the runs of a receiver as a transition system.
\<close>

section \<open>The interface\<close>

text \<open>The updates a receiver makes of its lifecycle, its socket and its receive task.\<close>

definition same_core :: "receiver \<Rightarrow> receiver \<Rightarrow> bool" where
  "same_core s s' \<longleftrightarrow> dg_lifecycle_state s' = dg_lifecycle_state s \<and> dg_transitions s' = dg_transitions s \<and>
     dg_running s' = dg_running s \<and> dg_sock s' = dg_sock s \<and> dg_task s' = dg_task s \<and>
     dg_connection_state s' = dg_connection_state s"

definition stopping_core :: "receiver \<Rightarrow> receiver" where
  "stopping_core s =
     (if dg_lifecycle_state s = STARTING \<or> dg_lifecycle_state s = RUNNING then receiver_set_state STOPPING s
      else s)\<lparr>dg_running := False, dg_task := None, dg_sock := None, dg_connection_state := CLOSED\<rparr>"

locale receiver_invariant =
  fixes rc :: receiver_config and I :: "receiver \<Rightarrow> bool"
  assumes depends: "I s \<Longrightarrow> same_core s s' \<Longrightarrow> I s'"
    and moved: "I s \<Longrightarrow> legal (dg_lifecycle_state s) t \<Longrightarrow> dg_lifecycle_state s \<noteq> RUNNING \<Longrightarrow>
      t \<noteq> RUNNING \<Longrightarrow> I (receiver_set_state t s)"
    and attached: "I s \<Longrightarrow> dg_lifecycle_state s = STARTING \<Longrightarrow>
      I (receiver_set_state RUNNING (attach_socket k m s))"
    and detached: "I s \<Longrightarrow> I (stopping_core s)"
    and task_started: "I s \<Longrightarrow> still_running k s \<Longrightarrow> I (s\<lparr>dg_task := Some n\<rparr>)"
    and reset: "I s \<Longrightarrow> dg_lifecycle_state s = STARTING \<Longrightarrow>
      I (receiver_set_state STOPPED (reset_receiver s))"

lemma receiver_own:
  fixes s s' :: receiver
  assumes "transport.more s' = transport.more s"
  shows "same_core s s'" "dg_stop_waiter s' = dg_stop_waiter s"
    "dg_stop_owner_task s' = dg_stop_owner_task s" "dg_sockets s' = dg_sockets s"
    "dg_next_socket s' = dg_next_socket s" "dg_setup s' = dg_setup s" "dg_memberships s' = dg_memberships s"
    "dg_opening_event_task s' = dg_opening_event_task s"
    "dg_deferred_close_event_waiter s' = dg_deferred_close_event_waiter s"
  using assms by (cases s; cases s'; simp add: same_core_def)+

sublocale receiver_invariant \<subseteq> owner_invariant I
  by unfold_locales (erule depends, rule receiver_own(1))

lemma keeps_wpI: "(\<And>s. I s \<Longrightarrow> wp True m (\<lambda>_. I) (\<lambda>_. I) s) \<Longrightarrow> keeps I m"
  by (rule keepsI) (rule wp_invariantD)

lemma wp_seq_modify: "wp t (seqE (modifyE f) m) Q E s = wp t m Q E (f s)"
  by (simp add: wp_simps)

lemma create_receiver_call_core:
  "same_core s (snd (create_receiver_call call ctx s))"
  by (simp add: same_core_def create_receiver_call_def create_task_def Let_def)

lemma defer_core: "same_core s (snd (defer_receiver_close cfg ctx ev s))"
  by (auto simp: same_core_def defer_receiver_close_def Let_def ensure_receiver_close_waiter_def
      ensure_receiver_close_publisher_def create_receiver_call_def create_task_def create_future_def
      split: option.split)

section \<open>Every operation keeps such an invariant\<close>

context receiver_invariant
begin

lemma own_keeps: "(\<And>s. same_core s (f s)) \<Longrightarrow> keeps I (modifyE f)"
  by (rule keeps_modifyE) (erule depends, simp)

lemma own_stateE_keeps: "(\<And>s. same_core s (snd (f s))) \<Longrightarrow> keeps I (stateE f)"
  by (rule stateE_keeps) (erule depends, simp)

lemma emit_keeps: "env_keeps I env \<Longrightarrow> keeps I (emit env cfg ctx event)"
  by (rule stable_emit_keeps [OF stable _ refl])

lemma emit_lifecycle_keeps: "env_keeps I env \<Longrightarrow> keeps I (receiver_emit_lifecycle_event env rc ctx event)"
  unfolding receiver_emit_lifecycle_event_def emit_lifecycle_event_def
  by (auto intro: keeps_ret emit_keeps split: option.split)

lemma disp_stop_keeps: "env_keeps I env \<Longrightarrow> keeps I (disp_stop env cfg ctx)"
  by (rule stable_stop_keeps [OF stable])

lemma owner_loop_keeps: "keeps I (receiver_assert_owner_loop rc l)"
  unfolding receiver_assert_owner_loop_def
  by (intro coroutine_keeps own_keeps keeps_liftR) (simp add: same_core_def)

lemma apply_stopped_keeps: "keeps I (receiver_apply_lifecycle_state rc STOPPED)"
  by (rule keeps_wpI) (auto simp: wp_simps intro: moved)

lemma plan_keeps: "keeps I (plan_stop_snapshot rc ctx)"
proof (rule keeps_wpI)
  fix s
  assume s: "I s"
  show "wp True (plan_stop_snapshot rc ctx) (\<lambda>_. I) (\<lambda>_. I) s"
    unfolding plan_stop_snapshot_def
    by (cases "dg_lifecycle_state s")
      (auto simp: wp_simps Let_def s own_receiver_stop_def create_future_def detach_receiver_def
        same_core_def stopping_core_def receiver_set_state_def
        intro!: depends [OF detached [OF s]])
qed

lemma publish_closed_keeps:
  "env_keeps I env \<Longrightarrow> keeps I (publish_closed_event_if_needed env rc ctx snapshot)"
  unfolding publish_closed_event_if_needed_def
  by (auto intro!: coroutine_keeps own_stateE_keeps defer_core emit_keeps split: prod.split)

lemma publish_stopping_keeps:
  "env_keeps I env \<Longrightarrow> keeps I (publish_stopping_transition env rc ctx snapshot)"
  unfolding publish_stopping_transition_def by (intro coroutine_keeps emit_lifecycle_keeps)

lemma publish_stopped_keeps:
  "env_keeps I env \<Longrightarrow> keeps I (publish_stopped_transition_if_needed env rc ctx snapshot b)"
  unfolding publish_stopped_transition_if_needed_def
  by (intro coroutine_keeps apply_stopped_keeps emit_lifecycle_keeps)

lemma cleanup_keeps: "keeps I (cleanup_socket rc k)"
  unfolding cleanup_socket_def
  by (auto intro!: coroutine_keeps own_keeps simp: same_core_def split: receiver_settings.split option.split)

lemma teardown_keeps:
  assumes "env_keeps I env"
  shows "keeps I (teardown_datagram_stop_resources env rc ctx snapshot earlier)"
proof -
  have task: "keeps I (teardown_receive_task env ctx snapshot)"
    unfolding teardown_receive_task_def
    by (auto intro!: coroutine_keeps await_preserving_keeps assms split: option.split)
  have sock: "keeps I (case ds_sock snapshot of None \<Rightarrow> ret ()
      | Some k \<Rightarrow> seqE (cleanup_socket rc k) (modifyE (close_datagram_socket k)))"
    by (auto intro!: coroutine_keeps cleanup_keeps own_keeps simp: same_core_def close_datagram_socket_def
        split: option.split)
  show ?thesis
    unfolding teardown_datagram_stop_resources_def teardown_stop_resources_def
    by (intro keeps_keep_first coroutine_keeps task sock)
qed

lemma dispatcher_keeps: "env_keeps I env \<Longrightarrow> keeps I (stop_receiver_dispatcher env rc ctx snapshot earlier)"
  unfolding stop_receiver_dispatcher_def by (intro coroutine_keeps keeps_keep_first disp_stop_keeps)

lemma clear_keeps: "keeps I (modifyE (clear_stop_waiter_if_current w))"
  by (rule own_keeps) (simp add: clear_stop_waiter_if_current_def same_core_def)

lemma publish_stop_closed_keeps:
  assumes "env_keeps I env"
  shows "keeps I (publish_stop_closed_event env rc ctx snapshot w ex)"
proof -
  have wait: "keeps I (tryE (seqE (awaitE env (A_future f)) (ret (ex1, Inr None)))
      (\<lambda>e. if is_cancelled e
            then bindE (stateE (create_receiver_call (Call_after_close_and_stop w snapshot f) ctx))
              (\<lambda>_. ret (ex1\<lparr>dx_stop_waiter_completion_deferred := True\<rparr>, Inl e))
            else if is_Exception e then ret (ex1, Inr (Some e)) else raiseE e))" for f ex1
    by (intro coroutine_keeps keeps_awaitE assms own_stateE_keeps create_receiver_call_core)
  show ?thesis
    unfolding publish_stop_closed_event_def Let_def
    by (intro keeps_bindE keeps_tryE publish_closed_keeps assms keeps_if keeps_raiseE keeps_ret)
      (auto intro!: keeps_ret wait split: sum.split option.split)
qed

lemma ordinary_keeps:
  assumes "env_keeps I env"
  shows "keeps I (run_ordinary_stop_path env rc ctx snapshot w)"
proof -
  have fin: "keeps I (receiver_finish_stop_with_dispatcher env rc ctx snapshot earlier)" for earlier
    unfolding receiver_finish_stop_with_dispatcher_def
    by (intro coroutine_keeps publish_stopped_keeps dispatcher_keeps assms)
  show ?thesis
    unfolding run_ordinary_stop_path_def
    by (intro keeps_bindE keeps_keep_first publish_stopping_keeps teardown_keeps assms keeps_if
        publish_stop_closed_keeps keeps_ret)
      (auto intro!: coroutine_keeps fin split: prod.split sum.split)
qed

lemma deferred_keeps:
  assumes "env_keeps I env"
  shows "keeps I (run_deferred_stop_path env rc ctx snapshot pv w)"
  unfolding run_deferred_stop_path_def Let_def
  by (intro keeps_bindE teardown_keeps assms keeps_if keeps_keep_first keeps_ret own_stateE_keeps
      create_receiver_call_core stable_stop_from_handler_keeps [OF stable])

lemma execute_keeps:
  assumes "env_keeps I env"
  shows "keeps I (execute_stop_path env rc ctx snapshot pv w)"
  unfolding execute_stop_path_def
  by (intro keeps_if keeps_bindE deferred_keeps ordinary_keeps assms)
    (auto intro!: coroutine_keeps keeps_awaitE assms split: prod.split option.split)

lemma owned_stop_keeps:
  assumes "env_keeps I env"
  shows "keeps I (owned_receiver_stop env rc ctx snapshot pv w)"
proof -
  have release: "keeps I (release_receiver_stop w ex)" for ex
    unfolding release_receiver_stop_def by (intro coroutine_keeps clear_keeps)
  have complete: "keeps I (complete_after_owned_stop ctx w pv ex)" for ex
    unfolding complete_after_owned_stop_def
    by (auto intro!: coroutine_keeps own_stateE_keeps create_receiver_call_core split: option.split)
  show ?thesis
    unfolding owned_receiver_stop_def fail_stop_waiter_if_needed_def
    by (intro keeps_bindE keeps_tryE execute_keeps assms keeps_if keeps_ret keeps_seqE release keeps_raiseE)
      (auto intro!: coroutine_keeps release complete split: prod.split option.split)
qed

lemma stop_datagram_keeps:
  assumes "env_keeps I env"
  shows "keeps I (stop_datagram_receiver env rc ctx)"
  unfolding stop_datagram_receiver_def
  by (intro keeps_bindE plan_keeps keeps_getsE keeps_if owned_stop_keeps assms)
    (auto intro!: coroutine_keeps keeps_awaitE assms split: option.split)

lemma receiver_stop_keeps: "env_keeps I env \<Longrightarrow> keeps I (receiver_stop env rc ctx l)"
  unfolding receiver_stop_def by (intro keeps_seqE owner_loop_keeps stop_datagram_keeps)

lemma recv_keeps:
  assumes "env_keeps I env"
  shows "keeps I (recv_nonblocking env rc)"
  unfolding recv_nonblocking_def recvfrom_poll_def
  by (intro keeps_loopE coroutine_keeps keeps_awaitE own_keeps assms) (simp add: same_core_def)

lemma receive_keeps:
  assumes "env_keeps I env"
  shows "keeps I (receive_datagrams env rc ctx)"
proof -
  have turn: "keeps I (receive_turn env rc ctx u)" for u
    unfolding receive_turn_def
    by (auto intro!: coroutine_keeps recv_keeps keeps_liftR emit_keeps assms split: prod.split)
  show ?thesis
    unfolding receive_datagrams_def
    by (intro coroutine_keeps keeps_loopE turn emit_keeps stop_datagram_keeps assms)
qed

lemma publish_deferred_close_keeps:
  assumes "env_keeps I env"
  shows "keeps I (publish_receiver_deferred_close env rc ctx)"
  unfolding publish_receiver_deferred_close_def with_inline_delivery_context_def Let_def
  by (intro keeps_bindE keeps_getsE)
    (auto intro!: coroutine_keeps own_keeps emit_keeps assms simp: same_core_def split: option.split)

lemma publish_close_preserving_keeps:
  assumes "env_keeps I env"
  shows "keeps I (publish_receiver_close_preserving env ctx)"
proof (rule keepsI)
  fix s r s'
  assume s: "I s" and run: "publish_receiver_close_preserving env ctx s = Some (r, s')"
  obtain t s1 where t: "create_receiver_call Call_publish_after_open ctx s = (t, s1)" by force
  have s1: "I s1" using depends [OF s create_receiver_call_core] t by (metis snd_conv)
  obtain r0 b s2 where w: "publish_wait_loop env t False s1 = Some (r0, b, s2)"
    and rest: "bindE (finallyE (\<lambda>s. Some (r0, s))
        (bindE (getsE (task_done t)) (\<lambda>finished. if b \<and> \<not> finished then awaitE env (A_task t) else ret ())))
      (\<lambda>_. if b then raiseE cancelled else getsE (\<lambda>s. t_task_bool s t)) s2 = Some (r, s')"
    using run by (auto simp: publish_receiver_close_preserving_def t split: option.splits prod.splits)
  have s2: "I s2" using publish_wait_loop_keeps [OF w] assms s1 by simp
  have "keeps I (\<lambda>s. Some (r0, s))" by (simp add: keeps_def)
  then have "keeps I (bindE (finallyE (\<lambda>s. Some (r0, s))
        (bindE (getsE (task_done t)) (\<lambda>finished. if b \<and> \<not> finished then awaitE env (A_task t) else ret ())))
      (\<lambda>_. if b then raiseE cancelled else getsE (\<lambda>s. t_task_bool s t)))"
    by (intro coroutine_keeps keeps_awaitE assms)
  from keepsD [OF this s2 rest] show "I s'" .
qed

lemma after_handler_keeps:
  assumes "env_keeps I env"
  shows "keeps I (publish_receiver_close_after_handler env rc ctx)"
  unfolding publish_receiver_close_after_handler_def
  by (intro coroutine_keeps stable_wait_for_handler_context_keeps [OF stable] publish_deferred_close_keeps
      own_keeps assms) (simp add: same_core_def)

lemma begin_startup_wp:
  assumes "env_keeps I env" "I s"
  shows "wp True (begin_startup env rc ctx)
    (\<lambda>proceed s'. I s' \<and> (proceed \<longrightarrow> dg_lifecycle_state s' = STARTING)) (\<lambda>_. I) s"
proof -
  let ?Q = "\<lambda>proceed s'. I s' \<and> (proceed \<longrightarrow> dg_lifecycle_state s' = STARTING)"
  have launch: "I (disp_start cfg s)" if "I s" for cfg and s :: receiver
    by (rule depends [OF that]) (simp add: disp_start_def same_core_def)
  have undo: "keeps I (rollback_failed_starting_publication env rc ctx)"
  proof (rule keeps_wpI)
    fix s
    assume "I s"
    then show "wp True (rollback_failed_starting_publication env rc ctx) (\<lambda>_. I) (\<lambda>_. I) s"
      using reset [of s] wp_keeps [OF disp_stop_keeps [OF assms(1)]]
      unfolding rollback_failed_starting_publication_def
      by (auto simp: wp_simps reset_receiver_def intro: wp_mono)
  qed
  have publish: "keeps I (tryE (case ev of None \<Rightarrow> ret () | Some event \<Rightarrow> emit_and_wait env (rc_disp rc) ctx event False)
      (\<lambda>e. if is_caught e then seqE (rollback_failed_starting_publication env rc ctx) (raiseE e) else raiseE e))" for ev
    by (auto intro!: coroutine_keeps undo stable_emit_and_wait_keeps [OF stable assms(1)] split: option.split)
  have rest: "wp True (bindE (getsE (\<lambda>s. s)) (\<lambda>s. if dg_lifecycle_state s = STARTING then ret True
      else seqE (case dg_stop_waiter s of None \<Rightarrow> ret () | Some w \<Rightarrow> awaitE env (A_future w)) (ret False)))
      ?Q (\<lambda>_. I) s" if "I s" for s
    using that
    by (auto simp: wp_simps intro!: wp_awaitE_keeps [OF assms(1)] split: option.split)
  have tail: "wp True (seqE (tryE (case ev of None \<Rightarrow> ret ()
        | Some event \<Rightarrow> emit_and_wait env (rc_disp rc) ctx event False)
      (\<lambda>e. if is_caught e then seqE (rollback_failed_starting_publication env rc ctx) (raiseE e) else raiseE e))
      (bindE (getsE (\<lambda>s. s)) (\<lambda>s. if dg_lifecycle_state s = STARTING then ret True
        else seqE (case dg_stop_waiter s of None \<Rightarrow> ret () | Some w \<Rightarrow> awaitE env (A_future w)) (ret False))))
      ?Q (\<lambda>_. I) s" if "I s" for ev s
    unfolding wp_seqE by (rule wp_mono [OF wp_keeps [OF publish that]]) (use rest in auto)
  show ?thesis
    unfolding begin_startup_def
    by (auto simp: wp_bindE wp_getsE wp_if wp_ret wp_receiver_apply wp_seq_modify assms(2) launch
        intro!: tail [where ev = "Some e" for e, unfolded option.case] moved launch)
qed

text \<open>From the socket on: the receiver is STARTING until the socket is attached.\<close>

lemma create_socket_wp:
  assumes "I s" "dg_lifecycle_state s = STARTING"
  shows "wp True (create_datagram_socket rc) (\<lambda>_ s'. I s' \<and> dg_lifecycle_state s' = STARTING)
    (\<lambda>_ s'. I s' \<and> dg_lifecycle_state s' = STARTING) s"
proof -
  let ?J = "\<lambda>s'. same_core s s'"
  have core: "keeps ?J (modifyE f)" if "\<And>s. same_core s (f s)" for f
    by (rule keeps_modifyE) (use that in \<open>simp add: same_core_def\<close>)
  have closed: "same_core s (close_datagram_socket k s)"
    and joined: "same_core s (s\<lparr>dg_options := a, dg_memberships := b\<rparr>)" for k a b and s :: receiver
    by (simp_all add: close_datagram_socket_def same_core_def)
  have opened: "keeps ?J (stateE open_datagram_socket)"
    by (rule keepsI) (auto simp: stateE_def open_datagram_socket_def same_core_def)
  have "keeps ?J (create_datagram_socket rc)"
    unfolding create_datagram_socket_def configure_socket_def
    by (auto intro!: keeps_bindE keeps_getsE keeps_tryE keeps_if keeps_seqE keeps_raiseE keeps_liftR keeps_ret
        opened core closed joined split: option.split)
  moreover have "?J s" by (simp add: same_core_def)
  ultimately show ?thesis
    by (rule wp_mono [OF wp_keeps]) (use assms depends in \<open>auto simp: same_core_def\<close>)
qed

lemma fail_startup_wp:
  assumes "env_keeps I env" "I s" "dg_lifecycle_state s = STARTING"
  shows "wp True (fail_startup env rc ctx) (\<lambda>_. I) (\<lambda>_. I) s"
proof -
  have stopped: "I (receiver_set_state STOPPED (reset_receiver s))" using reset assms(2,3) .
  have finish: "keeps I (finallyE (receiver_emit_lifecycle_event env rc ctx ev) (disp_stop env (rc_disp rc) ctx))" for ev
    by (intro keeps_finallyE emit_lifecycle_keeps disp_stop_keeps assms(1))
  have "dg_lifecycle_state (reset_receiver s) = STARTING" using assms(3) by (simp add: reset_receiver_def)
  then show ?thesis
    unfolding fail_startup_def
    by (simp add: wp_bindE wp_seq_modify wp_receiver_apply wp_keeps [OF finish stopped])
qed

lemma opened_keeps:
  assumes "env_keeps I env"
  shows "keeps I (publish_opened env rc ctx metadata)"
  unfolding publish_opened_def
  by (intro coroutine_keeps own_keeps stable_emit_and_wait_keeps [OF stable] publish_close_preserving_keeps
      stop_datagram_keeps assms) (simp_all add: same_core_def forget_opening_def)

lemma start_receiving_keeps: "keeps I (start_receiving rc ctx k)"
proof (rule keeps_wpI)
  fix s
  assume s: "I s"
  obtain t s1 where c: "create_receiver_call (Call_receive (receive_buffer_size rc)) ctx s = (t, s1)" by force
  have core: "same_core s s1"
    using create_receiver_call_core [of s "Call_receive (receive_buffer_size rc)" ctx] by (simp add: c)
  then have "I (s1\<lparr>dg_task := Some t\<rparr>)" if "still_running k s"
    using task_started [OF depends [OF s core], of k t] that
    by (simp add: still_running_def same_core_def)
  then show "wp True (start_receiving rc ctx k) (\<lambda>_. I) (\<lambda>_. I) s"
    by (simp add: start_receiving_def wp_simps c s)
qed

lemma complete_startup_wp:
  assumes "env_keeps I env" "I s" "dg_lifecycle_state s = STARTING"
  shows "wp True (complete_startup env rc ctx k m) (\<lambda>_. I) (\<lambda>_. I) s"
proof -
  have publish: "keeps I (tryE (publish_running env rc ctx k m ev)
      (\<lambda>e. if is_caught e then seqE (suppress_all (stop_datagram_receiver env rc ctx)) (raiseE e) else raiseE e))" for ev
    unfolding publish_running_def
    by (intro coroutine_keeps emit_lifecycle_keeps opened_keeps publish_close_preserving_keeps
        start_receiving_keeps stop_datagram_keeps assms(1))
  have state: "dg_lifecycle_state (attach_socket k m s) = STARTING"
    using assms(3) by (simp add: attach_socket_def)
  show ?thesis
    unfolding complete_startup_def
    by (simp add: wp_bindE wp_seq_modify wp_receiver_apply state
        wp_keeps [OF publish attached [OF assms(2,3)]])
qed

lemma start_keeps:
  assumes "env_keeps I env"
  shows "keeps I (receiver_start env rc ctx l)"
proof -
  have socket: "wp True (tryE (create_datagram_socket rc)
      (\<lambda>e. if is_Exception e then seqE (fail_startup env rc ctx) (raiseE e) else raiseE e))
      (\<lambda>_ s'. I s' \<and> dg_lifecycle_state s' = STARTING) (\<lambda>_. I) s"
    if "I s" "dg_lifecycle_state s = STARTING" for s
    unfolding wp_tryE
    by (rule wp_mono [OF create_socket_wp [OF that]])
      (auto simp: wp_if wp_seqE wp_raiseE intro!: wp_mono [OF fail_startup_wp [OF assms]])
  have body: "keeps I (bindE (begin_startup env rc ctx) (\<lambda>proceed. if \<not> proceed then ret ()
      else bindE (tryE (create_datagram_socket rc)
          (\<lambda>e. if is_Exception e then seqE (fail_startup env rc ctx) (raiseE e) else raiseE e))
        (\<lambda>(k, metadata). complete_startup env rc ctx k metadata)))"
    by (rule keeps_wpI, unfold wp_bindE, rule wp_mono [OF begin_startup_wp [OF assms]], assumption)
      (auto simp: wp_if wp_ret wp_bindE intro!: wp_mono [OF socket] complete_startup_wp [OF assms])
  show ?thesis
    unfolding receiver_start_def by (intro keeps_seqE owner_loop_keeps body)
qed

lemma receiver_run_job_keeps:
  assumes "env_keeps I env"
  shows "keeps I (receiver_run_job env rc t job ctx)"
proof -
  have finish: "I (finish_task t r s)" if "I s" for r s
    using that by (rule own) (simp_all add: finish_task_def)
  have complete: "keeps I (complete_stop_waiter w (modifyE (clear_stop_waiter_if_current w')) m)"
    if "keeps I m" for w w' m
    using that by (intro complete_stop_waiter_keeps clear_keeps)
  have events: "keeps I (deferred_receiver_events env rc snapshot ctx)" for snapshot ctx
    unfolding deferred_receiver_events_def
    by (intro keeps_bindE keeps_keep_first publish_stopping_keeps keeps_if publish_closed_keeps keeps_ret
        publish_stopped_keeps assms) (auto intro!: keeps_ret keeps_awaitE assms split: prod.split option.split)
  have flag: "keeps I (modifyE (\<lambda>s. s\<lparr>t_task_bool := (t_task_bool s)(t := b)\<rparr>))" for b
    by (rule own_keeps) (simp add: same_core_def)
  have call: "keeps I (receiver_call_body env rc ctx t call)" for call
    by (cases call)
      (auto simp: receiver_call_body_def complete_after_deferred_close_def
        complete_after_deferred_close_and_stop_def receiver_complete_after_deferred_stop_events_def
        with_inline_delivery_context_def
        intro!: receive_keeps after_handler_keeps keeps_bindE publish_deferred_close_keeps flag complete
          keeps_awaitE keeps_keep_first publish_stopped_keeps dispatcher_keeps keeps_raise_if keeps_seqE
          stable_wait_for_handler_context_keeps [OF stable] events assms)
  have job: "keeps I (receiver_owner_job env rc t job ctx)"
    unfolding receiver_owner_job_def
    by (auto intro!: keeps_bindE keeps_getsE keeps_ret call split: job.split option.split)
  show ?thesis
    unfolding receiver_run_job_def run_coroutine_def
    by (rule keepsI) (auto split: option.splits dest: keepsD [OF job] intro: finish)
qed

end

section \<open>The invariant of a receiver\<close>

text \<open>
  The lifecycle is legal, and running flag, socket, connection state and (one way) receive task
  go with the state RUNNING.
\<close>

definition receiver_inv :: "receiver_config \<Rightarrow> receiver \<Rightarrow> bool" where
  "receiver_inv rc s \<longleftrightarrow>
     chain STOPPED (map (transition_event (rc_connection_id rc)) (dg_transitions s)) (dg_lifecycle_state s) \<and>
     (dg_running s \<longleftrightarrow> dg_lifecycle_state s = RUNNING) \<and>
     (dg_sock s \<noteq> None \<longleftrightarrow> dg_lifecycle_state s = RUNNING) \<and>
     (dg_connection_state s = CONNECTED \<longleftrightarrow> dg_lifecycle_state s = RUNNING) \<and>
     (dg_task s \<noteq> None \<longrightarrow> dg_lifecycle_state s = RUNNING)"

lemma chain_moved:
  "chain a (map (transition_event r) trs) p \<Longrightarrow> legal p t \<Longrightarrow>
     chain a (map (transition_event r) (trs @ [(p, t)])) t"
  by (auto simp: transition_event_def intro: chain_append)

interpretation fields: receiver_invariant rc "receiver_inv rc" for rc
proof
  fix s s' :: receiver
  assume "receiver_inv rc s" "same_core s s'"
  then show "receiver_inv rc s'" by (simp add: receiver_inv_def same_core_def)
next
  fix s :: receiver and t
  assume "receiver_inv rc s" "legal (dg_lifecycle_state s) t" "dg_lifecycle_state s \<noteq> RUNNING" "t \<noteq> RUNNING"
  then show "receiver_inv rc (receiver_set_state t s)"
    using chain_moved by (simp add: receiver_inv_def receiver_set_state_def)
next
  fix s :: receiver and k m
  assume "receiver_inv rc s" "dg_lifecycle_state s = STARTING"
  then show "receiver_inv rc (receiver_set_state RUNNING (attach_socket k m s))"
    using chain_moved [of STOPPED "rc_connection_id rc" "dg_transitions s" STARTING RUNNING]
    by (simp add: receiver_inv_def receiver_set_state_def attach_socket_def)
next
  fix s :: receiver
  assume "receiver_inv rc s"
  then show "receiver_inv rc (stopping_core s)"
    using chain_moved [of STOPPED "rc_connection_id rc" "dg_transitions s" _ STOPPING]
    by (auto simp: receiver_inv_def receiver_set_state_def stopping_core_def)
next
  fix s :: receiver and k n
  assume "receiver_inv rc s" "still_running k s"
  then show "receiver_inv rc (s\<lparr>dg_task := Some n\<rparr>)"
    by (simp add: receiver_inv_def still_running_def)
next
  fix s :: receiver
  assume "receiver_inv rc s" "dg_lifecycle_state s = STARTING"
  then show "receiver_inv rc (receiver_set_state STOPPED (reset_receiver s))"
    using chain_moved [of STOPPED "rc_connection_id rc" "dg_transitions s" STARTING STOPPED]
    by (simp add: receiver_inv_def receiver_set_state_def reset_receiver_def)
qed

section \<open>Runs of a receiver\<close>

text \<open>
  Its public operations are called from any task, in any order, and the tasks that were created
  run.
\<close>

inductive receiver_step :: "receiver environment \<Rightarrow> receiver_config \<Rightarrow> receiver \<Rightarrow> receiver \<Rightarrow> bool"
  for env rc where
  started: "receiver_start env rc ctx l s = Some (r, s') \<Longrightarrow> receiver_step env rc s s'"
| stopped: "receiver_stop env rc ctx l s = Some (r, s') \<Longrightarrow> receiver_step env rc s s'"
| ran: "t_jobs s t = Some (job, ctx) \<Longrightarrow> receiver_run_job env rc t job ctx s = Some (r, s') \<Longrightarrow>
    receiver_step env rc s s'"

inductive receiver_runs :: "receiver environment \<Rightarrow> receiver_config \<Rightarrow> receiver \<Rightarrow> receiver \<Rightarrow> bool"
  for env rc s where
  refl: "receiver_runs env rc s s"
| step: "receiver_runs env rc s s1 \<Longrightarrow> receiver_step env rc s1 s2 \<Longrightarrow> receiver_runs env rc s s2"

lemma receiver_step_inv:
  assumes "receiver_step env rc s s'" "env_keeps (receiver_inv rc) env" "receiver_inv rc s"
  shows "receiver_inv rc s'"
  using assms(1)
proof cases
  case (started ctx l r)
  then show ?thesis using keepsD [OF fields.start_keeps [OF assms(2)] assms(3)] by blast
next
  case (stopped ctx l r)
  then show ?thesis using keepsD [OF fields.receiver_stop_keeps [OF assms(2)] assms(3)] by blast
next
  case (ran t job ctx r)
  then show ?thesis using keepsD [OF fields.receiver_run_job_keeps [OF assms(2)] assms(3)] by blast
qed

lemma receiver_runs_inv:
  assumes "receiver_runs env rc s s'" "env_keeps (receiver_inv rc) env" "receiver_inv rc s"
  shows "receiver_inv rc s'"
  using assms(1) by induction (use assms in \<open>auto intro: receiver_step_inv\<close>)

text \<open>A receiver as one of the two constructors returns it.\<close>

definition new_receiver :: "receiver_config \<Rightarrow> receiver \<Rightarrow> bool" where
  "new_receiver rc s \<longleftrightarrow>
     (\<exists>settings on_event b nc setup. udp_receiver_init settings on_event b nc setup = Inr (rc, s)) \<or>
     (\<exists>settings on_event b nc setup. multicast_receiver_init settings on_event b nc setup = Inr (rc, s))"

lemma new_receiver_inv: "new_receiver rc s \<Longrightarrow> receiver_inv rc s"
  by (auto simp: new_receiver_def udp_receiver_init_def multicast_receiver_init_def bindR_Inr Let_def
      receiver_base_init_def transport.defs receiver_inv_def split: prod.splits)

text \<open>
  C22: Over every history of calls, tasks and interleavings a UDP or multicast receiver keeps its
  runtime fields coherent: it holds a socket, its running flag is set and its connection state is
  CONNECTED exactly while its lifecycle is RUNNING, it has a receive task only then, and its
  lifecycle transitions are legal one by one and balanced.
\<close>
theorem receiver_fields_coherent:
  assumes "new_receiver rc s0" "env_keeps (receiver_inv rc) env" "receiver_runs env rc s0 s"
  shows "(dg_running s \<longleftrightarrow> dg_lifecycle_state s = RUNNING) \<and>
    (dg_sock s \<noteq> None \<longleftrightarrow> dg_lifecycle_state s = RUNNING) \<and>
    (dg_connection_state s = CONNECTED \<longleftrightarrow> dg_lifecycle_state s = RUNNING) \<and>
    (dg_task s \<noteq> None \<longrightarrow> dg_lifecycle_state s = RUNNING) \<and>
    (let es = map (transition_event (rc_connection_id rc)) (dg_transitions s)
     in chain STOPPED es (dg_lifecycle_state s) \<and>
        times_entered STARTING es =
          times_entered STOPPED es + (if dg_lifecycle_state s = STOPPED then 0 else 1))"
proof -
  have inv: "receiver_inv rc s"
    by (rule receiver_runs_inv [OF assms(3,2) new_receiver_inv [OF assms(1)]])
  then have c: "chain STOPPED (map (transition_event (rc_connection_id rc)) (dg_transitions s))
      (dg_lifecycle_state s)"
    by (simp add: receiver_inv_def)
  show ?thesis
    using inv chain_balance [OF c] by (simp add: receiver_inv_def Let_def split: if_splits)
qed

lemma receiver_more_own:
  fixes s s' :: receiver
  assumes "disp.more s' = disp.more s"
  shows "dg_lifecycle_state s' = dg_lifecycle_state s" "dg_setup s' = dg_setup s"
    "dg_running s' = dg_running s" "dg_sock s' = dg_sock s" "dg_next_socket s' = dg_next_socket s"
    "dg_sockets s' = dg_sockets s" "dg_stop_waiter s' = dg_stop_waiter s"
    "dg_deferred_close_event s' = dg_deferred_close_event s"
    "dg_opening_event_task s' = dg_opening_event_task s" "t_task_bool s' = t_task_bool s"
    "dg_datagram s' = dg_datagram s" "dg_transitions s' = dg_transitions s"
  using assms by (cases s; cases s'; simp)+

text \<open>When nothing else happens the publication that follows the opened event finds nothing.\<close>

lemma wp_quiet_publish:
  assumes "t_task_bool s = (\<lambda>_. False)"
    and "\<And>s'. same_core s s' \<Longrightarrow> dg_sockets s' = dg_sockets s \<Longrightarrow> Q False s'"
  shows "wp t (publish_receiver_close_preserving quiet ctx) Q E s"
proof -
  obtain n s1 where c: "create_receiver_call Call_publish_after_open ctx s = (n, s1)" by force
  then have "same_core s s1" "dg_sockets s1 = dg_sockets s" "t_task_bool s1 = (\<lambda>_. False)"
    using create_receiver_call_core [of s Call_publish_after_open ctx] assms(1)
    by (auto simp: create_receiver_call_def create_task_def Let_def)
  then show ?thesis
    using assms(2)
    by (simp add: wp_def publish_receiver_close_preserving_def c publish_wait_loop.simps [of quiet]
        quiet_def prog_defs)
qed

lemma sample_receiver_start:
  "\<exists>s'. receiver_start quiet sample_rc (plain_ctx None) (Some 0) sample_receiver = Some (Inr (), s') \<and>
     dg_lifecycle_state s' = RUNNING \<and> dg_sock s' = Some 0 \<and> dg_sockets s' = {0}"
proof -
  let ?P = "\<lambda>s'. dg_lifecycle_state s' = RUNNING \<and> dg_sock s' = Some 0 \<and> dg_sockets s' = {0}"
  have emit: "wp False (emit quiet (rc_disp sample_rc) (plain_ctx None) e) Q E s"
    if "\<And>s'. dg_lifecycle_state s' = dg_lifecycle_state s \<Longrightarrow> dg_setup s' = dg_setup s \<Longrightarrow>
      dg_running s' = dg_running s \<Longrightarrow> dg_sock s' = dg_sock s \<Longrightarrow> dg_next_socket s' = dg_next_socket s \<Longrightarrow>
      dg_sockets s' = dg_sockets s \<Longrightarrow> t_task_bool s' = t_task_bool s \<Longrightarrow> Q () s'"
    for e Q E and s :: receiver
  proof (rule wp_emit_inline [OF sample_rc_inline quiet_env(3)])
    fix a :: unit and s' :: receiver
    assume more: "disp.more s' = disp.more s"
    show "Q a s'" using that [OF receiver_more_own(1-6,10) [OF more]] by simp
  qed
  have launch: "disp_start (rc_disp sample_rc) s = s" for s :: receiver
    by (simp add: disp_start_def sample_rc_inline)
  have receiving: "wp False (start_receiving sample_rc (plain_ctx None) 0) (\<lambda>_. ?P) E s"
    if "?P s" for E s
    using that
    by (auto simp: start_receiving_def wp_simps create_receiver_call_def create_task_def Let_def)
  have settings: "rc_settings sample_rc = Udp_settings sample_udp_settings" by (simp add: sample_rc_def)
  have complete: "wp False (complete_startup quiet sample_rc (plain_ctx None) 0 m) (\<lambda>_. ?P) (\<lambda>_ _. False) s"
    if "dg_lifecycle_state s = STARTING" "dg_sockets s = {0}" "t_task_bool s = (\<lambda>_. False)" for m s
    unfolding complete_startup_def publish_running_def publish_opened_def receiver_emit_lifecycle_event_def
      emit_lifecycle_event_def
    using that
    by (auto simp: wp_simps attach_socket_def receiver_set_state_def still_running_def emit_and_wait_inline
        sample_rc_inline forget_opening_def same_core_def intro!: emit wp_quiet_publish receiving)
  have "wp False (receiver_start quiet sample_rc (plain_ctx None) (Some 0)) (\<lambda>_. ?P) (\<lambda>_ _. False) sample_receiver"
    unfolding receiver_start_def receiver_assert_owner_loop_def begin_startup_def create_datagram_socket_def
      configure_socket_def
    by (auto simp: wp_simps assert_running_on_owner_loop_def emit_and_wait_inline sample_rc_inline launch
        sample_setup_def open_datagram_socket_def receiver_metadata_def settings receiver_set_state_def
        intro!: emit complete)
  then show ?thesis by (auto dest!: wp_valueD)
qed

theorem receiver_fields_coherent_witness:
  "\<exists>s. receiver_runs quiet sample_rc sample_receiver s \<and> dg_lifecycle_state s = RUNNING \<and>
     dg_running s \<and> dg_sock s \<noteq> None \<and>
     (let es = map (transition_event (rc_connection_id sample_rc)) (dg_transitions s)
      in times_entered STARTING es = times_entered STOPPED es + 1)"
proof -
  obtain s where run: "receiver_start quiet sample_rc (plain_ctx None) (Some 0) sample_receiver = Some (Inr (), s)"
    and s: "dg_lifecycle_state s = RUNNING"
    using sample_receiver_start by blast
  have runs: "receiver_runs quiet sample_rc sample_receiver s"
    using receiver_runs.refl receiver_step.started [OF run] by (rule receiver_runs.step)
  have new: "new_receiver sample_rc sample_receiver"
    using sample_receiver_init by (auto simp: new_receiver_def)
  show ?thesis
    using receiver_fields_coherent [OF new quiet_env(1) runs] runs s by (auto simp: Let_def)
qed

end
