(* ===== verification/Receiver_Stop.thy ===== *)
theory Receiver_Stop
  imports Receiver_Safety
begin

text \<open>
  What a stop of a datagram receiver achieves.  While the stop waiter is set the other tasks
  leave the lifecycle alone and neither attach a socket nor start a receive task
  (\<open>respects_receiver_stop\<close>); then the stop reaches STOPPED with the socket closed, also when its
  steps fail, or it was cancelled while it waited for a deferred close event and a task does the
  rest.  The tasks of the deferred stops reach STOPPED in the same way.
\<close>

section \<open>The rely condition\<close>

text \<open>Leaving the multicast group fails with an OSError at most.\<close>

definition drop_ok :: "receiver \<Rightarrow> bool" where
  "drop_ok s = (case su_drop_error (dg_setup s) of None \<Rightarrow> True | Some e \<Rightarrow> is_OSError e)"

definition receiver_stop_rely :: "receiver \<Rightarrow> receiver \<Rightarrow> bool" where
  "receiver_stop_rely s s' \<longleftrightarrow> dg_stop_waiter s' = dg_stop_waiter s \<and>
     dg_lifecycle_state s' = dg_lifecycle_state s \<and> dg_transitions s' = dg_transitions s \<and>
     length (d_futures s) \<le> length (d_futures s') \<and> (drop_ok s \<longrightarrow> drop_ok s') \<and>
     (dg_sock s = None \<longrightarrow> dg_sock s' = None) \<and> (dg_task s = None \<longrightarrow> dg_task s' = None) \<and>
     (\<not> dg_running s \<longrightarrow> \<not> dg_running s') \<and>
     (\<forall>k. k \<in> dg_sockets s' \<longrightarrow> k < dg_next_socket s \<longrightarrow> k \<in> dg_sockets s) \<and>
     dg_next_socket s \<le> dg_next_socket s'"

definition respects_receiver_stop :: "receiver environment \<Rightarrow> bool" where
  "respects_receiver_stop env \<longleftrightarrow>
     (\<forall>p s. dg_stop_waiter s \<noteq> None \<longrightarrow> receiver_stop_rely s (snd (env p s)))"

text \<open>
  A stop in progress: its waiter, the lifecycle so far, the detached fields, and the sockets \<open>K\<close>
  that it detached and, with \<open>c\<close>, has closed.
\<close>

definition receiver_winding ::
    "nat \<Rightarrow> component_lifecycle_state \<Rightarrow> (component_lifecycle_state \<times> component_lifecycle_state) list \<Rightarrow>
     nat set \<Rightarrow> bool \<Rightarrow> receiver \<Rightarrow> bool" where
  "receiver_winding w st trs K c s \<longleftrightarrow> dg_stop_waiter s = Some w \<and> w < length (d_futures s) \<and>
     dg_lifecycle_state s = st \<and> dg_transitions s = trs \<and> drop_ok s \<and> dg_sock s = None \<and>
     dg_task s = None \<and> \<not> dg_running s \<and>
     (\<forall>k \<in> K. k < dg_next_socket s \<and> (c \<longrightarrow> k \<notin> dg_sockets s))"

lemma receiver_winding_env:
  "respects_receiver_stop env \<Longrightarrow> env_keeps (receiver_winding w st trs K c) env"
  unfolding respects_receiver_stop_def env_keeps_def
proof (intro allI impI)
  fix p s
  assume rely: "\<forall>p s. dg_stop_waiter s \<noteq> None \<longrightarrow> receiver_stop_rely s (snd (env p s))"
    and s: "receiver_winding w st trs K c s"
  then have "receiver_stop_rely s (snd (env p s))" by (simp add: receiver_winding_def)
  then show "receiver_winding w st trs K c (snd (env p s))"
    using s unfolding receiver_winding_def receiver_stop_rely_def by (auto dest: less_le_trans)
qed

interpretation receiver_winding: owner_invariant "receiver_winding w st trs K c" for w st trs K c
proof
  fix s s' :: receiver
  assume "receiver_winding w st trs K c s" and more: "transport.more s' = transport.more s"
    and "length (d_futures s) \<le> length (d_futures s')"
  then show "receiver_winding w st trs K c s'"
    using receiver_own [OF more] by (simp add: receiver_winding_def same_core_def drop_ok_def)
qed

text \<open>
  The receive task that a stop waits for ends normally or by its cancellation; with \<open>\<not> t\<close> the
  delivery is INLINE and the caller is not cancelled again while that task is pending.
\<close>

definition receiver_stop_env :: "bool \<Rightarrow> receiver environment \<Rightarrow> receiver_config \<Rightarrow> task_ctx \<Rightarrow> bool" where
  "receiver_stop_env t env rc ctx \<longleftrightarrow> respects_receiver_stop env \<and> env_caught env \<and>
     (\<forall>n s e s'. env (A_task n) s = (Some e, s') \<longrightarrow> is_cancelled e) \<and>
     (t \<or> dc_dispatch_mode (rc_disp rc) = INLINE \<and> uninterrupted ctx env)"

lemma receiver_stop_envD:
  assumes "receiver_stop_env t env rc ctx"
  shows "env_keeps (receiver_winding w st trs K c) env" "env_caught env"
    "t \<or> dc_dispatch_mode (rc_disp rc) = INLINE"
  using assms receiver_winding_env by (auto simp: receiver_stop_env_def)

section \<open>The steps\<close>

lemma wp_rstop_emit:
  assumes "receiver_stop_env t env rc ctx0" "receiver_winding w st trs K c s"
    and "\<And>s'. receiver_winding w st trs K c s' \<Longrightarrow> Q () s'"
    and "\<And>e s'. is_caught e \<Longrightarrow> receiver_winding w st trs K c s' \<Longrightarrow> E e s'"
  shows "wp t (emit env (rc_disp rc) ctx event) Q E s"
  by (rule wp_emit [OF receiver_winding.stable receiver_stop_envD(1) [OF assms(1)]
        receiver_stop_envD(2,3) [OF assms(1)] assms(2)]) (use assms in auto)

lemma wp_rstop_emit_lifecycle:
  assumes "receiver_stop_env t env rc ctx0" "receiver_winding w st trs K c s"
    and "\<And>s'. receiver_winding w st trs K c s' \<Longrightarrow> Q () s'"
    and "\<And>e s'. is_caught e \<Longrightarrow> receiver_winding w st trs K c s' \<Longrightarrow> E e s'"
  shows "wp t (receiver_emit_lifecycle_event env rc ctx event) Q E s"
  unfolding receiver_emit_lifecycle_event_def emit_lifecycle_event_def
  by (cases event)
    (auto simp: wp_simps assms(2) intro!: wp_rstop_emit [OF assms(1,2)] assms(3,4))

lemma wp_rstop_await:
  assumes "receiver_stop_env t env rc ctx0" "receiver_winding w st trs K c s"
    and "\<And>s'. receiver_winding w st trs K c s' \<Longrightarrow> Q () s'"
    and "\<And>e s'. is_caught e \<Longrightarrow> receiver_winding w st trs K c s' \<Longrightarrow> E e s'"
  shows "wp t (awaitE env p) Q E s"
  by (rule wp_awaitE_frame [OF receiver_stop_envD(1) [OF assms(1)] receiver_stop_envD(2) [OF assms(1)] assms(2)])
    (use assms in auto)

lemma wp_rstop_dispatcher:
  assumes "receiver_stop_env t env rc ctx0" "receiver_winding w st trs K c s"
    and "\<And>a s'. receiver_winding w st trs K c s' \<Longrightarrow> Q a s'"
  shows "wp t (stop_receiver_dispatcher env rc ctx snapshot earlier) Q E s"
proof -
  note d = receiver_stop_envD [OF assms(1)]
  show ?thesis
    unfolding stop_receiver_dispatcher_def
    by (auto simp: wp_simps assms(2,3)
        intro!: wp_disp_stop [OF receiver_winding.stable d(1) [of w st trs K c] d(2) assms(2)] assms(3))
qed

lemma raises_await_cancelled:
  assumes "\<forall>n s e s'. env (A_task n) s = (Some e, s') \<longrightarrow> is_cancelled e"
  shows "raises is_cancelled (await_task_preserving env ctx t)"
  unfolding await_task_preserving_def
  by (auto intro!: raises_bindE raises_loopE raises_tryE [where R = is_cancelled] raises_seqE raises_awaitE
      raises_ret raises_getsE raises_raiseE raises_if split: prod.split simp: is_cancelled_def [of cancelled])
    (use assms in blast)

lemma wp_rstop_teardown:
  assumes "receiver_stop_env t env rc ctx" "receiver_winding w st trs (set_option (ds_sock snapshot)) False s"
    and "\<And>a s'. receiver_winding w st trs (set_option (ds_sock snapshot)) True s' \<Longrightarrow> Q a s'"
  shows "wp t (teardown_datagram_stop_resources env rc ctx snapshot earlier) Q E s"
proof -
  let ?W = "receiver_winding w st trs (set_option (ds_sock snapshot))"
  note d = receiver_stop_envD [OF assms(1)]
  have close: "?W True (close_datagram_socket k s)"
    if "?W False s" "ds_sock snapshot = Some k" for k s
    using that by (auto simp: receiver_winding_def close_datagram_socket_def drop_ok_def)
  have cleanup: "wp t (cleanup_socket rc k) Q' E' s"
    if "?W False s" "\<And>s'. ?W False s' \<Longrightarrow> Q' () s'" for k s Q' E'
    using that unfolding cleanup_socket_def
    by (auto simp: wp_simps receiver_winding_def drop_ok_def split: receiver_settings.split option.splits)
  have sock: "wp t (case ds_sock snapshot of None \<Rightarrow> ret ()
      | Some k \<Rightarrow> seqE (cleanup_socket rc k) (modifyE (close_datagram_socket k))) Q' E' s"
    if "?W False s" "\<And>s'. ?W True s' \<Longrightarrow> Q' () s'" for s Q' E'
  proof (cases "ds_sock snapshot")
    case None
    then show ?thesis using that by (simp add: wp_simps receiver_winding_def)
  next
    case (Some k)
    then show ?thesis using that close by (auto simp: wp_simps intro!: cleanup)
  qed
  have await: "wp t (await_task_preserving env ctx n) Q' E' s"
    if "?W False s" "\<And>s'. ?W False s' \<Longrightarrow> Q' () s'" "\<And>e s'. is_cancelled e \<Longrightarrow> ?W False s' \<Longrightarrow> E' e s'"
    for n s Q' E'
  proof (rule wp_by_parts [OF receiver_winding.await_preserving_keeps(1) [OF d(1)] raises_await_cancelled _ that(1)])
    show "t \<or> returns (await_task_preserving env ctx n)"
      using assms(1) await_task_returns by (auto simp: receiver_stop_env_def)
  qed (use that assms(1) in \<open>auto simp: receiver_stop_env_def\<close>)
  have cancel: "?W False (s\<lparr>d_cancelling := X\<rparr>)" if "?W False s" for X s
    using that by (simp add: receiver_winding_def drop_ok_def)
  have task: "wp t (teardown_receive_task env ctx snapshot) Q' E' s"
    if "?W False s" "\<And>a s'. a = None \<or> is_caught (the a) \<Longrightarrow> ?W False s' \<Longrightarrow> Q' a s'" for s Q' E'
    unfolding teardown_receive_task_def
    by (auto simp: wp_simps cancel_task_def that intro!: await cancel that split: option.split)
  show ?thesis
    unfolding teardown_datagram_stop_resources_def teardown_stop_resources_def
      wp_keep_first wp_bindE wp_seqE
    by (rule task [OF assms(2)], rule sock, assumption)
      (auto simp: wp_raise_if intro!: assms(3) split: option.split)
qed

lemma create_receiver_call_winding:
  "receiver_winding w st trs K c s \<Longrightarrow>
     receiver_winding w st trs K c (snd (create_receiver_call call ctx s))"
  by (simp add: receiver_winding_def drop_ok_def create_receiver_call_def create_task_def Let_def)

lemma defer_winding:
  assumes "receiver_winding w st trs K c s" "defer_receiver_close cfg ctx event s = (r, s')"
  shows "receiver_winding w st trs K c s'"
proof -
  have waiter: "receiver_winding w st trs K c (ensure_receiver_close_waiter s)"
    if "receiver_winding w st trs K c s" for s
    using that
    by (auto simp: receiver_winding_def drop_ok_def ensure_receiver_close_waiter_def create_future_def
        split: option.split)
  have publisher: "receiver_winding w st trs K c (ensure_receiver_close_publisher ctx s)"
    if "receiver_winding w st trs K c s" for s
    using create_receiver_call_winding [OF that, of Call_publish_after_handler ctx] that
    by (auto simp: receiver_winding_def drop_ok_def ensure_receiver_close_publisher_def split: prod.split)
  have "receiver_winding w st trs K c (s\<lparr>dg_deferred_close_event := Some event\<rparr>)"
    using assms(1) by (simp add: receiver_winding_def drop_ok_def)
  then show ?thesis
    using assms waiter publisher by (auto simp: defer_receiver_close_def Let_def split: if_splits)
qed

lemma wp_rstop_publish_closed:
  assumes "receiver_stop_env t env rc ctx0" "receiver_winding w st trs K c s"
    and "\<And>a s'. receiver_winding w st trs K c s' \<Longrightarrow> Q a s'"
    and "\<And>e s'. is_caught e \<Longrightarrow> receiver_winding w st trs K c s' \<Longrightarrow> E e s'"
  shows "wp t (publish_closed_event_if_needed env rc ctx snapshot) Q E s"
  unfolding publish_closed_event_if_needed_def
  by (auto simp: wp_simps assms(2) dest!: defer_winding [OF assms(2)] split: prod.split
      intro!: wp_rstop_emit [OF assms(1)] assms(3,4))

lemma wp_rstop_publish_stopping:
  assumes "receiver_stop_env t env rc ctx0" "receiver_winding w st trs K c s"
    and "\<And>s'. receiver_winding w st trs K c s' \<Longrightarrow> Q () s'"
    and "\<And>e s'. is_caught e \<Longrightarrow> receiver_winding w st trs K c s' \<Longrightarrow> E e s'"
  shows "wp t (publish_stopping_transition env rc ctx snapshot) Q E s"
  unfolding publish_stopping_transition_def
  by (auto simp: wp_simps assms(2) intro!: wp_rstop_emit_lifecycle [OF assms(1,2)] assms(3,4))

text \<open>The STOPPED transition is applied before anything can fail.\<close>

lemma wp_rstop_publish_stopped:
  assumes "receiver_stop_env t env rc ctx0" "receiver_winding w STOPPING trs K c s"
    and "ds_should_transition_to_stopped snapshot"
    and "\<And>s'. receiver_winding w STOPPED (trs @ [(STOPPING, STOPPED)]) K c s' \<Longrightarrow> Q () s'"
    and "\<And>e s'. is_caught e \<Longrightarrow> receiver_winding w STOPPED (trs @ [(STOPPING, STOPPED)]) K c s' \<Longrightarrow> E e s'"
  shows "wp t (publish_stopped_transition_if_needed env rc ctx snapshot b) Q E s"
proof -
  have "receiver_winding w STOPPED (trs @ [(STOPPING, STOPPED)]) K c (receiver_set_state STOPPED s)"
    "dg_lifecycle_state s = STOPPING"
    using assms(2) by (auto simp: receiver_winding_def receiver_set_state_def drop_ok_def)
  then show ?thesis
    unfolding publish_stopped_transition_if_needed_def
    by (auto simp: wp_simps assms(3) intro!: wp_rstop_emit_lifecycle [OF assms(1)] assms(4,5))
qed

section \<open>The ordinary path\<close>

text \<open>
  A stop that was cancelled while it waited for a deferred close event left the rest to a task,
  which is there with all it needs.
\<close>

definition handed_over :: "nat \<Rightarrow> stop_snapshot \<Rightarrow> receiver \<Rightarrow> bool" where
  "handed_over w snapshot s \<longleftrightarrow>
     (\<exists>t f ctx. t_jobs s t = Some (Owner_call, ctx) \<and>
        dg_calls s t = Some (Call_after_close_and_stop (Some w) snapshot f))"

lemma wp_rstop_closed:
  assumes "receiver_stop_env t env rc ctx" "receiver_winding w st trs K c s"
    and "\<not> dx_stop_waiter_completion_deferred ex"
    and "\<And>ex' fe s'. \<not> dx_stop_waiter_completion_deferred ex' \<Longrightarrow> receiver_winding w st trs K c s' \<Longrightarrow>
      Q (ex', Inr fe) s'"
    and "\<And>ex' e s'. dx_stop_waiter_completion_deferred ex' \<Longrightarrow> is_cancelled e \<Longrightarrow>
      receiver_winding w st trs K c s' \<Longrightarrow> handed_over w snapshot s' \<Longrightarrow> Q (ex', Inl e) s'"
  shows "wp t (publish_stop_closed_event env rc ctx snapshot (Some w) ex) Q E s"
proof -
  have over: "Q (ex\<lparr>dx_deferred_close_waiter := Some f, dx_stop_waiter_completion_deferred := True\<rparr>, Inl e) s1"
    if "is_cancelled e" "receiver_winding w st trs K c s'"
      and call: "create_receiver_call (Call_after_close_and_stop (Some w) snapshot f) ctx s' = (n, s1)"
    for f e s' n s1
  proof -
    have "handed_over w snapshot s1"
      using call by (auto simp: handed_over_def create_receiver_call_def create_task_def Let_def)
    moreover have "receiver_winding w st trs K c s1"
      using create_receiver_call_winding [OF that(2)] call by (metis snd_conv)
    ultimately show ?thesis using assms(5) that(1) by simp
  qed
  show ?thesis
    unfolding publish_stop_closed_event_def wp_bindE wp_tryE
    by (rule wp_rstop_publish_closed [OF assms(1,2)])
      (auto simp: wp_simps Let_def is_caught_def assms(3)
        intro!: assms(4) wp_rstop_await [OF assms(1)]
        split: option.split prod.split intro: over)
qed

lemma wp_rstop_finish:
  assumes "receiver_stop_env t env rc ctx0" "receiver_winding w STOPPING trs K c s"
    and "ds_should_transition_to_stopped snapshot"
    and "\<And>a s'. receiver_winding w STOPPED (trs @ [(STOPPING, STOPPED)]) K c s' \<Longrightarrow> Q a s'"
    and "\<And>e s'. is_caught e \<Longrightarrow> receiver_winding w STOPPED (trs @ [(STOPPING, STOPPED)]) K c s' \<Longrightarrow> E e s'"
  shows "wp t (receiver_finish_stop_with_dispatcher env rc ctx snapshot earlier) Q E s"
  unfolding receiver_finish_stop_with_dispatcher_def wp_seqE
  by (rule wp_rstop_publish_stopped [OF assms(1-3)])
    (auto intro!: wp_rstop_dispatcher [OF assms(1)] assms(4,5))

lemma wp_rstop_ordinary:
  assumes "receiver_stop_env t env rc ctx"
    and "receiver_winding w STOPPING trs (set_option (ds_sock snapshot)) False s"
    and "ds_should_transition_to_stopped snapshot"
    and "\<And>ex out s'. \<not> dx_stop_waiter_completion_deferred ex \<Longrightarrow>
      receiver_winding w STOPPED (trs @ [(STOPPING, STOPPED)]) (set_option (ds_sock snapshot)) True s' \<Longrightarrow>
      Q (ex, out) s'"
    and "\<And>ex e s'. dx_stop_waiter_completion_deferred ex \<Longrightarrow> is_cancelled e \<Longrightarrow>
      receiver_winding w STOPPING trs (set_option (ds_sock snapshot)) True s' \<Longrightarrow>
      handed_over w snapshot s' \<Longrightarrow> Q (ex, Some e) s'"
  shows "wp t (run_ordinary_stop_path env rc ctx snapshot (Some w)) Q E s"
proof -
  let ?W = "receiver_winding w STOPPING trs (set_option (ds_sock snapshot)) True"
  have new: "\<not> dx_stop_waiter_completion_deferred new_receiver_execution"
    by (simp add: new_receiver_execution_def)
  have finish: "wp t (tryE (bindE (receiver_finish_stop_with_dispatcher env rc ctx snapshot fe) (\<lambda>fe. ret (ex, fe)))
      (\<lambda>e. if is_caught e then ret (ex, Some e) else raiseE e)) Q E s'"
    if "?W s'" "\<not> dx_stop_waiter_completion_deferred ex" for ex fe s'
    unfolding wp_tryE wp_bindE
    by (rule wp_rstop_finish [OF assms(1) that(1) assms(3)]) (auto simp: wp_simps intro!: assms(4) that(2))
  have rest: "wp t (bindE (if fe = None
      then publish_stop_closed_event env rc ctx snapshot (Some w) new_receiver_execution
      else ret (new_receiver_execution, Inr fe)) (\<lambda>(ex, published). case published of
        Inl e \<Rightarrow> ret (ex, Some e)
      | Inr earlier \<Rightarrow> tryE (bindE (receiver_finish_stop_with_dispatcher env rc ctx snapshot earlier)
            (\<lambda>earlier. ret (ex, earlier))) (\<lambda>e. if is_caught e then ret (ex, Some e) else raiseE e))) Q E s'"
    if "?W s'" for fe s'
    unfolding wp_bindE wp_if
    by (auto simp: wp_ret new intro!: wp_rstop_closed [OF assms(1) that new] finish that assms(5))
  show ?thesis
    unfolding run_ordinary_stop_path_def wp_bindE [of t "keep_first _ _"] wp_keep_first
    by (rule wp_rstop_publish_stopping [OF assms(1,2)])
      (auto simp: wp_bindE [of t "teardown_datagram_stop_resources _ _ _ _ _"] wp_ret
        intro!: wp_rstop_teardown [OF assms(1)] rest)
qed

section \<open>What a stop leaves\<close>

definition receiver_all_stopped ::
    "nat \<Rightarrow> (component_lifecycle_state \<times> component_lifecycle_state) list \<Rightarrow> nat set \<Rightarrow> receiver \<Rightarrow> bool" where
  "receiver_all_stopped w trs K s \<longleftrightarrow> dg_lifecycle_state s = STOPPED \<and> dg_transitions s = trs \<and>
     dg_sock s = None \<and> dg_task s = None \<and> \<not> dg_running s \<and> K \<inter> dg_sockets s = {} \<and>
     dg_stop_waiter s = None \<and> future_done w s"

lemma settled_receiver_winding:
  "receiver_winding w st trs K c s \<Longrightarrow> receiver_winding w st trs K c (settle_future w r s) \<and>
     future_done w (settle_future w r s)"
  by (auto simp: receiver_winding_def drop_ok_def settle_future_def future_done_def)

lemma cleared_receiver:
  "receiver_winding w STOPPED trs K True s \<Longrightarrow> future_done w s \<Longrightarrow>
     receiver_all_stopped w trs K (clear_stop_waiter_if_current (Some w) s)"
  by (auto simp: receiver_winding_def receiver_all_stopped_def clear_stop_waiter_if_current_def future_done_def)

lemma wp_rstop_owned:
  assumes "receiver_stop_env t env rc ctx"
    and "receiver_winding w STOPPING trs (set_option (ds_sock snapshot)) False s"
    and "ds_should_transition_to_stopped snapshot" "\<not> receiver_defers_terminal_events pv"
  shows "wp t (owned_receiver_stop env rc ctx snapshot pv (Some w))
    (\<lambda>_. receiver_all_stopped w (trs @ [(STOPPING, STOPPED)]) (set_option (ds_sock snapshot)))
    (\<lambda>e s'. receiver_all_stopped w (trs @ [(STOPPING, STOPPED)]) (set_option (ds_sock snapshot)) s' \<or>
       is_cancelled e \<and> receiver_winding w STOPPING trs (set_option (ds_sock snapshot)) True s' \<and>
       handed_over w snapshot s') s"
proof -
  let ?W = "receiver_winding w STOPPED (trs @ [(STOPPING, STOPPED)]) (set_option (ds_sock snapshot)) True"
  have handler: "\<not> dp_handler_originated pv"
    using assms(4) by (simp add: receiver_defers_terminal_events_def has_handler_provenance_def)
  have settled: "?W (settle_future w r s') \<and> future_done w (settle_future w r s')" if "?W s'" for r s'
    using settled_receiver_winding [OF that] .
  show ?thesis
    unfolding owned_receiver_stop_def execute_stop_path_def wp_bindE wp_tryE
    using assms(4)
    by (simp, intro wp_rstop_ordinary [OF assms(1-3)])
      (auto simp: wp_simps fail_stop_waiter_if_needed_def complete_after_owned_stop_def
        release_receiver_stop_def settle_opt_def handler
        intro!: cleared_receiver settled dest: settled split: option.split)
qed

text \<open>The transitions of a stop that starts in the state \<open>st\<close>.\<close>

definition stop_transitions ::
    "component_lifecycle_state \<Rightarrow> (component_lifecycle_state \<times> component_lifecycle_state) list" where
  "stop_transitions st = (if st = STOPPING then [] else [(st, STOPPING)])"

lemma provenance_core:
  assumes "d_origin_tokens s' = d_origin_tokens s" "d_origin_owner_tasks s' = d_origin_owner_tasks s"
    "d_origin_child_provenance s' = d_origin_child_provenance s" "d_worker_task s' = d_worker_task s"
    "d_origin_resources s' = d_origin_resources s"
  shows "receiver_capture_stop_provenance cfg ctx s' = receiver_capture_stop_provenance cfg ctx s"
  using assms
  by (cases "tc_task ctx") (simp_all add: receiver_capture_stop_provenance_def Let_def current_task_is_dispatching_handler_def
      current_task_has_handler_origin_context_def current_task_inherits_handler_origin_context_def
      has_active_handler_context_def current_task_would_deliver_inline_def current_task_is_worker_def
      has_background_worker_def)

text \<open>What the plan of a stop that does not find the receiver STOPPED detaches.\<close>

definition planned_stop :: "receiver_config \<Rightarrow> task_ctx \<Rightarrow> receiver \<Rightarrow> stop_snapshot \<Rightarrow> receiver \<Rightarrow> bool" where
  "planned_stop rc ctx s snapshot s' \<longleftrightarrow> \<not> snapshot_waits_for_owner snapshot \<and>
     ds_should_transition_to_stopped snapshot \<and> ds_stop_waiter snapshot = Some (length (d_futures s)) \<and>
     ds_owns_stop snapshot \<and> ds_sock snapshot = dg_sock s \<and> ds_task snapshot = dg_task s \<and>
     ds_cancel_task snapshot \<and>
     receiver_winding (length (d_futures s)) STOPPING
       (dg_transitions s @ stop_transitions (dg_lifecycle_state s)) (set_option (dg_sock s)) False s' \<and>
     receiver_capture_stop_provenance (rc_disp rc) ctx s' = receiver_capture_stop_provenance (rc_disp rc) ctx s"

lemma planned_stopD:
  assumes "planned_stop rc ctx s snapshot s'"
  shows "\<not> snapshot_waits_for_owner snapshot" "ds_owns_stop snapshot"
    "ds_stop_waiter snapshot = Some (length (d_futures s))" "ds_should_transition_to_stopped snapshot"
    "ds_sock snapshot = dg_sock s" "ds_task snapshot = dg_task s" "ds_cancel_task snapshot"
    "receiver_winding (length (d_futures s)) STOPPING
       (dg_transitions s @ stop_transitions (dg_lifecycle_state s)) (set_option (ds_sock snapshot)) False s'"
    "receiver_capture_stop_provenance (rc_disp rc) ctx s' = receiver_capture_stop_provenance (rc_disp rc) ctx s"
  using assms by (simp_all add: planned_stop_def)

lemma wp_plan_stop:
  assumes "dg_lifecycle_state s \<noteq> STOPPED" "dg_stop_waiter s = None" "drop_ok s"
    and "\<forall>k \<in> set_option (dg_sock s). k < dg_next_socket s"
  shows "wp t (plan_stop_snapshot rc ctx) (planned_stop rc ctx s) (\<lambda>_ _. False) s"
proof -
  let ?trs = "dg_transitions s @ stop_transitions (dg_lifecycle_state s)"
  define stopping where "stopping = (\<lambda>s0. if dg_lifecycle_state s = STOPPING then s0
      else receiver_set_state STOPPING s0)"
  obtain w s0 where own: "own_receiver_stop ctx s = (w, s0)" by force
  then have s0: "s0 = snd (own_receiver_stop ctx s)" "w = length (d_futures s)"
    "dg_lifecycle_state s0 = dg_lifecycle_state s" "dg_sock s0 = dg_sock s" "dg_task s0 = dg_task s"
    by (auto simp: own_receiver_stop_def create_future_def)
  have plan: "planned_stop rc ctx s snap s2"
    if d: "detach_receiver (dg_lifecycle_state s) w ev (empty_snapshot\<lparr>ds_previous_connection_state := p\<rparr>)
        (stopping s0) = (snap, s2)" for ev p snap s2
  proof -
    have s2: "s2 = snd (detach_receiver (dg_lifecycle_state s) w ev
        (empty_snapshot\<lparr>ds_previous_connection_state := p\<rparr>) (stopping (snd (own_receiver_stop ctx s))))"
      using d s0(1) by simp
    have "receiver_winding (length (d_futures s)) STOPPING ?trs (set_option (dg_sock s)) False s2"
      using assms(1,3,4)
      by (auto simp: s2 receiver_winding_def detach_receiver_def own_receiver_stop_def create_future_def
          stopping_def receiver_set_state_def stop_transitions_def drop_ok_def)
    moreover have "receiver_capture_stop_provenance (rc_disp rc) ctx s2 =
        receiver_capture_stop_provenance (rc_disp rc) ctx s"
      by (rule provenance_core)
        (simp_all add: s2 detach_receiver_def own_receiver_stop_def create_future_def stopping_def
          receiver_set_state_def)
    ultimately show ?thesis
      using d s0(2,4,5) assms(1)
      by (auto simp: planned_stop_def detach_receiver_def snapshot_waits_for_owner_def receiver_set_state_def
          stopping_def empty_snapshot_def split: if_splits)
  qed
  then show ?thesis
    unfolding plan_stop_snapshot_def
    using assms(1,2) s0(3)
    by (cases "dg_lifecycle_state s")
      (auto simp: wp_simps Let_def is_fully_stopped_receiver_def own stopping_def split: prod.split)
qed


lemma quiet_respects_receiver_stop [simp]: "respects_receiver_stop quiet"
  by (simp add: respects_receiver_stop_def receiver_stop_rely_def quiet_def)

lemma quiet_receiver_stop_env: "receiver_stop_env False quiet sample_rc ctx"
  by (simp add: receiver_stop_env_def sample_rc_inline quiet_def [of "A_task _"])

abbreviation sample_running_receiver :: receiver where
  "sample_running_receiver \<equiv> sample_receiver\<lparr>dg_lifecycle_state := RUNNING, dg_running := True,
     dg_sock := Some 0, dg_sockets := {0}, dg_next_socket := 1\<rparr>"

lemma sample_outside:
  "receiver_capture_stop_provenance cfg (plain_ctx None) s =
     \<lparr>dp_handler_originated = False, dp_inherited_handler_origin = False,
      dp_active_inline_handler = (d_origin_tokens s \<noteq> {} \<and>
        current_task_would_deliver_inline cfg (plain_ctx None) s)\<rparr>"
  by (simp add: receiver_capture_stop_provenance_def Let_def current_task_is_dispatching_handler_def
      current_task_has_handler_origin_context_def current_task_inherits_handler_origin_context_def
      plain_ctx_def has_active_handler_context_def)

text \<open>Without interference the sample receiver stops without an exception.\<close>

definition calm :: "component_lifecycle_state \<Rightarrow> receiver \<Rightarrow> bool" where
  "calm st s \<longleftrightarrow> dg_lifecycle_state s = st \<and> dg_opening_event_task s = None \<and> d_origin_tokens s = {} \<and>
     d_worker_task s = None"

lemma calm_emit:
  assumes "calm st s" "\<And>s'. calm st s' \<Longrightarrow> Q () s'"
  shows "wp False (emit quiet (rc_disp sample_rc) (plain_ctx None) event) Q E s"
proof -
  have "\<exists>s'. emit quiet (rc_disp sample_rc) (plain_ctx None) event s = Some (Inr (), s') \<and>
      disp.more s' = disp.more s \<and> d_origin_tokens s' = d_origin_tokens s \<and> d_worker_task s' = d_worker_task s"
    using sample_rc_inline
    by (simp add: emit.simps [of quiet "rc_disp sample_rc"] emit_now.simps [of quiet "rc_disp sample_rc"]
        prog_defs Let_def with_handler_dispatch_context_def call_handler_def awaitE_def quiet_def plain_ctx_def)
  then obtain s' where run: "emit quiet (rc_disp sample_rc) (plain_ctx None) event s = Some (Inr (), s')"
    and more: "disp.more s' = disp.more s" and d: "d_origin_tokens s' = d_origin_tokens s"
      "d_worker_task s' = d_worker_task s"
    by blast
  have "calm st s'"
    using assms(1) receiver_more_own(1,9) [OF more] d by (simp add: calm_def)
  then show ?thesis using assms(2) by (simp add: wp_def run)
qed

lemma calm_emit_lifecycle:
  assumes "calm st s" "\<And>s'. calm st s' \<Longrightarrow> Q () s'"
  shows "wp False (receiver_emit_lifecycle_event quiet sample_rc (plain_ctx None) event) Q E s"
  unfolding receiver_emit_lifecycle_event_def emit_lifecycle_event_def
  by (cases event) (auto simp: wp_ret assms intro!: calm_emit [OF assms(1)])

lemma calm_teardown:
  assumes "calm st s" "ds_task snapshot = None" "\<And>s'. calm st s' \<Longrightarrow> Q earlier s'"
  shows "wp False (teardown_datagram_stop_resources quiet sample_rc (plain_ctx None) snapshot earlier) Q E s"
  using assms(1)
  by (auto simp: teardown_datagram_stop_resources_def teardown_stop_resources_def teardown_receive_task_def
      cleanup_socket_def sample_rc_def wp_simps assms(2) close_datagram_socket_def calm_def
      intro!: assms(3) split: option.split)

lemma calm_closed:
  assumes "calm st s" "\<And>ex s'. calm st s' \<Longrightarrow> Q (ex, Inr None) s'"
  shows "wp False (publish_stop_closed_event quiet sample_rc (plain_ctx None) snapshot w ex) Q E s"
proof -
  have "\<not> receiver_defers_terminal_events (receiver_capture_stop_provenance (rc_disp sample_rc) (plain_ctx None) s)"
    using assms(1) by (simp add: sample_outside receiver_defers_terminal_events_def has_handler_provenance_def calm_def)
  then have stay: "defer_receiver_close (rc_disp sample_rc) (plain_ctx None) event s = ((False, None), s)" for event
    using assms(1)
    by (auto simp: defer_receiver_close_def Let_def receiver_defers_terminal_events_def has_handler_provenance_def
        receiver_capture_stop_provenance_def calm_def)
  show ?thesis
    unfolding publish_stop_closed_event_def publish_closed_event_if_needed_def
    by (auto simp: wp_bindE wp_tryE wp_if wp_getsE wp_ret wp_stateE wp_seqE stay
        intro!: calm_emit [OF assms(1)] assms)
qed

lemma calm_finish:
  assumes "calm STOPPING s" "\<And>s'. Q None s'"
  shows "wp False (receiver_finish_stop_with_dispatcher quiet sample_rc (plain_ctx None) snapshot None) Q E s"
proof -
  have "calm STOPPED (receiver_set_state STOPPED s)" "dg_lifecycle_state s = STOPPING"
    using assms(1) by (simp_all add: calm_def receiver_set_state_def)
  then show ?thesis
    using assms
    by (auto simp: receiver_finish_stop_with_dispatcher_def publish_stopped_transition_if_needed_def
        stop_receiver_dispatcher_def disp_stop_def wp_simps calm_def [of _ "_ :: receiver"]
        intro!: calm_emit_lifecycle)
qed

text \<open>Without interference the sample receiver stops without an exception.\<close>

lemma sample_stop_calm:
  "wp False (receiver_stop quiet sample_rc (plain_ctx None) (Some 0)) (\<lambda>_ _. True) (\<lambda>_ _. False)
     sample_running_receiver"
proof -
  have path: "wp False (run_ordinary_stop_path quiet sample_rc (plain_ctx None) snapshot w)
      (\<lambda>a _. snd a = None) (\<lambda>_ _. False) s"
    if "calm STOPPING s" "ds_task snapshot = None" for s snapshot w
    unfolding run_ordinary_stop_path_def publish_stopping_transition_def
    by (auto simp: wp_bindE wp_keep_first wp_if wp_ret wp_tryE that
        intro!: calm_emit_lifecycle [OF that(1)] calm_teardown that calm_closed calm_finish)
  have owned: "wp False (owned_receiver_stop quiet sample_rc (plain_ctx None) snapshot pv w)
      (\<lambda>_ _. True) (\<lambda>_ _. False) s"
    if "calm STOPPING s" "ds_task snapshot = None" "\<not> receiver_defers_terminal_events pv" for s snapshot pv w
    unfolding owned_receiver_stop_def execute_stop_path_def wp_bindE wp_tryE
    using that(3)
    by (simp, intro wp_mono [OF path [OF that(1,2)]])
      (auto simp: complete_after_owned_stop_def release_receiver_stop_def settle_opt_def wp_simps
        split: option.split)
  show ?thesis
    unfolding receiver_stop_def stop_datagram_receiver_def receiver_assert_owner_loop_def
      plan_stop_snapshot_def
    by (auto simp: wp_simps assert_running_on_owner_loop_def Let_def is_fully_stopped_receiver_def
        own_receiver_stop_def create_future_def detach_receiver_def receiver_set_state_def calm_def
        sample_outside receiver_defers_terminal_events_def has_handler_provenance_def
        snapshot_waits_for_owner_def empty_snapshot_def intro!: owned)
qed


section \<open>The tasks that complete a stop\<close>

lemma wp_complete_stop_waiter:
  assumes "wp t work (\<lambda>_. receiver_winding w STOPPED trs K True)
      (\<lambda>e s'. is_caught e \<and> receiver_winding w STOPPED trs K True s') s"
  shows "wp t (complete_stop_waiter (Some w) (modifyE (clear_stop_waiter_if_current (Some w))) work)
      (\<lambda>_. receiver_all_stopped w trs K) (\<lambda>_ _. False) s"
proof -
  have settled: "receiver_winding w STOPPED trs K True (settle_future w r s') \<and> future_done w (settle_future w r s')"
    if "receiver_winding w STOPPED trs K True s'" for r s'
    using settled_receiver_winding [OF that] .
  show ?thesis
    unfolding complete_stop_waiter_def wp_finallyE wp_tryE wp_seqE
    by (rule wp_mono [OF assms])
      (auto simp: settle_opt_def wp_simps intro!: cleared_receiver dest: settled)
qed

lemma wp_stop_and_raise:
  assumes "receiver_stop_env t env rc ctx0" "receiver_winding w st trs K c s" "earlier = None \<or> is_caught (the earlier)"
  shows "wp t (bindE (stop_receiver_dispatcher env rc ctx snapshot earlier) raise_if)
    (\<lambda>_. receiver_winding w st trs K c) (\<lambda>e s'. is_caught e \<and> receiver_winding w st trs K c s') s"
proof -
  note d = receiver_stop_envD [OF assms(1)]
  show ?thesis
    using assms(2,3)
    unfolding stop_receiver_dispatcher_def wp_bindE
    by (auto simp: wp_simps split: option.split
        intro!: wp_disp_stop [OF receiver_winding.stable d(1) [of w st trs K c] d(2) assms(2)])
qed

text \<open>
  C18: What a stop leaves to a task is done.  The task of a stop whose call was cancelled, and the
  task of a stop that a handler requested, take the receiver from STOPPING to STOPPED with its
  socket closed, settle the waiter of the callers of \<open>stop\<close> and forget it, and end without an
  exception, whatever fails on the way: the handler of the close event or of a lifecycle event,
  the deferred close, the dispatcher.  The wait for active handlers is not cancelled.
\<close>
theorem deferred_receiver_stop_completes:
  assumes "receiver_stop_env t env rc ctx"
    and "\<And>n s. fst (env (A_context_waiter n) s) = None"
    and "receiver_winding w STOPPING trs K True s" "ds_should_transition_to_stopped snapshot"
  shows "wp t (complete_after_deferred_close_and_stop env rc ctx (Some w) snapshot f)
      (\<lambda>_. receiver_all_stopped w (trs @ [(STOPPING, STOPPED)]) K) (\<lambda>_ _. False) s \<and>
    wp True (receiver_complete_after_deferred_stop_events env rc ctx (Some w) snapshot)
      (\<lambda>_. receiver_all_stopped w (trs @ [(STOPPING, STOPPED)]) K) (\<lambda>_ _. False) s"
proof
  let ?W = "receiver_winding w STOPPING trs K True"
    and ?S = "receiver_winding w STOPPED (trs @ [(STOPPING, STOPPED)]) K True"
  have env: "receiver_stop_env True env rc ctx" using assms(1) by (simp add: receiver_stop_env_def)
  note d = receiver_stop_envD [OF assms(1)]
  have finish: "wp u (bindE (keep_first earlier (publish_stopped_transition_if_needed env rc ctx1 snapshot b)) m)
      Q E s" if "receiver_stop_env u env rc ctx" "?W s" "earlier = None \<or> is_caught (the earlier)"
      "\<And>e s'. e = None \<or> is_caught (the e) \<Longrightarrow> ?S s' \<Longrightarrow> wp u (m e) Q E s'" for u earlier ctx1 b m Q E s
    unfolding wp_bindE wp_keep_first
    by (rule wp_rstop_publish_stopped [OF that(1,2) assms(4)])
      (use that(3) in \<open>auto intro!: that(4) split: option.split\<close>)
  show "wp t (complete_after_deferred_close_and_stop env rc ctx (Some w) snapshot f)
      (\<lambda>_. receiver_all_stopped w (trs @ [(STOPPING, STOPPED)]) K) (\<lambda>_ _. False) s"
    unfolding complete_after_deferred_close_and_stop_def
    by (rule wp_complete_stop_waiter, subst wp_bindE, subst wp_keep_first,
        rule wp_rstop_await [OF assms(1,3)])
      (auto intro!: finish [OF assms(1)] wp_stop_and_raise [OF assms(1)])
  have events: "wp True (deferred_receiver_events env rc snapshot ctx1)
      (\<lambda>e s'. (e = None \<or> is_caught (the e)) \<and> ?S s') (\<lambda>_ _. False) s"
    if "?W s" for ctx1 s
  proof -
    show ?thesis
      unfolding deferred_receiver_events_def wp_bindE [of _ "keep_first _ _"] wp_keep_first
      by (rule wp_rstop_publish_stopping [OF env that])
        (auto simp: wp_bindE wp_if wp_keep_first wp_ret intro!: wp_rstop_publish_closed [OF env]
          wp_rstop_await [OF env] wp_rstop_publish_stopped [OF env _ assms(4)] split: prod.split option.split)
  qed
  have wait: "wp True (wait_for_handler_context env None) (\<lambda>_. ?W) (\<lambda>_ _. False) s"
    by (rule wp_by_parts [OF stable_wait_for_handler_context_keeps [OF receiver_winding.stable d(1)]
          raises_wait_for_handler_context [where Q = "\<lambda>_. False"] _ assms(3)])
      (use assms(2) in \<open>auto simp: eq_fst_iff\<close>, metis fst_conv option.distinct(1))
  show "wp True (receiver_complete_after_deferred_stop_events env rc ctx (Some w) snapshot)
      (\<lambda>_. receiver_all_stopped w (trs @ [(STOPPING, STOPPED)]) K) (\<lambda>_ _. False) s"
    unfolding receiver_complete_after_deferred_stop_events_def with_inline_delivery_context_def
    by (rule wp_complete_stop_waiter, subst wp_seqE, rule wp_mono [OF wait])
      (auto simp: wp_bindE [of _ "deferred_receiver_events _ _ _ _"]
        intro!: wp_mono [OF events] wp_stop_and_raise [OF env])
qed

theorem deferred_receiver_stop_completes_witness:
  "\<exists>s'. complete_after_deferred_close_and_stop quiet sample_rc (plain_ctx None) (Some 0)
       (empty_snapshot\<lparr>ds_should_transition_to_stopped := True\<rparr>) 1
       (sample_receiver\<lparr>dg_lifecycle_state := STOPPING, dg_stop_waiter := Some 0,
          d_futures := [Pending, Done (Inr ())]\<rparr>) = Some (Inr (), s') \<and>
     receiver_all_stopped 0 [(STOPPING, STOPPED)] {} s'"
proof -
  let ?s = "sample_receiver\<lparr>dg_lifecycle_state := STOPPING, dg_stop_waiter := Some 0,
      d_futures := [Pending, Done (Inr ())]\<rparr>"
  have "receiver_winding 0 STOPPING [] {} True ?s"
    by (simp add: receiver_winding_def drop_ok_def sample_setup_def)
  then have "wp False (complete_after_deferred_close_and_stop quiet sample_rc (plain_ctx None) (Some 0)
      (empty_snapshot\<lparr>ds_should_transition_to_stopped := True\<rparr>) 1)
      (\<lambda>_. receiver_all_stopped 0 [(STOPPING, STOPPED)] {}) (\<lambda>_ _. False) ?s"
    using deferred_receiver_stop_completes [OF quiet_receiver_stop_env, where w = 0 and trs = "[]" and K = "{}"
        and s = ?s and ctx = "plain_ctx None" and f = 1
        and snapshot = "empty_snapshot\<lparr>ds_should_transition_to_stopped := True\<rparr>"]
    by (simp add: quiet_def)
  then show ?thesis by (auto dest!: wp_valueD)
qed

section \<open>A stop from a handler that is cancelled\<close>

text \<open>
  The caller is cancelled while it waits for the receive task \<open>n\<close>, which ends.
\<close>

definition interrupts :: "receiver environment \<Rightarrow> task_ctx \<Rightarrow> nat \<Rightarrow> bool" where
  "interrupts env ctx n \<longleftrightarrow> (\<forall>s. fst (env (A_task n) s) = Some cancelled \<and>
     is_task_being_cancelled ctx (snd (env (A_task n) s)) \<and> task_done n (snd (env (A_task n) s)))"

lemma wp_interrupted:
  assumes "interrupts env ctx n" "env_keeps I env" "I s" "\<And>s'. I s' \<Longrightarrow> E cancelled s'"
  shows "wp t (await_task_preserving env ctx n) Q E s"
proof -
  obtain s' where s': "env (A_task n) s = (Some cancelled, s')" "is_task_being_cancelled ctx s'" "task_done n s'"
    using assms(1) unfolding interrupts_def by (metis prod.collapse)
  have "I s'" using env_keepsD [OF assms(2,3) s'(1)] .
  then show ?thesis
    unfolding await_task_preserving_def wp_bindE
    by (intro wp_loopE_step)
      (use s' assms(4) in \<open>auto simp: wp_simps wp_awaitE is_cancelled_def\<close>)
qed

lemma raises_of_wp:
  assumes "wp False c (\<lambda>_ _. False) (\<lambda>e s'. e = e' \<and> P s') s"
  shows "\<exists>s'. c s = Some (Inl e', s') \<and> P s'"
proof (cases "c s")
  case (Some r)
  with assms show ?thesis by (cases r; cases "fst r") (auto simp: wp_def)
qed (use assms in \<open>simp add: wp_def\<close>)



end
