(* ===== verification/Receiver_Behaviour.thy ===== *)
theory Receiver_Behaviour
  imports Receiver_Stop
begin

text \<open>
  What a user of a datagram receiver sees: a failed start leaves nothing behind, and a receive
  task delivers every datagram in order and, when the socket fails, reports the failure and
  shuts the receiver down with its terminal events in order.
\<close>

section \<open>Events of an undisturbed receiver\<close>

lemma emit_inline_origin:
  assumes "dc_dispatch_mode cfg = INLINE" "handler_returns env" "d_origin_tokens s = {}"
  shows "\<exists>s'. emit env cfg ctx event s = Some (Inr (), s') \<and>
    d_delivered s' = d_delivered s @ [event] \<and> disp.more s' = disp.more s \<and>
    d_origin_tokens s' = {} \<and> d_worker_task s' = d_worker_task s"
  using assms
  by (simp add: emit.simps [of env cfg] emit_now.simps [of env cfg] prog_defs Let_def
      with_handler_dispatch_context_def call_handler_def awaitE_def handler_returns_def
      exit_origin_def notify_handler_context_changed_def enter_dispatch_def split: option.split)

text \<open>
  The receiver at work, over what it has delivered, and the same receiver while its stop (with
  the waiter \<open>w\<close>) is in progress; \<open>k\<close> is its socket.
\<close>

definition serving :: "task_ctx \<Rightarrow> nat \<Rightarrow> connection_metadata option \<Rightarrow> network_event list \<Rightarrow> receiver \<Rightarrow> bool" where
  "serving ctx k m evs s \<longleftrightarrow> dg_lifecycle_state s = RUNNING \<and> dg_running s \<and> dg_sock s = Some k \<and>
     (dg_task s = None \<or> dg_task s = tc_task ctx) \<and> dg_opening_event_task s = None \<and>
     dg_stop_waiter s = None \<and> dg_connection_state s = CONNECTED \<and> dg_metadata s = m \<and>
     d_origin_tokens s = {} \<and> d_worker_task s = None \<and> drop_ok s \<and> d_delivered s = evs"

definition closing ::
    "component_lifecycle_state \<Rightarrow> nat \<Rightarrow> connection_metadata option \<Rightarrow> network_event list \<Rightarrow> receiver \<Rightarrow> bool" where
  "closing st w m evs s \<longleftrightarrow> dg_lifecycle_state s = st \<and> \<not> dg_running s \<and> dg_sock s = None \<and>
     dg_task s = None \<and> dg_opening_event_task s = None \<and> dg_stop_waiter s = Some w \<and>
     dg_metadata s = m \<and> d_origin_tokens s = {} \<and> d_worker_task s = None \<and> drop_ok s \<and>
     d_delivered s = evs"

lemma wp_emit_serving:
  assumes "dc_dispatch_mode cfg = INLINE" "handler_returns env" "serving ctx k m evs s"
    and "\<And>s'. serving ctx k m (evs @ [e]) s' \<Longrightarrow> dg_sockets s' = dg_sockets s \<Longrightarrow> Q () s'"
  shows "wp t (emit env cfg ctx e) Q E s"
proof -
  obtain s' where e: "emit env cfg ctx e s = Some (Inr (), s')" "d_delivered s' = d_delivered s @ [e]"
      "disp.more s' = disp.more s" "d_origin_tokens s' = {}" "d_worker_task s' = d_worker_task s"
    using emit_inline_origin [OF assms(1,2), of s] assms(3) unfolding serving_def by blast
  have "serving ctx k m (evs @ [e]) s'" "dg_sockets s' = dg_sockets s"
    using e(2-5) assms(3) by (cases s; cases s'; simp add: serving_def drop_ok_def)+
  then show ?thesis using e(1) assms(4) by (simp add: wp_def)
qed

lemma wp_emit_closing:
  assumes "dc_dispatch_mode cfg = INLINE" "handler_returns env" "closing st w m evs s"
    and "\<And>s'. closing st w m (evs @ [e]) s' \<Longrightarrow> dg_sockets s' = dg_sockets s \<Longrightarrow> Q () s'"
  shows "wp t (emit env cfg ctx e) Q E s"
proof -
  obtain s' where e: "emit env cfg ctx e s = Some (Inr (), s')" "d_delivered s' = d_delivered s @ [e]"
      "disp.more s' = disp.more s" "d_origin_tokens s' = {}" "d_worker_task s' = d_worker_task s"
    using emit_inline_origin [OF assms(1,2), of s] assms(3) unfolding closing_def by blast
  have "closing st w m (evs @ [e]) s'" "dg_sockets s' = dg_sockets s"
    using e(2-5) assms(3) by (cases s; cases s'; simp add: closing_def drop_ok_def)+
  then show ?thesis using e(1) assms(4) by (simp add: wp_def)
qed

lemma no_provenance:
  assumes "tc_handler_dispatch ctx = {}" "d_origin_tokens s = {}"
  shows "\<not> current_task_is_dispatching_handler cfg ctx s None"
    "\<not> current_task_has_handler_origin_context cfg ctx s None"
    "\<not> current_task_inherits_handler_origin_context cfg ctx s None"
    "\<not> has_active_handler_context s None"
  using assms
  by (auto simp: current_task_is_dispatching_handler_def current_task_has_handler_origin_context_def
      current_task_inherits_handler_origin_context_def has_active_handler_context_def split: option.split)

section \<open>The stop of an undisturbed receiver\<close>

text \<open>The events a stop publishes.\<close>

definition stop_log :: "receiver_config \<Rightarrow> connection_metadata option \<Rightarrow> network_event list" where
  "stop_log rc m =
     [receiver_event rc RUNNING STOPPING, ConnectionClosedEvent (rc_connection_id rc) CONNECTED m,
      receiver_event rc STOPPING STOPPED]"

lemma wp_stop_serving:
  assumes env: "dc_dispatch_mode (rc_disp rc) = INLINE" "handler_returns env"
    and s: "serving ctx k m evs s" and ctx: "tc_handler_dispatch ctx = {}"
    and post: "\<And>s'. dg_lifecycle_state s' = STOPPED \<Longrightarrow> dg_sock s' = None \<Longrightarrow> dg_stop_waiter s' = None \<Longrightarrow>
      \<not> dg_running s' \<Longrightarrow> dg_sockets s' = dg_sockets s - {k} \<Longrightarrow> d_delivered s' = evs @ stop_log rc m \<Longrightarrow> Q () s'"
  shows "wp t (stop_datagram_receiver env rc ctx) Q E s"
proof -
  let ?w = "length (d_futures s)"
  define snap where "snap = (\<lambda>ta. empty_snapshot\<lparr>ds_previous_connection_state := CONNECTED,
    ds_stop_waiter := Some ?w, ds_owns_stop := True,
    ds_stopping_event := Some (receiver_event rc RUNNING STOPPING),
    ds_should_transition_to_stopped := True, ds_task := ta, ds_sock := Some k,
    ds_should_emit_closed_event := True, ds_stop_dispatcher := True\<rparr>)"
  let ?log = "\<lambda>n. evs @ take n (stop_log rc m)"
  have stopping: "wp t (publish_stopping_transition env rc ctx (snap ta)) Q' E' s1"
    if "closing STOPPING ?w m evs s1"
      "\<And>s2. closing STOPPING ?w m (?log 1) s2 \<Longrightarrow> dg_sockets s2 = dg_sockets s1 \<Longrightarrow> Q' () s2" for ta s1 Q' E'
    using that(2)
    by (simp add: publish_stopping_transition_def snap_def is_noop_def receiver_emit_lifecycle_event_def
        emit_lifecycle_event_def stop_log_def) (rule wp_emit_closing [OF env that(1)])
  have teardown: "wp t (teardown_datagram_stop_resources env rc ctx (snap ta) None) Q' E' s1"
    if "closing STOPPING ?w m es s1" "ta = None \<or> ta = tc_task ctx"
      "\<And>s2. closing STOPPING ?w m es s2 \<Longrightarrow> dg_sockets s2 = dg_sockets s1 - {k} \<Longrightarrow> Q' None s2"
    for ta s1 es Q' E'
    using that(1,2)
    by (auto simp: teardown_datagram_stop_resources_def teardown_stop_resources_def
        teardown_receive_task_def cleanup_socket_def snap_def empty_snapshot_def wp_simps closing_def drop_ok_def
        close_datagram_socket_def intro!: that(3) split: receiver_settings.split option.splits)
  have closed: "wp t (publish_stop_closed_event env rc ctx (snap ta) w ex) Q' E' s1"
    if "closing STOPPING ?w m (?log 1) s1"
      "\<And>s2. closing STOPPING ?w m (?log 2) s2 \<Longrightarrow> dg_sockets s2 = dg_sockets s1 \<Longrightarrow>
         Q' (ex\<lparr>dx_deferred_close_waiter := None\<rparr>, Inr None) s2" for ta w ex s1 Q' E'
  proof -
    have now: "defer_receiver_close (rc_disp rc) ctx ce s1 = ((False, None), s1)" for ce
      using that(1) no_provenance [OF ctx, of s1] by (simp add: defer_receiver_close_def closing_def Let_def)
    have "dg_metadata s1 = m" using that(1) by (simp add: closing_def)
    then show ?thesis
      using that(2)
      by (auto simp: publish_stop_closed_event_def publish_closed_event_if_needed_def wp_simps now snap_def
          empty_snapshot_def stop_log_def intro!: wp_emit_closing [OF env that(1)])
  qed
  have stopped: "wp t (receiver_finish_stop_with_dispatcher env rc ctx (snap ta) None) Q' E' s1"
    if "closing STOPPING ?w m (?log 2) s1"
      and stopped: "\<And>s2. closing STOPPED ?w m (?log 3) s2 \<Longrightarrow> dg_sockets s2 = dg_sockets s1 \<Longrightarrow> Q' None s2"
    for ta s1 Q' E'
  proof -
    have c: "closing STOPPED ?w m (?log 2) (receiver_set_state STOPPED s1)"
      using that(1) by (simp add: closing_def receiver_set_state_def drop_ok_def)
    have off: "wp t (stop_receiver_dispatcher env rc ctx (snap ta) None) Q' E' s2"
      if "closing STOPPED ?w m (?log 3) s2" "dg_sockets s2 = dg_sockets s1" for s2
    proof -
      have "closing STOPPED ?w m (?log 3) (s2\<lparr>d_stopping := True\<rparr>)" "d_worker_task s2 = None"
        using that(1) by (simp_all add: closing_def drop_ok_def)
      then show ?thesis
        using stopped that(2)
        by (simp add: stop_receiver_dispatcher_def snap_def disp_stop_def wp_simps)
    qed
    have state: "dg_lifecycle_state s1 = STOPPING" "legal STOPPING STOPPED"
      "dg_sockets (receiver_set_state STOPPED s1) = dg_sockets s1" "ds_should_transition_to_stopped (snap ta)"
      using that(1) by (simp_all add: closing_def receiver_set_state_def snap_def)
    have log: "evs @ take 2 (stop_log rc m) @ [receiver_event rc STOPPING STOPPED] = ?log 3"
      by (simp add: stop_log_def)
    show ?thesis
      unfolding receiver_finish_stop_with_dispatcher_def publish_stopped_transition_if_needed_def
        receiver_emit_lifecycle_event_def emit_lifecycle_event_def
      by (simp add: wp_bindE wp_seqE wp_receiver_apply state)
        (rule wp_emit_closing [OF env c], simp add: off state log)
  qed
  have new: "new_receiver_execution\<lparr>dx_deferred_close_waiter := None\<rparr> = new_receiver_execution"
    by (simp add: new_receiver_execution_def)
  have path: "wp t (run_ordinary_stop_path env rc ctx (snap ta) (Some ?w)) Q' E' s1"
    if "closing STOPPING ?w m evs s1" "ta = None \<or> ta = tc_task ctx"
      and return: "\<And>s2. closing STOPPED ?w m (?log 3) s2 \<Longrightarrow> dg_sockets s2 = dg_sockets s1 - {k} \<Longrightarrow>
        Q' (new_receiver_execution, None) s2" for ta s1 Q' E'
    unfolding run_ordinary_stop_path_def wp_bindE wp_keep_first wp_if wp_tryE
    using that(2)
    by (auto simp: wp_ret wp_bindE wp_tryE new
        intro!: stopping [OF that(1)] teardown closed stopped return)
  have owned: "wp t (owned_receiver_stop env rc ctx (snap ta) pv (Some ?w)) Q E s1"
    if "closing STOPPING ?w m evs s1" "ta = None \<or> ta = tc_task ctx" "dg_sockets s1 = dg_sockets s"
      "\<not> receiver_defers_terminal_events pv" for ta s1 pv
    unfolding owned_receiver_stop_def execute_stop_path_def wp_bindE wp_tryE
    using that(4)
    by (simp, intro path [OF that(1,2)])
      (auto simp: wp_simps complete_after_owned_stop_def release_receiver_stop_def new_receiver_execution_def
        settle_opt_def settle_future_def clear_stop_waiter_if_current_def closing_def that(3) stop_log_def
        intro!: post split: option.split)
  have plan: "wp t (plan_stop_snapshot rc ctx) (\<lambda>sn s1. sn = snap (dg_task s) \<and>
      closing STOPPING ?w m evs s1 \<and> dg_sockets s1 = dg_sockets s) (\<lambda>_ _. False) s"
    using s
    by (auto simp: plan_stop_snapshot_def wp_simps Let_def serving_def is_fully_stopped_receiver_def
        own_receiver_stop_def create_future_def detach_receiver_def receiver_set_state_def drop_ok_def
        closing_def snap_def empty_snapshot_def)
  have pv: "\<not> receiver_defers_terminal_events (receiver_capture_stop_provenance (rc_disp rc) ctx s1)"
    if "closing STOPPING ?w m evs s1" for s1
    using no_provenance [OF ctx, of s1] that
    by (simp add: closing_def receiver_defers_terminal_events_def has_handler_provenance_def
        receiver_capture_stop_provenance_def Let_def)
  have mine: "\<not> snapshot_waits_for_owner (snap ta)" "ds_owns_stop (snap ta)"
    "ds_stop_waiter (snap ta) = Some ?w" for ta
    by (simp_all add: snap_def snapshot_waits_for_owner_def)
  show ?thesis
    unfolding stop_datagram_receiver_def wp_bindE wp_getsE wp_if
    by (rule wp_mono [OF plan]) (use s in \<open>auto simp: mine serving_def intro!: owned pv\<close>)
qed

section \<open>The receive task\<close>

text \<open>
  A socket that yields the datagrams \<open>ds\<close> (bytes, the sender object, and the host and port it
  stands for), one for each receive after the \<open>base\<close> events delivered before, and then fails.
\<close>

type_synonym datagram = "nat list \<times> peer_info \<times> string option \<times> int option"

definition recv_point :: "receiver_config \<Rightarrow> await_point" where
  "recv_point rc = (if rc_has_sock_recvfrom rc then A_recv else A_recvfrom)"

definition yields_datagrams ::
    "receiver environment \<Rightarrow> receiver_config \<Rightarrow> nat \<Rightarrow> datagram list \<Rightarrow> exn \<Rightarrow> bool" where
  "yields_datagrams env rc base ds error \<longleftrightarrow>
     (\<forall>s. env (recv_point rc) s = (let i = length (d_delivered s) - base in
        if i < length ds then (None, s\<lparr>dg_datagram := (fst (ds ! i), fst (snd (ds ! i)))\<rparr>)
        else (Some error, s))) \<and>
     (\<forall>(data, sender, host, port) \<in> set ds. sender_address sender = Inr (host, port)) \<and>
     is_Exception error \<and> \<not> is_would_block error"

definition datagram_event :: "receiver_config \<Rightarrow> datagram \<Rightarrow> network_event" where
  "datagram_event rc = (\<lambda>(data, sender, host, port). BytesReceivedEvent (rc_connection_id rc) data host port)"

lemma wp_recv_nonblocking:
  assumes "serving ctx k m evs s"
    and "\<And>s1. serving ctx k m evs s1 \<Longrightarrow> dg_sockets s1 = dg_sockets s \<Longrightarrow>
      case env (recv_point rc) s1 of (None, s2) \<Rightarrow> Q () s2 | (Some e, s2) \<Rightarrow> \<not> is_would_block e \<and> E e s2"
  shows "wp t (recv_nonblocking env rc) Q E s"
proof (cases "rc_has_sock_recvfrom rc")
  case True
  then show ?thesis
    using assms(2) [OF assms(1)]
    by (simp add: recv_nonblocking_def wp_awaitE recv_point_def split: prod.splits option.splits)
next
  case False
  have "serving ctx k m evs (s\<lparr>dg_recv_fallback_warning_emitted := True\<rparr>)"
    using assms(1) by (simp add: serving_def drop_ok_def)
  then show ?thesis
    using False assms(2) [of "s\<lparr>dg_recv_fallback_warning_emitted := True\<rparr>"]
    by (auto simp: recv_nonblocking_def recvfrom_poll_def wp_simps wp_awaitE recv_point_def
        intro!: wp_loopE_step split: prod.splits option.splits)
qed

lemma receive_loop_delivers:
  assumes env: "dc_dispatch_mode (rc_disp rc) = INLINE" "handler_returns env"
    and ds: "yields_datagrams env rc (length log0) ds error"
    and "serving ctx k m (log0 @ map (datagram_event rc) (take n ds)) s" "n \<le> length ds"
  shows "wp t (loopE (receive_turn env rc ctx) ()) (\<lambda>_ _. False)
    (\<lambda>e s'. e = error \<and> serving ctx k m (log0 @ map (datagram_event rc) ds) s' \<and>
       dg_sockets s' = dg_sockets s) s"
  using assms(4,5)
proof (induction "length ds - n" arbitrary: n s)
  case 0
  then show ?case
    using ds
    by (intro wp_loopE_step)
      (auto simp: receive_turn_def wp_simps serving_def yields_datagrams_def Let_def
        intro!: wp_recv_nonblocking [OF 0(2)])
next
  case (Suc j)
  let ?log = "\<lambda>n. log0 @ map (datagram_event rc) (take n ds)"
  obtain data sender host port where d: "ds ! n = (data, sender, host, port)" by (cases "ds ! n") auto
  have n: "n < length ds" using Suc.hyps(2) by simp
  then have addr: "sender_address sender = Inr (host, port)"
    using ds d nth_mem [OF n] unfolding yields_datagrams_def by auto
  have log: "?log n @ [BytesReceivedEvent (rc_connection_id rc) data host port] = ?log (Suc n)"
    using n d by (simp add: take_Suc_conv_app_nth datagram_event_def)
  have got: "env (recv_point rc) s1 = (None, s1\<lparr>dg_datagram := (data, sender)\<rparr>)"
    if "serving ctx k m (?log n) s1" for s1
    using that ds n d by (simp add: yields_datagrams_def serving_def Let_def)
  have deliver: "wp t (emit env (rc_disp rc) ctx (BytesReceivedEvent (rc_connection_id rc) data host port))
      Q E (s1\<lparr>dg_datagram := (data, sender)\<rparr>)"
    if "serving ctx k m (?log n) s1"
      "\<And>s2. serving ctx k m (?log (Suc n)) s2 \<Longrightarrow> dg_sockets s2 = dg_sockets s1 \<Longrightarrow> Q () s2" for s1 Q E
    by (rule wp_emit_serving [OF env, of ctx k m "?log n"])
      (use that in \<open>simp_all add: serving_def drop_ok_def log [simplified]\<close>)
  have again: "wp t (loopE (receive_turn env rc ctx) ()) (\<lambda>_ _. False)
    (\<lambda>e s'. e = error \<and> serving ctx k m (log0 @ map (datagram_event rc) ds) s' \<and>
       dg_sockets s' = dg_sockets s) s2"
    if "serving ctx k m (?log (Suc n)) s2" "dg_sockets s2 = dg_sockets s" for s2
    using Suc.hyps(1) [of "Suc n" s2] Suc.hyps(2) that n by simp
  have "dg_running s" using Suc.prems(1) by (simp add: serving_def)
  then show ?case
    by (intro wp_loopE_step)
      (auto simp: receive_turn_def wp_simps got addr
        intro!: wp_recv_nonblocking [OF Suc.prems(1)] deliver again)
qed

text \<open>
  C19: A receive task whose socket fails after the datagrams \<open>ds\<close> delivers all of them, in order and
  unchanged, with the sender's address; it then reports the failure and shuts the receiver
  down: with INLINE delivery to a handler that returns, the events that follow are exactly the
  error, STOPPING, the close of the connection and STOPPED, the socket is closed, and the task
  ends without an exception.  The same holds with and without \<open>sock_recvfrom\<close>.
\<close>
theorem receive_failure_shuts_down:
  assumes "dc_dispatch_mode (rc_disp rc) = INLINE" "handler_returns env"
    and "yields_datagrams env rc (length log0) ds error"
    and "serving ctx k m log0 s" "tc_handler_dispatch ctx = {}"
  shows "\<exists>s'. receive_datagrams env rc ctx s = Some (Inr (), s') \<and>
    d_delivered s' = log0 @ map (datagram_event rc) ds @
      NetworkErrorEvent (rc_connection_id rc) error # stop_log rc m \<and>
    dg_lifecycle_state s' = STOPPED \<and> dg_sock s' = None \<and> k \<notin> dg_sockets s'"
proof -
  have e: "is_Exception error" "\<not> is_cancelled error"
    using assms(3) by (auto simp: yields_datagrams_def is_Exception_def is_cancelled_def)
  have loop: "wp False (loopE (receive_turn env rc ctx) ()) (\<lambda>_ _. False)
      (\<lambda>e s'. e = error \<and> serving ctx k m (log0 @ map (datagram_event rc) ds) s' \<and>
         dg_sockets s' = dg_sockets s) s"
    using receive_loop_delivers [OF assms(1-3), of ctx k m 0 s] assms(4) by simp
  have sock: "dg_sock s = Some k" using assms(4) by (simp add: serving_def)
  have "wp False (receive_datagrams env rc ctx)
      (\<lambda>_ s'. d_delivered s' = log0 @ map (datagram_event rc) ds @
         NetworkErrorEvent (rc_connection_id rc) error # stop_log rc m \<and>
       dg_lifecycle_state s' = STOPPED \<and> dg_sock s' = None \<and> k \<notin> dg_sockets s') (\<lambda>_ _. False) s"
    unfolding receive_datagrams_def
    by (simp add: wp_simps sock, rule wp_mono [OF loop])
      (auto simp: e serving_def wp_simps intro!: wp_emit_serving [OF assms(1,2)] wp_stop_serving [OF assms(1,2) _ assms(5)])
  then show ?thesis by (auto dest!: wp_valueD)
qed

theorem receive_failure_shuts_down_witness:
  "\<exists>s'. receive_datagrams (\<lambda>p s. case p of
       A_recv \<Rightarrow> (if d_delivered s = [] then (None, s\<lparr>dg_datagram := ([1, 2], PTuple [IStr ''p'', IInt 9])\<rparr>)
                 else (Some (Exn OSError ''reset''), s)) | _ \<Rightarrow> (None, s))
     sample_rc (plain_ctx (Some 5)) (sample_running_receiver\<lparr>dg_task := Some 5, dg_connection_state := CONNECTED\<rparr>) =
       Some (Inr (), s') \<and>
   d_delivered s' =
     [BytesReceivedEvent (rc_connection_id sample_rc) [1, 2] (Some ''p'') (Some 9),
      NetworkErrorEvent (rc_connection_id sample_rc) (Exn OSError ''reset'')] @
     stop_log sample_rc (dg_metadata sample_receiver) \<and>
   dg_lifecycle_state s' = STOPPED \<and> dg_sock s' = None \<and> 0 \<notin> dg_sockets s'"
proof -
  let ?env = "\<lambda>p s. case p of
       A_recv \<Rightarrow> (if d_delivered s = [] then (None, s\<lparr>dg_datagram := ([1, 2], PTuple [IStr ''p'', IInt 9])\<rparr>)
                 else (Some (Exn OSError ''reset''), s)) | _ \<Rightarrow> (None, s)"
  let ?s = "sample_running_receiver\<lparr>dg_task := Some 5, dg_connection_state := CONNECTED\<rparr>"
  have env: "handler_returns ?env" by (simp add: handler_returns_def)
  have yields: "yields_datagrams ?env sample_rc (length [])
      [([1, 2], PTuple [IStr ''p'', IInt 9], Some ''p'', Some 9)] (Exn OSError ''reset'')"
    by (auto simp: yields_datagrams_def recv_point_def sample_rc_def sender_address_def is_Exception_def
        is_would_block_def Let_def cong: if_cong)
  have s: "serving (plain_ctx (Some 5)) 0 (dg_metadata sample_receiver) [] ?s"
    by (simp add: serving_def plain_ctx_def drop_ok_def sample_setup_def)
  have ctx: "tc_handler_dispatch (plain_ctx (Some 5)) = {}" by (simp add: plain_ctx_def)
  show ?thesis
    using receive_failure_shuts_down [OF sample_rc_inline env yields s ctx] by (simp add: datagram_event_def)
qed

section \<open>A start that fails\<close>

text \<open>What the socket module makes a start fail with.\<close>

definition setup_failure :: "receiver_config \<Rightarrow> socket_setup \<Rightarrow> exn option" where
  "setup_failure rc setup =
     (case su_create_error setup of
        Some e \<Rightarrow> Some e
      | None \<Rightarrow> (case su_setup_error setup of
          Some e \<Rightarrow> Some e
        | None \<Rightarrow> (case receiver_metadata rc setup of Inl e \<Rightarrow> Some e | Inr _ \<Rightarrow> None)))"

definition starting_up ::
    "component_lifecycle_state \<Rightarrow> socket_setup \<Rightarrow> nat \<Rightarrow> nat set \<Rightarrow> network_event list \<Rightarrow> receiver \<Rightarrow> bool" where
  "starting_up st setup k K evs s \<longleftrightarrow> dg_lifecycle_state s = st \<and> dg_setup s = setup \<and>
     dg_next_socket s = k \<and> dg_sockets s = K \<and> d_worker_task s = None \<and> d_delivered s = evs"

lemma wp_emit_starting:
  assumes "dc_dispatch_mode cfg = INLINE" "handler_returns env" "starting_up st setup k K evs s"
    and "\<And>s'. starting_up st setup k K (evs @ [e]) s' \<Longrightarrow> dg_sock s' = dg_sock s \<Longrightarrow>
      dg_running s' = dg_running s \<Longrightarrow> Q () s'"
  shows "wp t (emit env cfg ctx e) Q E s"
proof (rule wp_emit_inline [OF assms(1,2)])
  fix a :: unit and s' :: receiver
  assume d: "d_delivered s' = d_delivered s @ [e]" "d_worker_task s' = d_worker_task s" and more: "disp.more s' = disp.more s"
  have "starting_up st setup k K (evs @ [e]) s'"
    using assms(3) d receiver_more_own [OF more] by (simp add: starting_up_def)
  then show "Q a s'" using assms(4) receiver_more_own(3,4) [OF more] by simp
qed



end
