(* ===== verification/Factory.thy ===== *)
theory Factory
  imports Udp_Sender Client_Safety Server_Safety Receiver_Safety
begin

text \<open>
  Models \<^verbatim>\<open>asyncio_network_factory.py\<close>: the methods of the factory, which check the heartbeat
  provider and construct the components.  What a method accepts is typed, and what it returns
  is its component in the initial state that the component's invariant starts from.
\<close>

section \<open>The factory\<close>

definition create_tcp_client ::
    "tcp_client_settings \<Rightarrow> attribute \<Rightarrow> attribute option \<Rightarrow> (nat \<Rightarrow> rat) \<Rightarrow> connection \<Rightarrow>
     exn + (client_config \<times> client)" where
  "create_tcp_client settings event_handler heartbeat_provider draw no_connection =
     bindR (validate_heartbeat_provider (cs_heartbeat settings) heartbeat_provider) (\<lambda>_.
       client_init settings event_handler heartbeat_provider draw no_connection)"

definition create_tcp_server ::
    "tcp_server_settings \<Rightarrow> attribute \<Rightarrow> attribute option \<Rightarrow> connection \<Rightarrow>
     (exn + listen_candidate list) \<Rightarrow> exn + (server_config \<times> server)" where
  "create_tcp_server settings event_handler heartbeat_provider no_connection addrinfo =
     bindR (validate_heartbeat_provider (ss_heartbeat settings) heartbeat_provider) (\<lambda>_.
       server_init settings event_handler heartbeat_provider no_connection addrinfo)"

definition create_multicast_receiver ::
    "multicast_receiver_settings \<Rightarrow> attribute \<Rightarrow> bool \<Rightarrow> connection \<Rightarrow> socket_setup \<Rightarrow>
     exn + (receiver_config \<times> receiver)" where
  "create_multicast_receiver settings event_handler has_sock_recvfrom no_connection setup =
     multicast_receiver_init settings event_handler has_sock_recvfrom no_connection setup"

definition create_udp_receiver ::
    "udp_receiver_settings \<Rightarrow> attribute \<Rightarrow> bool \<Rightarrow> connection \<Rightarrow> socket_setup \<Rightarrow>
     exn + (receiver_config \<times> receiver)" where
  "create_udp_receiver settings event_handler has_sock_recvfrom no_connection setup =
     udp_receiver_init settings event_handler has_sock_recvfrom no_connection setup"

definition create_udp_sender :: "udp_sender_settings \<Rightarrow> exn + udp_sender" where
  "create_udp_sender settings = udp_sender_init settings"

section \<open>What the factory accepts and returns\<close>

definition async_attribute :: "attribute \<Rightarrow> bool" where
  "async_attribute a \<longleftrightarrow> (\<exists>itself call. a = IsCallable itself call \<and> (itself \<or> call))"

definition provider_fits :: "heartbeat_settings \<Rightarrow> attribute option \<Rightarrow> bool" where
  "provider_fits settings provider \<longleftrightarrow>
     (case provider of None \<Rightarrow> hs_enabled settings = PBool False | Some a \<Rightarrow> async_attribute a)"

lemma async_callable_iff: "async_callable a = Inr u \<longleftrightarrow> async_attribute a"
  by (auto simp: async_callable_def async_attribute_def split: attribute.split)

lemma validate_heartbeat_provider_iff:
  "wf_heartbeat settings \<Longrightarrow>
     validate_heartbeat_provider settings provider = Inr u \<longleftrightarrow> provider_fits settings provider"
  by (auto simp: validate_heartbeat_provider_def provider_fits_def async_callable_iff wf_heartbeat_def
      split: option.split)

lemma disp_init_callback:
  "(\<exists>r. disp_init on_event cfg None (Some c) = Inr r) \<longleftrightarrow> async_attribute on_event"
  by (auto simp: disp_init_def bindR_Inr validate_async_event_handler_def async_callable_iff Let_def
      stop_policy_stop_component_def stop_policy_validate_def)

lemma new_backoff_iff: "wf_reconnect s \<Longrightarrow> \<exists>b. new_backoff s = Inr b"
  by (auto simp: new_backoff_def bindR_Inr simp flip: reconnect_validate_iff)

text \<open>A constructor that succeeds exactly under \<open>ok\<close> and whose products satisfy \<open>P\<close>.\<close>

lemma productI:
  assumes "\<And>cfg s. r = Inr (cfg, s) \<Longrightarrow> ok \<and> P cfg s" "ok \<Longrightarrow> \<exists>x. r = Inr x"
  shows "case r of Inl _ \<Rightarrow> \<not> ok | Inr (cfg, s) \<Rightarrow> ok \<and> P cfg s"
  using assms by (cases r) auto

lemma disp_init_handler: "disp_init on_event cfg None (Some c) = Inr r \<Longrightarrow> async_attribute on_event"
  using disp_init_callback by blast

lemma tcp_client_product:
  "case create_tcp_client cs h p draw nc of
      Inl _ \<Rightarrow> \<not> (wf_tcp_client cs \<and> async_attribute h \<and> provider_fits (cs_heartbeat cs) p)
    | Inr (cc, c) \<Rightarrow> (wf_tcp_client cs \<and> async_attribute h \<and> provider_fits (cs_heartbeat cs) p) \<and>
        client_inv (cc_component_id cc) c \<and> cl_lifecycle_state c = STOPPED \<and> cc_settings cc = cs"
proof (rule productI)
  fix cc c
  assume r: "create_tcp_client cs h p draw nc = Inr (cc, c)"
  then have i: "client_init cs h p draw nc = Inr (cc, c)" "validate_heartbeat_provider (cs_heartbeat cs) p = Inr ()"
    by (auto simp: create_tcp_client_def bindR_Inr)
  then have wf: "wf_tcp_client cs" by (auto simp: client_init_def bindR_Inr tcp_client_checks)
  have "async_attribute h" "cc_settings cc = cs"
    using i(1) by (auto simp: client_init_def bindR_Inr Let_def dest: disp_init_handler)
  moreover have "provider_fits (cs_heartbeat cs) p"
    using wf i(2) validate_heartbeat_provider_iff by (simp add: wf_tcp_client_def)
  ultimately
  show "(wf_tcp_client cs \<and> async_attribute h \<and> provider_fits (cs_heartbeat cs) p) \<and>
        client_inv (cc_component_id cc) c \<and> cl_lifecycle_state c = STOPPED \<and> cc_settings cc = cs"
    using wf client_init_inv [OF i(1)] by simp
next
  assume ok: "wf_tcp_client cs \<and> async_attribute h \<and> provider_fits (cs_heartbeat cs) p"
  then have "validate_heartbeat_provider (cs_heartbeat cs) p = Inr ()"
    by (simp add: wf_tcp_client_def validate_heartbeat_provider_iff)
  then show "\<exists>x. create_tcp_client cs h p draw nc = Inr x"
    using ok new_backoff_iff [of "cs_reconnect cs"] disp_init_callback [of h]
    by (auto simp: create_tcp_client_def client_init_def bindR_Inr tcp_client_checks Let_def wf_tcp_client_def)
qed

lemma tcp_server_product:
  "case create_tcp_server ss h p nc addrinfo of
      Inl _ \<Rightarrow> \<not> (wf_tcp_server ss \<and> async_attribute h \<and> provider_fits (ss_heartbeat ss) p)
    | Inr (sc, v) \<Rightarrow> (wf_tcp_server ss \<and> async_attribute h \<and> provider_fits (ss_heartbeat ss) p) \<and>
        server_inv sc v \<and> sv_lifecycle_state v = STOPPED \<and> sc_settings sc = ss"
proof (rule productI)
  fix sc v
  assume r: "create_tcp_server ss h p nc addrinfo = Inr (sc, v)"
  then have i: "server_init ss h p nc addrinfo = Inr (sc, v)" "validate_heartbeat_provider (ss_heartbeat ss) p = Inr ()"
    by (auto simp: create_tcp_server_def bindR_Inr)
  then have wf: "wf_tcp_server ss" by (auto simp: server_init_def bindR_Inr tcp_server_checks)
  have "async_attribute h" "sc_settings sc = ss"
    using i(1) by (auto simp: server_init_def bindR_Inr Let_def dest: disp_init_handler)
  moreover have "provider_fits (ss_heartbeat ss) p"
    using wf i(2) validate_heartbeat_provider_iff by (simp add: wf_tcp_server_def)
  ultimately
  show "(wf_tcp_server ss \<and> async_attribute h \<and> provider_fits (ss_heartbeat ss) p) \<and>
        server_inv sc v \<and> sv_lifecycle_state v = STOPPED \<and> sc_settings sc = ss"
    using wf server_init_inv [OF i(1)] by simp
next
  assume ok: "wf_tcp_server ss \<and> async_attribute h \<and> provider_fits (ss_heartbeat ss) p"
  then have "validate_heartbeat_provider (ss_heartbeat ss) p = Inr ()"
    by (simp add: wf_tcp_server_def validate_heartbeat_provider_iff)
  then show "\<exists>x. create_tcp_server ss h p nc addrinfo = Inr x"
    using ok disp_init_callback [of h]
    by (auto simp: create_tcp_server_def server_init_def bindR_Inr tcp_server_checks Let_def wf_tcp_server_def)
qed

lemma udp_receiver_product:
  "case create_udp_receiver us h b nc setup of
      Inl _ \<Rightarrow> \<not> (wf_udp_receiver us \<and> async_attribute h)
    | Inr (rc, r) \<Rightarrow> (wf_udp_receiver us \<and> async_attribute h) \<and>
        receiver_inv rc r \<and> dg_lifecycle_state r = STOPPED \<and> rc_settings rc = Udp_settings us"
proof (rule productI)
  fix rc r
  assume i: "create_udp_receiver us h b nc setup = Inr (rc, r)"
  then have "new_receiver rc r" by (auto simp: create_udp_receiver_def new_receiver_def)
  moreover have "wf_udp_receiver us \<and> async_attribute h \<and> dg_lifecycle_state r = STOPPED \<and> rc_settings rc = Udp_settings us"
    using i by (auto simp: create_udp_receiver_def udp_receiver_init_def bindR_Inr udp_receiver_checks Let_def
        receiver_base_init_def transport.defs dest: disp_init_handler)
  ultimately show "(wf_udp_receiver us \<and> async_attribute h) \<and> receiver_inv rc r \<and> dg_lifecycle_state r = STOPPED \<and>
      rc_settings rc = Udp_settings us"
    by (simp add: new_receiver_inv)
next
  assume "wf_udp_receiver us \<and> async_attribute h"
  then show "\<exists>x. create_udp_receiver us h b nc setup = Inr x"
    using disp_init_callback [of h]
    by (auto simp: create_udp_receiver_def udp_receiver_init_def bindR_Inr udp_receiver_checks Let_def)
qed

lemma multicast_receiver_product:
  "case create_multicast_receiver ms h b nc setup of
      Inl _ \<Rightarrow> \<not> (wf_multicast ms \<and> async_attribute h)
    | Inr (rc, r) \<Rightarrow> (wf_multicast ms \<and> async_attribute h) \<and>
        receiver_inv rc r \<and> dg_lifecycle_state r = STOPPED \<and> rc_settings rc = Multicast_settings ms"
proof (rule productI)
  fix rc r
  assume i: "create_multicast_receiver ms h b nc setup = Inr (rc, r)"
  then have "new_receiver rc r" by (auto simp: create_multicast_receiver_def new_receiver_def)
  moreover have "wf_multicast ms \<and> async_attribute h \<and> dg_lifecycle_state r = STOPPED \<and> rc_settings rc = Multicast_settings ms"
    using i by (auto simp: create_multicast_receiver_def multicast_receiver_init_def bindR_Inr multicast_checks Let_def
        receiver_base_init_def transport.defs dest: disp_init_handler)
  ultimately show "(wf_multicast ms \<and> async_attribute h) \<and> receiver_inv rc r \<and> dg_lifecycle_state r = STOPPED \<and>
      rc_settings rc = Multicast_settings ms"
    by (simp add: new_receiver_inv)
next
  assume "wf_multicast ms \<and> async_attribute h"
  then show "\<exists>x. create_multicast_receiver ms h b nc setup = Inr x"
    using disp_init_callback [of h]
    by (auto simp: create_multicast_receiver_def multicast_receiver_init_def bindR_Inr multicast_checks Let_def)
qed

text \<open>
  C28: Every factory method succeeds exactly on well-typed arguments: settings whose fields have
  their declared types and ranges, an event handler with an async \<open>on_event\<close>, and for TCP a
  heartbeat provider that is absent only when heartbeats are disabled and otherwise has an
  async \<open>create_heartbeat\<close>.  The component it returns is STOPPED, in the initial state from
  which its invariant is kept, and has the settings it was given.
\<close>
theorem factory_products_typed:
  "(case create_tcp_client cs h p draw nc of
      Inl _ \<Rightarrow> \<not> (wf_tcp_client cs \<and> async_attribute h \<and> provider_fits (cs_heartbeat cs) p)
    | Inr (cc, c) \<Rightarrow> (wf_tcp_client cs \<and> async_attribute h \<and> provider_fits (cs_heartbeat cs) p) \<and>
        client_inv (cc_component_id cc) c \<and> cl_lifecycle_state c = STOPPED \<and> cc_settings cc = cs) \<and>
   (case create_tcp_server ss h p nc addrinfo of
      Inl _ \<Rightarrow> \<not> (wf_tcp_server ss \<and> async_attribute h \<and> provider_fits (ss_heartbeat ss) p)
    | Inr (sc, v) \<Rightarrow> (wf_tcp_server ss \<and> async_attribute h \<and> provider_fits (ss_heartbeat ss) p) \<and>
        server_inv sc v \<and> sv_lifecycle_state v = STOPPED \<and> sc_settings sc = ss) \<and>
   (case create_udp_receiver us h b nc setup of
      Inl _ \<Rightarrow> \<not> (wf_udp_receiver us \<and> async_attribute h)
    | Inr (rc, r) \<Rightarrow> (wf_udp_receiver us \<and> async_attribute h) \<and>
        receiver_inv rc r \<and> dg_lifecycle_state r = STOPPED \<and> rc_settings rc = Udp_settings us) \<and>
   (case create_multicast_receiver ms h b nc setup of
      Inl _ \<Rightarrow> \<not> (wf_multicast ms \<and> async_attribute h)
    | Inr (rc, r) \<Rightarrow> (wf_multicast ms \<and> async_attribute h) \<and>
        receiver_inv rc r \<and> dg_lifecycle_state r = STOPPED \<and> rc_settings rc = Multicast_settings ms) \<and>
   (case create_udp_sender ns of
      Inl _ \<Rightarrow> \<not> wf_udp_sender ns
    | Inr u \<Rightarrow> wf_udp_sender ns \<and> \<not> un_socket u \<and> un_open u = 0)"
proof -
  have "case create_udp_sender ns of Inl _ \<Rightarrow> \<not> wf_udp_sender ns
      | Inr u \<Rightarrow> wf_udp_sender ns \<and> \<not> un_socket u \<and> un_open u = 0"
    using udp_sender_checks [of ns]
    by (auto simp: create_udp_sender_def udp_sender_init_def bindR_Inr split: sum.split)
  then show ?thesis
    using tcp_client_product tcp_server_product udp_receiver_product multicast_receiver_product
    by (intro conjI)
qed

end
