(* ===== verification/Framing.thy ===== *)
theory Framing
  imports Connection_Behaviour
begin

text \<open>
  Models \<^verbatim>\<open>examples/tcp_framing_length_prefix.py\<close>: length-prefixed framing on top of the
  library's byte stream.  The header, the catalogue of message types, encoding and decoding, the
  dispatcher and the handler that cuts frames out of the chunks a connection delivers.  The JSON
  text of a message is a parameter (\<open>dumps\<close>, \<open>loads\<close>); the theorem needs of it only that loading
  inverts dumping.  Printing is left out.
\<close>

section \<open>Wire format\<close>

definition HEADER_SIZE :: nat where "HEADER_SIZE = 8"

definition MAX_PAYLOAD_BYTES :: int where "MAX_PAYLOAD_BYTES = 1048576"

record common_message_header =
  ch_type_id :: int
  ch_payload_length :: int

text \<open>One field of \<open>struct.pack(">II", ...)\<close>: four bytes, the highest first; \<open>struct.error\<close> out of range.\<close>

definition pack_u32 :: "int \<Rightarrow> exn + nat list" where
  "pack_u32 n =
     (if 0 \<le> n \<and> n < 2 ^ 32
      then Inr [nat (n div 2 ^ 24) mod 256, nat (n div 2 ^ 16) mod 256, nat (n div 2 ^ 8) mod 256, nat n mod 256]
      else Inl (Exn (OtherException ''struct.error'') ''format requires 0 <= number <= 4294967295''))"

definition unpack_u32 :: "nat list \<Rightarrow> int" where
  "unpack_u32 bs = int (foldl (\<lambda>a b. a * 256 + b) 0 bs)"

definition pack_header :: "common_message_header \<Rightarrow> exn + nat list" where
  "pack_header h =
     bindR (pack_u32 (ch_type_id h)) (\<lambda>t. bindR (pack_u32 (ch_payload_length h)) (\<lambda>l. Inr (t @ l)))"

definition unpack_header :: "nat list \<Rightarrow> exn + common_message_header" where
  "unpack_header buffer =
     (if length buffer = HEADER_SIZE
      then Inr \<lparr>ch_type_id = unpack_u32 (take 4 buffer), ch_payload_length = unpack_u32 (drop 4 buffer)\<rparr>
      else Inl (Exn (OtherException ''struct.error'') ''unpack requires a buffer of 8 bytes''))"

section \<open>Messages\<close>

datatype message =
    Heartbeat_message int string int
  | TelemetryUpdate string int rat rat int
  | CommandRequest string string string "string list" int
  | CommandAck string bool string string int
  | EventNotification string string string string string int string

datatype message_class =
  Heartbeat_class | Telemetry_class | Request_class | Ack_class | Notification_class

fun class_of_message :: "message \<Rightarrow> message_class" where
  "class_of_message (Heartbeat_message _ _ _) = Heartbeat_class"
| "class_of_message (TelemetryUpdate _ _ _ _ _) = Telemetry_class"
| "class_of_message (CommandRequest _ _ _ _ _) = Request_class"
| "class_of_message (CommandAck _ _ _ _ _) = Ack_class"
| "class_of_message (EventNotification _ _ _ _ _ _ _) = Notification_class"

definition MESSAGE_TYPE_TO_CLASS :: "(int \<times> message_class) list" where
  "MESSAGE_TYPE_TO_CLASS =
     [(1, Heartbeat_class), (2, Telemetry_class), (3, Request_class), (4, Ack_class), (5, Notification_class)]"

text \<open>The first type id whose class the message is an instance of.\<close>

definition type_id_of :: "message \<Rightarrow> int" where
  "type_id_of message = fst (the (find (\<lambda>(_, c). class_of_message message = c) MESSAGE_TYPE_TO_CLASS))"

definition encode_message :: "(message \<Rightarrow> nat list) \<Rightarrow> message \<Rightarrow> exn + nat list" where
  "encode_message dumps message =
     (let payload = dumps message
      in bindR (pack_header \<lparr>ch_type_id = type_id_of message, ch_payload_length = int (length payload)\<rparr>)
           (\<lambda>header. Inr (header @ payload)))"

definition decode_message ::
    "(message_class \<Rightarrow> nat list \<Rightarrow> exn + message) \<Rightarrow> int \<Rightarrow> nat list \<Rightarrow> exn + message" where
  "decode_message loads type_id payload =
     (case map_of MESSAGE_TYPE_TO_CLASS type_id of
        None \<Rightarrow> Inl (Exn (OtherException ''KeyError'') (show_int type_id))
      | Some message_class \<Rightarrow> loads message_class payload)"

section \<open>Dispatcher and framing handler\<close>

text \<open>
  The dispatcher's handlers are numbered; \<open>fr_calls\<close> records the calls of them, \<open>fr_buffers\<close> are
  the buffers of the connections.  A handler is user code: the function \<open>call\<close> says what it
  raises and how it changes the state.
\<close>

record framing =
  fr_handlers :: "int \<rightharpoonup> nat"
  fr_buffers :: "string \<rightharpoonup> nat list"
  fr_calls :: "(nat \<times> message) list"

type_synonym handler_call = "nat \<Rightarrow> message \<Rightarrow> framing \<Rightarrow> exn option \<times> framing"

definition framing_init :: framing where
  "framing_init = \<lparr>fr_handlers = Map.empty, fr_buffers = Map.empty, fr_calls = []\<rparr>"

definition register_message :: "int \<Rightarrow> nat \<Rightarrow> framing \<Rightarrow> framing" where
  "register_message type_id handler s = s\<lparr>fr_handlers := (fr_handlers s)(type_id \<mapsto> handler)\<rparr>"

definition dispatch_message :: "handler_call \<Rightarrow> int \<Rightarrow> message \<Rightarrow> (framing, unit) prog" where
  "dispatch_message call type_id message =
     bindE (getsE (\<lambda>s. fr_handlers s type_id)) (\<lambda>handler. case handler of
       None \<Rightarrow> ret ()
     | Some h \<Rightarrow>
         seqE (modifyE (\<lambda>s. s\<lparr>fr_calls := fr_calls s @ [(h, message)]\<rparr>))
           (\<lambda>s. case call h message s of
              (None, s1) \<Rightarrow> Some (Inr (), s1)
            | (Some e, s1) \<Rightarrow> Some (Inl e, s1)))"

text \<open>\<open>buffer\<close> is the object in the table: no entry of it is ever removed.\<close>

definition buffer_of :: "string \<Rightarrow> framing \<Rightarrow> nat list" where
  "buffer_of rid s = (case fr_buffers s rid of None \<Rightarrow> [] | Some b \<Rightarrow> b)"

definition set_buffer :: "string \<Rightarrow> nat list \<Rightarrow> framing \<Rightarrow> framing" where
  "set_buffer rid b s = s\<lparr>fr_buffers := (fr_buffers s)(rid \<mapsto> b)\<rparr>"

text \<open>One pass of the loop of \<open>on_bytes_received\<close>.\<close>

definition frame_turn ::
    "handler_call \<Rightarrow> (message_class \<Rightarrow> nat list \<Rightarrow> exn + message) \<Rightarrow> string \<Rightarrow> unit \<Rightarrow>
     (framing, (unit, unit) turn) prog" where
  "frame_turn call loads rid _ =
     bindE (getsE (buffer_of rid)) (\<lambda>buffer.
       if length buffer < HEADER_SIZE then ret (Leave ())
       else bindE (liftR (unpack_header (take HEADER_SIZE buffer))) (\<lambda>header.
         if ch_payload_length header > MAX_PAYLOAD_BYTES
         then seqE (modifyE (set_buffer rid [])) (ret (Leave ()))
         else
           let frame_end = HEADER_SIZE + nat (ch_payload_length header)
           in if length buffer < frame_end then ret (Leave ())
              else
                let payload = drop HEADER_SIZE (take frame_end buffer)
                in seqE (modifyE (set_buffer rid (drop frame_end buffer)))
                     (case decode_message loads (ch_type_id header) payload of
                        Inl e \<Rightarrow> if is_Exception e then ret (Again ()) else raiseE e
                      | Inr message \<Rightarrow>
                          seqE (dispatch_message call (ch_type_id header) message) (ret (Again ())))))"

definition on_bytes_received ::
    "handler_call \<Rightarrow> (message_class \<Rightarrow> nat list \<Rightarrow> exn + message) \<Rightarrow> string \<Rightarrow> nat list \<Rightarrow>
     (framing, unit) prog" where
  "on_bytes_received call loads rid data =
     seqE (modifyE (\<lambda>s. set_buffer rid (buffer_of rid s @ data) s))
       (loopE (frame_turn call loads rid) ())"

text \<open>The other hooks of the handler do nothing; INLINE delivery hands over the events one by one.\<close>

definition framing_on_event ::
    "handler_call \<Rightarrow> (message_class \<Rightarrow> nat list \<Rightarrow> exn + message) \<Rightarrow> network_event \<Rightarrow>
     (framing, unit) prog" where
  "framing_on_event call loads event =
     (case event of
        BytesReceivedEvent rid data _ _ \<Rightarrow> on_bytes_received call loads rid data
      | _ \<Rightarrow> ret ())"

primrec handle_all ::
    "handler_call \<Rightarrow> (message_class \<Rightarrow> nat list \<Rightarrow> exn + message) \<Rightarrow> network_event list \<Rightarrow>
     (framing, unit) prog" where
  "handle_all call loads [] = ret ()"
| "handle_all call loads (event # events) =
     seqE (framing_on_event call loads event) (handle_all call loads events)"

section \<open>Headers and messages\<close>

lemma bytes_of_u32:
  fixes k :: nat
  assumes "k < 2 ^ 32"
  shows "((k div 2 ^ 24 mod 256 * 256 + k div 2 ^ 16 mod 256) * 256 + k div 2 ^ 8 mod 256) * 256 + k mod 256 = k"
proof -
  have "k div 2 ^ 24 mod 256 = k div 2 ^ 24" using assms by (simp add: less_mult_imp_div_less)
  moreover have "k div 2 ^ 24 = k div 2 ^ 16 div 256" "k div 2 ^ 16 = k div 2 ^ 8 div 256"
    "k div 2 ^ 8 = k div 256"
    by (simp_all flip: div_mult2_eq)
  ultimately show ?thesis by (simp only: div_mult_mod_eq)
qed

lemma pack_u32_roundtrip:
  assumes "pack_u32 n = Inr bs"
  shows "length bs = 4" "unpack_u32 bs = n" "0 \<le> n"
proof -
  have n: "0 \<le> n" "n < 2 ^ 32" using assms by (auto simp: pack_u32_def split: if_splits)
  define k where "k = nat n"
  have k: "n = int k" "k < 2 ^ 32" using n by (auto simp: k_def nat_less_iff)
  have bs: "bs = [k div 2 ^ 24 mod 256, k div 2 ^ 16 mod 256, k div 2 ^ 8 mod 256, k mod 256]"
    using assms n by (auto simp: pack_u32_def k(1) nat_div_distrib split: if_splits)
  show "length bs = 4" by (simp add: bs)
  have "foldl (\<lambda>a b. a * 256 + b) 0 bs = k"
    unfolding bs using bytes_of_u32 [OF k(2)] by (simp only: foldl.simps mult_zero_left add_0)
  then show "unpack_u32 bs = n" by (simp add: unpack_u32_def k(1))
  show "0 \<le> n" by (rule n)
qed

text \<open>An encoded message as the reader takes it apart.\<close>

definition frame_parts :: "nat list \<Rightarrow> int \<Rightarrow> nat list \<Rightarrow> bool" where
  "frame_parts frame type_id payload \<longleftrightarrow>
     length frame = HEADER_SIZE + length payload \<and> drop HEADER_SIZE frame = payload \<and>
     unpack_header (take HEADER_SIZE frame) =
       Inr \<lparr>ch_type_id = type_id, ch_payload_length = int (length payload)\<rparr>"

lemma encode_message_parts:
  assumes "encode_message dumps message = Inr frame"
  shows "frame_parts frame (type_id_of message) (dumps message)"
proof -
  obtain t l where tl: "pack_u32 (type_id_of message) = Inr t" "pack_u32 (int (length (dumps message))) = Inr l"
    "frame = (t @ l) @ dumps message"
    using assms by (auto simp: encode_message_def pack_header_def bindR_Inr Let_def)
  show ?thesis
    using pack_u32_roundtrip [OF tl(1)] pack_u32_roundtrip [OF tl(2)]
    by (simp add: frame_parts_def unpack_header_def HEADER_SIZE_def tl(3))
qed

lemma type_id_of_class: "map_of MESSAGE_TYPE_TO_CLASS (type_id_of message) = Some (class_of_message message)"
  by (cases message) (simp_all add: type_id_of_def MESSAGE_TYPE_TO_CLASS_def)

section \<open>Cutting frames out of a stream\<close>

text \<open>What the theorem asks of the messages, of the handlers and of the JSON codec.\<close>

definition sendable ::
    "(message \<Rightarrow> nat list) \<Rightarrow> (message_class \<Rightarrow> nat list \<Rightarrow> exn + message) \<Rightarrow> framing \<Rightarrow> message \<Rightarrow> bool" where
  "sendable dumps loads s message \<longleftrightarrow>
     int (length (dumps message)) \<le> MAX_PAYLOAD_BYTES \<and>
     loads (class_of_message message) (dumps message) = Inr message \<and>
     fr_handlers s (type_id_of message) \<noteq> None"

definition handlers_return :: "handler_call \<Rightarrow> bool" where
  "handlers_return call \<longleftrightarrow> (\<forall>h message s. call h message s = (None, s))"

text \<open>The calls that are due for a message.\<close>

definition call_for :: "framing \<Rightarrow> message \<Rightarrow> nat \<times> message" where
  "call_for s message = (the (fr_handlers s (type_id_of message)), message)"

text \<open>
  The state in the middle of a stream: \<open>done\<close> has been dispatched, the buffer holds the start \<open>b\<close>
  of the frames to come, the buffers of the other connections are untouched.
\<close>

definition reading :: "string \<Rightarrow> framing \<Rightarrow> message list \<Rightarrow> nat list \<Rightarrow> framing \<Rightarrow> bool" where
  "reading rid s0 ms b s \<longleftrightarrow> fr_handlers s = fr_handlers s0 \<and>
     fr_calls s = fr_calls s0 @ map (call_for s0) ms \<and> buffer_of rid s = b \<and>
     (\<forall>r. r \<noteq> rid \<longrightarrow> fr_buffers s r = fr_buffers s0 r)"

lemma whole_frame_turn:
  assumes "handlers_return call" "sendable dumps loads s0 m" "encode_message dumps m = Inr f"
    and "reading rid s0 ms (f @ rest) s"
  shows "wp t (frame_turn call loads rid u) (\<lambda>r s'. r = Again () \<and> reading rid s0 (ms @ [m]) rest s') E s"
proof -
  have p: "length f = HEADER_SIZE + length (dumps m)" "drop HEADER_SIZE f = dumps m"
    "unpack_header (take HEADER_SIZE f) =
       Inr \<lparr>ch_type_id = type_id_of m, ch_payload_length = int (length (dumps m))\<rparr>"
    using encode_message_parts [OF assms(3)] by (simp_all add: frame_parts_def)
  obtain h where h: "fr_handlers s (type_id_of m) = Some h" "call_for s0 m = (h, m)"
    using assms(2,4) by (auto simp: sendable_def reading_def call_for_def)
  have returns: "(\<lambda>s. case call h m s of (None, s1) \<Rightarrow> Some (Inr (), s1) | (Some e, s1) \<Rightarrow> Some (Inl e, s1)) =
      ret ()"
    using assms(1) by (simp add: handlers_return_def ret_def fun_eq_iff)
  show ?thesis
    using assms(2,4) h p
    by (auto simp: frame_turn_def wp_simps reading_def Let_def sendable_def dispatch_message_def returns
        decode_message_def type_id_of_class set_buffer_def buffer_of_def)
qed

lemma partial_frame_turn:
  assumes "encode_message dumps m = Inr f" "int (length (dumps m)) \<le> MAX_PAYLOAD_BYTES"
    and "f = b @ rest" "rest \<noteq> []" "reading rid s0 ms b s"
  shows "wp t (frame_turn call loads rid u) (\<lambda>r s'. r = Leave () \<and> s' = s) E s"
proof -
  have p: "length f = HEADER_SIZE + length (dumps m)"
    "unpack_header (take HEADER_SIZE f) =
       Inr \<lparr>ch_type_id = type_id_of m, ch_payload_length = int (length (dumps m))\<rparr>"
    using encode_message_parts [OF assms(1)] by (simp_all add: frame_parts_def)
  have "length b < HEADER_SIZE + length (dumps m)"
    using p(1) assms(3,4) by (cases rest) auto
  moreover have "take HEADER_SIZE f = take HEADER_SIZE b" if "\<not> length b < HEADER_SIZE"
    using that by (simp add: assms(3))
  ultimately show ?thesis
    using assms(2,5) p(2) by (auto simp: frame_turn_def wp_simps reading_def Let_def)
qed

text \<open>The encodings of a sequence of messages, one after the other.\<close>

definition encodes :: "(message \<Rightarrow> nat list) \<Rightarrow> message list \<Rightarrow> nat list list \<Rightarrow> bool" where
  "encodes dumps ms frames \<longleftrightarrow> list_all2 (\<lambda>m f. encode_message dumps m = Inr f) ms frames"

lemma frame_loop:
  assumes "handlers_return call" "encodes dumps ms frames" "list_all (sendable dumps loads s0) ms"
    and "b @ rest = concat frames" "reading rid s0 past b s"
  shows "wp False (loopE (frame_turn call loads rid) ())
    (\<lambda>_ s'. \<exists>n b'. b' @ rest = concat (drop n frames) \<and> n \<le> length ms \<and>
       reading rid s0 (past @ take n ms) b' s' \<and> (rest = [] \<longrightarrow> n = length ms)) (\<lambda>_ _. False) s"
  using assms(2-5)
proof (induction ms arbitrary: frames b past s)
  case Nil
  then have b: "b = []" "rest = []" "frames = []" by (simp_all add: encodes_def)
  then have "wp False (frame_turn call loads rid ()) (\<lambda>r s'. r = Leave () \<and> s' = s) (\<lambda>_ _. False) s"
    using Nil.prems(4) by (simp add: frame_turn_def wp_simps reading_def HEADER_SIZE_def)
  then show ?case
    using Nil.prems(4) b by (auto intro!: wp_loopE_step elim!: wp_mono)
next
  case (Cons m ms)
  obtain f fs where fr: "frames = f # fs" "encode_message dumps m = Inr f" "encodes dumps ms fs"
    using Cons.prems(1) by (auto simp: encodes_def list_all2_Cons1)
  have m: "sendable dumps loads s0 m" "list_all (sendable dumps loads s0) ms" using Cons.prems(2) by simp_all
  show ?case
  proof (cases "length f \<le> length b")
    case True
    define b1 where "b1 = drop (length f) b"
    have b1: "b = f @ b1" "b1 @ rest = concat fs"
      using True Cons.prems(3) fr(1) by (auto simp: b1_def append_eq_append_conv2)
    have turn: "wp False (frame_turn call loads rid ())
        (\<lambda>r s'. r = Again () \<and> reading rid s0 (past @ [m]) b1 s') (\<lambda>_ _. False) s"
      using Cons.prems(4) by (intro whole_frame_turn [OF assms(1) m(1) fr(2)]) (simp add: b1(1))
    have rest: "wp False (loopE (frame_turn call loads rid) ())
        (\<lambda>_ s'. \<exists>n b'. b' @ rest = concat (drop n frames) \<and> n \<le> length (m # ms) \<and>
           reading rid s0 (past @ take n (m # ms)) b' s' \<and> (rest = [] \<longrightarrow> n = length (m # ms))) (\<lambda>_ _. False) s'"
      if "reading rid s0 (past @ [m]) b1 s'" for s'
    proof (rule wp_mono [OF Cons.IH [OF fr(3) m(2) b1(2) that]])
      fix a :: unit and s''
      assume "\<exists>n b'. b' @ rest = concat (drop n fs) \<and> n \<le> length ms \<and>
        reading rid s0 ((past @ [m]) @ take n ms) b' s'' \<and> (rest = [] \<longrightarrow> n = length ms)"
      then obtain n b' where "b' @ rest = concat (drop n fs)" "n \<le> length ms"
        "reading rid s0 ((past @ [m]) @ take n ms) b' s''" "rest = [] \<longrightarrow> n = length ms"
        by blast
      then show "\<exists>n b'. b' @ rest = concat (drop n frames) \<and> n \<le> length (m # ms) \<and>
        reading rid s0 (past @ take n (m # ms)) b' s'' \<and> (rest = [] \<longrightarrow> n = length (m # ms))"
        by (intro exI [of _ "Suc n"] exI [of _ b']) (simp add: fr(1))
    qed simp
    show ?thesis
      by (rule wp_loopE_step, rule wp_mono [OF turn]) (auto intro: rest [simplified])
  next
    case False
    define r where "r = drop (length b) f"
    have r: "f = b @ r" "r \<noteq> []" "rest = r @ concat fs"
      using False Cons.prems(3) fr(1) by (auto simp: r_def append_eq_append_conv2)
    have turn: "wp False (frame_turn call loads rid ()) (\<lambda>r s'. r = Leave () \<and> s' = s) (\<lambda>_ _. False) s"
      using m(1) Cons.prems(4)
      by (intro partial_frame_turn [OF fr(2) _ r(1,2)]) (simp_all add: sendable_def)
    show ?thesis
      by (rule wp_loopE_step, rule wp_mono [OF turn])
        (use Cons.prems(3,4) r(2,3) in \<open>auto intro!: exI [of _ "0::nat"] exI [of _ b]\<close>)
  qed
qed

definition chunk_events :: "string \<Rightarrow> nat list list \<Rightarrow> network_event list" where
  "chunk_events rid chunks = map (\<lambda>data. BytesReceivedEvent rid data None None) chunks"

lemma chunk_events_simps [simp]:
  "chunk_events rid [] = []"
  "chunk_events rid (d # ds) = BytesReceivedEvent rid d None None # chunk_events rid ds"
  by (simp_all add: chunk_events_def)

lemma handle_chunks:
  assumes "handlers_return call" "encodes dumps ms frames" "list_all (sendable dumps loads s0) ms"
    and "b @ concat chunks = concat frames" "reading rid s0 past b s" "chunks = [] \<longrightarrow> ms = []"
  shows "wp False (handle_all call loads (chunk_events rid chunks))
    (\<lambda>_. reading rid s0 (past @ ms) []) (\<lambda>_ _. False) s"
  using assms(2-6)
proof (induction chunks arbitrary: b past ms frames s)
  case Nil
  then show ?case by (simp add: wp_simps encodes_def)
next
  case (Cons data chunks)
  have s1: "reading rid s0 past (b @ data) (set_buffer rid (buffer_of rid s @ data) s)"
    using Cons.prems(4) by (auto simp: reading_def set_buffer_def buffer_of_def)
  have stream: "(b @ data) @ concat chunks = concat frames" using Cons.prems(3) by simp
  have later: "wp False (handle_all call loads (chunk_events rid chunks))
      (\<lambda>_. reading rid s0 (past @ ms) []) (\<lambda>_ _. False) s'"
    if "b' @ concat chunks = concat (drop n frames)" "n \<le> length ms" "reading rid s0 (past @ take n ms) b' s'"
      "concat chunks = [] \<longrightarrow> n = length ms" for n b' s'
  proof -
    have "encodes dumps (drop n ms) (drop n frames)" "list_all (sendable dumps loads s0) (drop n ms)"
      using Cons.prems(1,2) by (auto simp: encodes_def list_all_iff dest: in_set_dropD)
    then have "wp False (handle_all call loads (chunk_events rid chunks))
        (\<lambda>_. reading rid s0 ((past @ take n ms) @ drop n ms) []) (\<lambda>_ _. False) s'"
      using that by (intro Cons.IH) auto
    then show ?thesis by simp
  qed
  show ?case
    by (simp add: framing_on_event_def on_bytes_received_def wp_simps,
        rule wp_mono [OF frame_loop [OF assms(1) Cons.prems(1,2) stream s1]])
      (auto intro: later)
qed

text \<open>
  C27: Framing survives the transport.  When a peer sends the encodings of \<open>ms\<close> over a connection,
  cut into non-empty chunks anywhere, and then closes, the connection's read loop delivers events
  that make the framing handler call exactly the registered handlers, once for each message, in
  order, with the decoded message; nothing is left in the connection's buffer and the buffers of
  other connections are untouched.  Payloads are within the cap of 1 MiB and the JSON codec reads
  back what it wrote.
\<close>
theorem framed_messages_arrive:
  assumes "dc_dispatch_mode cfg = INLINE" "handler_returns env"
    and "reads_chunks env c (length (d_delivered t)) chunks"
    and "[] \<notin> set chunks" "cn_state (t_conns t c) = CONNECTED"
    and "handlers_return call" "buffer_of (the_id c t) s = []" "list_all (sendable dumps loads s) ms"
    and "encodes dumps ms frames" "concat chunks = concat frames"
  shows "\<exists>t' s'. read_loop_body env cfg ctx c t = Some (Inr (), t') \<and>
    handle_all call loads (drop (length (d_delivered t)) (d_delivered t')) s = Some (Inr (), s') \<and>
    fr_calls s' = fr_calls s @ map (call_for s) ms \<and> buffer_of (the_id c t) s' = [] \<and>
    (\<forall>rid. rid \<noteq> the_id c t \<longrightarrow> fr_buffers s' rid = fr_buffers s rid)"
proof -
  obtain t' where t': "read_loop_body env cfg ctx c t = Some (Inr (), t')"
    "d_delivered t' = d_delivered t @ chunk_events (the_id c t) chunks"
    using read_loop_body_delivers [OF assms(1-5), of 0] by (auto simp: chunk_events_def)
  have "chunks = [] \<longrightarrow> ms = []"
  proof
    assume "chunks = []"
    then have empty: "f = []" if "f \<in> set frames" for f using assms(10) that by simp
    have "f \<noteq> []" if "f \<in> set frames" for f
    proof -
      obtain m where "encode_message dumps m = Inr f"
        using assms(9) \<open>f \<in> set frames\<close> by (auto simp: encodes_def list_all2_conv_all_nth in_set_conv_nth)
      then show ?thesis using encode_message_parts by (fastforce simp: frame_parts_def HEADER_SIZE_def)
    qed
    with empty have "frames = []" by (cases frames) auto
    then show "ms = []" using assms(9) by (simp add: encodes_def)
  qed
  then have "wp False (handle_all call loads (chunk_events (the_id c t) chunks))
      (\<lambda>_. reading (the_id c t) s ([] @ ms) []) (\<lambda>_ _. False) s"
    using assms(7,10) by (intro handle_chunks [OF assms(6,9,8)]) (simp_all add: reading_def)
  then obtain s' where "handle_all call loads (chunk_events (the_id c t) chunks) s = Some (Inr (), s')"
    "reading (the_id c t) s ms [] s'"
    by (auto dest!: wp_valueD)
  then show ?thesis using t' by (auto simp: reading_def)
qed

theorem framed_messages_arrive_witness:
  "\<exists>t' s'. read_loop_body (\<lambda>p s. case p of
       A_read _ \<Rightarrow> (None, s\<lparr>t_data := (let i = length (d_delivered s) in
         if i < 2 then [[0, 0, 0, 1, 0], [0, 0, 1, 7]] ! i else [])\<rparr>)
       | _ \<Rightarrow> (None, s))
     (sample_config\<lparr>dc_dispatch_mode := INLINE\<rparr>) (plain_ctx (Some 5)) 0
     (sample_transport\<lparr>t_conns := \<lambda>_. sample_connection\<lparr>cn_state := CONNECTED\<rparr>\<rparr>) = Some (Inr (), t') \<and>
   handle_all (\<lambda>h message s. (None, s)) (\<lambda>c payload. Inr (Heartbeat_message 1 ''a'' (int (hd payload))))
     (d_delivered t') (register_message 1 9 framing_init) = Some (Inr (), s') \<and>
   fr_calls s' = [(9, Heartbeat_message 1 ''a'' 7)] \<and> buffer_of ''c'' s' = []"
proof -
  let ?chunks = "[[0, 0, 0, 1, 0], [0, 0, 1, 7]] :: nat list list"
  let ?env = "\<lambda>p s. case p of A_read _ \<Rightarrow> (None, s\<lparr>t_data := (let i = length (d_delivered s) in
      if i < 2 then ?chunks ! i else [])\<rparr>) | _ \<Rightarrow> (None, s)"
  let ?cfg = "sample_config\<lparr>dc_dispatch_mode := INLINE\<rparr>"
    and ?t = "sample_transport\<lparr>t_conns := \<lambda>_. sample_connection\<lparr>cn_state := CONNECTED\<rparr>\<rparr>"
    and ?s = "register_message 1 9 framing_init" and ?m = "Heartbeat_message 1 ''a'' 7"
    and ?loads = "\<lambda>(c :: message_class) payload. Inr (Heartbeat_message 1 ''a'' (int (hd payload)))"
  have type: "type_id_of ?m = 1" by (simp add: type_id_of_def MESSAGE_TYPE_TO_CLASS_def)
  have env: "handler_returns ?env" "reads_chunks ?env 0 (length (d_delivered ?t)) ?chunks"
    by (simp_all add: handler_returns_def reads_chunks_def numeral_2_eq_2 del: One_nat_def)
  have call: "handlers_return (\<lambda>h message s. (None, s))" by (simp add: handlers_return_def)
  have send: "list_all (sendable (\<lambda>_. [7]) ?loads ?s) [?m]"
    by (simp add: sendable_def MAX_PAYLOAD_BYTES_def type register_message_def)
  have enc: "encodes (\<lambda>_. [7]) [?m] [[0, 0, 0, 1, 0, 0, 0, 1, 7]]"
    by (simp add: encodes_def encode_message_def pack_header_def pack_u32_def bindR_Inr Let_def type)
  have rid: "the_id 0 ?t = ''c''" by simp
  show ?thesis
    using framed_messages_arrive [OF _ env _ _ call _ send enc, of ?cfg "plain_ctx (Some 5)"]
    by (simp add: buffer_of_def register_message_def framing_init_def call_for_def type rid del: One_nat_def) blast
qed

end
