(* ===== verification/Testing_Support.thy ===== *)
theory Testing_Support
  imports Events Dispatcher
begin

text \<open>
  Models the rest of \<^verbatim>\<open>testing/__init__.py\<close>: the recording handler with milestone flags and the
  polling wait for a condition.
\<close>

section \<open>AwaitableRecordingEventHandler\<close>

record awaitable_handler =
  ah_recording :: recording_handler
  ah_connection_opened :: bool
  ah_bytes_received :: bool
  ah_error_observed :: bool
  ah_connection_closed :: bool
  ah_lifecycle_changed :: bool

definition awaitable_init :: awaitable_handler where
  "awaitable_init =
     \<lparr>ah_recording = recording_init, ah_connection_opened = False, ah_bytes_received = False,
      ah_error_observed = False, ah_connection_closed = False, ah_lifecycle_changed = False\<rparr>"

definition awaitable_on_event :: "network_event \<Rightarrow> awaitable_handler \<Rightarrow> awaitable_handler" where
  "awaitable_on_event event h =
     (let h1 = h\<lparr>ah_recording := recording_on_event event (ah_recording h)\<rparr>
      in case event of
           ConnectionOpenedEvent _ _ \<Rightarrow> h1\<lparr>ah_connection_opened := True\<rparr>
         | BytesReceivedEvent _ _ _ _ \<Rightarrow> h1\<lparr>ah_bytes_received := True\<rparr>
         | NetworkErrorEvent _ _ \<Rightarrow> h1\<lparr>ah_error_observed := True\<rparr>
         | ConnectionClosedEvent _ _ _ \<Rightarrow> h1\<lparr>ah_connection_closed := True\<rparr>
         | ComponentLifecycleChangedEvent _ _ _ \<Rightarrow> h1\<lparr>ah_lifecycle_changed := True\<rparr>
         | _ \<Rightarrow> h1)"

section \<open>wait_for_condition\<close>

text \<open>\<open>clock\<close> reads the time of the event loop.\<close>

definition condition_pass ::
    "'s environment \<Rightarrow> ('s \<Rightarrow> rat) \<Rightarrow> ('s \<Rightarrow> bool) \<Rightarrow> rat \<Rightarrow> rat \<Rightarrow> unit \<Rightarrow> ('s, (unit, unit) turn) prog" where
  "condition_pass env clock condition deadline interval_seconds _ =
     bindE (getsE condition) (\<lambda>holds.
       if holds then ret (Leave ())
       else bindE (getsE clock) (\<lambda>now.
         if now \<ge> deadline then raiseE (Exn TimeoutError ''Timed out waiting for test condition.'')
         else seqE (awaitE env (A_sleep interval_seconds)) (ret (Again ()))))"

definition wait_for_condition ::
    "'s environment \<Rightarrow> ('s \<Rightarrow> rat) \<Rightarrow> ('s \<Rightarrow> bool) \<Rightarrow> rat \<Rightarrow> rat \<Rightarrow> ('s, unit) prog" where
  "wait_for_condition env clock condition timeout_seconds interval_seconds =
     bindE (getsE (\<lambda>s. clock s + timeout_seconds)) (\<lambda>deadline.
       loopE (condition_pass env clock condition deadline interval_seconds) ())"

section \<open>What the tests can rely on\<close>

text \<open>A milestone is set exactly when an event of its type has been handled.\<close>

lemma awaitable_milestones:
  fixes events :: "network_event list"
  defines "h \<equiv> fold awaitable_on_event events awaitable_init"
  shows "ah_connection_opened h \<longleftrightarrow> TConnectionOpened \<in> type_of_event ` set events"
    "ah_bytes_received h \<longleftrightarrow> TBytesReceived \<in> type_of_event ` set events"
    "ah_error_observed h \<longleftrightarrow> TNetworkError \<in> type_of_event ` set events"
    "ah_connection_closed h \<longleftrightarrow> TConnectionClosed \<in> type_of_event ` set events"
    "ah_lifecycle_changed h \<longleftrightarrow> TComponentLifecycleChanged \<in> type_of_event ` set events"
    "ah_recording h = fold recording_on_event events recording_init"
  unfolding h_def
  by (induction events rule: rev_induct)
    (auto simp: awaitable_init_def awaitable_on_event_def Let_def split: network_event.splits)

text \<open>
  The wait ends: when a sleep returns and lets the clock advance by its length, the wait returns
  with the condition true, or raises TimeoutError with the condition false and the deadline
  passed; \<open>n\<close> bounds the number of sleeps.
\<close>

lemma wait_for_condition_ends:
  assumes "0 < interval_seconds"
    and sleep: "\<And>s. fst (env (A_sleep interval_seconds) s) = None \<and>
      clock s + interval_seconds \<le> clock (snd (env (A_sleep interval_seconds) s))"
  shows "wp False (wait_for_condition env clock condition timeout_seconds interval_seconds)
    (\<lambda>_ s'. condition s')
    (\<lambda>e s'. exn_class e = TimeoutError \<and> \<not> condition s' \<and> clock s + timeout_seconds \<le> clock s') s"
proof -
  let ?P = "\<lambda>deadline. wp False (loopE (condition_pass env clock condition deadline interval_seconds) ())
      (\<lambda>_. condition) (\<lambda>e s'. exn_class e = TimeoutError \<and> \<not> condition s' \<and> deadline \<le> clock s')"
  have loop: "?P deadline u" if "deadline - clock u < of_nat n * interval_seconds" for deadline n u
    using that
  proof (induction n arbitrary: u)
    case 0
    then show ?case
      by (intro wp_loopE_step) (simp add: condition_pass_def wp_simps)
  next
    case (Suc n)
    obtain u' where u': "env (A_sleep interval_seconds) u = (None, u')" "clock u + interval_seconds \<le> clock u'"
      using sleep [of u] by (metis prod.collapse)
    then have "deadline - clock u' < of_nat n * interval_seconds"
      using Suc.prems by (simp add: algebra_simps)
    then have "?P deadline u'" by (rule Suc.IH)
    then show ?case
      using u'(1) by (intro wp_loopE_step) (simp add: condition_pass_def wp_simps wp_awaitE)
  qed
  obtain n where "timeout_seconds < of_nat n * interval_seconds"
    using ex_less_of_nat_mult [OF assms(1)] by blast
  then have "?P (clock s + timeout_seconds) s" by (intro loop [of _ _ n]) simp
  then show ?thesis by (simp add: wait_for_condition_def wp_simps)
qed

end
