(* ===== verification/Script_Text.thy ===== *)
theory Script_Text
  imports Validation
begin

text \<open>
  The \<open>str\<close> operations of the release scripts (\<^verbatim>\<open>scripts/ci\<close>): \<open>strip\<close>, \<open>find\<close>, \<open>in\<close>,
  \<open>startswith\<close>, \<open>removeprefix\<close>, \<open>lower\<close>, \<open>casefold\<close>, \<open>splitlines\<close> and \<open>urllib.parse.quote\<close>, on
  texts of code points below 256 as everywhere in the development.
\<close>

section \<open>strip, find, in\<close>

definition lstrip :: "string \<Rightarrow> string" where
  "lstrip s = dropWhile is_space s"

definition str_strip :: "string \<Rightarrow> string" where
  "str_strip s = rev (lstrip (rev (lstrip s)))"

lemma strip_Nil [simp]: "str_strip [] = []"
  by (simp add: str_strip_def lstrip_def)

lemma dropWhile_rev_Nil: "dropWhile P (rev xs) = [] \<longleftrightarrow> list_all P xs"
  by (auto simp: dropWhile_eq_Nil_conv list_all_iff)

lemma strip_empty_iff: "str_strip s = [] \<longleftrightarrow> is_blank s"
proof -
  have "list_all P (dropWhile P xs) = list_all P xs" for P and xs :: string
    by (induction xs) auto
  then show ?thesis
    by (simp add: str_strip_def lstrip_def is_blank_def dropWhile_rev_Nil del: dropWhile_eq_Nil_conv)
qed

lemma strip_no_space:
  assumes "s = [] \<or> \<not> is_space (hd s) \<and> \<not> is_space (last s)"
  shows "str_strip s = s"
proof (cases s)
  case (Cons c cs)
  then have "lstrip s = s" using assms by (simp add: lstrip_def)
  moreover have "lstrip (rev s) = rev s"
    using assms Cons by (cases "rev s") (auto simp: lstrip_def hd_rev [symmetric])
  ultimately show ?thesis by (simp add: str_strip_def)
qed simp

text \<open>\<open>s.find(c)\<close>: None stands for -1; \<open>s.find(c, i)\<close> for an index within the text.\<close>

definition str_find :: "char \<Rightarrow> string \<Rightarrow> nat option" where
  "str_find c s = find_index ((=) c) s"

definition str_find_from :: "char \<Rightarrow> nat \<Rightarrow> string \<Rightarrow> nat option" where
  "str_find_from c i s = map_option ((+) i) (str_find c (drop i s))"

lemma str_find_None: "str_find c s = None \<longleftrightarrow> c \<notin> set s"
  by (auto simp: str_find_def find_index_None)

lemma str_find_append: "c \<notin> set u \<Longrightarrow> str_find c (u @ c # v) = Some (length u)"
  by (induction u) (auto simp: str_find_def)

lemma str_find_Cons_Some: "str_find c (c # v) = Some 0"
  by (simp add: str_find_def)

text \<open>\<open>pat in s\<close>.\<close>

fun contains :: "string \<Rightarrow> string \<Rightarrow> bool" where
  "contains pat [] = (pat = [])"
| "contains pat (c # cs) = (prefix pat (c # cs) \<or> contains pat cs)"

lemma contains_iff: "contains pat s \<longleftrightarrow> (\<exists>u v. s = u @ pat @ v)"
proof (induction s)
  case step: (Cons c cs)
  show ?case
  proof
    assume "contains pat (c # cs)"
    then consider "prefix pat (c # cs)" | "contains pat cs" by auto
    then show "\<exists>u v. c # cs = u @ pat @ v"
    proof cases
      case 1
      then show ?thesis by (auto simp: prefix_def intro: exI [where x = "[]"])
    next
      case 2
      then obtain u v where "cs = u @ pat @ v" using step.IH by auto
      then have "c # cs = (c # u) @ pat @ v" by simp
      then show ?thesis by blast
    qed
  next
    assume "\<exists>u v. c # cs = u @ pat @ v"
    then obtain u v where uv: "c # cs = u @ pat @ v" by blast
    show "contains pat (c # cs)"
    proof (cases u)
      case Nil
      then have "prefix pat (c # cs)" using uv by simp
      then show ?thesis by simp
    next
      case (Cons d ds)
      then have "\<exists>u v. cs = u @ pat @ v" using uv by auto
      then show ?thesis using step.IH by simp
    qed
  qed
qed auto

lemma contains_append: "contains pat (u @ pat @ v)"
  by (auto simp: contains_iff)

lemma contains_suffix: "contains pat (u @ pat)"
  using contains_append [of pat u "[]"] by simp

lemma contains_missing: "c \<in> set pat \<Longrightarrow> c \<notin> set s \<Longrightarrow> \<not> contains pat s"
  by (auto simp: contains_iff)

text \<open>\<open>s.removeprefix(p)\<close>; \<open>s.startswith(p)\<close> is \<open>prefix p s\<close>.\<close>

definition removeprefix :: "string \<Rightarrow> string \<Rightarrow> string" where
  "removeprefix p s = (if prefix p s then drop (length p) s else s)"

text \<open>\<open>s.endswith(p)\<close> is \<open>suffix p s\<close>; \<open>s.rsplit("/", 1)[0]\<close>.\<close>

definition rsplit_head :: "string \<Rightarrow> string" where
  "rsplit_head s = (if CHR ''/'' \<in> set s
     then rev (tl (dropWhile (\<lambda>c. c \<noteq> CHR ''/'') (rev s))) else s)"

section \<open>lower and casefold\<close>

text \<open>
  Upper-case letters of Latin-1: A-Z and the code points 192 to 222 but 215.  \<open>casefold\<close> also
  maps 223 to \<open>ss\<close> and 181 to U+03BC, so its result is a list of code points.
\<close>

definition is_upper :: "nat \<Rightarrow> bool" where
  "is_upper n = (65 \<le> n \<and> n \<le> 90 \<or> 192 \<le> n \<and> n \<le> 222 \<and> n \<noteq> 215)"

definition lower_char :: "char \<Rightarrow> char" where
  "lower_char c = (if is_upper (of_char c) then char_of (of_char c + 32 :: nat) else c)"

definition lower :: "string \<Rightarrow> string" where
  "lower s = map lower_char s"

definition casefold_char :: "char \<Rightarrow> nat list" where
  "casefold_char c = (let n = of_char c in
     if n = 181 then [956] else if n = 223 then [115, 115]
     else if is_upper n then [n + 32] else [n])"

definition casefold :: "string \<Rightarrow> nat list" where
  "casefold s = concat (map casefold_char s)"

definition code_points :: "string \<Rightarrow> nat list" where
  "code_points s = map of_char s"

section \<open>splitlines\<close>

text \<open>The line boundaries of \<open>str.splitlines\<close> below 256; a carriage return takes a line feed with it.\<close>

definition is_line_break :: "char \<Rightarrow> bool" where
  "is_line_break c = (of_char c \<in> {10, 11, 12, 13, 28, 29, 30, 133 :: nat})"

fun splitlines_acc :: "string \<Rightarrow> string \<Rightarrow> string list" where
  "splitlines_acc acc [] = (if acc = [] then [] else [rev acc])"
| "splitlines_acc acc (c # cs) =
     (if is_line_break c
      then rev acc # (case cs of
             [] \<Rightarrow> []
           | d # ds \<Rightarrow> if of_char c = (13 :: nat) \<and> of_char d = (10 :: nat)
                       then splitlines_acc [] ds else splitlines_acc [] (d # ds))
      else splitlines_acc (c # acc) cs)"

definition splitlines :: "string \<Rightarrow> string list" where
  "splitlines s = splitlines_acc [] s"

section \<open>urllib.parse.quote\<close>

text \<open>The UTF-8 bytes of a code point below 256, and the percent escape of a byte.\<close>

definition utf8_char :: "char \<Rightarrow> nat list" where
  "utf8_char c = (let n = of_char c in if n < 128 then [n] else [192 + n div 64, 128 + n mod 64])"

definition hex_digit :: "nat \<Rightarrow> char" where
  "hex_digit d = (if d < 10 then char_of (48 + d) else char_of (55 + d))"

definition is_unreserved :: "nat \<Rightarrow> bool" where
  "is_unreserved n = (48 \<le> n \<and> n \<le> 57 \<or> 65 \<le> n \<and> n \<le> 90 \<or> 97 \<le> n \<and> n \<le> 122
     \<or> n \<in> {95, 46, 45, 126})"

definition quote_byte :: "string \<Rightarrow> nat \<Rightarrow> string" where
  "quote_byte safe n = (if is_unreserved n \<or> n \<in> set (code_points safe) then [char_of n]
     else [CHR ''%'', hex_digit (n div 16), hex_digit (n mod 16)])"

definition quote :: "string \<Rightarrow> string \<Rightarrow> string" where
  "quote safe s = concat (map (quote_byte safe) (concat (map utf8_char s)))"

section \<open>Environment variables\<close>

text \<open>\<open>_require_env\<close>: the variable, stripped; a missing or blank one raises.\<close>

type_synonym environ = "string \<Rightarrow> string option"

definition require_env :: "environ \<Rightarrow> string \<Rightarrow> exn + string" where
  "require_env env name =
     (let text = str_strip (case env name of Some v \<Rightarrow> v | None \<Rightarrow> [])
      in if text = [] then Inl (Exn RuntimeError (''Required environment variable is missing: '' @ name))
         else Inr text)"

lemma require_env_Inr:
  "require_env env name = Inr v \<longleftrightarrow> (\<exists>w. env name = Some w \<and> \<not> is_blank w \<and> v = str_strip w)"
  by (auto simp: require_env_def Let_def strip_empty_iff is_blank_def split: option.splits)

lemma require_env_Inl:
  "require_env env name = Inl e \<Longrightarrow> exn_class e = RuntimeError"
  by (auto simp: require_env_def Let_def split: if_splits)

text \<open>\<open>raise SystemExit(text)\<close>.\<close>

abbreviation SystemExit :: exc_class where
  "SystemExit \<equiv> OtherBaseException ''SystemExit''"

end
