(* ===== verification/Release_Http.thy ===== *)
theory Release_Http
  imports Script_Text
begin

text \<open>
  What the two release gates (\<^verbatim>\<open>scripts/ci/check_release_codeql_gate.py\<close> and
  \<^verbatim>\<open>check_release_dependency_gate.py\<close>) share: JSON values, HTTP requests, the \<open>Link\<close> header
  and the pagination loop.  The server is a function of all the requests sent so far, so its
  answers may change at any moment.  \<open>pages_read\<close> is what reading a listing means, and the
  locale \<open>paged_listing\<close> is the contract under which both gates use their own copy of the loop.
\<close>

section \<open>JSON\<close>

text \<open>A result of \<open>json.loads\<close>; repeated keys of an object are already resolved.\<close>

datatype json =
    JNull
  | JBool bool
  | JInt int
  | JFloat pyfloat
  | JStr string
  | JList "json list"
  | JObj "(string \<times> json) list"

type_synonym json_object = "(string \<times> json) list"

text \<open>\<open>d.get(key)\<close>, which is None for a missing key and for a null, and \<open>d.get(key, default)\<close>.\<close>

definition json_get :: "json_object \<Rightarrow> string \<Rightarrow> json" where
  "json_get d key = (case map_of d key of Some v \<Rightarrow> v | None \<Rightarrow> JNull)"

definition json_get_default :: "json_object \<Rightarrow> string \<Rightarrow> json \<Rightarrow> json" where
  "json_get_default d key v0 = (case map_of d key of Some v \<Rightarrow> v | None \<Rightarrow> v0)"

text \<open>\<open>isinstance(v, str)\<close> and \<open>isinstance(v, dict)\<close>, with the value.\<close>

fun json_str :: "json \<Rightarrow> string option" where
  "json_str (JStr s) = Some s"
| "json_str _ = None"

fun json_dict :: "json \<Rightarrow> json_object option" where
  "json_dict (JObj d) = Some d"
| "json_dict _ = None"

fun_cases json_str_SomeE: "json_str v = Some s"
  and json_dict_SomeE: "json_dict v = Some d"

lemma json_str_Some [simp]: "json_str v = Some s \<longleftrightarrow> v = JStr s"
  by (auto elim: json_str_SomeE)

lemma json_dict_Some [simp]: "json_dict v = Some d \<longleftrightarrow> v = JObj d"
  by (auto elim: json_dict_SomeE)

text \<open>\<open>[item for item in payload if isinstance(item, dict)]\<close>.\<close>

definition json_objects :: "json list \<Rightarrow> json_object list" where
  "json_objects xs = List.map_filter json_dict xs"

lemma set_json_objects: "d \<in> set (json_objects xs) \<longleftrightarrow> JObj d \<in> set xs"
  by (force simp: json_objects_def map_filter_def)

section \<open>Requests\<close>

record http_request =
  http_url :: string
  http_headers :: "(string \<times> string) list"

text \<open>
  The outcome of \<open>urlopen\<close>: it raises, or it gives a body (read, decoded and parsed: a value, or
  the exception one of these raises) and the \<open>Link\<close> header.
\<close>

datatype http_reply = HttpRaises exn | HttpReply "exn + json" "string option"

type_synonym net = "http_request list \<Rightarrow> http_reply"

text \<open>The state of a script: the requests sent and what it printed on its two streams.\<close>

record ('q, 'r) script =
  requests :: "'q list"
  out_lines :: "'r list"
  err_lines :: "'r list"

definition urlopen :: "net \<Rightarrow> http_request \<Rightarrow> ((http_request, 'r) script, (exn + json) \<times> string option) prog" where
  "urlopen net r s =
     (let s' = s\<lparr>requests := requests s @ [r]\<rparr>
      in case net (requests s') of
           HttpRaises e \<Rightarrow> Some (Inl e, s')
         | HttpReply body link \<Rightarrow> Some (Inr (body, link), s'))"

definition print_out :: "'r \<Rightarrow> (('q, 'r) script, unit) prog" where
  "print_out r = modifyE (\<lambda>s. s\<lparr>out_lines := out_lines s @ [r]\<rparr>)"

definition print_err :: "'r \<Rightarrow> (('q, 'r) script, unit) prog" where
  "print_err r = modifyE (\<lambda>s. s\<lparr>err_lines := err_lines s @ [r]\<rparr>)"

fun print_err_all :: "'r list \<Rightarrow> (('q, 'r) script, unit) prog" where
  "print_err_all [] = ret ()"
| "print_err_all (r # rs) = seqE (print_err r) (print_err_all rs)"

text \<open>\<open>raise SystemExit(main())\<close>: an exception that escapes \<open>main\<close> is a traceback and status 1.\<close>

fun exit_status :: "exn + int \<Rightarrow> int" where
  "exit_status (Inr n) = n"
| "exit_status (Inl _) = 1"

definition script_status :: "(('q, 'r) script, int) prog \<Rightarrow> ('q, 'r) script \<Rightarrow> int option" where
  "script_status m s = map_option (\<lambda>(r, _). exit_status r) (m s)"

text \<open>\<open>except RuntimeError\<close>, with the subclasses of the standard library.\<close>

definition is_RuntimeError :: "exn \<Rightarrow> bool" where
  "is_RuntimeError e = (exn_class e \<in> {RuntimeError, OtherException ''RecursionError'',
     OtherException ''NotImplementedError''})"

lemma wp_urlopen:
  "wp t (urlopen net r) Q E s =
     (case net (requests s @ [r]) of
        HttpRaises e \<Rightarrow> E e (s\<lparr>requests := requests s @ [r]\<rparr>)
      | HttpReply body link \<Rightarrow> Q (body, link) (s\<lparr>requests := requests s @ [r]\<rparr>))"
  by (simp add: wp_def urlopen_def Let_def split: http_reply.split)

text \<open>Runs that end with a value, read backwards.\<close>

named_theorems value_iff \<open>when a combinator ends with a value\<close>

lemma ret_value [value_iff]: "ret a s = Some (Inr b, s') \<longleftrightarrow> b = a \<and> s' = s"
  by (auto simp: ret_def)

lemma raiseE_value [value_iff]: "raiseE e s \<noteq> Some (Inr b, s')"
  by (simp add: raiseE_def)

lemma liftR_value [value_iff]: "liftR r s = Some (Inr b, s') \<longleftrightarrow> r = Inr b \<and> s' = s"
  by (auto simp: liftR_def)

lemma bindE_value [value_iff]:
  "bindE m f s = Some (Inr b, s'') \<longleftrightarrow> (\<exists>a s'. m s = Some (Inr a, s') \<and> f a s' = Some (Inr b, s''))"
  by (auto simp: bindE_def split: option.splits sum.splits)

lemma tryE_value [value_iff]:
  "tryE m h s = Some (Inr b, s'') \<longleftrightarrow>
     m s = Some (Inr b, s'') \<or> (\<exists>e s'. m s = Some (Inl e, s') \<and> h e s' = Some (Inr b, s''))"
  by (auto simp: tryE_def split: option.splits sum.splits)

lemma print_runs [value_iff]:
  "print_out r s = Some (Inr (), s\<lparr>out_lines := out_lines s @ [r]\<rparr>)"
  "print_err r s = Some (Inr (), s\<lparr>err_lines := err_lines s @ [r]\<rparr>)"
  by (simp_all add: print_out_def print_err_def modifyE_def)

lemma print_err_all_run: "print_err_all rs s = Some (Inr (), s\<lparr>err_lines := err_lines s @ rs\<rparr>)"
  by (induction rs arbitrary: s) (simp_all add: prog_defs print_err_def)

text \<open>\<open>ends_with m v s\<close>: \<open>m\<close> returns \<open>v\<close>, whatever state it leaves.\<close>

definition ends_with :: "('s, 'a) prog \<Rightarrow> 'a \<Rightarrow> 's \<Rightarrow> bool" where
  "ends_with m v s \<longleftrightarrow> (\<exists>s'. m s = Some (Inr v, s'))"

lemma ends_with_simps [simp]:
  "ends_with (ret a) v s \<longleftrightarrow> a = v"
  "\<not> ends_with (raiseE e) v s"
  "ends_with (bindE m f) v s \<longleftrightarrow> (\<exists>a s'. m s = Some (Inr a, s') \<and> ends_with (f a) v s')"
  unfolding ends_with_def by (auto simp: value_iff)

lemma ends_with_prints [simp]:
  "ends_with (seqE (print_out r) n) v s \<longleftrightarrow> ends_with n v (s\<lparr>out_lines := out_lines s @ [r]\<rparr>)"
  "ends_with (seqE (print_err r) n) v s \<longleftrightarrow> ends_with n v (s\<lparr>err_lines := err_lines s @ [r]\<rparr>)"
  "ends_with (seqE (print_err_all rs) n) v s \<longleftrightarrow> ends_with n v (s\<lparr>err_lines := err_lines s @ rs\<rparr>)"
  unfolding ends_with_def by (auto simp: value_iff seqE_def print_err_all_run)

lemma ends_with_option:
  "ends_with (case x of None \<Rightarrow> m | Some y \<Rightarrow> f y) v s \<longleftrightarrow>
     x = None \<and> ends_with m v s \<or> (\<exists>y. x = Some y \<and> ends_with (f y) v s)"
  by (cases x) simp_all

lemma exit_status_0 [simp]: "exit_status r = 0 \<longleftrightarrow> r = Inr 0"
  by (cases r) auto

lemma script_status_0: "script_status m s = Some 0 \<longleftrightarrow> ends_with m 0 s"
  by (auto simp: script_status_def ends_with_def)

lemma script_status_cases:
  assumes "\<And>n. ends_with m n s \<Longrightarrow> n \<in> {0, 1}"
  shows "script_status m s \<in> {None, Some 0, Some 1}"
proof (cases "m s")
  case (Some y)
  obtain r s' where "y = (r, s')" by (cases y)
  then show ?thesis using assms Some by (cases r) (auto simp: script_status_def ends_with_def)
qed (simp add: script_status_def)

section \<open>The Link header\<close>

text \<open>The loop over the comma-separated segments of \<open>_parse_next_link\<close>.\<close>

fun next_of_segments :: "string list \<Rightarrow> string option" where
  "next_of_segments [] = None"
| "next_of_segments (segment # segments) =
     (let candidate = str_strip segment
      in if \<not> contains ''rel=\"next\"'' candidate then next_of_segments segments
         else case str_find CHR ''<'' candidate of
                None \<Rightarrow> next_of_segments segments
              | Some start \<Rightarrow> (case str_find_from CHR ''>'' (start + 1) candidate of
                  None \<Rightarrow> next_of_segments segments
                | Some stop \<Rightarrow> Some (take (stop - (start + 1)) (drop (start + 1) candidate))))"

definition parse_next_link :: "string option \<Rightarrow> string option" where
  "parse_next_link link_header = (case link_header of
     None \<Rightarrow> None
   | Some h \<Rightarrow> if h = [] then None else next_of_segments (split_on CHR '','' h))"

text \<open>
  The header as RFC 8288 writes it, for links with their relation, and what the parser finds
  in it: when no URL holds a comma, a quote or an angle bracket, the first link of relation
  \<open>next\<close>.
\<close>

definition link_value :: "string \<times> string \<Rightarrow> string" where
  "link_value = (\<lambda>(url, rel). CHR ''<'' # url @ ''>; rel=\"'' @ rel @ [CHR 0x22])"

fun link_header :: "(string \<times> string) list \<Rightarrow> string" where
  "link_header [] = []"
| "link_header [l] = link_value l"
| "link_header (l # ls) = link_value l @ '', '' @ link_header ls"

definition plain_link :: "string \<times> string \<Rightarrow> bool" where
  "plain_link = (\<lambda>(url, rel).
     (\<forall>c \<in> set url. c \<notin> {CHR '','', CHR ''<'', CHR ''>'', CHR 0x22}) \<and>
     (\<forall>c \<in> set rel. c \<notin> {CHR '','', CHR 0x22}))"

lemma first_separator:
  "q \<notin> set a \<Longrightarrow> q \<notin> set x \<Longrightarrow> a @ q # b = x @ q # y \<longleftrightarrow> a = x \<and> b = y"
proof (induction a arbitrary: x)
  case Nil
  then show ?case by (cases x) auto
next
  case (Cons c cs)
  then show ?case by (cases x) auto
qed

lemma quoted_once:
  assumes "q \<notin> set a" and "q \<notin> set b" and "q \<notin> set y"
    and "a @ q # b @ [q] = x @ q # y @ q # z"
  shows "a = x \<and> b = y \<and> z = []"
proof -
  have ax: "a = x \<and> b @ [q] = y @ q # z"
  proof -
    have "q \<notin> set x"
    proof
      assume "q \<in> set x"
      then have "count_list (x @ q # y @ q # z) q \<ge> 3"
        using count_list_0_iff [of x q] by (cases "count_list x q") auto
      moreover have "count_list (a @ q # b @ [q]) q = 2"
        using assms(1,2) by (simp add: count_list_0_iff)
      ultimately show False using assms(4) by simp
    qed
    then show ?thesis using assms(1,4) by (simp add: first_separator)
  qed
  then show ?thesis using assms(2,3) first_separator [of q b y "[]" z] by simp
qed

lemma link_value_rel:
  assumes "plain_link (url, rel)"
  shows "contains ''rel=\"next\"'' (link_value (url, rel)) \<longleftrightarrow> rel = ''next''"
proof
  assume "contains ''rel=\"next\"'' (link_value (url, rel))"
  then obtain u v where "link_value (url, rel) = u @ ''rel=\"next\"'' @ v"
    by (auto simp: contains_iff)
  then have "(CHR ''<'' # url @ ''>; rel='') @ CHR 0x22 # rel @ [CHR 0x22] =
      (u @ ''rel='') @ CHR 0x22 # ''next'' @ CHR 0x22 # v"
    by (simp add: link_value_def)
  from quoted_once [OF _ _ _ this] show "rel = ''next''"
    using assms by (auto simp: plain_link_def)
next
  assume "rel = ''next''"
  then have "link_value (url, rel) = (CHR ''<'' # url @ ''>; '') @ ''rel=\"next\"''"
    by (simp add: link_value_def)
  then show "contains ''rel=\"next\"'' (link_value (url, rel))" by (simp only: contains_suffix)
qed

lemma link_value_fields:
  "str_strip (link_value l) = link_value l" "str_strip (CHR '' '' # link_value l) = link_value l"
  "link_value l \<noteq> []"
proof -
  have str_strip: "str_strip (link_value l) = link_value l"
    by (cases l, intro strip_no_space) (simp add: link_value_def is_space_def)
  then show "str_strip (link_value l) = link_value l" .
  show "str_strip (CHR '' '' # link_value l) = link_value l"
    using str_strip by (simp add: str_strip_def lstrip_def is_space_def)
qed (auto simp: link_value_def split: prod.split)

lemma link_value_url:
  assumes "plain_link (url, rel)"
  shows "str_find_from CHR ''>'' 1 (link_value (url, rel)) = Some (1 + length url)"
    and "take (length url) (drop 1 (link_value (url, rel))) = url"
    and "str_find CHR ''<'' (link_value (url, rel)) = Some 0"
proof -
  have "CHR ''>'' \<notin> set url" using assms by (auto simp: plain_link_def)
  from str_find_append [OF this]
  show "str_find_from CHR ''>'' 1 (link_value (url, rel)) = Some (1 + length url)"
    by (simp add: str_find_from_def link_value_def)
qed (simp_all add: link_value_def str_find_Cons_Some)

lemma next_of_plain_segment:
  assumes "plain_link (url, rel)" and "str_strip segment = link_value (url, rel)"
  shows "next_of_segments (segment # segments) =
    (if rel = ''next'' then Some url else next_of_segments segments)"
  using link_value_url [OF assms(1)] assms(2) link_value_rel [OF assms(1)]
  by (cases "rel = ''next''") (simp_all add: Let_def)

lemma split_on_join: "split_on d (xs @ d # ys) = split_on d xs @ split_on d ys"
  by (induction xs) (auto split: list.split)

lemma split_on_subset: "w \<in> set (split_on d s) \<Longrightarrow> set w \<subseteq> set s"
  by (induction s arbitrary: w) (fastforce split: if_splits list.splits)+

lemma split_link_header:
  assumes "\<forall>l \<in> set (l # ls). CHR '','' \<notin> set (link_value l)"
  shows "split_on CHR '','' (link_header (l # ls)) =
    link_value l # map (\<lambda>l. CHR '' '' # link_value l) ls"
  using assms
proof (induction ls arbitrary: l)
  case Nil
  then show ?case by (simp add: split_on_no_sep)
next
  case (Cons k ks)
  have "split_on CHR '','' (CHR '' '' # link_header (k # ks)) =
      (CHR '' '' # link_value k) # map (\<lambda>l. CHR '' '' # link_value l) ks"
    using Cons.IH [of k] Cons.prems by simp
  then show ?case using Cons.prems by (simp add: split_on_append)
qed

lemma next_of_plain_segments:
  "\<forall>l \<in> set ls. plain_link l \<Longrightarrow>
     next_of_segments (map (\<lambda>l. CHR '' '' # link_value l) ls) =
       map_option fst (find (\<lambda>l. snd l = ''next'') ls)"
proof (induction ls)
  case (Cons l ls)
  then have "plain_link (fst l, snd l)" by simp
  from next_of_plain_segment [OF this] Cons show ?case
    by (simp add: link_value_fields del: next_of_segments.simps)
qed simp

lemma plain_link_no_comma:
  assumes "plain_link l"
  shows "CHR '','' \<notin> set (link_value l)"
proof (cases l)
  case (Pair url rel)
  have "CHR '','' \<notin> set url" "CHR '','' \<notin> set rel"
    using assms Pair unfolding plain_link_def by auto
  then show ?thesis by (simp add: Pair link_value_def)
qed

lemma parse_next_link_plain:
  assumes "\<forall>l \<in> set ls. plain_link l"
  shows "parse_next_link (Some (link_header ls)) = map_option fst (find (\<lambda>l. snd l = ''next'') ls)"
proof (cases ls)
  case (Cons l rest)
  have comma: "\<forall>l \<in> set (l # rest). CHR '','' \<notin> set (link_value l)"
    using assms Cons plain_link_no_comma by blast
  have "link_header (l # rest) \<noteq> []"
    by (cases rest) (simp_all add: link_value_fields)
  moreover have "plain_link (fst l, snd l)" using assms Cons by simp
  ultimately show ?thesis
    using assms Cons next_of_plain_segment [of "fst l" "snd l" "link_value l"]
    by (simp add: parse_next_link_def split_link_header [OF comma] link_value_fields
        next_of_plain_segments del: next_of_segments.simps link_header.simps)
qed (simp add: parse_next_link_def)

text \<open>
  A comma within the URLs splits every link in two: the part before it has no relation, the part
  behind it no opening bracket, and no next page is found.
\<close>

lemma next_of_broken_segments:
  "\<forall>w \<in> set ws. CHR ''<'' \<notin> set w \<or> CHR 0x22 \<notin> set w \<Longrightarrow> next_of_segments ws = None"
proof (induction ws)
  case (Cons w ws)
  have sub: "set (str_strip w) \<subseteq> set w"
    by (auto simp: str_strip_def lstrip_def dest!: set_dropWhileD)
  have "str_find CHR ''<'' (str_strip w) = None \<or> \<not> contains ''rel=\"next\"'' (str_strip w)"
    using Cons.prems sub contains_missing [of "CHR 0x22" "''rel=\"next\"''" "str_strip w"]
    by (auto simp: str_find_None)
  then show ?case using Cons by (auto simp: Let_def)
qed simp

lemma broken_link_segments:
  assumes "CHR '','' \<in> set url" "CHR ''<'' \<notin> set url" "CHR 0x22 \<notin> set url" "CHR ''<'' \<notin> set rel"
    and "w \<in> set (split_on CHR '','' (pre @ link_value (url, rel)))" and "pre = [] \<or> pre = '' ''"
  shows "CHR ''<'' \<notin> set w \<or> CHR 0x22 \<notin> set w"
proof -
  obtain u v where url: "url = u @ CHR '','' # v" "CHR '','' \<notin> set u"
    using split_list_first [OF assms(1)] by blast
  let ?tail = "v @ ''>; rel=\"'' @ rel @ [CHR 0x22]"
  have "pre @ link_value (url, rel) = (pre @ CHR ''<'' # u) @ CHR '','' # ?tail"
    by (simp add: link_value_def url)
  then have "w \<in> set (split_on CHR '','' (pre @ CHR ''<'' # u)) \<union> set (split_on CHR '','' ?tail)"
    using assms(5) by (simp only: split_on_join set_append)
  then have "set w \<subseteq> set (pre @ CHR ''<'' # u) \<or> set w \<subseteq> set ?tail"
    using split_on_subset [of w] by blast
  moreover have "CHR 0x22 \<notin> set (pre @ CHR ''<'' # u)" "CHR ''<'' \<notin> set ?tail"
    using assms(2-4,6) url by auto
  ultimately show ?thesis by blast
qed

lemma parse_next_link_comma:
  assumes "\<forall>(url, rel) \<in> set ls. CHR '','' \<in> set url \<and> CHR ''<'' \<notin> set url \<and>
      CHR 0x22 \<notin> set url \<and> CHR ''<'' \<notin> set rel"
  shows "parse_next_link (Some (link_header ls)) = None"
proof -
  have "\<forall>w \<in> set (split_on CHR '','' (pre @ link_header ls)). CHR ''<'' \<notin> set w \<or> CHR 0x22 \<notin> set w"
    if "pre = [] \<or> pre = '' ''" for pre
    using assms that
  proof (induction ls arbitrary: pre rule: link_header.induct)
    case 1
    then show ?case by auto
  next
    case (2 l)
    then show ?case by (cases l) (use broken_link_segments in auto)
  next
    case (3 l k ks)
    have "split_on CHR '','' (pre @ link_header (l # k # ks)) =
        split_on CHR '','' (pre @ link_value l) @ split_on CHR '','' ('' '' @ link_header (k # ks))"
      using split_on_join [of "CHR '',''" "pre @ link_value l" "CHR '' '' # link_header (k # ks)"]
      by simp
    moreover have "\<forall>w \<in> set (split_on CHR '','' ('' '' @ link_header (k # ks))).
        CHR ''<'' \<notin> set w \<or> CHR 0x22 \<notin> set w"
      using "3.prems" by (intro "3.IH") auto
    moreover have "\<forall>w \<in> set (split_on CHR '','' (pre @ link_value l)).
        CHR ''<'' \<notin> set w \<or> CHR 0x22 \<notin> set w"
      using "3.prems" broken_link_segments [of "fst l" "snd l" _ pre] by auto
    ultimately show ?case by auto
  qed
  from this [of "[]"] show ?thesis
    by (simp add: parse_next_link_def next_of_broken_segments)
qed

section \<open>Pagination\<close>

text \<open>The truth value of a \<open>str | None\<close>.\<close>

definition falsy :: "string option \<Rightarrow> bool" where
  "falsy u = (u = None \<or> u = Some [])"

definition unexpected_shape :: "string \<Rightarrow> exn" where
  "unexpected_shape response_name =
     Exn RuntimeError (''Unexpected '' @ response_name @ '' response shape.'')"

text \<open>One pass of the loop: a page of the listing and the URL of the next one.\<close>

definition fetch_page ::
    "net \<Rightarrow> (string \<times> string) list \<Rightarrow> string \<Rightarrow> string \<Rightarrow>
       ((http_request, 'r) script, json_object list \<times> string option) prog" where
  "fetch_page net headers response_name url =
     bindE (urlopen net \<lparr>http_url = url, http_headers = headers\<rparr>) (\<lambda>(body, link).
     bindE (liftR body) (\<lambda>payload.
       case payload of
         JList xs \<Rightarrow> ret (json_objects xs, parse_next_link link)
       | _ \<Rightarrow> raiseE (unexpected_shape response_name)))"

definition fetch_pass ::
    "net \<Rightarrow> (string \<times> string) list \<Rightarrow> string \<Rightarrow> string option \<times> json_object list \<Rightarrow>
       ((http_request, 'r) script, (string option \<times> json_object list, json_object list) turn) prog" where
  "fetch_pass net headers response_name = (\<lambda>(u, items).
     case u of
       None \<Rightarrow> ret (Leave items)
     | Some v \<Rightarrow>
         if v = [] then ret (Leave items)
         else bindE (fetch_page net headers response_name v)
                (\<lambda>(page, next). ret (Again (next, items @ page))))"

definition fetch_pages ::
    "net \<Rightarrow> (string \<times> string) list \<Rightarrow> string \<Rightarrow> string \<Rightarrow> ((http_request, 'r) script, json_object list) prog" where
  "fetch_pages net headers response_name url =
     loopE (fetch_pass net headers response_name) (Some url, [])"

text \<open>
  What reading a listing is: \<open>pages_read net hs u s items s'\<close> holds when the pages chained from
  \<open>u\<close> all answer with a list, \<open>items\<close> is the objects of these lists in order, and \<open>s'\<close> has
  exactly the requests of the pages after those of \<open>s\<close>.
\<close>

inductive pages_read ::
    "net \<Rightarrow> (string \<times> string) list \<Rightarrow> string option \<Rightarrow> (http_request, 'r) script \<Rightarrow> json_object list \<Rightarrow> (http_request, 'r) script \<Rightarrow> bool"
  for net :: net and headers :: "(string \<times> string) list" where
  pages_end: "falsy u \<Longrightarrow> pages_read net headers u s [] s"
| pages_more: "u \<noteq> [] \<Longrightarrow> s1 = s\<lparr>requests := requests s @ [\<lparr>http_url = u, http_headers = headers\<rparr>]\<rparr> \<Longrightarrow>
    net (requests s1) = HttpReply (Inr (JList xs)) link \<Longrightarrow>
    pages_read net headers (parse_next_link link) s1 items s' \<Longrightarrow>
    pages_read net headers (Some u) s (json_objects xs @ items) s'"

inductive_cases pages_read_NoneE: "pages_read net headers None s items s'"
inductive_cases pages_read_SomeE: "pages_read net headers (Some u) s items s'"

inductive_simps pages_read_None: "pages_read net headers None s items s'"

lemma falsy_simps [simp]: "falsy None" "falsy (Some u) \<longleftrightarrow> u = []"
  by (simp_all add: falsy_def)

lemma wp_fetch_page:
  "wp t (fetch_page net headers name url) Q E s =
     (let s1 = s\<lparr>requests := requests s @ [\<lparr>http_url = url, http_headers = headers\<rparr>]\<rparr>
      in case net (requests s1) of
           HttpRaises e \<Rightarrow> E e s1
         | HttpReply (Inl e) link \<Rightarrow> E e s1
         | HttpReply (Inr (JList xs)) link \<Rightarrow> Q (json_objects xs, parse_next_link link) s1
         | HttpReply (Inr _) link \<Rightarrow> E (unexpected_shape name) s1)"
  by (simp add: fetch_page_def wp_simps wp_urlopen Let_def
      split: http_reply.split sum.split json.split)

lemma fetch_page_Inr:
  "fetch_page net headers name url s = Some (Inr (page, next), s1) \<longleftrightarrow>
     s1 = s\<lparr>requests := requests s @ [\<lparr>http_url = url, http_headers = headers\<rparr>]\<rparr> \<and>
     (\<exists>xs link. net (requests s1) = HttpReply (Inr (JList xs)) link \<and>
        page = json_objects xs \<and> next = parse_next_link link)"
  by (auto simp: fetch_page_def prog_defs liftR_def urlopen_def Let_def
      split: http_reply.splits sum.splits json.splits)

lemma fetch_pages_sound:
  assumes "fetch_pages net headers name url s = Some (Inr items, s')"
  shows "pages_read net headers (Some url) s items s'"
proof -
  let ?done = "\<lambda>items s'. pages_read net headers (Some url) s items s'"
  let ?J = "\<lambda>(u, read) s1. \<forall>items s'. pages_read net headers u s1 items s' \<longrightarrow> ?done (read @ items) s'"
  have "wp True (loopE (fetch_pass net headers name) (Some url, [])) ?done (\<lambda>_ _. True) s"
  proof (rule loopE_wp [where J = ?J])
    fix b :: "string option \<times> json_object list" and s1 :: "(http_request, 'a) script"
    assume J: "?J b s1"
    obtain u read where b: "b = (u, read)" by (cases b)
    have page: "?done (read @ json_objects xs @ items) s'"
      if "u = Some v" "v \<noteq> []"
        "net (requests s1 @ [\<lparr>http_url = v, http_headers = headers\<rparr>]) = HttpReply (Inr (JList xs)) link"
        "pages_read net headers (parse_next_link link)
           (s1\<lparr>requests := requests s1 @ [\<lparr>http_url = v, http_headers = headers\<rparr>]\<rparr>) items s'"
      for v xs link items s'
      using J b that pages_more [OF that(2) refl _ that(4)] by simp
    show "wp True (fetch_pass net headers name b)
        (\<lambda>t s'. case t of Again b' \<Rightarrow> ?J b' s' | Leave a \<Rightarrow> ?done a s') (\<lambda>_ _. True) s1"
    proof (cases "falsy u")
      case True
      then have "pages_read net headers u s1 [] s1" by (rule pages_end)
      with J b have "?done (read @ []) s1" by fast
      then show ?thesis
        using True by (auto simp: b fetch_pass_def falsy_def wp_simps)
    next
      case False
      then obtain v where v: "u = Some v" "v \<noteq> []" by (auto simp: falsy_def)
      show ?thesis
        using v
        by (auto simp: b fetch_pass_def wp_simps wp_fetch_page Let_def
            split: http_reply.split sum.split json.split intro: page)
    qed
  qed simp
  then show ?thesis using assms by (auto simp: fetch_pages_def dest: wp_SomeD)
qed

lemma fetch_loop_complete:
  "pages_read net headers u s items s' \<Longrightarrow>
     loopE (fetch_pass net headers name) (u, read) s = Some (Inr (read @ items), s')"
proof (induction arbitrary: read rule: pages_read.induct)
  case (pages_end u s)
  then show ?case by (subst loopE_step) (auto simp: fetch_pass_def falsy_def prog_defs split: option.split)
next
  case (pages_more u s1 s xs link items s')
  have "fetch_page net headers name u s = Some (Inr (json_objects xs, parse_next_link link), s1)"
    using pages_more.hyps by (auto simp: fetch_page_Inr)
  then have "fetch_pass net headers name (Some u, read) s =
      Some (Inr (Again (parse_next_link link, read @ json_objects xs)), s1)"
    using pages_more.hyps(1) by (simp add: fetch_pass_def prog_defs)
  then show ?case using pages_more.IH by (subst loopE_step) simp
qed

lemma fetch_pages_exact:
  "fetch_pages net headers name url s = Some (Inr items, s') \<longleftrightarrow>
     pages_read net headers (Some url) s items s'"
  using fetch_pages_sound fetch_loop_complete [where read = "[]"]
  by (fastforce simp: fetch_pages_def)

text \<open>A listing has one result.\<close>

lemma pages_read_unique:
  "pages_read net headers u s items s' \<Longrightarrow> pages_read net headers u s items2 s2 \<Longrightarrow>
     items2 = items \<and> s2 = s'"
  using fetch_loop_complete [of net headers u s items s' "[]" "[]"]
    fetch_loop_complete [of net headers u s items2 s2 "[]" "[]"] by simp

lemma pages_read_prints:
  "pages_read net headers u s items s' \<Longrightarrow>
     out_lines s' = out_lines s \<and> err_lines s' = err_lines s"
  by (induction rule: pages_read.induct) simp_all

section \<open>The contract of a listing\<close>

text \<open>
  Each gate has its own copy of the loop and of the headers.  All a gate relies on is that its
  copy returns exactly when the listing can be read, with the objects read.
\<close>

locale paged_listing =
  fixes fetch :: "net \<Rightarrow> string \<Rightarrow> string \<Rightarrow> string \<Rightarrow> ((http_request, 'r) script, json_object list) prog"
    and headers :: "string \<Rightarrow> (string \<times> string) list"
  assumes lists: "fetch net url token name s = Some (Inr items, s') \<longleftrightarrow>
      pages_read net (headers token) (Some url) s items s'"
begin

lemma lists_pages:
  "pages_read net (headers token) (Some url) s items s' \<Longrightarrow>
     fetch net url token name s = Some (Inr items, s')"
  by (simp add: lists)

text \<open>What the gate does with a listing decides its verdict only where the listing is read.\<close>

lemma bind_value:
  "bindE (fetch net url token name) f s = Some (Inr v, s'') \<longleftrightarrow>
     (\<exists>items s'. pages_read net (headers token) (Some url) s items s' \<and> f items s' = Some (Inr v, s''))"
  unfolding lists [symmetric, where name = name]
  by (auto simp: bindE_def split: option.splits sum.splits)

end

end
