(* ===== verification/Codeql_Gate.thy ===== *)
theory Codeql_Gate
  imports Release_Http
begin

text \<open>
  Models \<^verbatim>\<open>scripts/ci/check_release_codeql_gate.py\<close>: a release is let through when a successful
  CodeQL analysis of its commit exists on a branch, the branch still points at the commit, and
  no open alert of the branch is of high or critical severity.  A printed line is a \<open>report\<close>:
  its kind with the values it shows.
\<close>

datatype codeql_report =
    NoAnalysis string string
  | GateError string
  | RefMoved string string string string
  | AlertsInspected nat string string string
  | NothingBlocks
  | BlockingFound nat
  | BlockingAlert json json json json

section \<open>API calls\<close>

definition codeql_api_headers :: "string \<Rightarrow> (string \<times> string) list" where
  "codeql_api_headers token =
     [(''Accept'', ''application/vnd.github+json''),
      (''Authorization'', ''Bearer '' @ token),
      (''X-GitHub-Api-Version'', ''2022-11-28''),
      (''User-Agent'', ''aionetx-release-codeql-gate'')]"

definition codeql_fetch_paginated_list ::
    "net \<Rightarrow> string \<Rightarrow> string \<Rightarrow> string \<Rightarrow> ((http_request, codeql_report) script, json_object list) prog" where
  "codeql_fetch_paginated_list net url token response_name =
     fetch_pages net (codeql_api_headers token) response_name url"

interpretation codeql_listing: paged_listing codeql_fetch_paginated_list codeql_api_headers
  by unfold_locales (simp add: codeql_fetch_paginated_list_def fetch_pages_exact)

definition codeql_fetch_json_object ::
    "net \<Rightarrow> string \<Rightarrow> string \<Rightarrow> string \<Rightarrow> ((http_request, codeql_report) script, json_object) prog" where
  "codeql_fetch_json_object net url token response_name =
     bindE (urlopen net \<lparr>http_url = url, http_headers = codeql_api_headers token\<rparr>) (\<lambda>(body, _).
     bindE (liftR body) (\<lambda>payload. case payload of
       JObj d \<Rightarrow> ret d
     | _ \<Rightarrow> raiseE (unexpected_shape response_name)))"

definition analyses_url :: "string \<Rightarrow> string" where
  "analyses_url repository =
     ''https://api.github.com/repos/'' @ repository @ ''/code-scanning/analyses?per_page=100''"

definition iter_codeql_analyses ::
    "net \<Rightarrow> string \<Rightarrow> string \<Rightarrow> ((http_request, codeql_report) script, json_object list) prog" where
  "iter_codeql_analyses net repository token =
     codeql_fetch_paginated_list net (analyses_url repository) token ''code scanning analyses''"

definition open_alerts_url :: "string \<Rightarrow> string \<Rightarrow> string" where
  "open_alerts_url repository ref =
     ''https://api.github.com/repos/'' @ repository @ ''/code-scanning/alerts'' @
     ''?state=open&ref='' @ quote '''' ref @ ''&per_page=100''"

definition iter_open_alerts ::
    "net \<Rightarrow> string \<Rightarrow> string \<Rightarrow> string \<Rightarrow> ((http_request, codeql_report) script, json_object list) prog" where
  "iter_open_alerts net repository ref token =
     codeql_fetch_paginated_list net (open_alerts_url repository ref) token ''code scanning alerts''"

section \<open>Analyses\<close>

definition tool_name :: "json_object \<Rightarrow> string" where
  "tool_name analysis = (case json_dict (json_get analysis ''tool'') of
     None \<Rightarrow> ''''
   | Some tool \<Rightarrow> (case json_str (json_get tool ''name'') of None \<Rightarrow> '''' | Some name \<Rightarrow> name))"

definition analysis_ref :: "json_object \<Rightarrow> string" where
  "analysis_ref analysis = (case json_str (json_get analysis ''ref'') of
     None \<Rightarrow> '''' | Some ref \<Rightarrow> str_strip ref)"

definition is_branch_ref :: "string \<Rightarrow> bool" where
  "is_branch_ref ref = prefix ''refs/heads/'' ref"

text \<open>The message shows \<open>repr(ref)\<close>, here for a printable text without quotes and backslashes.\<close>

definition git_ref_api_path :: "string \<Rightarrow> exn + string" where
  "git_ref_api_path ref =
     (if \<not> prefix ''refs/'' ref
      then Inl (Exn RuntimeError (''CodeQL analysis returned an unsupported ref: '' @ CHR 0x27 # ref @ [CHR 0x27]))
      else let ref_path = str_strip (removeprefix ''refs/'' ref)
           in if ref_path = []
              then Inl (Exn RuntimeError ''CodeQL analysis returned an empty analyzed ref.'')
              else Inr (quote ''/'' ref_path))"

definition git_ref_url :: "string \<Rightarrow> string \<Rightarrow> string" where
  "git_ref_url repository ref_path =
     ''https://api.github.com/repos/'' @ repository @ ''/git/ref/'' @ ref_path"

definition current_ref_sha ::
    "net \<Rightarrow> string \<Rightarrow> string \<Rightarrow> string \<Rightarrow> ((http_request, codeql_report) script, string) prog" where
  "current_ref_sha net repository ref token =
     bindE (liftR (git_ref_api_path ref)) (\<lambda>ref_path.
     bindE (codeql_fetch_json_object net (git_ref_url repository ref_path) token ''git ref'') (\<lambda>payload.
       case json_dict (json_get payload ''object'') of
         None \<Rightarrow> raiseE (Exn RuntimeError (''Unexpected git ref response shape for '' @ ref @ ''.''))
       | Some object_value \<Rightarrow> (case json_str (json_get object_value ''sha'') of
           None \<Rightarrow> raiseE (Exn RuntimeError (''Git ref response for '' @ ref @ '' did not include an object SHA.''))
         | Some sha \<Rightarrow>
             if str_strip sha = []
             then raiseE (Exn RuntimeError (''Git ref response for '' @ ref @ '' did not include an object SHA.''))
             else ret (str_strip sha))))"

definition is_successful_codeql_analysis_for_commit :: "json_object \<Rightarrow> string \<Rightarrow> bool" where
  "is_successful_codeql_analysis_for_commit analysis release_sha =
     (if json_get analysis ''commit_sha'' \<noteq> JStr release_sha then False
      else if casefold (tool_name analysis) \<noteq> code_points ''codeql'' then False
      else let ref = analysis_ref analysis
           in if ref = [] \<or> \<not> is_branch_ref ref then False
              else case json_str (json_get analysis ''error'') of
                     None \<Rightarrow> True | Some e \<Rightarrow> str_strip e = [])"

definition find_release_codeql_analysis :: "json_object list \<Rightarrow> string \<Rightarrow> json_object option" where
  "find_release_codeql_analysis analyses release_sha =
     find (\<lambda>a. is_successful_codeql_analysis_for_commit a release_sha) analyses"

definition severity_rank :: "string \<Rightarrow> int" where
  "severity_rank severity =
     (case map_of [(''critical'', 3), (''high'', 2), (''medium'', 1), (''low'', 0)] severity of
        Some n \<Rightarrow> n | None \<Rightarrow> - 1)"

section \<open>main\<close>

definition alert_rank_text :: "json_object \<Rightarrow> string" where
  "alert_rank_text alert = (case json_dict (json_get alert ''rule'') of
     None \<Rightarrow> ''''
   | Some rule \<Rightarrow> (case json_str (json_get rule ''security_severity_level'') of
       None \<Rightarrow> '''' | Some s \<Rightarrow> lower s))"

definition codeql_alert_blocks :: "json_object \<Rightarrow> bool" where
  "codeql_alert_blocks alert \<longleftrightarrow> severity_rank (alert_rank_text alert) \<ge> severity_rank ''high''"

definition codeql_alert_line :: "json_object \<Rightarrow> codeql_report" where
  "codeql_alert_line alert = (case json_dict (json_get alert ''rule'') of
     None \<Rightarrow> BlockingAlert (json_get_default alert ''number'' (JStr ''?''))
       (JStr ''<unknown>'') (JStr ''<unknown>'') (json_get_default alert ''html_url'' (JStr ''''))
   | Some rule \<Rightarrow> BlockingAlert (json_get_default alert ''number'' (JStr ''?''))
       (json_get_default rule ''id'' (JStr ''<unknown>''))
       (json_get_default rule ''security_severity_level'' (JStr ''<unknown>''))
       (json_get_default alert ''html_url'' (JStr '''')))"

definition report_open_alerts ::
    "json_object list \<Rightarrow> string \<Rightarrow> string \<Rightarrow> string \<Rightarrow> ((http_request, codeql_report) script, int) prog" where
  "report_open_alerts open_alerts analyzed_ref release_sha release_ref =
     (let blocking_alerts = filter codeql_alert_blocks open_alerts
      in seqE (print_out (AlertsInspected (length open_alerts) analyzed_ref release_sha release_ref))
         (if blocking_alerts = []
          then seqE (print_out NothingBlocks) (ret 0)
          else seqE (print_err (BlockingFound (length blocking_alerts)))
               (seqE (print_err_all (map codeql_alert_line blocking_alerts))
               (ret 1))))"

definition check_analyzed_ref ::
    "net \<Rightarrow> string \<Rightarrow> string \<Rightarrow> string \<Rightarrow> string \<Rightarrow> json_object \<Rightarrow> ((http_request, codeql_report) script, int) prog" where
  "check_analyzed_ref net repository release_ref release_sha token release_analysis =
     (let analyzed_ref = analysis_ref release_analysis
      in bindE
           (tryE (bindE (current_ref_sha net repository analyzed_ref token) (\<lambda>sha. ret (Some sha)))
              (\<lambda>e. if is_RuntimeError e then seqE (print_err (GateError (exn_msg e))) (ret None)
                    else raiseE e))
           (\<lambda>current. case current of
              None \<Rightarrow> ret 1
            | Some current_sha \<Rightarrow>
                if current_sha \<noteq> release_sha
                then seqE (print_err (RefMoved analyzed_ref release_sha current_sha release_ref)) (ret 1)
                else bindE (iter_open_alerts net repository analyzed_ref token) (\<lambda>open_alerts.
                     report_open_alerts open_alerts analyzed_ref release_sha release_ref)))"

definition codeql_gate_main :: "net \<Rightarrow> environ \<Rightarrow> ((http_request, codeql_report) script, int) prog" where
  "codeql_gate_main net env =
     bindE (liftR (require_env env ''GITHUB_REPOSITORY'')) (\<lambda>repository.
     bindE (liftR (require_env env ''GITHUB_REF'')) (\<lambda>release_ref.
     bindE (liftR (require_env env ''GITHUB_SHA'')) (\<lambda>release_sha.
     bindE (liftR (require_env env ''GITHUB_TOKEN'')) (\<lambda>token.
     bindE (iter_codeql_analyses net repository token) (\<lambda>analyses.
       case find_release_codeql_analysis analyses release_sha of
         None \<Rightarrow> seqE (print_err (NoAnalysis release_sha release_ref)) (ret 1)
       | Some release_analysis \<Rightarrow>
           check_analyzed_ref net repository release_ref release_sha token release_analysis)))))"

section \<open>What the gate lets through\<close>

text \<open>The severities that block, read off the alert.\<close>

definition severe_alert :: "json_object \<Rightarrow> bool" where
  "severe_alert alert \<longleftrightarrow> (\<exists>rule s. json_get alert ''rule'' = JObj rule \<and>
     json_get rule ''security_severity_level'' = JStr s \<and> lower s \<in> {''high'', ''critical''})"

lemma codeql_alert_blocks_iff: "codeql_alert_blocks alert \<longleftrightarrow> severe_alert alert"
proof -
  have rank: "severity_rank s \<ge> severity_rank ''high'' \<longleftrightarrow> s \<in> {''high'', ''critical''}" for s
    by (simp add: severity_rank_def)
  show ?thesis
    by (cases "json_get alert ''rule''")
      (auto simp: codeql_alert_blocks_def rank alert_rank_text_def severe_alert_def
        split: option.splits json.splits)
qed

text \<open>The commit a ref points at when the API is asked in state \<open>s\<close>.\<close>

definition ref_points_at ::
    "net \<Rightarrow> string \<Rightarrow> string \<Rightarrow> string \<Rightarrow> (http_request, 'r) script \<Rightarrow> string \<Rightarrow> (http_request, 'r) script \<Rightarrow> bool" where
  "ref_points_at net token repository ref s sha s' \<longleftrightarrow> (\<exists>path d obj text link.
     git_ref_api_path ref = Inr path \<and>
     s' = s\<lparr>requests := requests s @
       [\<lparr>http_url = git_ref_url repository path, http_headers = codeql_api_headers token\<rparr>]\<rparr> \<and>
     net (requests s') = HttpReply (Inr (JObj d)) link \<and> json_get d ''object'' = JObj obj \<and>
     json_get obj ''sha'' = JStr text \<and> \<not> is_blank text \<and> sha = str_strip text)"

lemma current_ref_sha_Inr:
  "current_ref_sha net repository ref token s = Some (Inr sha, s') \<longleftrightarrow>
     ref_points_at net token repository ref s sha s'"
  by (auto simp: current_ref_sha_def codeql_fetch_json_object_def ref_points_at_def prog_defs
      liftR_def urlopen_def Let_def strip_empty_iff
      split: sum.splits option.splits http_reply.splits json.splits if_splits)

definition release_is_clear :: "net \<Rightarrow> environ \<Rightarrow> (http_request, 'r) script \<Rightarrow> bool" where
  "release_is_clear net env s \<longleftrightarrow> (\<exists>repository ref sha token analyses s1 analysis s2 alerts s3.
     require_env env ''GITHUB_REPOSITORY'' = Inr repository \<and>
     require_env env ''GITHUB_REF'' = Inr ref \<and>
     require_env env ''GITHUB_SHA'' = Inr sha \<and>
     require_env env ''GITHUB_TOKEN'' = Inr token \<and>
     pages_read net (codeql_api_headers token) (Some (analyses_url repository)) s analyses s1 \<and>
     find_release_codeql_analysis analyses sha = Some analysis \<and>
     ref_points_at net token repository (analysis_ref analysis) s1 sha s2 \<and>
     pages_read net (codeql_api_headers token)
       (Some (open_alerts_url repository (analysis_ref analysis))) s2 alerts s3 \<and>
     (\<forall>alert \<in> set alerts. \<not> severe_alert alert))"

lemma report_open_alerts_verdict:
  "ends_with (report_open_alerts alerts ref sha rel) n s \<longleftrightarrow>
     n = (if \<exists>alert \<in> set alerts. severe_alert alert then 1 else 0)"
  by (auto simp: report_open_alerts_def Let_def filter_empty_conv codeql_alert_blocks_iff)

lemma iter_open_alerts_Inr:
  "iter_open_alerts net repository ref token s = Some (Inr alerts, s') \<longleftrightarrow>
     pages_read net (codeql_api_headers token) (Some (open_alerts_url repository ref)) s alerts s'"
  by (simp add: iter_open_alerts_def codeql_listing.lists)

lemma iter_codeql_analyses_Inr:
  "iter_codeql_analyses net repository token s = Some (Inr analyses, s') \<longleftrightarrow>
     pages_read net (codeql_api_headers token) (Some (analyses_url repository)) s analyses s'"
  by (simp add: iter_codeql_analyses_def codeql_listing.lists)

lemma check_analyzed_ref_verdict:
  "ends_with (check_analyzed_ref net repository ref sha token analysis) n s \<Longrightarrow> n \<in> {0, 1}"
  by (auto simp: check_analyzed_ref_def Let_def report_open_alerts_verdict split: option.splits if_splits)

lemma check_analyzed_ref_passes:
  "ends_with (check_analyzed_ref net repository ref sha token analysis) 0 s \<longleftrightarrow>
     (\<exists>s2 alerts s3. ref_points_at net token repository (analysis_ref analysis) s sha s2 \<and>
        pages_read net (codeql_api_headers token)
          (Some (open_alerts_url repository (analysis_ref analysis))) s2 alerts s3 \<and>
        (\<forall>alert \<in> set alerts. \<not> severe_alert alert))"
  by (auto simp: check_analyzed_ref_def Let_def report_open_alerts_verdict iter_open_alerts_Inr
      current_ref_sha_Inr value_iff seqE_def split: option.splits if_splits) fastforce+

lemma codeql_gate_verdict:
  "ends_with (codeql_gate_main net env) n s \<Longrightarrow> n \<in> {0, 1}"
  by (auto simp: codeql_gate_main_def split: option.splits dest: check_analyzed_ref_verdict)


end
