(* ===== verification/Dependency_Gate.thy ===== *)
theory Dependency_Gate
  imports Release_Http
begin

text \<open>
  Models \<^verbatim>\<open>scripts/ci/check_release_dependency_gate.py\<close>: a release is let through when every
  high or critical Dependabot alert is dismissed with a reason of non-exploitability and a written
  comment.  A printed line is a \<open>report\<close>: its kind with the values it shows.
\<close>

datatype dependency_report =
    DependencyError string
  | DependencyInspected nat string string
  | NoBlockingDependency
  | BlockingDependencies nat
  | BlockingDependency json string string string string string bool json

section \<open>API calls\<close>

definition dependency_api_headers :: "string \<Rightarrow> (string \<times> string) list" where
  "dependency_api_headers token =
     [(''Accept'', ''application/vnd.github+json''),
      (''Authorization'', ''Bearer '' @ token),
      (''X-GitHub-Api-Version'', ''2022-11-28''),
      (''User-Agent'', ''aionetx-release-dependency-gate'')]"

definition dependency_fetch_paginated_list ::
    "net \<Rightarrow> string \<Rightarrow> string \<Rightarrow> string \<Rightarrow> ((http_request, dependency_report) script, json_object list) prog" where
  "dependency_fetch_paginated_list net url token response_name =
     fetch_pages net (dependency_api_headers token) response_name url"

interpretation dependency_listing:
  paged_listing dependency_fetch_paginated_list dependency_api_headers
  by unfold_locales (simp add: dependency_fetch_paginated_list_def fetch_pages_exact)

definition dependabot_url :: "string \<Rightarrow> string" where
  "dependabot_url repository =
     ''https://api.github.com/repos/'' @ repository @ ''/dependabot/alerts'' @
     ''?state=open,dismissed,auto_dismissed&severity=high,critical&per_page=100''"

definition iter_open_blocking_alerts ::
    "net \<Rightarrow> string \<Rightarrow> string \<Rightarrow> ((http_request, dependency_report) script, json_object list) prog" where
  "iter_open_blocking_alerts net repository token =
     dependency_fetch_paginated_list net (dependabot_url repository) token ''Dependabot alerts''"

section \<open>Alerts\<close>

definition unknown :: string where
  "unknown = ''<unknown>''"

text \<open>\<open>v if isinstance(v, str) and v.strip() else "<unknown>"\<close>.\<close>

definition text_or_unknown :: "json \<Rightarrow> string" where
  "text_or_unknown v = (case json_str v of
     None \<Rightarrow> unknown | Some s \<Rightarrow> if str_strip s = [] then unknown else s)"

definition alert_package :: "json_object \<Rightarrow> string" where
  "alert_package alert = (case json_dict (json_get alert ''dependency'') of
     None \<Rightarrow> unknown
   | Some dependency \<Rightarrow> (case json_dict (json_get dependency ''package'') of
       None \<Rightarrow> unknown
     | Some package \<Rightarrow> (case json_str (json_get package ''name'') of
         None \<Rightarrow> unknown
       | Some name \<Rightarrow>
           if str_strip name = [] then unknown
           else (case json_str (json_get package ''ecosystem'') of
               None \<Rightarrow> name
             | Some ecosystem \<Rightarrow> if str_strip ecosystem = [] then name else ecosystem @ ''/'' @ name))))"

definition alert_severity :: "json_object \<Rightarrow> string" where
  "alert_severity alert = (case json_dict (json_get alert ''security_vulnerability'') of
     None \<Rightarrow> unknown | Some vulnerability \<Rightarrow> text_or_unknown (json_get vulnerability ''severity''))"

definition alert_advisory_id :: "json_object \<Rightarrow> string" where
  "alert_advisory_id alert = (case json_dict (json_get alert ''security_advisory'') of
     None \<Rightarrow> unknown | Some advisory \<Rightarrow> text_or_unknown (json_get advisory ''ghsa_id''))"

definition alert_version_range :: "json_object \<Rightarrow> string" where
  "alert_version_range alert = (case json_dict (json_get alert ''security_vulnerability'') of
     None \<Rightarrow> unknown
   | Some vulnerability \<Rightarrow> text_or_unknown (json_get vulnerability ''vulnerable_version_range''))"

definition alert_state :: "json_object \<Rightarrow> string" where
  "alert_state alert = text_or_unknown (json_get alert ''state'')"

text \<open>\<open>v in {...}\<close> for a set of texts: a list or a dict is not hashable and raises TypeError.\<close>

fun json_in_texts :: "json \<Rightarrow> string list \<Rightarrow> exn + bool" where
  "json_in_texts (JStr s) texts = Inr (s \<in> set texts)"
| "json_in_texts (JList _) texts = Inl (Exn TypeError ''unhashable type: list'')"
| "json_in_texts (JObj _) texts = Inl (Exn TypeError ''unhashable type: dict'')"
| "json_in_texts _ texts = Inr False"

definition dismissal_has_non_exploitability_rationale :: "json_object \<Rightarrow> exn + bool" where
  "dismissal_has_non_exploitability_rationale alert =
     bindR (json_in_texts (json_get alert ''dismissed_reason'') [''not_used'', ''inaccurate'']) (\<lambda>member.
       Inr (member \<and> (case json_str (json_get alert ''dismissed_comment'') of
              None \<Rightarrow> False | Some c \<Rightarrow> str_strip c \<noteq> [])))"

definition is_blocking_alert :: "json_object \<Rightarrow> exn + bool" where
  "is_blocking_alert alert =
     (let state = alert_state alert
      in if state = ''open'' then Inr True
         else if state \<in> {''dismissed'', ''auto_dismissed''}
         then bindR (dismissal_has_non_exploitability_rationale alert) (\<lambda>b. Inr (\<not> b))
         else Inr True)"

section \<open>main\<close>

text \<open>A list comprehension whose condition may raise.\<close>

fun filterR :: "('a \<Rightarrow> exn + bool) \<Rightarrow> 'a list \<Rightarrow> exn + 'a list" where
  "filterR P [] = Inr []"
| "filterR P (x # xs) = bindR (P x) (\<lambda>b. bindR (filterR P xs) (\<lambda>ys. Inr (if b then x # ys else ys)))"

definition dependency_alert_line :: "json_object \<Rightarrow> dependency_report" where
  "dependency_alert_line alert =
     BlockingDependency (json_get_default alert ''number'' (JStr ''?'')) (alert_package alert)
       (alert_severity alert) (alert_advisory_id alert) (alert_version_range alert)
       (alert_state alert) (alert_state alert \<in> {''dismissed'', ''auto_dismissed''})
       (json_get_default alert ''html_url'' (JStr ''''))"

definition is_gate_error :: "exn \<Rightarrow> bool" where
  "is_gate_error e \<longleftrightarrow> is_RuntimeError e \<or>
     exn_class e \<in> {OtherException ''HTTPError'', OtherException ''URLError'',
       OtherException ''ContentTooShortError'', OtherException ''JSONDecodeError''}"

definition report_blocking_alerts ::
    "json_object list \<Rightarrow> string \<Rightarrow> string \<Rightarrow> ((http_request, dependency_report) script, int) prog" where
  "report_blocking_alerts inspected_alerts repository release_ref =
     bindE (liftR (filterR is_blocking_alert inspected_alerts)) (\<lambda>blocking_alerts.
       seqE (print_out (DependencyInspected (length inspected_alerts) repository release_ref))
         (if blocking_alerts = []
          then seqE (print_out NoBlockingDependency) (ret 0)
          else seqE (print_err (BlockingDependencies (length blocking_alerts)))
               (seqE (print_err_all (map dependency_alert_line blocking_alerts))
               (ret 1))))"

text \<open>The guarded part of \<open>main\<close>: None stands for its early \<open>return 1\<close>.\<close>

definition inspect_dependencies ::
    "net \<Rightarrow> environ \<Rightarrow> ((http_request, dependency_report) script, (string \<times> string \<times> json_object list) option) prog" where
  "inspect_dependencies net env =
     tryE
       (bindE (liftR (require_env env ''GITHUB_REPOSITORY'')) (\<lambda>repository.
        bindE (liftR (require_env env ''GITHUB_REF'')) (\<lambda>release_ref.
        bindE (liftR (require_env env ''GITHUB_TOKEN'')) (\<lambda>token.
        bindE (iter_open_blocking_alerts net repository token) (\<lambda>inspected_alerts.
          ret (Some (repository, release_ref, inspected_alerts)))))))
       (\<lambda>e. if is_gate_error e then seqE (print_err (DependencyError (exn_msg e))) (ret None)
             else raiseE e)"

definition dependency_gate_main :: "net \<Rightarrow> environ \<Rightarrow> ((http_request, dependency_report) script, int) prog" where
  "dependency_gate_main net env =
     bindE (inspect_dependencies net env) (\<lambda>inspected. case inspected of
       None \<Rightarrow> ret 1
     | Some (repository, release_ref, inspected_alerts) \<Rightarrow>
         report_blocking_alerts inspected_alerts repository release_ref)"

section \<open>What the gate lets through\<close>

text \<open>An alert with an accepted, written rationale of non-exploitability.\<close>

definition accepted_rationale :: "json_object \<Rightarrow> bool" where
  "accepted_rationale alert \<longleftrightarrow>
     json_get alert ''state'' \<in> {JStr ''dismissed'', JStr ''auto_dismissed''} \<and>
     json_get alert ''dismissed_reason'' \<in> {JStr ''not_used'', JStr ''inaccurate''} \<and>
     (\<exists>comment. json_get alert ''dismissed_comment'' = JStr comment \<and> \<not> is_blank comment)"

lemma alert_state_iff:
  assumes "t \<noteq> unknown" and "\<not> is_blank t"
  shows "alert_state alert = t \<longleftrightarrow> json_get alert ''state'' = JStr t"
  using assms by (auto simp: alert_state_def text_or_unknown_def strip_empty_iff split: option.splits)

lemma dismissed_states:
  "alert_state alert = ''dismissed'' \<longleftrightarrow> json_get alert ''state'' = JStr ''dismissed''"
  "alert_state alert = ''auto_dismissed'' \<longleftrightarrow> json_get alert ''state'' = JStr ''auto_dismissed''"
  "alert_state alert = ''open'' \<longleftrightarrow> json_get alert ''state'' = JStr ''open''"
  by (simp_all add: alert_state_iff unknown_def is_blank_def is_space_def)

lemma is_blocking_alert_False: "is_blocking_alert alert = Inr False \<longleftrightarrow> accepted_rationale alert"
proof -
  have reason: "dismissal_has_non_exploitability_rationale alert = Inr True \<longleftrightarrow>
      json_get alert ''dismissed_reason'' \<in> {JStr ''not_used'', JStr ''inaccurate''} \<and>
      (\<exists>comment. json_get alert ''dismissed_comment'' = JStr comment \<and> \<not> is_blank comment)"
    by (cases "json_get alert ''dismissed_reason''")
      (auto simp: dismissal_has_non_exploitability_rationale_def strip_empty_iff split: option.splits)
  have "is_blocking_alert alert = Inr False \<longleftrightarrow>
      json_get alert ''state'' \<in> {JStr ''dismissed'', JStr ''auto_dismissed''} \<and>
      dismissal_has_non_exploitability_rationale alert = Inr True"
    by (auto simp: is_blocking_alert_def Let_def dismissed_states bindR_Inr)
  then show ?thesis by (simp add: reason accepted_rationale_def)
qed

lemma filterR_empty: "filterR P xs = Inr [] \<longleftrightarrow> (\<forall>x \<in> set xs. P x = Inr False)"
  by (induction xs) (auto simp: bindR_Inr split: if_splits)

lemma report_blocking_alerts_verdict:
  "ends_with (report_blocking_alerts alerts repository ref) n s \<Longrightarrow> n \<in> {0, 1}"
  by (auto simp: report_blocking_alerts_def split: if_splits)

lemma report_blocking_alerts_passes:
  "ends_with (report_blocking_alerts alerts repository ref) 0 s \<longleftrightarrow>
     (\<forall>alert \<in> set alerts. accepted_rationale alert)"
  by (auto simp: report_blocking_alerts_def value_iff filterR_empty is_blocking_alert_False
      split: if_splits)

lemma iter_open_blocking_alerts_Inr:
  "iter_open_blocking_alerts net repository token s = Some (Inr alerts, s') \<longleftrightarrow>
     pages_read net (dependency_api_headers token) (Some (dependabot_url repository)) s alerts s'"
  by (simp add: iter_open_blocking_alerts_def dependency_listing.lists)

lemma inspect_dependencies_Some:
  "inspect_dependencies net env s = Some (Inr (Some (repository, ref, alerts)), s') \<longleftrightarrow>
     (\<exists>token. require_env env ''GITHUB_REPOSITORY'' = Inr repository \<and>
        require_env env ''GITHUB_REF'' = Inr ref \<and> require_env env ''GITHUB_TOKEN'' = Inr token \<and>
        pages_read net (dependency_api_headers token) (Some (dependabot_url repository)) s alerts s')"
  by (auto simp: inspect_dependencies_def value_iff seqE_def iter_open_blocking_alerts_Inr
      split: if_splits)

lemma dependency_gate_passes:
  "ends_with (dependency_gate_main net env) 0 s \<longleftrightarrow>
     (\<exists>repository ref alerts s'.
        inspect_dependencies net env s = Some (Inr (Some (repository, ref, alerts)), s') \<and>
        (\<forall>alert \<in> set alerts. accepted_rationale alert))"
  by (simp add: dependency_gate_main_def ends_with_option report_blocking_alerts_passes) blast


text \<open>
  C31: the query of this gate holds commas, and so does the URL of a next page that repeats it
  unescaped.  When the URLs of the links of the first answer hold a comma, the gate sends that
  one request: whatever the later pages of the listing hold, an open critical alert included, the
  gate exits with 0 as soon as the alerts of the first page are accepted.
\<close>

theorem later_pages_not_inspected:
  assumes "require_env env ''GITHUB_REPOSITORY'' = Inr repository"
    and "require_env env ''GITHUB_REF'' = Inr ref" and "require_env env ''GITHUB_TOKEN'' = Inr token"
    and "r = \<lparr>http_url = dependabot_url repository, http_headers = dependency_api_headers token\<rparr>"
    and "net (requests s @ [r]) = HttpReply (Inr (JList page)) (Some (link_header links))"
    and "\<forall>(url, rel) \<in> set links. CHR '','' \<in> set url \<and> CHR ''<'' \<notin> set url \<and>
      CHR 0x22 \<notin> set url \<and> CHR ''<'' \<notin> set rel"
    and "\<forall>alert \<in> set (json_objects page). accepted_rationale alert"
  shows "\<exists>s'. dependency_gate_main net env s = Some (Inr 0, s') \<and> requests s' = requests s @ [r]"
proof -
  let ?s1 = "s\<lparr>requests := requests s @ [r]\<rparr>"
  define s1 where "s1 = s\<lparr>requests := requests s @ [r]\<rparr>"
  have "dependabot_url repository \<noteq> []" by (simp add: dependabot_url_def)
  moreover have "pages_read net (dependency_api_headers token) (parse_next_link (Some (link_header links)))
      s1 [] s1"
    using parse_next_link_comma [OF assms(6)] by (simp add: pages_end)
  ultimately have "pages_read net (dependency_api_headers token) (Some (dependabot_url repository)) s
      (json_objects page @ []) s1"
    using assms(4,5) by (intro pages_more) (simp_all add: s1_def)
  then have "inspect_dependencies net env s = Some (Inr (Some (repository, ref, json_objects page)), s1)"
    using assms(1-3) by (auto simp: inspect_dependencies_Some)
  moreover have "filterR is_blocking_alert (json_objects page) = Inr []"
    using assms(7) by (simp add: filterR_empty is_blocking_alert_False)
  ultimately show ?thesis
    by (simp add: dependency_gate_main_def report_blocking_alerts_def prog_defs liftR_def
        print_out_def s1_def)
qed

theorem later_pages_not_inspected_witness:
  "\<exists>s'. dependency_gate_main
     (\<lambda>log. if length log = 1
        then HttpReply (Inr (JList []))
          (Some (link_header [(''https://api.github.com/r?state=open,dismissed&page=2'', ''next'')]))
        else HttpReply (Inr (JList [JObj [(''state'', JStr ''open'')]])) None)
     (\<lambda>_. Some ''r'') \<lparr>requests = [], out_lines = [], err_lines = []\<rparr> = Some (Inr 0, s') \<and>
     requests s' = [\<lparr>http_url = dependabot_url ''r'', http_headers = dependency_api_headers ''r''\<rparr>]"
  using later_pages_not_inspected [where repository = "''r''" and ref = "''r''" and token = "''r''"
      and env = "\<lambda>_. Some ''r''" and s = "\<lparr>requests = [], out_lines = [], err_lines = []\<rparr>" and page = "[]"
      and links = "[(''https://api.github.com/r?state=open,dismissed&page=2'', ''next'')]", OF _ _ _ refl]
  by (simp add: require_env_def str_strip_def lstrip_def is_space_def json_objects_def
      List.map_filter_simps del: link_header.simps)

end
