(* ===== verification/Sha_Pins.thy ===== *)
theory Sha_Pins
  imports Release_Http
begin

text \<open>
  Models \<^verbatim>\<open>scripts/ci/check_sha_pins.py\<close>: every action that a workflow pins by a commit SHA
  must carry a comment naming an upstream tag or release branch, and that ref must resolve to
  the pinned SHA.  The regular expressions are written out as matchers: within one starting
  point every quantifier of theirs is followed by a character outside its class, so the match
  needs no backtracking.  The program \<open>gh\<close> is a function of the calls made so far.
\<close>

section \<open>The regular expressions\<close>

definition is_alnum :: "char \<Rightarrow> bool" where
  "is_alnum c = (let n = of_char c :: nat in
     48 \<le> n \<and> n \<le> 57 \<or> 65 \<le> n \<and> n \<le> 90 \<or> 97 \<le> n \<and> n \<le> 122)"

definition is_name_char :: "char \<Rightarrow> bool" where
  "is_name_char c = (is_alnum c \<or> c \<in> {CHR ''_'', CHR ''.'', CHR ''-''})"

definition is_hex :: "char \<Rightarrow> bool" where
  "is_hex c = (let n = of_char c :: nat in
     48 \<le> n \<and> n \<le> 57 \<or> 65 \<le> n \<and> n \<le> 70 \<or> 97 \<le> n \<and> n \<le> 102)"

record pin_match =
  m_owner :: string
  m_repo :: string
  m_path :: string
  m_sha :: string
  m_ref :: "string option"

text \<open>\<open>(?:/[A-Za-z0-9_.-]+)*\<close>: the text matched and the rest.\<close>

function match_path :: "string \<Rightarrow> string \<times> string" where
  "match_path s =
     (case s of
        [] \<Rightarrow> ([], [])
      | c # cs \<Rightarrow>
          if c = CHR ''/'' \<and> takeWhile is_name_char cs \<noteq> []
          then (case match_path (dropWhile is_name_char cs) of
                  (path, rest) \<Rightarrow> (c # takeWhile is_name_char cs @ path, rest))
          else ([], s))"
  by auto
termination
  by (relation "measure length") (auto simp: length_dropWhile_le le_imp_less_Suc)

declare match_path.simps [simp del]

text \<open>\<open>(?:\s+#\s*(?P<ref>\S+))?\<close>.\<close>

definition match_ref :: "string \<Rightarrow> string option" where
  "match_ref s =
     (if takeWhile is_space s = [] then None
      else case dropWhile is_space s of
             [] \<Rightarrow> None
           | c # cs \<Rightarrow>
               if c \<noteq> CHR ''#'' then None
               else let ref = takeWhile (\<lambda>c. \<not> is_space c) (dropWhile is_space cs)
                    in if ref = [] then None else Some ref)"

text \<open>\<open>@(?P<sha>[0-9a-fA-F]{40})\<close> and the optional comment.\<close>

definition match_sha :: "string \<Rightarrow> string \<Rightarrow> string \<Rightarrow> string \<Rightarrow> pin_match option" where
  "match_sha owner repo path s = (case s of
     [] \<Rightarrow> None
   | c # cs \<Rightarrow>
       if c = CHR ''@'' \<and> 40 \<le> length cs \<and> list_all is_hex (take 40 cs)
       then Some \<lparr>m_owner = owner, m_repo = repo, m_path = path, m_sha = take 40 cs,
         m_ref = match_ref (drop 40 cs)\<rparr>
       else None)"

text \<open>\<open>uses:\s+(?P<owner>...)/(?P<repo>...)(?P<path>...)@...\<close> at the start of a text.\<close>

definition match_pinned :: "string \<Rightarrow> pin_match option" where
  "match_pinned s =
     (if \<not> prefix ''uses:'' s \<or> takeWhile is_space (drop 5 s) = [] then None
      else let s1 = dropWhile is_space (drop 5 s);
               owner = takeWhile is_name_char s1
           in if owner = [] then None
              else case dropWhile is_name_char s1 of
                     [] \<Rightarrow> None
                   | c # s2 \<Rightarrow>
                       let repo = takeWhile is_name_char s2
                       in if c \<noteq> CHR ''/'' \<or> repo = [] then None
                          else case match_path (dropWhile is_name_char s2) of
                                 (path, s3) \<Rightarrow> match_sha owner repo path s3)"

text \<open>\<open>_PINNED_USES_RE.search\<close>: the leftmost match.\<close>

fun search_pinned :: "string \<Rightarrow> pin_match option" where
  "search_pinned [] = None"
| "search_pinned (c # cs) =
     (case match_pinned (c # cs) of Some m \<Rightarrow> Some m | None \<Rightarrow> search_pinned cs)"

datatype ref_kind = TAGS | HEADS

fun ref_kind_text :: "ref_kind \<Rightarrow> string" where
  "ref_kind_text TAGS = ''tags''"
| "ref_kind_text HEADS = ''heads''"

text \<open>\<open>^v[0-9A-Za-z][0-9A-Za-z._-]*$\<close>, matched in full.\<close>

fun is_version_ref :: "string \<Rightarrow> bool" where
  "is_version_ref (v # c # cs) = (v = CHR ''v'' \<and> is_alnum c \<and> list_all is_name_char cs)"
| "is_version_ref _ = False"

definition ref_kind_for_comment :: "string \<Rightarrow> ref_kind option" where
  "ref_kind_for_comment ref =
     (if is_version_ref ref then Some TAGS
      else if prefix ''release/'' ref \<and> is_version_ref (drop 8 ref) then Some HEADS
      else None)"

section \<open>Pins\<close>

record action_pin =
  action :: string
  pin_owner :: string
  pin_repo :: string
  pinned_sha :: string
  pin_ref :: string
  pin_ref_kind :: ref_kind

text \<open>The three results of \<open>_parse_action_pin\<close>: None, a message, a pin.\<close>

datatype bad_pin = MissingRefComment string string | UnsupportedRefComment string string string

datatype parsed_pin = NotPinned | BadPin bad_pin | Pin action_pin

definition parse_action_pin :: "string \<Rightarrow> parsed_pin" where
  "parse_action_pin line = (case search_pinned line of
     None \<Rightarrow> NotPinned
   | Some m \<Rightarrow>
       let action = m_owner m @ ''/'' @ m_repo m @ m_path m; sha = lower (m_sha m)
       in case m_ref m of
            None \<Rightarrow> BadPin (MissingRefComment action (take 12 sha))
          | Some ref \<Rightarrow> (case ref_kind_for_comment ref of
              None \<Rightarrow> BadPin (UnsupportedRefComment ref action (take 12 sha))
            | Some kind \<Rightarrow> Pin \<lparr>action = action, pin_owner = m_owner m, pin_repo = m_repo m,
                pinned_sha = sha, pin_ref = ref, pin_ref_kind = kind\<rparr>))"

section \<open>gh api\<close>

text \<open>
  A path is its fields: the SHA of a tag object is whatever JSON value the server gave.  A call
  raises, or ends with an exit code, its error output, and its output parsed by \<open>json.loads\<close>.
\<close>

datatype gh_path = RefPath string string ref_kind string | TagPath string string json

datatype gh_reply = GhRaises exn | GhExit int string "exn + json"

type_synonym gh = "gh_path list \<Rightarrow> gh_reply"

text \<open>
  The path as text; the messages of failed calls on tag objects, of which only the class
  matters, leave the SHA out.
\<close>

fun gh_path_text :: "gh_path \<Rightarrow> string" where
  "gh_path_text (RefPath owner repo kind ref) =
     ''/repos/'' @ owner @ ''/'' @ repo @ ''/git/refs/'' @ ref_kind_text kind @ ''/'' @ ref"
| "gh_path_text (TagPath owner repo sha) = ''/repos/'' @ owner @ ''/'' @ repo @ ''/git/tags/''"

definition quoted_path :: "gh_path \<Rightarrow> string" where
  "quoted_path path = CHR 0x27 # gh_path_text path @ [CHR 0x27]"

definition gh_failure :: "gh_path \<Rightarrow> int \<Rightarrow> string \<Rightarrow> exn" where
  "gh_failure path code err = Exn RuntimeError
     (''gh api '' @ quoted_path path @ '' failed (exit '' @ show_int code @ ''):'' @ CHR 0x0A # str_strip err)"

definition gh_bad_shape :: "gh_path \<Rightarrow> exn" where
  "gh_bad_shape path = Exn RuntimeError
     (''gh api '' @ quoted_path path @ '' returned unexpected JSON shape.'')"

definition gh_api :: "gh \<Rightarrow> gh_path \<Rightarrow> ((gh_path, 'r) script, json_object) prog" where
  "gh_api gh path s =
     (let s1 = s\<lparr>requests := requests s @ [path]\<rparr>
      in case gh (requests s1) of
           GhRaises e \<Rightarrow> Some (Inl e, s1)
         | GhExit code err output \<Rightarrow>
             if code \<noteq> 0 then Some (Inl (gh_failure path code err), s1)
             else (case output of
                 Inl e \<Rightarrow> Some (Inl e, s1)
               | Inr payload \<Rightarrow> (case json_dict payload of
                   None \<Rightarrow> Some (Inl (gh_bad_shape path), s1)
                 | Some d \<Rightarrow> Some (Inr d, s1))))"

text \<open>The part of \<open>_resolve_ref_commit_sha\<close> behind an annotated tag.\<close>

definition resolve_tag ::
    "gh \<Rightarrow> string \<Rightarrow> string \<Rightarrow> json \<Rightarrow> ((gh_path, 'r) script, json) prog" where
  "resolve_tag gh owner repo obj_sha =
     bindE (gh_api gh (TagPath owner repo obj_sha)) (\<lambda>tag_obj.
       case json_dict (json_get_default tag_obj ''object'' (JObj [])) of
         None \<Rightarrow> ret JNull
       | Some tagged \<Rightarrow>
           let tagged_type = json_get_default tagged ''type'' (JStr '''');
               tagged_sha = json_get_default tagged ''sha'' (JStr '''')
           in if tagged_type = JStr ''commit'' then ret tagged_sha
              else bindE (gh_api gh (TagPath owner repo tagged_sha)) (\<lambda>tag_obj2.
                case json_dict (json_get_default tag_obj2 ''object'' (JObj [])) of
                  None \<Rightarrow> ret JNull
                | Some inner_obj \<Rightarrow> ret (json_get_default inner_obj ''sha'' (JStr ''''))))"

definition resolve_ref_commit_sha ::
    "gh \<Rightarrow> string \<Rightarrow> string \<Rightarrow> string \<Rightarrow> ref_kind \<Rightarrow> ((gh_path, 'r) script, json) prog" where
  "resolve_ref_commit_sha gh owner repo ref kind =
     bindE (tryE (bindE (gh_api gh (RefPath owner repo kind ref)) (\<lambda>d. ret (Some d)))
              (\<lambda>e. if is_RuntimeError e \<and> (contains ''404'' (exn_msg e) \<or> contains ''Not Found'' (exn_msg e))
                    then ret None else raiseE e))
       (\<lambda>found. case found of
          None \<Rightarrow> ret JNull
        | Some ref_data \<Rightarrow> (case json_dict (json_get_default ref_data ''object'' (JObj [])) of
            None \<Rightarrow> ret JNull
          | Some obj \<Rightarrow>
              let obj_type = json_get_default obj ''type'' (JStr '''');
                  obj_sha = json_get_default obj ''sha'' (JStr '''')
              in if obj_type = JStr ''commit'' then ret obj_sha
                 else if obj_type = JStr ''tag'' then resolve_tag gh owner repo obj_sha
                 else ret obj_sha))"

section \<open>main\<close>

datatype pin_failure =
    BadPinAt string nat bad_pin
  | ResolveError string nat string string string exn
  | RefNotFound string nat string string string
  | ShaMismatch string nat string string string string json

datatype pin_report =
    TokenMissing
  | NoWorkflows
  | CheckingPin string string string
  | PinOk string string
  | ValidationFailed
  | FailureLine pin_failure
  | AllPinsValid nat nat

text \<open>The pass of the inner loop for one line: the failures and the number of pins that are fine.\<close>

definition check_pin ::
    "gh \<Rightarrow> string \<Rightarrow> nat \<Rightarrow> action_pin \<Rightarrow> pin_failure list \<times> nat \<Rightarrow>
       ((gh_path, pin_report) script, pin_failure list \<times> nat) prog" where
  "check_pin gh file lineno pin = (\<lambda>(failures, checked).
     seqE (print_out (CheckingPin (action pin) (take 12 (pinned_sha pin)) (pin_ref pin)))
       (bindE
          (tryE
             (bindE (resolve_ref_commit_sha gh (pin_owner pin) (pin_repo pin) (pin_ref pin) (pin_ref_kind pin))
                (\<lambda>sha. ret (Inr sha)))
             (\<lambda>e. if is_RuntimeError e then ret (Inl e) else raiseE e))
          (\<lambda>outcome. case outcome of
             Inl e \<Rightarrow> ret (failures @ [ResolveError file lineno (pin_owner pin) (pin_repo pin) (pin_ref pin) e], checked)
           | Inr resolved \<Rightarrow>
               if resolved = JNull
               then ret (failures @ [RefNotFound file lineno (pin_ref pin) (pin_owner pin) (pin_repo pin)], checked)
               else if resolved \<noteq> JStr (pinned_sha pin)
               then ret (failures @ [ShaMismatch file lineno (pin_owner pin) (pin_repo pin) (pin_ref pin)
                      (pinned_sha pin) resolved], checked)
               else seqE (print_out (PinOk (take 12 (pinned_sha pin)) (pin_ref pin)))
                      (ret (failures, checked + 1)))))"

definition check_line ::
    "gh \<Rightarrow> string \<Rightarrow> nat \<Rightarrow> string \<Rightarrow> pin_failure list \<times> nat \<Rightarrow>
       ((gh_path, pin_report) script, pin_failure list \<times> nat) prog" where
  "check_line gh file lineno line acc = (case parse_action_pin line of
     NotPinned \<Rightarrow> ret acc
   | BadPin bad \<Rightarrow> ret (fst acc @ [BadPinAt file lineno bad], snd acc)
   | Pin pin \<Rightarrow> check_pin gh file lineno pin acc)"

fun check_lines ::
    "gh \<Rightarrow> string \<Rightarrow> nat \<Rightarrow> string list \<Rightarrow> pin_failure list \<times> nat \<Rightarrow>
       ((gh_path, pin_report) script, pin_failure list \<times> nat) prog" where
  "check_lines gh file lineno [] acc = ret acc"
| "check_lines gh file lineno (line # lines) acc =
     bindE (check_line gh file lineno line acc) (check_lines gh file (lineno + 1) lines)"

text \<open>A workflow file is its name with the result of \<open>read_text\<close>.\<close>

fun check_files ::
    "gh \<Rightarrow> (string \<times> (exn + string)) list \<Rightarrow> pin_failure list \<times> nat \<Rightarrow>
       ((gh_path, pin_report) script, pin_failure list \<times> nat) prog" where
  "check_files gh [] acc = ret acc"
| "check_files gh ((file, text) # files) acc =
     bindE (liftR text) (\<lambda>content.
     bindE (check_lines gh file 1 (splitlines content) acc) (check_files gh files))"

definition sha_pins_main ::
    "gh \<Rightarrow> environ \<Rightarrow> (string \<times> (exn + string)) list \<Rightarrow> ((gh_path, pin_report) script, int) prog" where
  "sha_pins_main gh env workflow_files =
     (if env ''GH_TOKEN'' \<in> {None, Some ''''} then seqE (print_err TokenMissing) (ret 0)
      else if workflow_files = [] then seqE (print_err NoWorkflows) (ret 0)
      else bindE (check_files gh workflow_files ([], 0)) (\<lambda>(failures, checked_count).
        if failures \<noteq> []
        then seqE (print_err ValidationFailed)
               (seqE (print_err_all (map FailureLine failures)) (ret 1))
        else seqE (print_out (AllPinsValid checked_count (length workflow_files))) (ret 0)))"

section \<open>What a verified pin is\<close>

text \<open>
  For a server whose answer to a call does not change during the run: \<open>gh_answers api path d\<close> when
  the call gives the object \<open>d\<close>, and the SHA a ref resolves to through at most two tag objects.
\<close>

definition gh_answers :: "(gh_path \<Rightarrow> gh_reply) \<Rightarrow> gh_path \<Rightarrow> json_object \<Rightarrow> bool" where
  "gh_answers api path d \<longleftrightarrow> (\<exists>err. api path = GhExit 0 err (Inr (JObj d)))"

definition ref_target :: "json_object \<Rightarrow> json" where
  "ref_target d = json_get_default d ''object'' (JObj [])"

definition ref_type :: "json_object \<Rightarrow> json" where
  "ref_type obj = json_get_default obj ''type'' (JStr '''')"

definition ref_sha :: "json_object \<Rightarrow> json" where
  "ref_sha obj = json_get_default obj ''sha'' (JStr '''')"

inductive resolves_to ::
    "(gh_path \<Rightarrow> gh_reply) \<Rightarrow> string \<Rightarrow> string \<Rightarrow> string \<Rightarrow> ref_kind \<Rightarrow> json \<Rightarrow> bool"
  for api :: "gh_path \<Rightarrow> gh_reply" and owner repo ref :: string and kind :: ref_kind where
  direct: "gh_answers api (RefPath owner repo kind ref) d \<Longrightarrow> ref_target d = JObj obj \<Longrightarrow>
    ref_type obj \<noteq> JStr ''tag'' \<Longrightarrow> resolves_to api owner repo ref kind (ref_sha obj)"
| annotated: "gh_answers api (RefPath owner repo kind ref) d \<Longrightarrow> ref_target d = JObj obj \<Longrightarrow>
    ref_type obj = JStr ''tag'' \<Longrightarrow>
    gh_answers api (TagPath owner repo (ref_sha obj)) t \<Longrightarrow> ref_target t = JObj tagged \<Longrightarrow>
    ref_type tagged = JStr ''commit'' \<Longrightarrow> resolves_to api owner repo ref kind (ref_sha tagged)"
| nested: "gh_answers api (RefPath owner repo kind ref) d \<Longrightarrow> ref_target d = JObj obj \<Longrightarrow>
    ref_type obj = JStr ''tag'' \<Longrightarrow>
    gh_answers api (TagPath owner repo (ref_sha obj)) t \<Longrightarrow> ref_target t = JObj tagged \<Longrightarrow>
    ref_type tagged \<noteq> JStr ''commit'' \<Longrightarrow>
    gh_answers api (TagPath owner repo (ref_sha tagged)) t2 \<Longrightarrow> ref_target t2 = JObj inner \<Longrightarrow>
    resolves_to api owner repo ref kind (ref_sha inner)"

inductive_cases resolves_toE: "resolves_to api owner repo ref kind v"

text \<open>A workflow line that the check accepts.\<close>

definition line_verified :: "(gh_path \<Rightarrow> gh_reply) \<Rightarrow> string \<Rightarrow> bool" where
  "line_verified api line = (case parse_action_pin line of
     NotPinned \<Rightarrow> True
   | BadPin _ \<Rightarrow> False
   | Pin pin \<Rightarrow> resolves_to api (pin_owner pin) (pin_repo pin) (pin_ref pin) (pin_ref_kind pin)
       (JStr (pinned_sha pin)))"

lemma resolves_to_iff:
  "resolves_to api owner repo ref kind v \<longleftrightarrow>
     (\<exists>d obj. gh_answers api (RefPath owner repo kind ref) d \<and> ref_target d = JObj obj \<and>
        (if ref_type obj = JStr ''tag''
         then \<exists>t tagged. gh_answers api (TagPath owner repo (ref_sha obj)) t \<and> ref_target t = JObj tagged \<and>
           (if ref_type tagged = JStr ''commit'' then ref_sha tagged = v
            else \<exists>t2 inner. gh_answers api (TagPath owner repo (ref_sha tagged)) t2 \<and>
              ref_target t2 = JObj inner \<and> ref_sha inner = v)
         else ref_sha obj = v))" (is "_ \<longleftrightarrow> ?spec v")
proof
  assume "resolves_to api owner repo ref kind v"
  then show "?spec v"
  proof cases
    case (direct d obj)
    then show ?thesis by auto
  next
    case (annotated d obj t tagged)
    then show ?thesis
      by - (rule exI [of _ d], rule exI [of _ obj], auto)
  next
    case (nested d obj t tagged t2 inner)
    then show ?thesis
      by - (rule exI [of _ d], rule exI [of _ obj], auto)
  qed
next
  assume "?spec v"
  then obtain d obj where d: "gh_answers api (RefPath owner repo kind ref) d" "ref_target d = JObj obj"
    and obj: "if ref_type obj = JStr ''tag''
         then \<exists>t tagged. gh_answers api (TagPath owner repo (ref_sha obj)) t \<and> ref_target t = JObj tagged \<and>
           (if ref_type tagged = JStr ''commit'' then ref_sha tagged = v
            else \<exists>t2 inner. gh_answers api (TagPath owner repo (ref_sha tagged)) t2 \<and>
              ref_target t2 = JObj inner \<and> ref_sha inner = v)
         else ref_sha obj = v"
    by blast
  show "resolves_to api owner repo ref kind v"
    using obj direct [OF d] annotated [OF d] nested [OF d]
    by (auto split: if_splits) metis
qed

text \<open>The server of a run, seen through a log of calls.\<close>

definition steady :: "(gh_path \<Rightarrow> gh_reply) \<Rightarrow> gh" where
  "steady api calls = api (last calls)"

lemma gh_api_steady:
  "gh_api (steady api) path s = Some (Inr d, s') \<longleftrightarrow>
     gh_answers api path d \<and> s' = s\<lparr>requests := requests s @ [path]\<rparr>"
  by (auto simp: gh_api_def steady_def gh_answers_def Let_def
      split: gh_reply.splits sum.splits option.splits if_splits)

lemma resolve_tag_steady:
  "ends_with (resolve_tag (steady api) owner repo sha) (JStr v) s \<longleftrightarrow>
     (\<exists>t tagged. gh_answers api (TagPath owner repo sha) t \<and> ref_target t = JObj tagged \<and>
        (if ref_type tagged = JStr ''commit'' then ref_sha tagged = JStr v
         else \<exists>t2 inner. gh_answers api (TagPath owner repo (ref_sha tagged)) t2 \<and>
           ref_target t2 = JObj inner \<and> ref_sha inner = JStr v))"
  by (simp add: resolve_tag_def gh_api_steady ends_with_option Let_def ref_target_def ref_type_def
      ref_sha_def if_distrib [where f = "\<lambda>m. ends_with m _ _"] cong: if_cong)

lemma resolve_steady:
  "ends_with (resolve_ref_commit_sha (steady api) owner repo ref kind) (JStr v) s \<longleftrightarrow>
     resolves_to api owner repo ref kind (JStr v)"
proof -
  have "ends_with (resolve_ref_commit_sha (steady api) owner repo ref kind) (JStr v) s \<longleftrightarrow>
      (\<exists>d obj. gh_answers api (RefPath owner repo kind ref) d \<and> ref_target d = JObj obj \<and>
         (if ref_type obj = JStr ''tag''
          then ends_with (resolve_tag (steady api) owner repo (ref_sha obj)) (JStr v)
            (s\<lparr>requests := requests s @ [RefPath owner repo kind ref]\<rparr>)
          else ref_sha obj = JStr v))"
    by (auto simp: resolve_ref_commit_sha_def value_iff gh_api_steady ends_with_option Let_def
        ref_target_def ref_type_def ref_sha_def split: if_splits)
  then show ?thesis by (simp only: resolve_tag_steady resolves_to_iff)
qed

section \<open>The verdict\<close>

text \<open>The pins a line adds to the count when it is verified.\<close>

definition pins_of :: "string \<Rightarrow> nat" where
  "pins_of line = (case parse_action_pin line of Pin _ \<Rightarrow> 1 | _ \<Rightarrow> 0)"

lemma ends_with_sum:
  "ends_with (case x of Inl e \<Rightarrow> f e | Inr a \<Rightarrow> g a) v s \<longleftrightarrow>
     (\<exists>e. x = Inl e \<and> ends_with (f e) v s) \<or> (\<exists>a. x = Inr a \<and> ends_with (g a) v s)"
  by (cases x) simp_all

lemma check_pin_clean:
  "ends_with (check_pin (steady api) file lineno pin (fs, n)) ([], m) s \<longleftrightarrow>
     fs = [] \<and> m = n + 1 \<and>
     resolves_to api (pin_owner pin) (pin_repo pin) (pin_ref pin) (pin_ref_kind pin) (JStr (pinned_sha pin))"
  (is "?run \<longleftrightarrow> _ \<and> _ \<and> ?ok")
proof -
  let ?s1 = "s\<lparr>out_lines := out_lines s @ [CheckingPin (action pin) (take 12 (pinned_sha pin)) (pin_ref pin)]\<rparr>"
  let ?m = "resolve_ref_commit_sha (steady api) (pin_owner pin) (pin_repo pin) (pin_ref pin) (pin_ref_kind pin)"
  have "?run \<longleftrightarrow> fs = [] \<and> m = n + 1 \<and> ends_with ?m (JStr (pinned_sha pin)) ?s1"
    by (auto simp: check_pin_def value_iff ends_with_sum ends_with_def [of ?m] split: if_splits)
  then show ?thesis by (simp only: resolve_steady)
qed

lemma check_line_clean:
  "ends_with (check_line (steady api) file lineno line (fs, n)) ([], m) s \<longleftrightarrow>
     fs = [] \<and> line_verified api line \<and> m = n + pins_of line"
  by (cases "parse_action_pin line")
    (auto simp: check_line_def line_verified_def pins_of_def check_pin_clean)

lemma ends_with_value: "ends_with m v s \<longleftrightarrow> (\<exists>s'. m s = Some (Inr v, s'))"
  by (simp add: ends_with_def)

text \<open>Running a pass and then a rest whose verdict does not depend on the state.\<close>

lemma ends_with_then:
  assumes "\<And>a s. ends_with (f a) v s \<longleftrightarrow> P a"
  shows "ends_with (bindE m f) v s \<longleftrightarrow> (\<exists>a. ends_with m a s \<and> P a)"
  by (auto simp: assms ends_with_value [of m])

lemma check_lines_clean:
  "ends_with (check_lines (steady api) file lineno lines (fs, n)) ([], m) s \<longleftrightarrow>
     fs = [] \<and> list_all (line_verified api) lines \<and> m = n + sum_list (map pins_of lines)"
proof (induction lines arbitrary: lineno fs n s)
  case Nil
  then show ?case by auto
next
  case (Cons line lines)
  have rest: "ends_with (check_lines (steady api) file (lineno + 1) lines acc) ([], m) s \<longleftrightarrow>
      fst acc = [] \<and> list_all (line_verified api) lines \<and> m = snd acc + sum_list (map pins_of lines)"
    for acc s
    using Cons.IH by (cases acc) simp
  have "ends_with (check_lines (steady api) file lineno (line # lines) (fs, n)) ([], m) s \<longleftrightarrow>
      (\<exists>k. ends_with (check_line (steady api) file lineno line (fs, n)) ([], k) s \<and>
         list_all (line_verified api) lines \<and> m = k + sum_list (map pins_of lines))"
    unfolding check_lines.simps ends_with_then [OF rest] by auto
  then show ?case by (auto simp: check_line_clean)
qed

text \<open>The lines of the readable files.\<close>

definition file_verified :: "(gh_path \<Rightarrow> gh_reply) \<Rightarrow> string \<times> (exn + string) \<Rightarrow> bool" where
  "file_verified api f = (case snd f of
     Inl _ \<Rightarrow> False | Inr text \<Rightarrow> list_all (line_verified api) (splitlines text))"

definition pins_of_file :: "string \<times> (exn + string) \<Rightarrow> nat" where
  "pins_of_file f = (case snd f of
     Inl _ \<Rightarrow> 0 | Inr text \<Rightarrow> sum_list (map pins_of (splitlines text)))"

lemma file_eqs:
  "\<not> file_verified api (fname, Inl e)"
  "file_verified api (fname, Inr content) = list_all (line_verified api) (splitlines content)"
  "pins_of_file (fname, Inr content) = sum_list (map pins_of (splitlines content))"
  by (simp_all add: file_verified_def pins_of_file_def)

lemma check_files_clean:
  "ends_with (check_files (steady api) files (fs, n)) ([], m) s \<longleftrightarrow>
     fs = [] \<and> list_all (file_verified api) files \<and> m = n + sum_list (map pins_of_file files)"
proof (induction files arbitrary: fs n s)
  case Nil
  then show ?case by auto
next
  case (Cons f files)
  obtain fname body where f: "f = (fname, body)" by (cases f)
  have rest: "ends_with (check_files (steady api) files acc) ([], m) s \<longleftrightarrow>
      fst acc = [] \<and> list_all (file_verified api) files \<and> m = snd acc + sum_list (map pins_of_file files)"
    for acc s
    using Cons.IH by (cases acc) simp
  have "ends_with (check_files (steady api) (f # files) (fs, n)) ([], m) s \<longleftrightarrow>
      (\<exists>content k. body = Inr content \<and>
         ends_with (check_lines (steady api) fname 1 (splitlines content) (fs, n)) ([], k) s \<and>
         list_all (file_verified api) files \<and> m = k + sum_list (map pins_of_file files))"
    unfolding f check_files.simps ends_with_simps(3) [of "liftR _"] ends_with_then [OF rest] liftR_value
    by auto
  then show ?case
    by (cases body) (auto simp: check_lines_clean f file_eqs)
qed

text \<open>The script always ends.\<close>

lemma gh_api_ends: "wp False (gh_api gh path) (\<lambda>_ _. True) (\<lambda>_ _. True) s"
  by (auto simp: wp_def gh_api_def Let_def split: gh_reply.split sum.split option.split)

lemma wp_gh_api:
  "(\<And>a s'. Q a s') \<Longrightarrow> (\<And>e s'. E e s') \<Longrightarrow> wp False (gh_api gh path) Q E s"
  by (rule wp_mono [OF gh_api_ends])

lemma resolve_ends:
  "wp False (resolve_ref_commit_sha gh owner repo ref kind) (\<lambda>_ _. True) (\<lambda>_ _. True) s"
proof -
  have tag: "wp False (resolve_tag gh owner repo sha) (\<lambda>_ _. True) (\<lambda>_ _. True) s" for sha s
    by (auto simp: resolve_tag_def wp_simps Let_def split: option.split intro!: wp_gh_api)
  show ?thesis
    by (auto simp: resolve_ref_commit_sha_def wp_simps Let_def tag split: option.split intro!: wp_gh_api)
qed

lemma check_line_ends:
  "wp False (check_line gh file lineno line acc) (\<lambda>_ _. True) (\<lambda>_ _. True) s"
proof -
  have "wp False (check_pin gh file lineno pin acc) (\<lambda>_ _. True) (\<lambda>_ _. True) s" for pin
    by (cases acc) (auto simp: check_pin_def wp_simps print_out_def split: sum.split
        intro!: wp_mono [OF resolve_ends])
  then show ?thesis by (simp add: check_line_def wp_simps split: parsed_pin.split)
qed

lemma check_files_ends:
  "wp False (check_files gh files acc) (\<lambda>_ _. True) (\<lambda>_ _. True) s"
proof -
  have lines: "wp False (check_lines gh fname lineno lines acc) (\<lambda>_ _. True) (\<lambda>_ _. True) s"
    for gh fname lineno lines acc s
    by (induction lines arbitrary: lineno acc s)
      (auto simp: wp_simps intro!: wp_mono [OF check_line_ends])
  show ?thesis
    by (induction gh files acc arbitrary: s rule: check_files.induct)
      (auto simp: wp_simps split: sum.split intro!: wp_mono [OF lines])
qed

lemma sha_pins_main_ends:
  "wp False (sha_pins_main gh env files) (\<lambda>_ _. True) (\<lambda>_ _. True) s"
proof -
  have prints: "wp False (print_err_all rs) (\<lambda>_ _. True) (\<lambda>_ _. True) s" for rs s
    by (simp add: wp_def print_err_all_run)
  show ?thesis
    unfolding sha_pins_main_def
    by (auto simp: wp_simps print_out_def print_err_def
        intro!: wp_mono [OF check_files_ends] wp_mono [OF prints])
qed


section \<open>Pins as the workflows write them\<close>

definition render_path :: "string list \<Rightarrow> string" where
  "render_path segments = concat (map (\<lambda>w. CHR ''/'' # w) segments)"

definition name_word :: "string \<Rightarrow> bool" where
  "name_word w \<longleftrightarrow> w \<noteq> [] \<and> list_all is_name_char w"

lemma takeWhile_run:
  "list_all P u \<Longrightarrow> \<not> P c \<Longrightarrow> takeWhile P (u @ c # v) = u"
  "list_all P u \<Longrightarrow> \<not> P c \<Longrightarrow> dropWhile P (u @ c # v) = c # v"
  by (induction u) auto

lemma name_char_stops: "\<not> is_name_char CHR ''/''" "\<not> is_name_char CHR ''@''" "\<not> is_name_char CHR '' ''"
  by (simp_all add: is_name_char_def is_alnum_def Let_def)

lemma match_path_render:
  "list_all name_word segments \<Longrightarrow>
     match_path (render_path segments @ CHR ''@'' # rest) = (render_path segments, CHR ''@'' # rest)"
proof (induction segments)
  case Nil
  then show ?case by (simp add: render_path_def match_path.simps)
next
  case (Cons w ws)
  have next_char: "\<exists>c v. render_path ws @ CHR ''@'' # rest = c # v \<and> \<not> is_name_char c"
    by (cases ws) (auto simp: render_path_def name_char_stops)
  then have "takeWhile is_name_char (w @ render_path ws @ CHR ''@'' # rest) = w"
    "dropWhile is_name_char (w @ render_path ws @ CHR ''@'' # rest) = render_path ws @ CHR ''@'' # rest"
    using Cons.prems takeWhile_run [where P = is_name_char and u = w]
    by (auto simp: name_word_def)
  moreover have "render_path (w # ws) @ CHR ''@'' # rest = CHR ''/'' # w @ render_path ws @ CHR ''@'' # rest"
    by (simp add: render_path_def)
  ultimately show ?case
    using Cons by (subst match_path.simps) (auto simp: name_word_def render_path_def)
qed

definition render_pin :: "string \<Rightarrow> string \<Rightarrow> string list \<Rightarrow> string \<Rightarrow> string \<Rightarrow> string" where
  "render_pin owner repo segments sha ref =
     ''uses: '' @ owner @ ''/'' @ repo @ render_path segments @ ''@'' @ sha @ '' # '' @ ref"

lemma name_char_no_space: "is_name_char c \<Longrightarrow> \<not> is_space c"
  by (auto simp: is_name_char_def is_alnum_def is_space_def Let_def)

lemma alnum_no_space: "is_alnum c \<Longrightarrow> \<not> is_space c"
  by (simp add: name_char_no_space is_name_char_def)

lemma version_ref_no_space: "is_version_ref ref \<Longrightarrow> list_all (\<lambda>c. \<not> is_space c) ref \<and> ref \<noteq> []"
  by (cases ref rule: is_version_ref.cases)
    (auto simp: list_all_iff is_space_def [of "CHR ''v''"] dest: name_char_no_space alnum_no_space)

lemma ref_comment_no_space:
  assumes "ref_kind_for_comment ref = Some kind"
  shows "list_all (\<lambda>c. \<not> is_space c) ref \<and> ref \<noteq> []"
proof (cases "is_version_ref ref")
  case True
  then show ?thesis by (rule version_ref_no_space)
next
  case False
  with assms obtain v where v: "ref = ''release/'' @ v" "is_version_ref v"
    by (auto simp: ref_kind_for_comment_def prefix_def split: if_splits)
  from version_ref_no_space [OF v(2)] show ?thesis by (simp add: v(1) is_space_def)
qed

lemma match_ref_render:
  assumes "list_all (\<lambda>c. \<not> is_space c) ref" and "ref \<noteq> []"
  shows "match_ref ('' # '' @ ref) = Some ref"
proof -
  obtain c cs where ref: "ref = c # cs" "\<not> is_space c" using assms by (cases ref) auto
  have "takeWhile (\<lambda>c. \<not> is_space c) ref = ref"
    using assms(1) by (simp add: list_all_iff)
  then show ?thesis
    by (simp add: match_ref_def is_space_def [of "CHR '' ''"] is_space_def [of "CHR ''#''"] ref)
qed

lemma match_pinned_render:
  assumes "name_word owner" and "name_word repo" and "list_all name_word segments"
    and "length sha = 40" and "list_all is_hex sha" and "ref_kind_for_comment ref = Some kind"
  shows "match_pinned (render_pin owner repo segments sha ref) =
    Some \<lparr>m_owner = owner, m_repo = repo, m_path = render_path segments, m_sha = sha, m_ref = Some ref\<rparr>"
proof -
  define rest where "rest = CHR ''@'' # sha @ '' # '' @ ref"
  obtain c cs where owner: "owner = c # cs" "is_name_char c"
    using assms(1) by (cases owner) (auto simp: name_word_def)
  have space: "is_space CHR '' ''" by (simp add: is_space_def)
  have start: "dropWhile is_space (owner @ v) = owner @ v" for v
    using owner name_char_no_space by simp
  have o: "takeWhile is_name_char (owner @ CHR ''/'' # v) = owner"
    "dropWhile is_name_char (owner @ CHR ''/'' # v) = CHR ''/'' # v" for v
    using assms(1) by (simp_all add: name_word_def takeWhile_run name_char_stops)
  have "\<exists>d v. render_path segments @ rest = d # v \<and> \<not> is_name_char d"
    by (cases segments) (auto simp: render_path_def rest_def name_char_stops)
  then have r: "takeWhile is_name_char (repo @ render_path segments @ rest) = repo"
    "dropWhile is_name_char (repo @ render_path segments @ rest) = render_path segments @ rest"
    using assms(2) takeWhile_run [where P = is_name_char and u = repo] by (auto simp: name_word_def)
  have path: "match_path (render_path segments @ rest) = (render_path segments, rest)"
    using match_path_render [OF assms(3)] by (simp add: rest_def)
  have "match_ref ('' # '' @ ref) = Some ref"
    using ref_comment_no_space [OF assms(6)] by (intro match_ref_render) simp_all
  then have sha: "match_sha owner repo (render_path segments) rest =
      Some \<lparr>m_owner = owner, m_repo = repo, m_path = render_path segments, m_sha = sha, m_ref = Some ref\<rparr>"
    using assms(4,5) by (simp add: match_sha_def rest_def)
  have "render_pin owner repo segments sha ref =
      ''uses: '' @ owner @ CHR ''/'' # repo @ render_path segments @ rest"
    by (simp add: render_pin_def rest_def)
  then show ?thesis
    using assms(1,2)
    by (simp add: match_pinned_def space start o r path sha Let_def name_word_def)
qed

lemma search_pinned_skip:
  "CHR ''u'' \<notin> set indent \<Longrightarrow> search_pinned (indent @ s) = search_pinned s"
  by (induction indent) (auto simp: match_pinned_def prefix_def)

text \<open>
  A line that pins an action as the workflows of the repository do, behind an indentation or a
  list dash, is read back as that pin: its owner, repository, path, SHA (in lower case), ref and
  the kind of the ref.
\<close>

theorem rendered_pin_parses:
  assumes "name_word owner" and "name_word repo" and "list_all name_word segments"
    and "length sha = 40" and "list_all is_hex sha" and "ref_kind_for_comment ref = Some kind"
    and "CHR ''u'' \<notin> set indent"
  shows "parse_action_pin (indent @ render_pin owner repo segments sha ref) =
    Pin \<lparr>action = owner @ ''/'' @ repo @ render_path segments, pin_owner = owner, pin_repo = repo,
      pinned_sha = lower sha, pin_ref = ref, pin_ref_kind = kind\<rparr>"
proof -
  have "search_pinned (render_pin owner repo segments sha ref) =
      match_pinned (render_pin owner repo segments sha ref)"
    using match_pinned_render [OF assms(1-6)]
    by (cases "render_pin owner repo segments sha ref") (simp_all add: render_pin_def)
  then show ?thesis
    by (simp add: parse_action_pin_def search_pinned_skip [OF assms(7)]
        match_pinned_render [OF assms(1-6)] assms(6) Let_def)
qed

theorem rendered_pin_parses_witness:
  "parse_action_pin (''      - '' @ render_pin ''github'' ''codeql-action'' [''init'']
     ''3d3c42e5aac5ba805825da76410c181273ba90b1'' ''v7.0.1'') =
   Pin \<lparr>action = ''github/codeql-action/init'', pin_owner = ''github'', pin_repo = ''codeql-action'',
     pinned_sha = lower ''3d3c42e5aac5ba805825da76410c181273ba90b1'', pin_ref = ''v7.0.1'',
     pin_ref_kind = TAGS\<rparr>"
  using rendered_pin_parses [where owner = "''github''" and repo = "''codeql-action''"
      and segments = "[''init'']" and sha = "''3d3c42e5aac5ba805825da76410c181273ba90b1''"
      and ref = "''v7.0.1''" and kind = TAGS and indent = "''      - ''"]
  by (simp add: name_word_def is_name_char_def is_alnum_def is_hex_def Let_def
      ref_kind_for_comment_def render_path_def)

text \<open>
  A quoted reference is not seen as a pin at all: the expression wants the owner right behind the
  spaces.
\<close>

lemma search_pinned_None: "\<not> contains ''uses:'' s \<Longrightarrow> search_pinned s = None"
  by (induction s) (auto simp: match_pinned_def)

lemma quoted_use_not_checked:
  assumes "\<not> contains ''uses:'' s"
  shows "parse_action_pin (''uses: '' @ CHR 0x22 # s) = NotPinned"
proof -
  have "match_pinned (''uses: '' @ CHR 0x22 # s) = None"
    by (simp add: match_pinned_def is_space_def is_name_char_def is_alnum_def Let_def)
  then show ?thesis
    using search_pinned_None [OF assms] by (simp add: parse_action_pin_def match_pinned_def)
qed

end
