(* ===== verification/Release_Provenance.thy ===== *)
theory Release_Provenance
  imports Release_Http
begin

text \<open>
  Models \<^verbatim>\<open>scripts/ci/validate_release_provenance.py\<close> (the tag or the declared version of a
  release against \<^verbatim>\<open>pyproject.toml\<close>) and \<^verbatim>\<open>scripts/ci/check_distribution_artifacts.py\<close> (the
  metadata of the built wheel and sdist).  What \<open>tomllib\<close>, \<open>zipfile\<close>, \<open>tarfile\<close> and
  \<open>email.parser\<close> read from the files is the input of the model.
\<close>

abbreviation AssertionError :: exc_class where
  "AssertionError \<equiv> OtherException ''AssertionError''"

section \<open>Provenance\<close>

text \<open>\<open>SEMVER_RE.match\<close>: three numbers, a tail, and \<open>$\<close>, which also matches before a final newline.\<close>

definition is_tail_char :: "char \<Rightarrow> bool" where
  "is_tail_char c = (let n = of_char c :: nat in
     48 \<le> n \<and> n \<le> 57 \<or> 65 \<le> n \<and> n \<le> 90 \<or> 97 \<le> n \<and> n \<le> 122
     \<or> c \<in> {CHR ''.'', CHR ''-'', CHR ''+''})"

definition semver_tail :: "string \<Rightarrow> bool" where
  "semver_tail s = (list_all is_tail_char s \<or>
     s \<noteq> [] \<and> last s = CHR 0x0A \<and> list_all is_tail_char (butlast s))"

text \<open>\<open>\d+\.\<close> at the start of a text, and the rest behind it.\<close>

definition number_dot :: "string \<Rightarrow> string option" where
  "number_dot s = (case dropWhile is_digit s of
     [] \<Rightarrow> None
   | c # cs \<Rightarrow> if takeWhile is_digit s \<noteq> [] \<and> c = CHR ''.'' then Some cs else None)"

definition semver_match :: "string \<Rightarrow> bool" where
  "semver_match s = (case number_dot s of
     None \<Rightarrow> False
   | Some s1 \<Rightarrow> (case number_dot s1 of
       None \<Rightarrow> False
     | Some s2 \<Rightarrow> takeWhile is_digit s2 \<noteq> [] \<and> semver_tail (dropWhile is_digit s2)))"

text \<open>\<open>data["project"]["version"]\<close> of the parsed file; a project that is no table raises TypeError.\<close>

definition read_pyproject_version :: "exn + json_object \<Rightarrow> exn + string" where
  "read_pyproject_version load = bindR load (\<lambda>data.
     case map_of data ''project'' of
       None \<Rightarrow> Inl (Exn AssertionError ''Could not read [project].version from pyproject.toml.'')
     | Some project \<Rightarrow> (case json_dict project of
         None \<Rightarrow> Inl (Exn TypeError ''project'')
       | Some table \<Rightarrow> (case map_of table ''version'' of
           None \<Rightarrow> Inl (Exn AssertionError ''Could not read [project].version from pyproject.toml.'')
         | Some version \<Rightarrow> (case json_str version of
             None \<Rightarrow> Inl (Exn AssertionError ''[project].version in pyproject.toml is not a string'')
           | Some v \<Rightarrow> Inr v))))"

definition validate_tag_release :: "string \<Rightarrow> string \<Rightarrow> exn + unit" where
  "validate_tag_release tag_name pyproject_version =
     (if tag_name \<noteq> CHR ''v'' # pyproject_version
      then Inl (Exn AssertionError ''Tag/version mismatch'') else Inr ())"

definition validate_manual_testpypi_release ::
    "string \<Rightarrow> string \<Rightarrow> string \<Rightarrow> string \<Rightarrow> exn + unit" where
  "validate_manual_testpypi_release event_name publish_target declared pyproject_version =
     (if event_name \<noteq> ''workflow_dispatch'' \<or> publish_target \<noteq> ''testpypi''
      then Inl (Exn AssertionError ''Manual TestPyPI provenance check'')
      else if declared = [] then Inl (Exn AssertionError ''Manual TestPyPI publish requires RELEASE_VERSION'')
      else if \<not> semver_match declared then Inl (Exn AssertionError ''Invalid RELEASE_VERSION format'')
      else if declared \<noteq> pyproject_version then Inl (Exn AssertionError ''Release provenance mismatch'')
      else Inr ())"

datatype provenance_report = ManualVerified string string | TagVerified string

definition getenv :: "environ \<Rightarrow> string \<Rightarrow> string" where
  "getenv env name = (case env name of None \<Rightarrow> [] | Some v \<Rightarrow> v)"

definition provenance_main :: "exn + json_object \<Rightarrow> environ \<Rightarrow> exn + provenance_report" where
  "provenance_main load env = bindR (read_pyproject_version load) (\<lambda>pyproject_version.
     let tag_name = getenv env ''TAG_NAME'';
         event_name = getenv env ''EVENT_NAME'';
         publish_target = getenv env ''PUBLISH_TARGET'';
         declared = getenv env ''RELEASE_VERSION''
     in if event_name = ''workflow_dispatch'' \<and> publish_target = ''testpypi''
        then bindR (validate_manual_testpypi_release event_name publish_target declared pyproject_version)
               (\<lambda>_. Inr (ManualVerified declared pyproject_version))
        else if tag_name \<noteq> []
        then bindR (validate_tag_release tag_name pyproject_version) (\<lambda>_. Inr (TagVerified tag_name))
        else Inl (Exn AssertionError ''Unsupported provenance check context''))"

text \<open>
  The provenance check passes exactly when the version can be read from the project file and,
  for a manual TestPyPI run, the declared version is that version and looks like a semantic
  version, for every other run, the tag is \<open>v\<close> followed by that version; the tag is not looked at
  in a manual run.
\<close>

theorem provenance_exact:
  "provenance_main load env = Inr report \<longleftrightarrow> (\<exists>v. read_pyproject_version load = Inr v \<and>
     (if getenv env ''EVENT_NAME'' = ''workflow_dispatch'' \<and> getenv env ''PUBLISH_TARGET'' = ''testpypi''
      then getenv env ''RELEASE_VERSION'' = v \<and> semver_match v \<and> report = ManualVerified v v
      else getenv env ''TAG_NAME'' = CHR ''v'' # v \<and> report = TagVerified (CHR ''v'' # v)))"
proof -
  have "semver_match v \<Longrightarrow> v \<noteq> []" for v
    by (auto simp: semver_match_def number_dot_def)
  then show ?thesis
    by (cases "read_pyproject_version load")
      (auto simp: provenance_main_def Let_def validate_manual_testpypi_release_def
        validate_tag_release_def)
qed

section \<open>Distribution artifacts\<close>

text \<open>The header fields of a parsed metadata file; \<open>metadata.get\<close> ignores the case of the name.\<close>

type_synonym mail_message = "(string \<times> string) list"

definition mail_get :: "mail_message \<Rightarrow> string \<Rightarrow> string option" where
  "mail_get m field = map_option snd (find (\<lambda>(k, _). lower k = lower field) m)"

definition required_fields :: "string list" where
  "required_fields = [''Metadata-Version'', ''Name'', ''Version'', ''Summary'']"

definition system_exit :: "string \<Rightarrow> exn" where
  "system_exit text = Exn SystemExit text"

definition require_core_metadata :: "mail_message \<Rightarrow> string \<Rightarrow> string \<Rightarrow> exn + unit" where
  "require_core_metadata metadata expected_name expected_version =
     bindR (first_error (map (\<lambda>field.
         if mail_get metadata field \<in> {None, Some []}
         then Inl (system_exit (''missing '' @ field @ '' metadata'')) else Inr ()) required_fields)) (\<lambda>_.
       if mail_get metadata ''Name'' \<noteq> Some expected_name then Inl (system_exit ''expected Name'')
       else if mail_get metadata ''Version'' \<noteq> Some expected_version then Inl (system_exit ''expected Version'')
       else Inr ())"

text \<open>A wheel: the names in the archive, and the parsed metadata of a name, or what reading it raises.\<close>

record wheel =
  wheel_names :: "string list"
  wheel_read :: "string \<Rightarrow> exn + mail_message"

definition validate_wheel :: "wheel \<Rightarrow> string \<Rightarrow> string \<Rightarrow> exn + unit" where
  "validate_wheel w expected_name expected_version =
     (let names = wheel_names w;
          metadata_names = filter (suffix ''.dist-info/METADATA'') names
      in if length metadata_names \<noteq> 1 then Inl (system_exit ''expected exactly one wheel METADATA file'')
         else let dist_info_dir = rsplit_head (metadata_names ! 0)
              in bindR (first_error (map (\<lambda>required_name.
                     if dist_info_dir @ ''/'' @ required_name \<notin> set names
                     then Inl (system_exit (''missing '' @ dist_info_dir @ ''/'' @ required_name))
                     else Inr ()) [''WHEEL'', ''RECORD''])) (\<lambda>_.
                 bindR (wheel_read w (metadata_names ! 0)) (\<lambda>metadata.
                 require_core_metadata metadata expected_name expected_version)))"

text \<open>A member of an sdist; \<open>extractfile\<close> gives None or a file with its parsed metadata.\<close>

record member =
  member_name :: string
  member_isfile :: bool
  member_extract :: "(exn + mail_message) option"

text \<open>\<open>PurePosixPath(name).parts\<close>.\<close>

definition posix_parts :: "string \<Rightarrow> string list" where
  "posix_parts name =
     (if prefix ''//'' name \<and> \<not> prefix ''///'' name then [''//'']
      else if prefix ''/'' name then [''/''] else []) @
     filter (\<lambda>w. w \<noteq> [] \<and> w \<noteq> ''.'') (split_on CHR ''/'' name)"

definition is_pkg_info :: "member \<Rightarrow> bool" where
  "is_pkg_info m =
     (let parts = posix_parts (member_name m)
      in member_isfile m \<and> length parts = 2 \<and> parts ! 1 = ''PKG-INFO'')"

definition validate_sdist :: "member list \<Rightarrow> string \<Rightarrow> string \<Rightarrow> exn + unit" where
  "validate_sdist members expected_name expected_version =
     (let pkg_info_members = filter is_pkg_info members
      in if length pkg_info_members \<noteq> 1 then Inl (system_exit ''expected exactly one sdist PKG-INFO file'')
         else case member_extract (pkg_info_members ! 0) of
                None \<Rightarrow> Inl (system_exit ''could not read PKG-INFO'')
              | Some parsed \<Rightarrow> bindR parsed (\<lambda>metadata.
                  require_core_metadata metadata expected_name expected_version))"

text \<open>\<open>Path.suffix\<close> of a file name.\<close>

definition path_suffix :: "string \<Rightarrow> string" where
  "path_suffix name =
     (let tail = takeWhile (\<lambda>c. c \<noteq> CHR ''.'') (rev name)
      in if tail = [] \<or> length name \<le> length tail + 1 then []
         else CHR ''.'' # rev tail)"

text \<open>An artifact: its file name, and what the archive module finds in it.\<close>

record artifact =
  artifact_name :: string
  as_wheel :: "exn + wheel"
  as_sdist :: "exn + member list"

text \<open>The loop of \<open>main\<close> over the artifacts, with \<open>found_wheel\<close> and \<open>found_sdist\<close>.\<close>

fun validate_artifacts ::
    "artifact list \<Rightarrow> string \<Rightarrow> string \<Rightarrow> bool \<times> bool \<Rightarrow> exn + bool \<times> bool" where
  "validate_artifacts [] name version found = Inr found"
| "validate_artifacts (a # as) name version (found_wheel, found_sdist) =
     (if path_suffix (artifact_name a) = ''.whl''
      then bindR (as_wheel a) (\<lambda>w. bindR (validate_wheel w name version) (\<lambda>_.
           validate_artifacts as name version (True, found_sdist)))
      else if suffix ''.tar.gz'' (artifact_name a)
      then bindR (as_sdist a) (\<lambda>ms. bindR (validate_sdist ms name version) (\<lambda>_.
           validate_artifacts as name version (found_wheel, True)))
      else Inl (system_exit ''unsupported artifact type''))"

definition distribution_main :: "artifact list \<Rightarrow> string \<Rightarrow> string \<Rightarrow> exn + unit" where
  "distribution_main artifacts expected_name expected_version =
     (if artifacts = [] then Inl (system_exit ''No artifacts matched'')
      else bindR (validate_artifacts artifacts expected_name expected_version (False, False))
        (\<lambda>(found_wheel, found_sdist).
           if \<not> found_wheel then Inl (system_exit ''No wheel artifact found'')
           else if \<not> found_sdist then Inl (system_exit ''No sdist artifact found'')
           else Inr ()))"

section \<open>What a valid distribution is\<close>

definition core_metadata :: "mail_message \<Rightarrow> string \<Rightarrow> string \<Rightarrow> bool" where
  "core_metadata m name version \<longleftrightarrow>
     mail_get m ''Name'' = Some name \<and> mail_get m ''Version'' = Some version \<and>
     (\<forall>field \<in> set required_fields. \<exists>v. mail_get m field = Some v \<and> v \<noteq> [])"

definition good_wheel :: "artifact \<Rightarrow> string \<Rightarrow> string \<Rightarrow> bool" where
  "good_wheel a name version \<longleftrightarrow> path_suffix (artifact_name a) = ''.whl'' \<and>
     (\<exists>w metadata m. as_wheel a = Inr w \<and>
        filter (suffix ''.dist-info/METADATA'') (wheel_names w) = [metadata] \<and>
        rsplit_head metadata @ ''/WHEEL'' \<in> set (wheel_names w) \<and>
        rsplit_head metadata @ ''/RECORD'' \<in> set (wheel_names w) \<and>
        wheel_read w metadata = Inr m \<and> core_metadata m name version)"

definition good_sdist :: "artifact \<Rightarrow> string \<Rightarrow> string \<Rightarrow> bool" where
  "good_sdist a name version \<longleftrightarrow> path_suffix (artifact_name a) \<noteq> ''.whl'' \<and>
     suffix ''.tar.gz'' (artifact_name a) \<and>
     (\<exists>ms info m. as_sdist a = Inr ms \<and> filter is_pkg_info ms = [info] \<and>
        member_extract info = Some (Inr m) \<and> core_metadata m name version)"

lemma first_error_checks:
  "first_error (map (\<lambda>x. if P x then Inl (f x) else Inr ()) xs) = Inr () \<longleftrightarrow> (\<forall>x \<in> set xs. \<not> P x)"
  by (induction xs) (auto simp: first_error_Cons_Inr)

lemma require_core_metadata_Inr:
  "require_core_metadata m name version = Inr () \<longleftrightarrow> core_metadata m name version"
proof -
  have "first_error (map (\<lambda>field. if mail_get m field \<in> {None, Some []}
        then Inl (system_exit (''missing '' @ field @ '' metadata'')) else Inr ()) required_fields) = Inr () \<longleftrightarrow>
      (\<forall>field \<in> set required_fields. \<exists>v. mail_get m field = Some v \<and> v \<noteq> [])"
    by (auto simp: first_error_checks)
  then show ?thesis
    by (auto simp: require_core_metadata_def core_metadata_def bindR_Inr)
qed

lemma single_filter: "length (filter P xs) = Suc 0 \<longleftrightarrow> (\<exists>x. filter P xs = [x])"
  by (auto simp: length_Suc_conv)

lemma validate_wheel_Inr:
  "validate_wheel w name version = Inr () \<longleftrightarrow>
     (\<exists>metadata m. filter (suffix ''.dist-info/METADATA'') (wheel_names w) = [metadata] \<and>
        rsplit_head metadata @ ''/WHEEL'' \<in> set (wheel_names w) \<and>
        rsplit_head metadata @ ''/RECORD'' \<in> set (wheel_names w) \<and>
        wheel_read w metadata = Inr m \<and> core_metadata m name version)"
proof (cases "\<exists>metadata. filter (suffix ''.dist-info/METADATA'') (wheel_names w) = [metadata]")
  case True
  then obtain metadata where
    one: "filter (suffix ''.dist-info/METADATA'') (wheel_names w) = [metadata]" by blast
  show ?thesis
    by (simp add: validate_wheel_def one Let_def bindR_Inr first_error_Cons_Inr
        require_core_metadata_Inr)
next
  case False
  then have "length (filter (suffix ''.dist-info/METADATA'') (wheel_names w)) \<noteq> Suc 0"
    by (simp only: single_filter not_False_eq_True)
  then show ?thesis by (auto simp: validate_wheel_def Let_def)
qed

lemma validate_sdist_Inr:
  "validate_sdist ms name version = Inr () \<longleftrightarrow>
     (\<exists>info m. filter is_pkg_info ms = [info] \<and>
        member_extract info = Some (Inr m) \<and> core_metadata m name version)"
proof (cases "\<exists>info. filter is_pkg_info ms = [info]")
  case True
  then obtain info where one: "filter is_pkg_info ms = [info]" by blast
  show ?thesis
    by (auto simp: validate_sdist_def one Let_def bindR_Inr require_core_metadata_Inr
        split: option.split)
next
  case False
  then have "length (filter is_pkg_info ms) \<noteq> Suc 0"
    by (simp only: single_filter not_False_eq_True)
  then show ?thesis by (auto simp: validate_sdist_def Let_def)
qed

lemma validate_artifacts_Inr:
  "validate_artifacts as name version (fw, fs) = Inr (gw, gs) \<longleftrightarrow>
     (\<forall>a \<in> set as. good_wheel a name version \<or> good_sdist a name version) \<and>
     gw = (fw \<or> (\<exists>a \<in> set as. good_wheel a name version)) \<and>
     gs = (fs \<or> (\<exists>a \<in> set as. good_sdist a name version))"
proof (induction as arbitrary: fw fs)
  case Nil
  then show ?case by auto
next
  case (Cons a as)
  consider (wheel) "path_suffix (artifact_name a) = ''.whl''"
    | (sdist) "path_suffix (artifact_name a) \<noteq> ''.whl''" "suffix ''.tar.gz'' (artifact_name a)"
    | (other) "path_suffix (artifact_name a) \<noteq> ''.whl''" "\<not> suffix ''.tar.gz'' (artifact_name a)"
    by blast
  then show ?case
  proof cases
    case wheel
    then have "good_wheel a name version \<longleftrightarrow>
        (\<exists>w. as_wheel a = Inr w \<and> validate_wheel w name version = Inr ())"
      "\<not> good_sdist a name version"
      by (auto simp: good_wheel_def good_sdist_def validate_wheel_Inr)
    then show ?thesis using wheel Cons.IH by (auto simp: bindR_Inr)
  next
    case sdist
    then have "good_sdist a name version \<longleftrightarrow>
        (\<exists>ms. as_sdist a = Inr ms \<and> validate_sdist ms name version = Inr ())"
      "\<not> good_wheel a name version"
      by (auto simp: good_wheel_def good_sdist_def validate_sdist_Inr)
    then show ?thesis using sdist Cons.IH by (auto simp: bindR_Inr)
  next
    case other
    then show ?thesis by (auto simp: good_wheel_def good_sdist_def)
  qed
qed

text \<open>
  The check of the built artifacts passes exactly when every artifact is a valid wheel or a
  valid sdist of the expected name and version, and at least one of each was built.
\<close>

theorem distribution_exact:
  "distribution_main artifacts name version = Inr () \<longleftrightarrow>
     (\<forall>a \<in> set artifacts. good_wheel a name version \<or> good_sdist a name version) \<and>
     (\<exists>a \<in> set artifacts. good_wheel a name version) \<and>
     (\<exists>a \<in> set artifacts. good_sdist a name version)"
  by (auto simp: distribution_main_def bindR_Inr validate_artifacts_Inr split: if_splits)

end
