(* ===== verification/Semantic_Shard.thy ===== *)
theory Semantic_Shard
  imports Script_Text "HOL-Library.Multiset"
begin

text \<open>
  Models \<^verbatim>\<open>scripts/ci/assert_integration_semantic_shard.py\<close>: which tests carry the marker
  \<open>pytest.mark.integration_semantic\<close>, and the check that these are the expected ones.  The syntax
  trees are the parts of Python's \<open>ast\<close> that the script looks at; parsing a file and listing the
  test files are inputs.  The worklist that walks nested classes is proved equivalent to the
  recursion over the tree.
\<close>

section \<open>Syntax trees\<close>

text \<open>\<open>Name(id)\<close>, \<open>Attribute(value, attr)\<close>, and every other expression.\<close>

datatype py_expr = Name string | Attribute py_expr string | OtherExpr

text \<open>A sync or async function with its decorators, a class with its body, any other statement.\<close>

datatype py_stmt =
    FunctionDef string "py_expr list"
  | ClassDef string "py_stmt list"
  | OtherStmt

definition marks_integration_semantic :: "py_expr \<Rightarrow> bool" where
  "marks_integration_semantic decorator = (case decorator of
     Attribute mark_attribute attr \<Rightarrow> attr = ''integration_semantic'' \<and>
       (case mark_attribute of
          Attribute pytest_name mark \<Rightarrow> mark = ''mark'' \<and>
            (case pytest_name of Name name \<Rightarrow> name = ''pytest'' | _ \<Rightarrow> False)
        | _ \<Rightarrow> False)
   | _ \<Rightarrow> False)"

definition has_integration_semantic_marker :: "py_expr list \<Rightarrow> bool" where
  "has_integration_semantic_marker decorators = list_ex marks_integration_semantic decorators"

lemma has_marker_iff:
  "has_integration_semantic_marker decorators \<longleftrightarrow>
     Attribute (Attribute (Name ''pytest'') ''mark'') ''integration_semantic'' \<in> set decorators"
proof -
  have "marks_integration_semantic d \<longleftrightarrow>
      d = Attribute (Attribute (Name ''pytest'') ''mark'') ''integration_semantic''" for d
    by (auto simp: marks_integration_semantic_def split: py_expr.splits)
  then show ?thesis by (auto simp: has_integration_semantic_marker_def list_ex_iff)
qed

section \<open>The worklist\<close>

text \<open>\<open>"::".join(parts)\<close>.\<close>

fun join_path :: "string list \<Rightarrow> string" where
  "join_path [] = []"
| "join_path [p] = p"
| "join_path (p # q # ps) = p @ ''::'' @ join_path (q # ps)"

text \<open>
  One pass over the body of a module or a class: what it yields, and the classes it pushes, the
  last on top.
\<close>

fun yields_of :: "string list \<Rightarrow> py_stmt list \<Rightarrow> (string \<times> py_expr list) list" where
  "yields_of class_path [] = []"
| "yields_of class_path (FunctionDef name decorators # body) =
     (join_path (class_path @ [name]), decorators) # yields_of class_path body"
| "yields_of class_path (_ # body) = yields_of class_path body"

fun pushes_of :: "string list \<Rightarrow> py_stmt list \<Rightarrow> (py_stmt list \<times> string list) list" where
  "pushes_of class_path [] = []"
| "pushes_of class_path (ClassDef name body' # body) =
     (body', class_path @ [name]) # pushes_of class_path body"
| "pushes_of class_path (_ # body) = pushes_of class_path body"

text \<open>The measure of the loop: the statements that are still to be visited.\<close>

fun stmt_size :: "py_stmt \<Rightarrow> nat" where
  "stmt_size (FunctionDef _ _) = 1"
| "stmt_size (ClassDef _ body) = Suc (sum_list (map stmt_size body))"
| "stmt_size OtherStmt = 1"

definition stack_size :: "(py_stmt list \<times> string list) list \<Rightarrow> nat" where
  "stack_size stack = (\<Sum>(body, _) \<leftarrow> stack. Suc (sum_list (map stmt_size body)))"

lemma stack_size_simps [simp]:
  "stack_size [] = 0"
  "stack_size ((body, p) # stack) = Suc (sum_list (map stmt_size body)) + stack_size stack"
  "stack_size (xs @ ys) = stack_size xs + stack_size ys"
  "stack_size (rev xs) = stack_size xs"
  by (simp_all add: stack_size_def rev_map [symmetric] sum_list_rev)

lemma pushes_size: "stack_size (pushes_of p body) \<le> sum_list (map stmt_size body)"
  by (induction p body rule: pushes_of.induct) auto

text \<open>\<open>while stack: node, class_path = stack.pop()\<close>, the top of the stack first.\<close>

function iter_collectable_function_nodes ::
    "(py_stmt list \<times> string list) list \<Rightarrow> (string \<times> py_expr list) list" where
  "iter_collectable_function_nodes [] = []"
| "iter_collectable_function_nodes ((body, class_path) # stack) =
     yields_of class_path body @
     iter_collectable_function_nodes (rev (pushes_of class_path body) @ stack)"
  by pat_completeness auto
termination
proof (relation "measure stack_size")
  fix body class_path and stack :: "(py_stmt list \<times> string list) list"
  show "(rev (pushes_of class_path body) @ stack, (body, class_path) # stack) \<in> measure stack_size"
    using pushes_size [of class_path body] by simp
qed simp

text \<open>The reference: the functions of a statement, classes entered where they stand.\<close>

fun collect :: "string list \<Rightarrow> py_stmt \<Rightarrow> (string \<times> py_expr list) list" where
  "collect class_path (FunctionDef name decorators) = [(join_path (class_path @ [name]), decorators)]"
| "collect class_path (ClassDef name body) = concat (map (collect (class_path @ [name])) body)"
| "collect class_path OtherStmt = []"

lemma mset_body:
  "mset (concat (map (collect class_path) body)) =
     mset (yields_of class_path body) +
     mset (concat (map (\<lambda>(b, p). concat (map (collect p) b)) (pushes_of class_path body)))"
  by (induction class_path body rule: yields_of.induct) auto

lemma mset_concat_rev: "mset (concat (rev xss)) = mset (concat xss)"
  by (induction xss) auto

lemma worklist_collects:
  "mset (iter_collectable_function_nodes stack) =
     mset (concat (map (\<lambda>(body, p). concat (map (collect p) body)) stack))"
proof (induction stack rule: iter_collectable_function_nodes.induct)
  case (2 body class_path stack)
  then show ?case
    by (simp add: mset_body [of class_path body] rev_map [symmetric] mset_concat_rev)
qed simp

text \<open>
  The worklist over the nested classes of a module yields, each as often as it occurs, exactly
  the functions that the recursion over the tree collects, under the same ids.
\<close>

theorem worklist_equals_recursion:
  "mset (iter_collectable_function_nodes [(body, [])]) = mset (concat (map (collect []) body))"
  using worklist_collects [of "[(body, [])]"]
  by (simp del: iter_collectable_function_nodes.simps)

section \<open>The check\<close>

type_synonym parser = "string \<Rightarrow> exn + py_stmt list"

definition load_marked_tests :: "parser \<Rightarrow> string \<Rightarrow> exn + string set" where
  "load_marked_tests parse path = bindR (parse path) (\<lambda>body.
     Inr (set (map fst (filter (\<lambda>(_, decorators). has_integration_semantic_marker decorators)
       (iter_collectable_function_nodes [(body, [])])))))"

definition EXPECTED_SHARD_TESTS :: "(string \<times> string) list" where
  "EXPECTED_SHARD_TESTS =
     [(''tests/integration/test_client_reconnect.py'', ''test_tcp_client_reconnects_after_server_appears''),
      (''tests/integration/test_heartbeat_integration.py'', ''test_heartbeat_restarts_after_reconnect''),
      (''tests/integration/test_on_event_payload_contract.py'',
       ''test_on_event_bytes_received_event_contains_payload_bytes'')]"

fun require_expected :: "parser \<Rightarrow> (string \<times> string) list \<Rightarrow> nat \<Rightarrow> exn + nat" where
  "require_expected parse [] observed_total = Inr observed_total"
| "require_expected parse ((file_path, expected_test_name) # expected) observed_total =
     bindR (load_marked_tests parse file_path) (\<lambda>marked_tests.
       if expected_test_name \<notin> marked_tests
       then Inl (Exn (OtherException ''AssertionError'') (''required integration_semantic shard test missing marker: '' @
         file_path @ ''::'' @ expected_test_name))
       else require_expected parse expected (observed_total + 1))"

text \<open>\<open>len(all_marked_tests)\<close> after the loop over the globbed files.\<close>

fun count_marked :: "parser \<Rightarrow> string list \<Rightarrow> exn + nat" where
  "count_marked parse [] = Inr 0"
| "count_marked parse (path # paths) =
     bindR (load_marked_tests parse path) (\<lambda>marked.
     bindR (count_marked parse paths) (\<lambda>n. Inr (card marked + n)))"

definition shard_main :: "parser \<Rightarrow> string list \<Rightarrow> exn + nat" where
  "shard_main parse test_files =
     bindR (require_expected parse EXPECTED_SHARD_TESTS 0) (\<lambda>observed_total.
     bindR (count_marked parse test_files) (\<lambda>total.
       if total \<noteq> length EXPECTED_SHARD_TESTS
       then Inl (Exn (OtherException ''AssertionError'') ''integration_semantic shard drift detected'')
       else Inr observed_total))"

text \<open>The marked tests of a tree, and of the test files together with their file.\<close>

definition marked_in :: "parser \<Rightarrow> string \<Rightarrow> string set" where
  "marked_in parse path = (case parse path of
     Inl _ \<Rightarrow> {}
   | Inr body \<Rightarrow> {t. \<exists>decorators. (t, decorators) \<in> set (concat (map (collect []) body)) \<and>
       Attribute (Attribute (Name ''pytest'') ''mark'') ''integration_semantic'' \<in> set decorators})"

definition marked_tests :: "parser \<Rightarrow> string list \<Rightarrow> (string \<times> string) set" where
  "marked_tests parse paths = {(path, t). path \<in> set paths \<and> t \<in> marked_in parse path}"

lemma load_marked_tests_Inr:
  "load_marked_tests parse path = Inr marked \<longleftrightarrow>
     (\<exists>body. parse path = Inr body) \<and> marked = marked_in parse path"
proof -
  have nodes: "set (iter_collectable_function_nodes [(body, [])]) = set (concat (map (collect []) body))"
    for body
  proof -
    have "set_mset (mset (iter_collectable_function_nodes [(body, [])])) =
        set_mset (mset (concat (map (collect []) body)))"
      by (simp only: worklist_collects) simp
    then show ?thesis by (simp only: set_mset_mset)
  qed
  have tests: "set (map fst (filter (\<lambda>(_, decorators). has_integration_semantic_marker decorators) xs)) =
      {t. \<exists>decorators. (t, decorators) \<in> set xs \<and>
         Attribute (Attribute (Name ''pytest'') ''mark'') ''integration_semantic'' \<in> set decorators}" for xs
    by (induction xs) (auto simp: has_marker_iff)
  show ?thesis
    by (cases "parse path")
      (auto simp only: load_marked_tests_def marked_in_def tests nodes bindR.simps sum.case)
qed

lemma finite_marked_in: "finite (marked_in parse path)"
proof (cases "parse path")
  case (Inr body)
  then have "marked_in parse path \<subseteq> fst ` set (concat (map (collect []) body))"
    by (force simp: marked_in_def)
  then show ?thesis by (rule finite_subset) simp
qed (simp add: marked_in_def)

lemma require_expected_Inr:
  "require_expected parse expected n = Inr m \<longleftrightarrow>
     m = n + length expected \<and>
     (\<forall>(path, t) \<in> set expected. (\<exists>body. parse path = Inr body) \<and> t \<in> marked_in parse path)"
  by (induction parse expected n rule: require_expected.induct)
    (auto simp: bindR_Inr load_marked_tests_Inr split: if_splits)

lemma count_marked_Inr:
  "distinct paths \<Longrightarrow> count_marked parse paths = Inr n \<longleftrightarrow>
     (\<forall>path \<in> set paths. \<exists>body. parse path = Inr body) \<and> n = card (marked_tests parse paths)"
proof (induction paths arbitrary: n)
  case Nil
  then show ?case by (simp add: marked_tests_def)
next
  case (Cons path paths)
  have "marked_tests parse (path # paths) =
      Pair path ` marked_in parse path \<union> marked_tests parse paths"
    by (auto simp: marked_tests_def)
  moreover have "Pair path ` marked_in parse path \<inter> marked_tests parse paths = {}"
    using Cons.prems by (auto simp: marked_tests_def)
  moreover have "finite (marked_tests parse paths)"
  proof -
    have "marked_tests parse paths = (SIGMA p : set paths. marked_in parse p)"
      by (auto simp: marked_tests_def)
    then show ?thesis by (simp add: finite_marked_in)
  qed
  ultimately have "card (marked_tests parse (path # paths)) =
      card (marked_in parse path) + card (marked_tests parse paths)"
    by (simp add: card_Un_disjoint finite_marked_in card_image inj_on_def)
  then show ?case using Cons by (auto simp: bindR_Inr load_marked_tests_Inr)
qed

lemma expected_distinct: "distinct EXPECTED_SHARD_TESTS"
  by (simp add: EXPECTED_SHARD_TESTS_def)

lemma finite_marked_tests: "finite (marked_tests parse paths)"
proof -
  have "marked_tests parse paths = (SIGMA p : set paths. marked_in parse p)"
    by (auto simp: marked_tests_def)
  then show ?thesis by (simp add: finite_marked_in)
qed

text \<open>
  Over test files among which the expected ones are, the shard check passes exactly when every
  file parses and the marked tests are the expected tests and no others, class members and
  doubly named tests included.
\<close>

theorem shard_exact:
  assumes "distinct test_files" and "fst ` set EXPECTED_SHARD_TESTS \<subseteq> set test_files"
  shows "shard_main parse test_files = Inr n \<longleftrightarrow>
    n = length EXPECTED_SHARD_TESTS \<and> (\<forall>path \<in> set test_files. \<exists>body. parse path = Inr body) \<and>
    marked_tests parse test_files = set EXPECTED_SHARD_TESTS"
proof -
  let ?E = "set EXPECTED_SHARD_TESTS"
  have card: "card ?E = length EXPECTED_SHARD_TESTS"
    by (rule distinct_card [OF expected_distinct])
  have run: "shard_main parse test_files = Inr n \<longleftrightarrow> n = length EXPECTED_SHARD_TESTS \<and>
      (\<forall>(path, t) \<in> ?E. (\<exists>body. parse path = Inr body) \<and> t \<in> marked_in parse path) \<and>
      (\<forall>path \<in> set test_files. \<exists>body. parse path = Inr body) \<and>
      card (marked_tests parse test_files) = length EXPECTED_SHARD_TESTS"
    by (auto simp: shard_main_def bindR_Inr require_expected_Inr count_marked_Inr [OF assms(1)]
        split: if_splits)
  have "?E \<subseteq> marked_tests parse test_files" if "\<forall>(path, t) \<in> ?E. t \<in> marked_in parse path"
    using that assms(2) by (force simp: marked_tests_def)
  then have forth: "marked_tests parse test_files = ?E"
    if "\<forall>(path, t) \<in> ?E. t \<in> marked_in parse path"
      "card (marked_tests parse test_files) = length EXPECTED_SHARD_TESTS"
    using that card card_subset_eq [OF finite_marked_tests] by metis
  have conv: "(\<exists>body. parse path = Inr body) \<and> t \<in> marked_in parse path"
    if "marked_tests parse test_files = ?E" "\<forall>path \<in> set test_files. \<exists>body. parse path = Inr body"
      "(path, t) \<in> ?E" for path t
  proof -
    have "(path, t) \<in> marked_tests parse test_files" using that by blast
    then show ?thesis using that(2) by (simp add: marked_tests_def)
  qed
  show ?thesis
  proof
    assume "shard_main parse test_files = Inr n"
    then show "n = length EXPECTED_SHARD_TESTS \<and> (\<forall>path \<in> set test_files. \<exists>body. parse path = Inr body) \<and>
        marked_tests parse test_files = ?E"
      using forth unfolding run by blast
  next
    assume *: "n = length EXPECTED_SHARD_TESTS \<and> (\<forall>path \<in> set test_files. \<exists>body. parse path = Inr body) \<and>
        marked_tests parse test_files = ?E"
    have "\<forall>(path, t) \<in> ?E. (\<exists>body. parse path = Inr body) \<and> t \<in> marked_in parse path"
    proof (rule ballI)
      fix x
      assume "x \<in> ?E"
      then show "case x of (path, t) \<Rightarrow> (\<exists>body. parse path = Inr body) \<and> t \<in> marked_in parse path"
        using conv [of "fst x" "snd x"] * by (simp add: split_beta)
    qed
    then show "shard_main parse test_files = Inr n" using * card unfolding run by simp
  qed
qed

theorem shard_exact_witness:
  "shard_main (\<lambda>path. case map_of EXPECTED_SHARD_TESTS path of
       None \<Rightarrow> Inr []
     | Some test \<Rightarrow> Inr [OtherStmt, FunctionDef test
         [OtherExpr, Attribute (Attribute (Name ''pytest'') ''mark'') ''integration_semantic'']])
     (''tests/integration/test_other.py'' # map fst EXPECTED_SHARD_TESTS) = Inr 3"
  (is "shard_main ?parse ?files = Inr 3")
proof -
  have keys: "distinct (map fst EXPECTED_SHARD_TESTS)" "distinct ?files"
    by (simp_all add: EXPECTED_SHARD_TESTS_def)
  have "marked_in ?parse path = set_option (map_of EXPECTED_SHARD_TESTS path)" for path
    by (auto simp: marked_in_def split: option.split)
  then have "marked_tests ?parse ?files = set EXPECTED_SHARD_TESTS"
    by (auto simp: marked_tests_def map_of_eq_Some_iff [OF keys(1)] intro: rev_image_eqI)
  moreover have "\<forall>path \<in> set ?files. \<exists>body. ?parse path = Inr body"
    by (simp split: option.split)
  moreover have "3 = length EXPECTED_SHARD_TESTS" "fst ` set EXPECTED_SHARD_TESTS \<subseteq> set ?files"
    by (auto simp: EXPECTED_SHARD_TESTS_def)
  ultimately show ?thesis by (simp only: shard_exact [OF keys(2)])
qed

end
