(* ===== verification/Smoke_Scripts.thy ===== *)
theory Smoke_Scripts
  imports Release_Http
begin

text \<open>
  Models two scripts of \<^verbatim>\<open>scripts/ci\<close> that run other programs: \<^verbatim>\<open>install_single_artifact.py\<close>,
  which hands one artifact to pip, and \<^verbatim>\<open>examples_smoke.py\<close>, which runs the examples and exits
  with the number of those that fail.  The operating system is a function of the commands run
  so far.
\<close>

section \<open>Commands\<close>

record command =
  cmd_args :: "string list"
  cmd_pythonpath :: "string option"

text \<open>A command ends with an exit code, or is stopped at its timeout.\<close>

datatype completion = TimedOut | Completed int

type_synonym runner = "command list \<Rightarrow> completion"

definition run_command :: "runner \<Rightarrow> command \<Rightarrow> ((command, 'r) script, completion) prog" where
  "run_command run c s =
     (let s1 = s\<lparr>requests := requests s @ [c]\<rparr> in Some (Inr (run (requests s1)), s1))"

section \<open>install_single_artifact\<close>

record install_args =
  force_reinstall :: bool
  no_deps :: bool
  no_build_isolation :: bool

definition pip_command :: "string \<Rightarrow> install_args \<Rightarrow> string \<Rightarrow> string list" where
  "pip_command executable args artifact =
     [executable, ''-m'', ''pip'', ''install''] @
     (if force_reinstall args then [''--force-reinstall''] else []) @
     (if no_deps args then [''--no-deps''] else []) @
     (if no_build_isolation args then [''--no-build-isolation''] else []) @ [artifact]"

text \<open>\<open>matches\<close> is what the glob pattern matches; \<open>check_call\<close> has no timeout.\<close>

definition install_main ::
    "runner \<Rightarrow> string \<Rightarrow> string option \<Rightarrow> install_args \<Rightarrow> string list \<Rightarrow> ((command, 'r) script, unit) prog" where
  "install_main run executable pythonpath args matches =
     (if length matches \<noteq> 1
      then raiseE (Exn SystemExit ''Expected exactly one artifact'')
      else bindE (run_command run
             \<lparr>cmd_args = pip_command executable args (matches ! 0), cmd_pythonpath = pythonpath\<rparr>)
           (\<lambda>outcome. if outcome = Completed 0 then ret ()
                      else raiseE (Exn (OtherException ''CalledProcessError'') [])))"

text \<open>
  The script succeeds exactly when the pattern matches one artifact and pip succeeds; pip is
  called for that artifact only, and not at all otherwise.
\<close>

lemma install_exact:
  "install_main run exe path args matches s = Some (r, s') \<Longrightarrow>
     (case matches of
        [artifact] \<Rightarrow> requests s' = requests s @ [\<lparr>cmd_args = pip_command exe args artifact, cmd_pythonpath = path\<rparr>] \<and>
          (r = Inr () \<longleftrightarrow> run (requests s') = Completed 0)
      | _ \<Rightarrow> s' = s \<and> r = Inl (Exn SystemExit ''Expected exactly one artifact''))"
  by (auto simp: install_main_def run_command_def prog_defs Let_def split: list.splits if_splits)

section \<open>examples_smoke\<close>

definition EXAMPLE_SCRIPTS :: "string list" where
  "EXAMPLE_SCRIPTS = [''tcp_echo_server_and_client.py'', ''udp_round_trip.py'',
     ''tcp_framing_length_prefix.py'', ''tcp_reconnect_with_heartbeat.py'', ''backpressure_policies.py'']"

datatype smoke_report =
    MissingFile string
  | RunScript string
  | ScriptTimedOut string
  | ScriptFailed string int
  | ScriptOk string
  | NoExamples
  | SmokeTotal nat nat

text \<open>The parts of the environment: the directories, the files that exist, \<open>PYTHONPATH\<close>.\<close>

record smoke_env =
  se_executable :: string
  se_examples_dir :: string
  se_src_dir :: string
  se_pathsep :: string
  se_pythonpath :: "string option"
  se_has_dir :: bool
  se_is_file :: "string \<Rightarrow> bool"

definition script_path :: "smoke_env \<Rightarrow> string \<Rightarrow> string" where
  "script_path se name = se_examples_dir se @ ''/'' @ name"

definition smoke_pythonpath :: "smoke_env \<Rightarrow> string" where
  "smoke_pythonpath se = se_src_dir se @ (case se_pythonpath se of
     None \<Rightarrow> [] | Some p \<Rightarrow> if p = [] then [] else se_pathsep se @ p)"

definition run_one :: "runner \<Rightarrow> smoke_env \<Rightarrow> string \<Rightarrow> ((command, smoke_report) script, bool) prog" where
  "run_one run se name =
     (if \<not> se_is_file se (script_path se name) then seqE (print_out (MissingFile name)) (ret False)
      else seqE (print_out (RunScript name))
        (bindE (run_command run \<lparr>cmd_args = [se_executable se, script_path se name],
             cmd_pythonpath = Some (smoke_pythonpath se)\<rparr>)
          (\<lambda>outcome. case outcome of
             TimedOut \<Rightarrow> seqE (print_out (ScriptTimedOut name)) (ret False)
           | Completed code \<Rightarrow>
               if code \<noteq> 0 then seqE (print_out (ScriptFailed name code)) (ret False)
               else seqE (print_out (ScriptOk name)) (ret True))))"

fun count_failures ::
    "runner \<Rightarrow> smoke_env \<Rightarrow> string list \<Rightarrow> nat \<Rightarrow> ((command, smoke_report) script, nat) prog" where
  "count_failures run se [] n = ret n"
| "count_failures run se (name # names) n =
     bindE (run_one run se name) (\<lambda>ok. count_failures run se names (n + (if ok then 0 else 1)))"

definition smoke_main :: "runner \<Rightarrow> smoke_env \<Rightarrow> ((command, smoke_report) script, int) prog" where
  "smoke_main run se =
     (if \<not> se_has_dir se then seqE (print_out NoExamples) (ret 1)
      else bindE (count_failures run se EXAMPLE_SCRIPTS 0) (\<lambda>failures.
        seqE (print_out (SmokeTotal (length EXAMPLE_SCRIPTS - failures) (length EXAMPLE_SCRIPTS)))
          (ret (int failures))))"

text \<open>The commands of a run, one for every script that exists, and how each of them ended.\<close>

definition example_command :: "smoke_env \<Rightarrow> string \<Rightarrow> command" where
  "example_command se name = \<lparr>cmd_args = [se_executable se, script_path se name],
     cmd_pythonpath = Some (smoke_pythonpath se)\<rparr>"

fun example_passes :: "runner \<Rightarrow> smoke_env \<Rightarrow> command list \<Rightarrow> string list \<Rightarrow> bool list" where
  "example_passes run se sent [] = []"
| "example_passes run se sent (name # names) =
     (if se_is_file se (script_path se name)
      then let sent' = sent @ [example_command se name]
           in (run sent' = Completed 0) # example_passes run se sent' names
      else False # example_passes run se sent names)"

lemma run_one_run:
  "\<exists>s'. run_one run se name s = Some (Inr (hd (example_passes run se (requests s) [name])), s') \<and>
     requests s' = requests s @ (if se_is_file se (script_path se name) then [example_command se name] else [])"
  by (simp add: run_one_def run_command_def print_out_def prog_defs example_command_def Let_def
      split: completion.split)

lemma count_failures_run:
  "\<exists>s'. count_failures run se names n s =
     Some (Inr (n + length (filter Not (example_passes run se (requests s) names))), s')"
proof (induction names arbitrary: n s)
  case (Cons name names)
  define ok where "ok = hd (example_passes run se (requests s) [name])"
  obtain s1 where one: "run_one run se name s = Some (Inr ok, s1)"
    and sent: "requests s1 =
      requests s @ (if se_is_file se (script_path se name) then [example_command se name] else [])"
    using run_one_run unfolding ok_def by blast
  have "example_passes run se (requests s) (name # names) = ok # example_passes run se (requests s1) names"
    by (simp add: sent ok_def Let_def)
  then show ?case
    using Cons.IH [of "n + (if ok then 0 else 1)" s1]
    by (cases ok) (simp_all add: bindE_def one del: example_passes.simps)
qed (simp add: ret_def)

text \<open>
  The run of the examples ends, and its exit status is the number of examples that are missing,
  time out or fail: 0 exactly when every example exists and passes.
\<close>

lemma smoke_exact:
  assumes "se_has_dir se"
  shows "script_status (smoke_main run se) s =
    Some (int (length (filter Not (example_passes run se (requests s) EXAMPLE_SCRIPTS))))"
  using count_failures_run [of run se EXAMPLE_SCRIPTS 0 s] assms
  by (auto simp: script_status_def smoke_main_def prog_defs print_out_def)

end
