(* ===== verification/Spec2Isabelle.thy ===== *)
theory Spec2Isabelle
  imports Settings Events Lifecycle Runtime_Utils Await_Loops Identifiers Dispatcher_Accounting
    Dispatcher_Burst
    Udp_Sender Client_Safety Client_Deferred_Stop Client_Behaviour Server_Safety
    Server_Deferred_Stop Server_Start Receiver_Behaviour Factory Framing Testing_Support
    Codeql_Gate Dependency_Gate Sha_Pins Release_Provenance Semantic_Shard Smoke_Scripts
begin

text \<open>
  Verification development for aionetx, an asyncio library of managed TCP and UDP transports
  that report everything through one event dispatcher (\<^verbatim>\<open>src/src/aionetx\<close>).

  \<^bold>\<open>The program.\<close>  A transport (client, server, datagram receiver) is configured by an immutable
  settings dataclass, owns an \<open>AsyncioEventDispatcher\<close>, and publishes lifecycle transitions and
  connection events through it to a user-supplied \<open>on_event\<close>.  Delivery is INLINE (in the
  emitting task) or BACKGROUND (a bounded queue and a worker task); failures of the handler are
  treated by a policy.  Connections and heartbeat senders are owned by the transports and report
  through the transport's dispatcher.

  \<^bold>\<open>Modelling.\<close>  Synchronous code is a function; a coroutine is a \<open>prog\<close> (theory Prelude), a
  function of the state that returns None when it never ends, and otherwise the exception or the
  value it ends with and the state it leaves.  Each await is an application of an environment
  function, which stands for everything that can happen meanwhile: other tasks, user handlers,
  the operating system, cancellation.  A theorem over an arbitrary environment that keeps an
  invariant therefore covers every interleaving at await granularity, the only one asyncio has.
  Locks whose holders never suspend are not await points; the server's state lock, held over an
  await by \<open>start\<close>, is a field.  Tasks, futures, dispatchers and
  callbacks are numbered; the messages of exceptions are reduced to a field or a fixed text;
  floats are exact rationals, but the conversion of an int by \<open>float\<close> is modelled with its
  rounding and overflow; log output, its rate-limited warnings and \<open>__repr__\<close> are left out.

  \<^bold>\<open>Theories.\<close>
  \<^item> Prelude: exceptions, the coroutine combinators with their proof rules (\<open>keeps\<close> for
    invariants, \<open>raises\<close> for exceptions, \<open>wp\<close> for weakest preconditions), decimal text, lists.
  \<^item> Validation, Settings (\<^verbatim>\<open>api/_validation.py\<close>, \<^verbatim>\<open>api/*settings*.py\<close>, \<^verbatim>\<open>api/tcp_*.py\<close>,
    \<^verbatim>\<open>api/udp.py\<close>, \<^verbatim>\<open>api/heartbeat.py\<close>): every validator on a datatype of Python values; the
    lemmas say exactly which values pass.
  \<^item> Events (\<^verbatim>\<open>api/*events.py\<close>, \<^verbatim>\<open>api/_event_registry.py\<close>, \<^verbatim>\<open>api/typed_event_router.py\<close>,
    \<^verbatim>\<open>testing/__init__.py\<close>): the event types and the three consumers the library ships.
  \<^item> Lifecycle (\<^verbatim>\<open>lifecycle_internal.py\<close>): legal transitions, the publisher, and the interface
    \<open>lifecycle_host\<close> by which it reaches its component.
  \<^item> Runtime\_Utils, Await\_Loops, Identifiers (\<^verbatim>\<open>runtime_utils.py\<close>, \<^verbatim>\<open>identifier_utils.py\<close>):
    rate limiter, backoff, owner-loop guard, cancellation-preserving waits, identifiers.
  \<^item> Dispatcher\_State, Dispatcher, Dispatcher\_Invariants, Dispatcher\_Policy,
    Dispatcher\_System (\<^verbatim>\<open>event_dispatcher.py\<close> and its two helper modules): the object, its
    operations as coroutines, an interface of invariants (\<open>disp_invariant\<close>) with its
    interpretations, the failure policies, and an interleaving system of producers, worker and
    stop with the queue and barrier theorems.  Dispatcher\_Accounting proves on that system that
    the runtime statistics account for every event, Dispatcher\_Burst what each backpressure
    policy keeps of a burst.
  \<^item> Component\_Base: what a transport that extends the dispatcher's record may rely on.
  \<^item> Udp\_Sender, Heartbeat (\<^verbatim>\<open>asyncio_udp_sender.py\<close>, \<^verbatim>\<open>asyncio_heartbeat_sender.py\<close>).
  \<^item> Connection, Connection\_Invariants, Connection\_Behaviour (\<^verbatim>\<open>asyncio_tcp_connection.py\<close>,
    \<^verbatim>\<open>_tcp_connection_helpers.py\<close>): the TCP connection, an interface of the updates it makes
    (\<open>connection_invariant\<close>), the close protocol, and what the outside sees.
  \<^item> Transport\_Base: what the client, the server and the receivers share: the cancellation-preserving waits on
    the task table (a refinement of Await\_Loops), the provenance of a stop, deferred waiters.
  \<^item> Client\_State, Supervision, Client (\<^verbatim>\<open>asyncio_tcp_client.py\<close>, \<^verbatim>\<open>_tcp_client_*.py\<close>,
    \<^verbatim>\<open>tcp_client_supervision.py\<close>): the TCP client, its supervisor task, start and stop.
    Client\_Safety proves the invariant of its lifecycle fields over every history of calls and
    tasks (an interface \<open>client_invariant\<close> that extends \<open>connection_invariant\<close>), Client\_Stop that
    a stop converges whatever fails, Client\_Deferred\_Stop that a stop which a handler requests
    is handed to a task that completes it, Client\_Behaviour reconnection, failing fast and
    waiting for a connection.
  \<^item> Server\_State, Server\_Clients, Server (\<^verbatim>\<open>asyncio_tcp_server.py\<close>,
    \<^verbatim>\<open>_tcp_server_helpers.py\<close>, \<^verbatim>\<open>_tcp_server_stop_state.py\<close>): the TCP server: its state with the
    lock and the tables of connections and heartbeat senders; accepting, broadcasting and the
    close callback; the listening socket, start and stop.  Server\_Safety proves the invariant
    of the tables and the lifecycle over every history (an interface \<open>server_invariant\<close> that
    extends \<open>connection_invariant\<close>), Server\_Stop that a stop converges whatever fails,
    Server\_Deferred\_Stop the same of a stop that a handler requests and its completion task,
    Server\_Start that a start is all or nothing.

  \<^item> Receiver\_State, Receiver (\<^verbatim>\<open>_asyncio_datagram_receiver_base.py\<close>,
    \<^verbatim>\<open>_datagram_receiver_state.py\<close>, \<^verbatim>\<open>asyncio_udp_receiver.py\<close>,
    \<^verbatim>\<open>asyncio_multicast_receiver.py\<close>): the UDP and the multicast receiver, which share one state
    and differ in their settings: sockets, start, the receive loop with its polling fallback, the
    deferral of the close event, the ordinary and the deferred stop.  Receiver\_Safety proves that
    the runtime fields go with the lifecycle over every history (an interface
    \<open>receiver_invariant\<close>), Receiver\_Stop that a stop and the tasks it leaves converge, and where
    one does not, Receiver\_Behaviour what a failing socket and a failing start lead to.
  \<^item> Factory (\<^verbatim>\<open>factories/asyncio_network_factory.py\<close>): which arguments the factory accepts, and
    that its products start in their invariants.
  \<^item> Testing\_Support (\<^verbatim>\<open>testing/__init__.py\<close>): the awaitable recording handler, the polling wait.
  \<^item> Framing (\<^verbatim>\<open>examples/tcp_framing_length_prefix.py\<close>): the length-prefixed protocol on top of
    the byte stream, composed with the read loop of the connection.
  \<^item> Script\_Text, Release\_Http, Codeql\_Gate, Dependency\_Gate, Sha\_Pins, Release\_Provenance,
    Semantic\_Shard, Smoke\_Scripts (\<^verbatim>\<open>scripts/ci\<close>): the scripts that decide whether a release may go out,
    and two that install an artifact and run the examples.  A
    script is a coroutine without await points on the record \<open>script\<close> of the requests it has sent
    and the lines it has printed; the server behind it is a function of all the requests so far.
    Release\_Http holds what the two gates share, the loop over the pages of a listing, and the
    interface \<open>paged_listing\<close> by which the gates use it.  Every gate has a theorem that says
    exactly when it lets a release through, in terms of the inputs and the answers of the server.

  \<^bold>\<open>Fuel and termination.\<close>  No definition takes fuel.  Loops that may run forever are
  \<open>partial_function (option)\<close>; that they return is proved where it is claimed.  The mutual
  recursion of emit and the failure policies terminates by a rank of the event, which bounds how
  often a control event can be published for a failing handler.

  \<^bold>\<open>Not modelled.\<close>  The protocols and re-exports have no logic of their own.  The other examples,
  the benchmark and the CI scripts that exercise an installed artifact are sequences of calls
  of the library, of \<^verbatim>\<open>subprocess\<close> and of \<^verbatim>\<open>socket\<close>, with prints and assertions about wall
  clock time.  Of the framing example the JSON text and the demonstration itself are left out.
  Of the release scripts, what the standard library parses or lists is an input: JSON, TOML,
  archives, mail headers, syntax trees, arguments, file names, the replies of the network and of
  the \<^verbatim>\<open>gh\<close> command.  The lines they print are values that hold what the line shows, not its wording.
  Log output, its rate-limited warnings and \<open>__repr__\<close> are left out of the components.
\<close>

end
